(* ===== verification/Prelude.thy ===== *)
theory Prelude
  imports Main "HOL-Library.Char_ord" "HOL-Library.List_Lexorder" "HOL-Library.Sublist" "HOL-Library.Multiset"
begin

text \<open>
  Shared vocabulary of the development.  Go strings and byte slices are lists of bytes
  (\<open>string\<close>); the functions of the Go packages \<open>strings\<close>, \<open>path\<close>, \<open>slices\<close> and
  \<open>sort\<close> that the repository calls are modelled here once, for the arguments it calls them
  with.  Case mapping and white space are those of ASCII, on which Go's Unicode tables agree.
  The theory also holds the result type, the first-occurrence filter that several loops of the
  repository implement with a \<open>seen\<close> map, and the generic lemmas about them.
\<close>

section \<open>Collections of facts\<close>

named_theorems go_simps \<open>evaluation rules of the Go string functions\<close>
named_theorems result_simps \<open>rules for results of fallible operations\<close>

section \<open>Results\<close>

text \<open>A Go function that returns \<open>(T, error)\<close> returns \<open>Inl e\<close> or \<open>Inr x\<close>.\<close>

type_synonym ('e, 'a) result = "'e + 'a"

definition bindR :: "('e, 'a) result \<Rightarrow> ('a \<Rightarrow> ('e, 'b) result) \<Rightarrow> ('e, 'b) result" where
  "bindR r f = (case r of Inl e \<Rightarrow> Inl e | Inr x \<Rightarrow> f x)"

lemma bindR_simps [simp, result_simps]:
  "bindR (Inl e) f = Inl e"
  "bindR (Inr x) f = f x"
  by (simp_all add: bindR_def)

lemma bindR_Inr_iff: "bindR r f = Inr y \<longleftrightarrow> (\<exists>x. r = Inr x \<and> f x = Inr y)"
  by (cases r) auto

lemma bindR_Inl_iff: "bindR r f = Inl e \<longleftrightarrow> r = Inl e \<or> (\<exists>x. r = Inr x \<and> f x = Inl e)"
  by (cases r) auto

text \<open>A loop that maps a fallible function over a slice and stops at the first error.\<close>

fun mapR :: "('a \<Rightarrow> ('e, 'b) result) \<Rightarrow> 'a list \<Rightarrow> ('e, 'b list) result" where
  "mapR f [] = Inr []"
| "mapR f (x # xs) = bindR (f x) (\<lambda>y. bindR (mapR f xs) (\<lambda>ys. Inr (y # ys)))"

lemma mapR_Inr_iff: "mapR f xs = Inr ys \<longleftrightarrow> list_all2 (\<lambda>x y. f x = Inr y) xs ys"
proof (induction xs arbitrary: ys)
  case Nil
  then show ?case by auto
next
  case (Cons x xs)
  show ?case
    by (cases ys) (auto simp: bindR_Inr_iff Cons.IH)
qed

section \<open>Go strings\<close>

definition has_prefix :: "string \<Rightarrow> string \<Rightarrow> bool" where
  "has_prefix s p \<longleftrightarrow> take (length p) s = p"

definition has_suffix :: "string \<Rightarrow> string \<Rightarrow> bool" where
  "has_suffix s p \<longleftrightarrow> has_prefix (rev s) (rev p)"

definition trim_prefix :: "string \<Rightarrow> string \<Rightarrow> string" where
  "trim_prefix s p = (if has_prefix s p then drop (length p) s else s)"

definition trim_suffix :: "string \<Rightarrow> string \<Rightarrow> string" where
  "trim_suffix s p = (if has_suffix s p then take (length s - length p) s else s)"

lemma has_prefix_iff: "has_prefix s p \<longleftrightarrow> (\<exists>t. s = p @ t)"
  unfolding has_prefix_def by (metis append_eq_conv_conj)

lemma has_prefix_append [simp]: "has_prefix (p @ t) p"
  by (auto simp: has_prefix_iff)

lemma has_prefix_Nil [simp, go_simps]: "has_prefix s []" "has_prefix [] p \<longleftrightarrow> p = []"
  by (auto simp: has_prefix_def)

lemma has_prefix_Cons [simp, go_simps]:
  "has_prefix (x # s) (y # p) \<longleftrightarrow> x = y \<and> has_prefix s p"
  by (auto simp: has_prefix_def)

lemma trim_prefix_append [simp]: "trim_prefix (p @ t) p = t"
  by (simp add: trim_prefix_def)

text \<open>\<open>strings.Contains\<close>.\<close>

fun str_contains :: "string \<Rightarrow> string \<Rightarrow> bool" where
  "str_contains [] p \<longleftrightarrow> p = []"
| "str_contains (x # s) p \<longleftrightarrow> has_prefix (x # s) p \<or> str_contains s p"

lemma str_contains_iff: "str_contains s p \<longleftrightarrow> (\<exists>a b. s = a @ p @ b)"
proof (induction s)
  case Nil
  then show ?case by auto
next
  case (Cons x s)
  have "(\<exists>a b. x # s = a @ p @ b) \<longleftrightarrow> (\<exists>b. x # s = p @ b) \<or> (\<exists>a b. s = a @ p @ b)"
    by (metis append_Cons append_Nil list.inject list.exhaust)
  with Cons show ?case by (simp add: has_prefix_iff)
qed

text \<open>\<open>strings.Split\<close> with a one-byte separator.\<close>

fun split_char :: "char \<Rightarrow> string \<Rightarrow> string list" where
  "split_char c [] = [[]]"
| "split_char c (x # xs) =
     (if x = c then [] # split_char c xs
      else (case split_char c xs of [] \<Rightarrow> [[x]] | y # ys \<Rightarrow> (x # y) # ys))"

text \<open>\<open>strings.Join\<close>.\<close>

fun join_str :: "string \<Rightarrow> string list \<Rightarrow> string" where
  "join_str sep [] = []"
| "join_str sep [x] = x"
| "join_str sep (x # y # ys) = x @ sep @ join_str sep (y # ys)"

lemma split_char_not_Nil [simp]: "split_char c s \<noteq> []"
  by (cases s) (auto split: list.splits)

lemma split_char_parts: "y \<in> set (split_char c s) \<Longrightarrow> c \<notin> set y"
proof (induction s arbitrary: y)
  case Nil
  then show ?case by simp
next
  case (Cons x s)
  then show ?case by (auto split: if_splits list.splits)
qed

lemma join_split_char: "join_str [c] (split_char c s) = s"
proof (induction s)
  case Nil
  then show ?case by simp
next
  case (Cons x s)
  obtain y ys where yys: "split_char c s = y # ys"
    by (cases "split_char c s") auto
  with Cons show ?case by (cases ys) auto
qed

lemma split_char_no_sep: "c \<notin> set s \<Longrightarrow> split_char c s = [s]"
  by (induction s) auto

lemma split_char_append: "c \<notin> set a \<Longrightarrow> split_char c (a @ c # b) = a # split_char c b"
  by (induction a) auto

lemma split_char_join:
  "xs \<noteq> [] \<Longrightarrow> (\<forall>x \<in> set xs. c \<notin> set x) \<Longrightarrow> split_char c (join_str [c] xs) = xs"
proof (induction xs)
  case Nil
  then show ?case by simp
next
  case (Cons x xs)
  show ?case
  proof (cases xs)
    case Nil
    with Cons.prems show ?thesis by (simp add: split_char_no_sep)
  next
    case (Cons y ys)
    with Cons.prems Cons.IH show ?thesis by (simp add: split_char_append)
  qed
qed

text \<open>\<open>strings.Cut\<close> with a one-byte separator: text before, text after, found.\<close>

fun cut_char :: "char \<Rightarrow> string \<Rightarrow> string \<times> string \<times> bool" where
  "cut_char c [] = ([], [], False)"
| "cut_char c (x # xs) =
     (if x = c then ([], xs, True)
      else (case cut_char c xs of (a, b, f) \<Rightarrow> (x # a, b, f)))"

lemma cut_char_eq:
  "cut_char c s =
     (takeWhile (\<lambda>x. x \<noteq> c) s, drop (Suc (length (takeWhile (\<lambda>x. x \<noteq> c) s))) s, c \<in> set s)"
  by (induction s) simp_all

lemma takeWhile_split: "c \<notin> set a \<Longrightarrow> takeWhile (\<lambda>x. x \<noteq> c) (a @ c # b) = a"
  by (induction a) auto

lemma split_at_first: "c \<in> set s \<Longrightarrow>
  s = takeWhile (\<lambda>x. x \<noteq> c) s @ c # drop (Suc (length (takeWhile (\<lambda>x. x \<noteq> c) s))) s"
  by (induction s) auto

lemma takeWhile_no_sep: "c \<notin> set (takeWhile (\<lambda>x. x \<noteq> c) s)"
  by (auto dest: set_takeWhileD)

lemma cut_char_found: "cut_char c s = (a, b, True) \<longleftrightarrow> s = a @ c # b \<and> c \<notin> set a"
proof
  assume "cut_char c s = (a, b, True)"
  then show "s = a @ c # b \<and> c \<notin> set a"
    using split_at_first [of c s] takeWhile_no_sep [of c s] by (auto simp: cut_char_eq)
next
  assume "s = a @ c # b \<and> c \<notin> set a"
  then show "cut_char c s = (a, b, True)"
    by (simp add: cut_char_eq takeWhile_split)
qed

lemma cut_char_not_found: "cut_char c s = (a, b, False) \<longleftrightarrow> a = s \<and> b = [] \<and> c \<notin> set s"
proof (cases "c \<in> set s")
  case True
  then show ?thesis by (simp add: cut_char_eq)
next
  case False
  then have "cut_char c s = (s, [], False)"
    by (induction s) auto
  with False show ?thesis by auto
qed

text \<open>\<open>strings.CutLast\<close> with a one-byte separator.\<close>

definition cut_last :: "char \<Rightarrow> string \<Rightarrow> string \<times> string \<times> bool" where
  "cut_last c s =
     (case cut_char c (rev s) of (a, b, f) \<Rightarrow> if f then (rev b, rev a, True) else (s, [], False))"

lemma cut_last_found: "cut_last c s = (a, b, True) \<longleftrightarrow> s = a @ c # b \<and> c \<notin> set b"
proof -
  obtain p q f where pqf: "cut_char c (rev s) = (p, q, f)"
    by (cases "cut_char c (rev s)") auto
  show ?thesis
  proof (cases f)
    case True
    with pqf have s: "rev s = p @ c # q" and p: "c \<notin> set p"
      by (auto simp: cut_char_found)
    from s have s': "s = rev q @ c # rev p"
      by (metis append.assoc append_Cons append_Nil rev.simps(2) rev_append rev_rev_ident)
    have "s = a @ c # b \<and> c \<notin> set b \<longleftrightarrow> cut_char c (rev s) = (rev b, rev a, True)"
      by (auto simp: cut_char_found rev_swap)
    with pqf True s' p show ?thesis by (auto simp: cut_last_def)
  next
    case False
    with pqf have "c \<notin> set s" by (auto simp: cut_char_not_found)
    with pqf False show ?thesis by (auto simp: cut_last_def)
  qed
qed

lemma cut_last_not_found: "snd (snd (cut_last c s)) = False \<longleftrightarrow> c \<notin> set s"
proof -
  obtain p q f where pqf: "cut_char c (rev s) = (p, q, f)"
    by (cases "cut_char c (rev s)") auto
  have "f \<longleftrightarrow> c \<in> set s"
  proof (cases f)
    case True
    with pqf have "rev s = p @ c # q" by (auto simp: cut_char_found)
    then have "c \<in> set (rev s)" by simp
    with True show ?thesis by simp
  next
    case False
    with pqf show ?thesis by (auto simp: cut_char_not_found)
  qed
  with pqf show ?thesis by (auto simp: cut_last_def)
qed

text \<open>\<open>strings.SplitN(s, sep, 2)\<close> with a one-byte separator.\<close>

definition split_n2 :: "char \<Rightarrow> string \<Rightarrow> string list" where
  "split_n2 c s = (case cut_char c s of (a, b, f) \<Rightarrow> if f then [a, b] else [s])"

text \<open>ASCII white space, \<open>strings.TrimSpace\<close> and \<open>strings.Fields\<close>.\<close>

definition byte_val :: "char \<Rightarrow> nat" where
  "byte_val c = of_char c"

definition is_space :: "char \<Rightarrow> bool" where
  "is_space c \<longleftrightarrow> byte_val c = 32 \<or> (9 \<le> byte_val c \<and> byte_val c \<le> 13)"

definition trim_space :: "string \<Rightarrow> string" where
  "trim_space s = rev (dropWhile is_space (rev (dropWhile is_space s)))"

fun fields_acc :: "string \<Rightarrow> string \<Rightarrow> string list" where
  "fields_acc w [] = (if w = [] then [] else [rev w])"
| "fields_acc w (x # xs) =
     (if is_space x then (if w = [] then [] else [rev w]) @ fields_acc [] xs
      else fields_acc (x # w) xs)"

definition str_fields :: "string \<Rightarrow> string list" where
  "str_fields s = fields_acc [] s"

lemma fields_acc_nonempty: "f \<in> set (fields_acc w s) \<Longrightarrow> f \<noteq> []"
  by (induction w s rule: fields_acc.induct) (auto split: if_splits)

lemma str_fields_nonempty: "f \<in> set (str_fields s) \<Longrightarrow> f \<noteq> []"
  by (auto simp: str_fields_def dest: fields_acc_nonempty)

text \<open>Chinese texts are their UTF-8 bytes.\<close>

definition utf8 :: "nat list \<Rightarrow> string" where
  "utf8 bytes = map char_of bytes"

text \<open>ASCII case mapping and \<open>strings.EqualFold\<close>.\<close>

definition lower_char :: "char \<Rightarrow> char" where
  "lower_char c = (if 65 \<le> byte_val c \<and> byte_val c \<le> 90 then char_of (byte_val c + 32) else c)"

definition upper_char :: "char \<Rightarrow> char" where
  "upper_char c = (if 97 \<le> byte_val c \<and> byte_val c \<le> 122 then char_of (byte_val c - 32) else c)"

definition to_lower :: "string \<Rightarrow> string" where
  "to_lower s = map lower_char s"

definition to_upper :: "string \<Rightarrow> string" where
  "to_upper s = map upper_char s"

definition equal_fold :: "string \<Rightarrow> string \<Rightarrow> bool" where
  "equal_fold a b \<longleftrightarrow> to_lower a = to_lower b"

lemma byte_val_char_of: "n < 256 \<Longrightarrow> byte_val (char_of n) = n"
  by (simp add: byte_val_def)

lemma lower_char_idem [simp]: "lower_char (lower_char c) = lower_char c"
  by (auto simp: lower_char_def byte_val_char_of)

lemma upper_char_idem [simp]: "upper_char (upper_char c) = upper_char c"
  by (auto simp: upper_char_def byte_val_char_of)

lemma to_lower_idem [simp]: "to_lower (to_lower s) = to_lower s"
  by (simp add: to_lower_def)

lemma to_upper_idem [simp]: "to_upper (to_upper s) = to_upper s"
  by (simp add: to_upper_def)

lemma length_to_lower [simp]: "length (to_lower s) = length s"
  by (simp add: to_lower_def)

lemma equal_fold_refl [simp]: "equal_fold s s"
  by (simp add: equal_fold_def)

text \<open>\<open>strings.Trim(s, cutset)\<close> with a one-byte cutset, \<open>strings.ReplaceAll\<close> of one byte.\<close>

definition trim_char :: "char \<Rightarrow> string \<Rightarrow> string" where
  "trim_char c s = rev (dropWhile (\<lambda>x. x = c) (rev (dropWhile (\<lambda>x. x = c) s)))"

definition replace_char :: "char \<Rightarrow> string \<Rightarrow> string \<Rightarrow> string" where
  "replace_char c r s = concat (map (\<lambda>x. if x = c then r else [x]) s)"

section \<open>First occurrences\<close>

text \<open>
  Several loops append an item to a slice unless its key is in a \<open>seen\<close> map, then add the
  key.  They are all instances of \<open>first_by\<close>.
\<close>

fun first_by_acc :: "('a \<Rightarrow> 'k) \<Rightarrow> 'k set \<Rightarrow> 'a list \<Rightarrow> 'a list" where
  "first_by_acc key seen [] = []"
| "first_by_acc key seen (x # xs) =
     (if key x \<in> seen then first_by_acc key seen xs
      else x # first_by_acc key (insert (key x) seen) xs)"

definition first_by :: "('a \<Rightarrow> 'k) \<Rightarrow> 'a list \<Rightarrow> 'a list" where
  "first_by key xs = first_by_acc key {} xs"

lemma first_by_acc_set: "set (first_by_acc key seen xs) \<subseteq> set xs"
  by (induction key seen xs rule: first_by_acc.induct) auto

lemma first_by_acc_keys: "key ` set (first_by_acc key seen xs) = key ` set xs - seen"
  by (induction key seen xs rule: first_by_acc.induct) auto

lemma first_by_acc_distinct: "distinct (map key (first_by_acc key seen xs))"
proof (induction key seen xs rule: first_by_acc.induct)
  case (1 key seen)
  then show ?case by simp
next
  case (2 key seen x xs)
  have "key x \<notin> key ` set (first_by_acc key (insert (key x) seen) xs)"
    by (simp add: first_by_acc_keys)
  with 2 show ?case by auto
qed

lemma first_by_acc_subseq: "subseq (first_by_acc key seen xs) xs"
  by (induction key seen xs rule: first_by_acc.induct) auto

lemma first_by_set: "set (first_by key xs) \<subseteq> set xs"
  by (simp add: first_by_def first_by_acc_set)

lemma first_by_keys: "key ` set (first_by key xs) = key ` set xs"
  by (simp add: first_by_def first_by_acc_keys)

lemma first_by_distinct: "distinct (map key (first_by key xs))"
  by (simp add: first_by_def first_by_acc_distinct)

lemma first_by_subseq: "subseq (first_by key xs) xs"
  by (simp add: first_by_def first_by_acc_subseq)

lemma first_by_id_set: "set (first_by (\<lambda>x. x) xs) = set xs"
  using first_by_keys [of "\<lambda>x. x" xs] by simp

lemma first_by_acc_id: "distinct (map key xs) \<Longrightarrow> key ` set xs \<inter> seen = {} \<Longrightarrow> first_by_acc key seen xs = xs"
proof (induction xs arbitrary: seen)
  case Nil
  then show ?case by simp
next
  case (Cons x xs)
  then have "key ` set xs \<inter> insert (key x) seen = {}" by auto
  with Cons show ?case by simp
qed

lemma first_by_id: "distinct (map key xs) \<Longrightarrow> first_by key xs = xs"
  by (simp add: first_by_def first_by_acc_id)

section \<open>First match\<close>

lemma find_SomeD: "find P xs = Some x \<Longrightarrow> x \<in> set xs \<and> P x"
  by (induction xs) (auto split: if_splits)

section \<open>Association lists as Go maps with an iteration order\<close>

text \<open>
  A Go map whose iteration order matters to the code that ranges over it is a list of pairs,
  in the order one run iterates it; \<open>map_of\<close> reads it.
\<close>

lemma map_of_None_keys: "map_of xs k = None \<longleftrightarrow> k \<notin> fst ` set xs"
  by (simp add: map_of_eq_None_iff)

end
