(* ===== verification/GoNum.thy ===== *)
theory GoNum
  imports Prelude "HOL-Library.Word"
begin

text \<open>
  Numbers: decimal text (\<open>strconv.Itoa\<close>, \<open>strconv.ParseInt(s, 10, 64)\<close>,
  \<open>strconv.Atoi\<close>), the 64-bit FNV-1a hash of \<open>hash/fnv\<close>,
  \<open>hex.EncodeToString\<close>, and the facts about
  \<open>64 word\<close> arithmetic the components share.
\<close>

unbundle bit_operations_syntax

section \<open>Decimal text\<close>

definition digit_char :: "nat \<Rightarrow> char" where
  "digit_char d = char_of (48 + d)"

definition is_digit :: "char \<Rightarrow> bool" where
  "is_digit c \<longleftrightarrow> 48 \<le> byte_val c \<and> byte_val c \<le> 57"

fun dec :: "nat \<Rightarrow> string" where
  "dec n = (if n < 10 then [digit_char n] else dec (n div 10) @ [digit_char (n mod 10)])"

declare dec.simps [simp del]

definition digits_val :: "string \<Rightarrow> nat" where
  "digits_val s = foldl (\<lambda>n c. 10 * n + (byte_val c - 48)) 0 s"

lemma digit_char_val: "d < 10 \<Longrightarrow> byte_val (digit_char d) = 48 + d"
  by (simp add: digit_char_def byte_val_char_of)

lemma digit_char_digit: "d < 10 \<Longrightarrow> is_digit (digit_char d)"
  by (simp add: is_digit_def digit_char_val)

lemma dec_digits: "list_all is_digit (dec n)"
proof (induction n rule: dec.induct)
  case (1 n)
  then show ?case
    by (cases "n < 10") (simp_all add: dec.simps [of n] digit_char_digit)
qed

lemma dec_not_Nil [simp]: "dec n \<noteq> []"
  by (simp add: dec.simps [of n])

lemma digits_val_snoc: "digits_val (s @ [c]) = 10 * digits_val s + (byte_val c - 48)"
  by (simp add: digits_val_def)

lemma digits_val_dec: "digits_val (dec n) = n"
proof (induction n rule: dec.induct)
  case (1 n)
  show ?case
  proof (cases "n < 10")
    case True
    then show ?thesis by (simp add: dec.simps [of n] digits_val_def digit_char_val)
  next
    case False
    with 1 show ?thesis by (simp add: dec.simps [of n] digits_val_snoc digit_char_val)
  qed
qed

lemma dec_inj: "dec m = dec n \<longleftrightarrow> m = n"
  by (metis digits_val_dec)

lemma dec_no_char: "\<not> is_digit c \<Longrightarrow> c \<notin> set (dec n)"
  using dec_digits by (auto simp: list_all_iff)

text \<open>\<open>ParseInt(s, 10, 64)\<close>: an optional sign, digits, and the range of \<open>int64\<close>.\<close>

definition strip_sign :: "string \<Rightarrow> bool \<times> string" where
  "strip_sign s =
     (case s of [] \<Rightarrow> (False, [])
      | c # cs \<Rightarrow> if c = CHR ''-'' then (True, cs) else if c = CHR ''+'' then (False, cs) else (False, s))"

definition parse_int64 :: "string \<Rightarrow> int option" where
  "parse_int64 s =
     (case strip_sign s of (neg, ds) \<Rightarrow>
        if ds = [] \<or> \<not> list_all is_digit ds then None
        else let n = digits_val ds in
          if neg then (if n \<le> 2 ^ 63 then Some (- int n) else None)
          else (if n < 2 ^ 63 then Some (int n) else None))"

lemma strip_sign_dec: "strip_sign (dec n) = (False, dec n)"
proof -
  obtain c cs where d: "dec n = c # cs" by (cases "dec n") auto
  with dec_digits [of n] have "is_digit c" by simp
  then have "c \<noteq> CHR ''-''" "c \<noteq> CHR ''+''" by (auto simp: is_digit_def byte_val_def)
  with d show ?thesis by (simp add: strip_sign_def)
qed

lemma parse_int64_dec: "n < 2 ^ 63 \<Longrightarrow> parse_int64 (dec n) = Some (int n)"
  by (simp add: parse_int64_def strip_sign_dec dec_digits digits_val_dec)

lemma parse_int64_range: "parse_int64 s = Some k \<Longrightarrow> - (2 ^ 63) \<le> k \<and> k < 2 ^ 63"
  by (auto simp: parse_int64_def Let_def split: prod.splits if_splits)

section \<open>FNV-1a\<close>

definition fnv64a :: "string \<Rightarrow> 64 word" where
  "fnv64a s = foldl (\<lambda>h c. (h XOR of_nat (byte_val c)) * 1099511628211) 14695981039346656037 s"

section \<open>64-bit words\<close>

definition MaxInt64 :: "64 word" where
  "MaxInt64 = 0x7FFFFFFFFFFFFFFF"

lemma sint64_uint: "uint (w :: 64 word) < 2 ^ 63 \<Longrightarrow> sint w = uint w"
proof -
  assume lt: "uint w < 2 ^ 63"
  have "0 \<le> uint w" by simp
  then have "- 9223372036854775808 \<le> uint w" by linarith
  with lt show ?thesis by (simp add: sint_uint signed_take_bit_int_eq_self_iff)
qed

lemma and_MaxInt64: "uint (w AND MaxInt64) < 2 ^ 63"
proof -
  have m: "MaxInt64 = mask 63" by (simp add: MaxInt64_def mask_eq_exp_minus_1)
  have "w AND MaxInt64 = take_bit 63 w" by (simp add: m take_bit_eq_mask)
  then have "uint (w AND MaxInt64) = take_bit 63 (uint w)" by (simp add: unsigned_take_bit_eq)
  moreover have "take_bit 63 (uint w) < 2 ^ 63" by (rule take_bit_int_less_exp)
  ultimately show ?thesis by (simp only:)
qed

lemma sint_and_MaxInt64: "0 \<le> sint (w AND MaxInt64)"
  using and_MaxInt64 [of w] by (simp add: sint64_uint)

lemma or_shift_int: "0 \<le> q \<Longrightarrow> q < 2 ^ n \<Longrightarrow> push_bit n t OR q = t * 2 ^ n + (q :: int)"
proof -
  assume "0 \<le> q" "q < 2 ^ n"
  then have q: "take_bit n q = q" by (simp add: take_bit_int_eq_self)
  have "\<not> bit (push_bit n t) i \<or> \<not> bit q i" for i
    by (metis bit_push_bit_iff bit_take_bit_iff linorder_not_less q)
  then have "push_bit n t OR q = push_bit n t + q"
    by (intro disjunctive_add_eq_or [symmetric]) (auto simp: bit_eq_iff bit_and_iff)
  then show ?thesis by (simp add: push_bit_eq_mult)
qed

lemma or_shift_word:
  assumes "0 \<le> q" "q < 2 ^ n"
  shows "push_bit n (word_of_int t) OR word_of_int q = (word_of_int (t * 2 ^ n + q) :: 'a::len word)"
proof -
  have "push_bit n (word_of_int t) OR word_of_int q = (word_of_int (push_bit n t OR q) :: 'a word)"
    by (simp add: of_int_or_eq of_int_push_bit)
  with or_shift_int [OF assms] show ?thesis by simp
qed

lemma uint_word_of_int_small:
  "0 \<le> k \<Longrightarrow> k < 2 ^ 64 \<Longrightarrow> uint (word_of_int k :: 64 word) = k"
  by (simp add: uint_word_of_int_eq take_bit_int_eq_self)

section \<open>Hexadecimal text\<close>

text \<open>\<open>hex.EncodeToString\<close>.\<close>

definition hexDigit :: "nat \<Rightarrow> char" where
  "hexDigit n = ''0123456789abcdef'' ! n"

definition hexByte :: "char \<Rightarrow> string" where
  "hexByte c = [hexDigit (byte_val c div 16), hexDigit (byte_val c mod 16)]"

definition hexEncode :: "string \<Rightarrow> string" where
  "hexEncode s = concat (map hexByte s)"

lemma hexDigit_inj: "m < 16 \<Longrightarrow> n < 16 \<Longrightarrow> hexDigit m = hexDigit n \<longleftrightarrow> m = n"
  unfolding hexDigit_def by (rule nth_eq_iff_index_eq) simp_all

lemma hexDigit_not_colon: "n < 16 \<Longrightarrow> hexDigit n \<noteq> CHR '':''"
proof -
  assume "n < 16"
  then have "hexDigit n \<in> set ''0123456789abcdef''" unfolding hexDigit_def by (intro nth_mem) simp
  then show ?thesis by auto
qed

lemma byte_val_bound: "byte_val c < 256"
  by (simp add: byte_val_def)

lemma hexByte_inj: "hexByte c = hexByte d \<longleftrightarrow> c = d"
proof
  assume h: "hexByte c = hexByte d"
  have b: "byte_val c div 16 < 16" "byte_val d div 16 < 16" using byte_val_bound [of c] byte_val_bound [of d] by simp_all
  have "byte_val c div 16 = byte_val d div 16 \<and> byte_val c mod 16 = byte_val d mod 16"
    using h hexDigit_inj [OF b] hexDigit_inj [of "byte_val c mod 16" "byte_val d mod 16"] by (simp add: hexByte_def)
  then have "byte_val c = byte_val d" by (metis div_mult_mod_eq)
  then show "c = d" by (simp add: byte_val_def)
qed simp

lemma length_hexEncode: "length (hexEncode s) = 2 * length s"
  by (induction s) (simp_all add: hexEncode_def hexByte_def)

lemma hexEncode_inj: "hexEncode s = hexEncode t \<longleftrightarrow> s = t"
proof
  show "hexEncode s = hexEncode t \<Longrightarrow> s = t"
  proof (induction s arbitrary: t)
    case Nil
    then show ?case by (cases t) (simp_all add: hexEncode_def hexByte_def)
  next
    case (Cons c s)
    then obtain d u where t: "t = d # u" by (cases t) (auto simp: hexEncode_def hexByte_def)
    have "hexByte c = hexByte d \<and> hexEncode s = hexEncode u"
      using Cons.prems by (simp add: t hexEncode_def append_eq_append_conv hexByte_def)
    then show ?case using Cons.IH t by (simp add: hexByte_inj)
  qed
qed simp

lemma hexEncode_no_colon: "CHR '':'' \<notin> set (hexEncode s)"
proof -
  have "CHR '':'' \<notin> set (hexByte c)" for c
  proof -
    have "byte_val c div 16 < 16" "byte_val c mod 16 < 16" using byte_val_bound [of c] by simp_all
    then show ?thesis using hexDigit_not_colon by (metis hexByte_def insertE list.set(1,2) empty_iff)
  qed
  then show ?thesis by (auto simp: hexEncode_def)
qed

end
