(* ===== verification/Scheduler.thy ===== *)
theory Scheduler
  imports GoNum
begin

text \<open>
  Model of the job scheduler (\<open>job/scheduler.go\<close>, \<open>job/registry.go\<close>, \<open>job/job.go\<close>,
  \<open>job/execution.go\<close>, \<open>job/execution_lock.go\<close>, \<open>job/server.go\<close>) and of the records of
  \<open>data/job.go\<close>.  The cron server and the locker of kratos-kit, the host's \<open>JobStore\<close> and
  \<open>encoding/json\<close> are parameters; every method runs under \<open>scheduleMu\<close>, so it is one step.
\<close>

section \<open>Data\<close>

record jobRecord =
  jr_id :: int
  jr_invokeTarget :: string
  jr_args :: string
  jr_cronExpression :: string
  jr_status :: int
  jr_entryID :: int

record jobLogRecord =
  jl_id :: int
  jl_jobID :: int
  jl_input :: string
  jl_output :: string
  jl_error :: string
  jl_status :: int
  jl_processTime :: int
  jl_executeTime :: int

definition STATUS_STATUS_ENABLE :: int where "STATUS_STATUS_ENABLE = 1"
definition BASE_JOB_LOG_STATUS_SUCCESS :: int where "BASE_JOB_LOG_STATUS_SUCCESS = 1"
definition BASE_JOB_LOG_STATUS_FAIL :: int where "BASE_JOB_LOG_STATUS_FAIL = 2"

datatype jobErr =
  JobMissing | TargetMissing | ArgsInvalid string | StoreErr string | CronErr string
| LockConflict | LockErr string | TaskErr string | TaskPanicked string

text \<open>The conversion \<open>int32(x)\<close>.\<close>

definition to_int32 :: "int \<Rightarrow> int" where
  "to_int32 k = (k + 2 ^ 31) mod 2 ^ 32 - 2 ^ 31"

lemma to_int32_id: "0 < k \<Longrightarrow> k < 2 ^ 31 \<Longrightarrow> to_int32 k = k"
  by (simp add: to_int32_def)

text \<open>
  The closure registered for a job: the specification, the job, the parsed arguments, the
  executor and the execution context.  \<open>'x\<close> is the type of executors, \<open>'k\<close> of contexts.
\<close>

record ('x, 'k) timerJob =
  tj_spec :: string
  tj_jobID :: int
  tj_args :: "string \<Rightarrow> string option"
  tj_exec :: 'x
  tj_context :: 'k

record 's jobStore =
  js_list :: "'s \<Rightarrow> (string, jobRecord list) result"
  js_findByID :: "int \<Rightarrow> 's \<Rightarrow> (string, jobRecord) result"
  js_updateEntryID :: "int \<Rightarrow> int \<Rightarrow> 's \<Rightarrow> string option \<times> 's"

record ('j, 'c) cronServer =
  cs_startTimer :: "'j \<Rightarrow> 'c \<Rightarrow> (string, int) result \<times> 'c"
  cs_stopTimer :: "int \<Rightarrow> 'c \<Rightarrow> 'c"
  cs_removeAll :: "'c \<Rightarrow> 'c"
  cs_start :: "'c \<Rightarrow> string option \<times> 'c"
  cs_stop :: "'c \<Rightarrow> string option \<times> 'c"

text \<open>What a scheduler is built from: the store, the cron server, the registry (the executor
  registered under a name may be nil) and the decoder of the argument JSON.\<close>

record ('s, 'x, 'k, 'c) schedEnv =
  se_store :: "'s jobStore"
  se_cron :: "(('x, 'k) timerJob, 'c) cronServer"
  se_lookup :: "string \<Rightarrow> 'x option option"
  se_decode :: "string \<Rightarrow> (string, (string \<times> string) option list) result"

record ('s, 'c, 'k) sched =
  sc_store :: 's
  sc_cron :: 'c
  sc_runContext :: "'k option"

section \<open>scheduler.go\<close>

text \<open>\<open>Registry.Lookup\<close>: a nil registry or one without a server knows nothing.\<close>

definition registryLookup :: "(string \<Rightarrow> 'x option option) option option \<Rightarrow> string \<Rightarrow> 'x option option" where
  "registryLookup r name = (case r of Some (Some tasks) \<Rightarrow> tasks name | _ \<Rightarrow> None)"

definition lookupTaskExec :: "('s, 'x, 'k, 'c) schedEnv \<Rightarrow> string \<Rightarrow> (jobErr, 'x) result" where
  "lookupTaskExec E target =
     (if target = [] then Inl TargetMissing
      else case se_lookup E target of
        Some (Some x) \<Rightarrow> Inr x
      | _ \<Rightarrow> Inl TargetMissing)"

definition parseJobArgs ::
    "(string \<Rightarrow> (string, (string \<times> string) option list) result) \<Rightarrow> string
       \<Rightarrow> (jobErr, string \<Rightarrow> string option) result" where
  "parseJobArgs decode rawArgs =
     (if rawArgs = [] then Inr Map.empty
      else case decode rawArgs of
        Inl e \<Rightarrow> Inl (ArgsInvalid e)
      | Inr args \<Rightarrow> Inr (foldl (\<lambda>m item. case item of
            None \<Rightarrow> m
          | Some (k, v) \<Rightarrow> if k = [] then m else m(k \<mapsto> v)) Map.empty args))"

definition stopJob ::
    "('s, 'x, 'k, 'c) schedEnv \<Rightarrow> jobRecord \<Rightarrow> ('s, 'c, 'k) sched
       \<Rightarrow> jobErr option \<times> jobRecord \<times> ('s, 'c, 'k) sched" where
  "stopJob E b w =
     (case js_findByID (se_store E) (jr_id b) (sc_store w) of
        Inl e \<Rightarrow> (Some (StoreErr e), b, w)
      | Inr cur \<Rightarrow>
          let entryID = (if 0 < jr_entryID cur then jr_entryID cur else jr_entryID b) in
          (case js_updateEntryID (se_store E) (jr_id b) 0 (sc_store w) of
             (Some e, s) \<Rightarrow> (Some (StoreErr e), b, w\<lparr>sc_store := s\<rparr>)
           | (None, s) \<Rightarrow>
               (None, b\<lparr>jr_entryID := 0\<rparr>,
                w\<lparr>sc_store := s,
                  sc_cron := (if 0 < entryID then cs_stopTimer (se_cron E) entryID (sc_cron w)
                              else sc_cron w)\<rparr>)))"

definition timerFor :: "jobRecord \<Rightarrow> (string \<Rightarrow> string option) \<Rightarrow> 'x \<Rightarrow> 'k \<Rightarrow> ('x, 'k) timerJob" where
  "timerFor b args x k = \<lparr>tj_spec = jr_cronExpression b, tj_jobID = jr_id b, tj_args = args,
     tj_exec = x, tj_context = k\<rparr>"

definition startJob ::
    "('s, 'x, 'k, 'c) schedEnv \<Rightarrow> 'k \<Rightarrow> jobRecord \<Rightarrow> ('s, 'c, 'k) sched
       \<Rightarrow> jobErr option \<times> jobRecord \<times> ('s, 'c, 'k) sched" where
  "startJob E ctx b w =
     (case lookupTaskExec E (jr_invokeTarget b) of
        Inl e \<Rightarrow> (Some e, b, w)
      | Inr x \<Rightarrow> (case parseJobArgs (se_decode E) (jr_args b) of
          Inl e \<Rightarrow> (Some e, b, w)
        | Inr args \<Rightarrow> (case js_findByID (se_store E) (jr_id b) (sc_store w) of
            Inl e \<Rightarrow> (Some (StoreErr e), b, w)
          | Inr cur \<Rightarrow>
              let old = (if 0 < jr_entryID cur then jr_entryID cur else jr_entryID b);
                  k = (case sc_runContext w of None \<Rightarrow> ctx | Some r \<Rightarrow> r)
              in (case cs_startTimer (se_cron E) (timerFor b args x k) (sc_cron w) of
                    (Inl e, c) \<Rightarrow> (Some (CronErr e), b, w\<lparr>sc_cron := c\<rparr>)
                  | (Inr entryID, c) \<Rightarrow>
                      (case js_updateEntryID (se_store E) (jr_id b) (to_int32 entryID) (sc_store w) of
                         (Some e, s) \<Rightarrow>
                           (Some (StoreErr e), b,
                            w\<lparr>sc_store := s, sc_cron := cs_stopTimer (se_cron E) entryID c\<rparr>)
                       | (None, s) \<Rightarrow>
                           (None, b\<lparr>jr_entryID := to_int32 entryID\<rparr>,
                            w\<lparr>sc_store := s,
                              sc_cron := (if 0 < old \<and> old \<noteq> to_int32 entryID
                                          then cs_stopTimer (se_cron E) old c else c)\<rparr>))))))"

text \<open>The nil checks of \<open>StartJob\<close> and \<open>StopJob\<close>.\<close>

definition StartJob ::
    "('s, 'x, 'k, 'c) schedEnv \<Rightarrow> 'k \<Rightarrow> jobRecord option \<Rightarrow> ('s, 'c, 'k) sched
       \<Rightarrow> jobErr option \<times> jobRecord option \<times> ('s, 'c, 'k) sched" where
  "StartJob E ctx job w =
     (case job of
        None \<Rightarrow> (Some JobMissing, None, w)
      | Some b \<Rightarrow> (case startJob E ctx b w of (r, b', w') \<Rightarrow> (r, Some b', w')))"

definition StopJob ::
    "('s, 'x, 'k, 'c) schedEnv \<Rightarrow> jobRecord option \<Rightarrow> ('s, 'c, 'k) sched
       \<Rightarrow> jobErr option \<times> jobRecord option \<times> ('s, 'c, 'k) sched" where
  "StopJob E job w =
     (case job of
        None \<Rightarrow> (Some JobMissing, None, w)
      | Some b \<Rightarrow> (case stopJob E b w of (r, b', w') \<Rightarrow> (r, Some b', w')))"

text \<open>The rollback loop of \<open>reloadJobs\<close> stops at the first failure.\<close>

fun rollbackJobs ::
    "('s, 'x, 'k, 'c) schedEnv \<Rightarrow> jobRecord list \<Rightarrow> ('s, 'c, 'k) sched \<Rightarrow> ('s, 'c, 'k) sched" where
  "rollbackJobs E [] w = w"
| "rollbackJobs E (j # js) w =
     (case stopJob E j w of
        (Some e, j', w') \<Rightarrow> w'
      | (None, j', w') \<Rightarrow> rollbackJobs E js w')"

fun reloadLoop ::
    "('s, 'x, 'k, 'c) schedEnv \<Rightarrow> 'k \<Rightarrow> jobRecord list \<Rightarrow> jobRecord list \<Rightarrow> ('s, 'c, 'k) sched
       \<Rightarrow> jobErr option \<times> ('s, 'c, 'k) sched" where
  "reloadLoop E ctx started [] w = (None, w)"
| "reloadLoop E ctx started (item # items) w =
     (case stopJob E item w of
        (Some e, item', w1) \<Rightarrow> (Some e, w1)
      | (None, item', w1) \<Rightarrow>
          if jr_status item' \<noteq> STATUS_STATUS_ENABLE then reloadLoop E ctx started items w1
          else (case startJob E ctx item' w1 of
              (Some e, item'', w2) \<Rightarrow> (Some e, rollbackJobs E (rev started) w2)
            | (None, item'', w2) \<Rightarrow> reloadLoop E ctx (started @ [item'']) items w2))"

definition Reload ::
    "('s, 'x, 'k, 'c) schedEnv \<Rightarrow> 'k \<Rightarrow> ('s, 'c, 'k) sched \<Rightarrow> jobErr option \<times> ('s, 'c, 'k) sched" where
  "Reload E ctx w =
     (let w = w\<lparr>sc_runContext := Some ctx\<rparr> in
      case js_list (se_store E) (sc_store w) of
        Inl e \<Rightarrow> (Some (StoreErr e), w)
      | Inr items \<Rightarrow> reloadLoop E ctx [] items w)"


section \<open>job.go\<close>

definition jobStart ::
    "('s, 'x, 'k, 'c) schedEnv \<Rightarrow> 'k \<Rightarrow> int \<Rightarrow> string \<Rightarrow> string \<Rightarrow> string \<Rightarrow> int \<Rightarrow> ('s, 'c, 'k) sched
       \<Rightarrow> (jobErr, int) result \<times> ('s, 'c, 'k) sched" where
  "jobStart E ctx jobID cronExpression invokeTarget args entryID w =
     (case startJob E ctx \<lparr>jr_id = jobID, jr_invokeTarget = invokeTarget, jr_args = args,
             jr_cronExpression = cronExpression, jr_status = 0, jr_entryID = entryID\<rparr> w of
        (Some e, b, w') \<Rightarrow> (Inl e, w')
      | (None, b, w') \<Rightarrow> (Inr (jr_entryID b), w'))"

definition jobStop ::
    "('s, 'x, 'k, 'c) schedEnv \<Rightarrow> int \<Rightarrow> int \<Rightarrow> ('s, 'c, 'k) sched
       \<Rightarrow> jobErr option \<times> ('s, 'c, 'k) sched" where
  "jobStop E jobID entryID w =
     (case stopJob E \<lparr>jr_id = jobID, jr_invokeTarget = [], jr_args = [], jr_cronExpression = [],
             jr_status = 0, jr_entryID = entryID\<rparr> w of (r, b, w') \<Rightarrow> (r, w'))"

section \<open>execution.go\<close>

text \<open>What a call of an executor does: output lines and maybe an error, or a panic, after
  which the result slice is still the empty one.\<close>

datatype taskOutcome = TaskReturns "string list" "string option" | TaskPanics string

definition panicPrefix :: string where
  "panicPrefix = utf8 [0xE4,0xBB,0xBB, 0xE5,0x8A,0xA1, 0xE6,0x89,0xA7, 0xE8,0xA1,0x8C, 0xE5,0xBC,0x82, 0xE5,0xB8,0xB8] @ '': ''"

definition jobErrText :: "jobErr \<Rightarrow> string" where
  "jobErrText e = (case e of TaskErr m \<Rightarrow> m | TaskPanicked m \<Rightarrow> panicPrefix @ m | _ \<Rightarrow> [])"

definition LogFailureWithInput ::
    "(jobErr \<Rightarrow> string) \<Rightarrow> int \<Rightarrow> int \<Rightarrow> int \<Rightarrow> string \<Rightarrow> jobErr option \<Rightarrow> jobLogRecord option" where
  "LogFailureWithInput text now elapsed jobID input err =
     (case err of
        None \<Rightarrow> None
      | Some e \<Rightarrow> Some \<lparr>jl_id = 0, jl_jobID = jobID, jl_input = input, jl_output = [],
          jl_error = text e, jl_status = BASE_JOB_LOG_STATUS_FAIL,
          jl_processTime = to_int32 elapsed, jl_executeTime = now\<rparr>)"

section \<open>execution_lock.go\<close>

definition executionLockKey :: "int \<Rightarrow> string" where
  "executionLockKey jobID =
     ''kratos:job:'' @ (if jobID < 0 then ''-'' @ dec (nat (- jobID)) else dec (nat jobID))"

text \<open>What the locker of kratos-kit answers.\<close>

datatype 'l lockResult = Lease 'l | NotObtained | LockFailure string

datatype lockMode = ModeMemory | ModeRedis

record 'l lockManager =
  lm_mode :: lockMode
  lm_acquire :: "string \<Rightarrow> int \<Rightarrow> 'l lockResult"
  lm_close :: "string option"

type_synonym 'l executionLocker = "'l lockManager option"

definition executionLockTTL :: int where "executionLockTTL = 5 * 60 * 1000000000"

definition NewExecutionLocker ::
  "('cfg option \<Rightarrow> (string, 'l lockManager) result) \<Rightarrow> 'cfg option \<Rightarrow> (string, 'l executionLocker) result" where
  "NewExecutionLocker newLocker cfg = (case newLocker cfg of Inl e \<Rightarrow> Inl e | Inr manager \<Rightarrow> Inr (Some manager))"

text \<open>The locker in memory; a failure of the library is a panic, here \<open>Inl\<close>.\<close>

definition NewMemoryExecutionLocker :: "('cfg option \<Rightarrow> (string, 'l lockManager) result) \<Rightarrow> (string, 'l executionLocker) result" where
  "NewMemoryExecutionLocker newLocker = (case newLocker None of Inl e \<Rightarrow> Inl e | Inr manager \<Rightarrow> Inr (Some manager))"

definition lockerMode :: "'l executionLocker option \<Rightarrow> lockMode" where
  "lockerMode l = (case l of Some (Some m) \<Rightarrow> lm_mode m | _ \<Rightarrow> ModeMemory)"

definition lockerMissing :: string where
  "lockerMissing = utf8 [0xE4,0xBB,0xBB, 0xE5,0x8A,0xA1, 0xE6,0x89,0xA7, 0xE8,0xA1,0x8C, 0xE9,0x94,0x81,
     0xE6,0x9C,0xAA, 0xE5,0x88,0x9D, 0xE5,0xA7,0x8B, 0xE5,0x8C,0x96]"

definition lockerAcquire :: "'l executionLocker option \<Rightarrow> string \<Rightarrow> 'l lockResult" where
  "lockerAcquire l key = (case l of
      Some (Some m) \<Rightarrow> lm_acquire m key executionLockTTL
    | _ \<Rightarrow> LockFailure lockerMissing)"

text \<open>The managers a call closes; the error of the library is ignored.\<close>

definition lockerClose :: "'l executionLocker option \<Rightarrow> 'l lockManager list" where
  "lockerClose l = (case l of Some (Some m) \<Rightarrow> [m] | _ \<Rightarrow> [])"

section \<open>Running a job\<close>

text \<open>How a Go function ends, the observable actions of one execution in order, and a function with a deferred
  call: the call runs however the body ended, sees it, and may recover.  A task runs in the context of its
  lease.\<close>

datatype goExit = GoReturns "jobErr option" | GoPanics string

datatype 'l jobEffect =
  Acquired string 'l | Ran 'l "string \<Rightarrow> string option" | Logged jobLogRecord | Released 'l

type_synonym 'l jobRun = "goExit \<times> 'l jobEffect list"

definition withDefer :: "'l jobRun \<Rightarrow> (goExit \<Rightarrow> 'l jobRun) \<Rightarrow> 'l jobRun" where
  "withDefer body deferred = (case body of (exit, before) \<Rightarrow> (case deferred exit of (exit', later) \<Rightarrow> (exit', before @ later)))"

text \<open>The call of the executor: it ends, and leaves its lines in \<open>ret\<close> unless it panicked.\<close>

definition execTask :: "'l \<Rightarrow> (string \<Rightarrow> string option) \<Rightarrow> taskOutcome \<Rightarrow> string list \<times> 'l jobRun" where
  "execTask lease args outcome = (case outcome of
      TaskReturns out e \<Rightarrow> (out, GoReturns (map_option TaskErr e), [Ran lease args])
    | TaskPanics m \<Rightarrow> ([], GoPanics m, [Ran lease args]))"

definition Execute ::
    "((string \<Rightarrow> string option) \<Rightarrow> string) \<Rightarrow> int \<Rightarrow> int \<Rightarrow> int \<Rightarrow> 'l \<Rightarrow> (string \<Rightarrow> string option)
       \<Rightarrow> taskOutcome \<Rightarrow> 'l jobRun" where
  "Execute toJson now elapsed jobID lease args outcome =
     (case execTask lease args outcome of (ret, body) \<Rightarrow> withDefer body (\<lambda>exit.
        let err = (case exit of GoPanics m \<Rightarrow> Some (TaskPanicked m) | GoReturns e \<Rightarrow> e) in
        (GoReturns err,
         [Logged \<lparr>jl_id = 0, jl_jobID = jobID, jl_input = toJson args, jl_output = join_str ''<br/>'' ret,
            jl_error = (case err of None \<Rightarrow> [] | Some e \<Rightarrow> jobErrText e),
            jl_status = (if err = None then BASE_JOB_LOG_STATUS_SUCCESS else BASE_JOB_LOG_STATUS_FAIL),
            jl_processTime = to_int32 elapsed, jl_executeTime = now\<rparr>])))"

text \<open>A scheduler without a lock takes one in memory; \<open>memory\<close> is what \<open>NewMemoryExecutionLocker\<close> returns,
  and its \<open>Inl\<close> a panic.\<close>

definition executionLockerOf :: "(string, 'l executionLocker) result \<Rightarrow> 'l executionLocker option \<Rightarrow> (string, 'l executionLocker) result" where
  "executionLockerOf memory locker = (case locker of Some l \<Rightarrow> Inr l | None \<Rightarrow> memory)"

definition executeJob ::
    "(string, 'l executionLocker) result \<Rightarrow> 'l executionLocker option \<Rightarrow> ((string \<Rightarrow> string option) \<Rightarrow> string) \<Rightarrow> int \<Rightarrow> int
       \<Rightarrow> int \<Rightarrow> (string \<Rightarrow> string option) \<Rightarrow> ('l \<Rightarrow> (string \<Rightarrow> string option) \<Rightarrow> taskOutcome) \<Rightarrow> bool \<Rightarrow> 'l jobRun" where
  "executeJob memory locker toJson now elapsed jobID args exec scheduled =
     (case executionLockerOf memory locker of
        Inl e \<Rightarrow> (GoPanics e, [])
      | Inr l \<Rightarrow> (case lockerAcquire (Some l) (executionLockKey jobID) of
          NotObtained \<Rightarrow> (GoReturns (if scheduled then None else Some LockConflict), [])
        | LockFailure e \<Rightarrow> (GoReturns (Some (LockErr e)), [])
        | Lease lease \<Rightarrow>
            (case withDefer (Execute toJson now elapsed jobID lease args (exec lease args)) (\<lambda>exit. (exit, [Released lease])) of
               (exit, effects) \<Rightarrow> (exit, Acquired (executionLockKey jobID) lease # effects))))"

text \<open>The closure that \<open>startJob\<close> registers, when its timer fires: an error is only logged.\<close>

definition timerFires ::
    "(string, 'l executionLocker) result \<Rightarrow> 'l executionLocker option \<Rightarrow> ((string \<Rightarrow> string option) \<Rightarrow> string) \<Rightarrow> int \<Rightarrow> int
       \<Rightarrow> ('x \<Rightarrow> 'l \<Rightarrow> (string \<Rightarrow> string option) \<Rightarrow> taskOutcome) \<Rightarrow> ('x, 'k) timerJob \<Rightarrow> 'l jobRun" where
  "timerFires memory locker toJson now elapsed exec t =
     (case executeJob memory locker toJson now elapsed (tj_jobID t) (tj_args t) (exec (tj_exec t)) True of
        (GoReturns _, effects) \<Rightarrow> (GoReturns None, effects)
      | (GoPanics m, effects) \<Rightarrow> (GoPanics m, effects))"

definition RunJob ::
    "('s, 'x, 'k, 'c) schedEnv \<Rightarrow> (jobErr \<Rightarrow> string) \<Rightarrow> (string, 'l executionLocker) result \<Rightarrow> 'l executionLocker option
       \<Rightarrow> ((string \<Rightarrow> string option) \<Rightarrow> string) \<Rightarrow> int \<Rightarrow> int \<Rightarrow> ('x \<Rightarrow> 'l \<Rightarrow> (string \<Rightarrow> string option) \<Rightarrow> taskOutcome)
       \<Rightarrow> jobRecord option \<Rightarrow> 'l jobRun" where
  "RunJob E text memory locker toJson now elapsed exec job =
     (case job of
        None \<Rightarrow> (GoReturns (Some JobMissing), [])
      | Some b \<Rightarrow>
          let failed = (\<lambda>e. (GoReturns (Some e),
                (case LogFailureWithInput text now elapsed (jr_id b) (jr_args b) (Some e) of
                   None \<Rightarrow> [] | Some r \<Rightarrow> [Logged r])))
          in (case lookupTaskExec E (jr_invokeTarget b) of
                Inl e \<Rightarrow> failed e
              | Inr x \<Rightarrow> (case parseJobArgs (se_decode E) (jr_args b) of
                  Inl e \<Rightarrow> failed e
                | Inr args \<Rightarrow> executeJob memory locker toJson now elapsed (jr_id b) args (exec x) False)))"

section \<open>server.go\<close>





section \<open>The contracts of the store and of the cron server\<close>

text \<open>\<open>JobStore\<close> (documented in \<open>data/job.go\<close>), over the rows by job id.\<close>

definition jobStoreLaws :: "'s jobStore \<Rightarrow> ('s \<Rightarrow> int \<Rightarrow> jobRecord option) \<Rightarrow> bool" where
  "jobStoreLaws js rows \<longleftrightarrow>
     (\<forall>k s r. js_findByID js k s = Inr r \<longrightarrow> rows s k = Some r \<and> jr_id r = k)
     \<and> (\<forall>s l. js_list js s = Inr l \<longrightarrow> distinct (map jr_id l) \<and> (\<forall>r \<in> set l. rows s (jr_id r) = Some r))
     \<and> (\<forall>k e s s'. js_updateEntryID js k e s = (None, s') \<longrightarrow>
          rows s' = (rows s)(k := map_option (\<lambda>r. r\<lparr>jr_entryID := e\<rparr>) (rows s k)))
     \<and> (\<forall>k e s x s'. js_updateEntryID js k e s = (Some x, s') \<longrightarrow> rows s' = rows s)"

text \<open>The cron server: a timer gets a fresh positive entry id, stopping removes one entry.\<close>

definition cronLaws :: "('j, 'c) cronServer \<Rightarrow> ('c \<Rightarrow> int \<Rightarrow> 'j option) \<Rightarrow> bool" where
  "cronLaws cs entries \<longleftrightarrow>
     (\<forall>j c i c'. cs_startTimer cs j c = (Inr i, c') \<longrightarrow>
        0 < i \<and> i < 2 ^ 31 \<and> entries c i = None \<and> entries c' = (entries c)(i \<mapsto> j))
     \<and> (\<forall>j c e c'. cs_startTimer cs j c = (Inl e, c') \<longrightarrow> entries c' = entries c)
     \<and> (\<forall>i c. entries (cs_stopTimer cs i c) = (entries c)(i := None))
     \<and> (\<forall>c. entries (cs_removeAll cs c) = Map.empty)
     \<and> (\<forall>c r c'. cs_start cs c = (r, c') \<longrightarrow> entries c' = entries c)
     \<and> (\<forall>c r c'. cs_stop cs c = (r, c') \<longrightarrow> entries c' = entries c)"

lemma jobStoreLawsD:
  assumes "jobStoreLaws js rows"
  shows "js_findByID js k s = Inr r \<Longrightarrow> rows s k = Some r \<and> jr_id r = k"
    and "js_list js s = Inr l \<Longrightarrow> distinct (map jr_id l) \<and> (\<forall>r \<in> set l. rows s (jr_id r) = Some r)"
    and "js_updateEntryID js k e s = (None, s') \<Longrightarrow>
      rows s' = (rows s)(k := map_option (\<lambda>r. r\<lparr>jr_entryID := e\<rparr>) (rows s k))"
    and "js_updateEntryID js k e s = (Some x, s') \<Longrightarrow> rows s' = rows s"
  using assms unfolding jobStoreLaws_def by meson+

lemma cronLawsD:
  assumes "cronLaws cs entries"
  shows "cs_startTimer cs j c = (Inr i, c') \<Longrightarrow>
      0 < i \<and> i < 2 ^ 31 \<and> entries c i = None \<and> entries c' = (entries c)(i \<mapsto> j)"
    and "cs_startTimer cs j c = (Inl e, c') \<Longrightarrow> entries c' = entries c"
    and "entries (cs_stopTimer cs i c) = (entries c)(i := None)"
    and "entries (cs_removeAll cs c) = Map.empty"
    and "cs_start cs c = (r, c') \<Longrightarrow> entries c' = entries c"
    and "cs_stop cs c = (r, c') \<Longrightarrow> entries c' = entries c"
  using assms unfolding cronLaws_def by meson+

text \<open>The entry id a job is known under: the persisted one, or the caller's.\<close>

definition knownEntry :: "(int \<Rightarrow> jobRecord option) \<Rightarrow> jobRecord \<Rightarrow> int" where
  "knownEntry rs b =
     (case rs (jr_id b) of
        Some cur \<Rightarrow> if 0 < jr_entryID cur then jr_entryID cur else jr_entryID b
      | None \<Rightarrow> jr_entryID b)"

definition setEntry :: "int \<Rightarrow> int \<Rightarrow> (int \<Rightarrow> jobRecord option) \<Rightarrow> int \<Rightarrow> jobRecord option" where
  "setEntry k e rs = rs(k := map_option (\<lambda>r. r\<lparr>jr_entryID := e\<rparr>) (rs k))"

lemma stopJob_effect:
  assumes laws: "jobStoreLaws (se_store E) rows" "cronLaws (se_cron E) entries"
    and stop: "stopJob E b w = (r, b', w')"
  shows "sc_runContext w' = sc_runContext w
    \<and> (if r = None then
         b' = b\<lparr>jr_entryID := 0\<rparr> \<and> rows (sc_store w') = setEntry (jr_id b) 0 (rows (sc_store w))
         \<and> entries (sc_cron w') =
             (let i = knownEntry (rows (sc_store w)) b
              in if 0 < i then (entries (sc_cron w))(i := None) else entries (sc_cron w))
         \<and> rows (sc_store w) (jr_id b) \<noteq> None
       else b' = b \<and> rows (sc_store w') = rows (sc_store w) \<and> entries (sc_cron w') = entries (sc_cron w))"
proof (cases "js_findByID (se_store E) (jr_id b) (sc_store w)")
  case (Inl e)
  with stop have "r = Some (StoreErr e)" "b' = b" "w' = w" by (simp_all add: stopJob_def)
  then show ?thesis by simp
next
  case (Inr cur)
  have cur: "rows (sc_store w) (jr_id b) = Some cur" using jobStoreLawsD(1) [OF laws(1) Inr] by simp
  show ?thesis
  proof (cases "js_updateEntryID (se_store E) (jr_id b) 0 (sc_store w)")
    case (Pair u s)
    show ?thesis
    proof (cases u)
      case None
      with Pair have u: "js_updateEntryID (se_store E) (jr_id b) 0 (sc_store w) = (None, s)" by simp
      have "rows s = setEntry (jr_id b) 0 (rows (sc_store w))"
        using jobStoreLawsD(3) [OF laws(1) u] by (simp add: setEntry_def)
      with stop Inr u cur show ?thesis
        by (auto simp: stopJob_def Let_def knownEntry_def cronLawsD(3) [OF laws(2)])
    next
      case (Some x)
      with Pair have u: "js_updateEntryID (se_store E) (jr_id b) 0 (sc_store w) = (Some x, s)" by simp
      with stop Inr jobStoreLawsD(4) [OF laws(1) u] show ?thesis
        by (auto simp: stopJob_def Let_def)
    qed
  qed
qed

lemma startJob_effect:
  assumes laws: "jobStoreLaws (se_store E) rows" "cronLaws (se_cron E) entries"
    and start: "startJob E ctx b w = (r, b', w')"
  shows "sc_runContext w' = sc_runContext w
    \<and> (if r = None then
         \<exists>i x args. 0 < i \<and> entries (sc_cron w) i = None
           \<and> lookupTaskExec E (jr_invokeTarget b) = Inr x
           \<and> parseJobArgs (se_decode E) (jr_args b) = Inr args
           \<and> b' = b\<lparr>jr_entryID := i\<rparr> \<and> rows (sc_store w') = setEntry (jr_id b) i (rows (sc_store w))
           \<and> entries (sc_cron w') =
               (let old = knownEntry (rows (sc_store w)) b;
                    new = (entries (sc_cron w))
                      (i \<mapsto> timerFor b args x (case sc_runContext w of None \<Rightarrow> ctx | Some k \<Rightarrow> k))
                in if 0 < old \<and> old \<noteq> i then new(old := None) else new)
           \<and> rows (sc_store w) (jr_id b) \<noteq> None
       else b' = b \<and> rows (sc_store w') = rows (sc_store w) \<and> entries (sc_cron w') = entries (sc_cron w))"
proof -
  let ?k = "case sc_runContext w of None \<Rightarrow> ctx | Some k \<Rightarrow> k"
  show ?thesis
  proof (cases "lookupTaskExec E (jr_invokeTarget b)")
    case (Inl e)
    with start have "r = Some e" "b' = b" "w' = w" by (simp_all add: startJob_def)
    then show ?thesis by simp
  next
    case x: (Inr x)
    show ?thesis
    proof (cases "parseJobArgs (se_decode E) (jr_args b)")
      case (Inl e)
      with start x have "r = Some e" "b' = b" "w' = w" by (simp_all add: startJob_def)
      then show ?thesis by simp
    next
      case a: (Inr args)
      show ?thesis
      proof (cases "js_findByID (se_store E) (jr_id b) (sc_store w)")
        case (Inl e)
        with start x a have "r = Some (StoreErr e)" "b' = b" "w' = w"
          by (simp_all add: startJob_def)
        then show ?thesis by simp
      next
        case f: (Inr cur)
        have cur: "rows (sc_store w) (jr_id b) = Some cur"
          using jobStoreLawsD(1) [OF laws(1) f] by simp
        obtain t c where t: "cs_startTimer (se_cron E) (timerFor b args x ?k) (sc_cron w) = (t, c)"
          by force
        show ?thesis
        proof (cases t)
          case (Inl e)
          with t have t': "cs_startTimer (se_cron E) (timerFor b args x ?k) (sc_cron w) = (Inl e, c)"
            by simp
          from start x a f t' have "r = Some (CronErr e)" "b' = b" "w' = w\<lparr>sc_cron := c\<rparr>"
            by (simp_all add: startJob_def Let_def)
          with cronLawsD(2) [OF laws(2) t'] show ?thesis by simp
        next
          case (Inr i)
          with t have t': "cs_startTimer (se_cron E) (timerFor b args x ?k) (sc_cron w) = (Inr i, c)"
            by simp
          note i = cronLawsD(1) [OF laws(2) t']
          then have i32: "to_int32 i = i" by (intro to_int32_id) simp_all
          obtain u s where u: "js_updateEntryID (se_store E) (jr_id b) i (sc_store w) = (u, s)" by force
          show ?thesis
          proof (cases u)
            case None
            with u have u': "js_updateEntryID (se_store E) (jr_id b) i (sc_store w) = (None, s)" by simp
            define old where "old = knownEntry (rows (sc_store w)) b"
            have rows: "rows s = setEntry (jr_id b) i (rows (sc_store w))"
              using jobStoreLawsD(3) [OF laws(1) u'] by (simp add: setEntry_def)
            have old: "(if 0 < jr_entryID cur then jr_entryID cur else jr_entryID b) = old"
              using cur by (simp add: old_def knownEntry_def)
            have step: "startJob E ctx b w = (None, b\<lparr>jr_entryID := i\<rparr>,
                w\<lparr>sc_store := s, sc_cron := (if 0 < old \<and> old \<noteq> i
                   then cs_stopTimer (se_cron E) old c else c)\<rparr>)"
              using x a f t' i32 u' by (simp add: startJob_def Let_def old)
            then have r: "r = None" "b' = b\<lparr>jr_entryID := i\<rparr>" and w': "w' = w\<lparr>sc_store := s,
                sc_cron := (if 0 < old \<and> old \<noteq> i then cs_stopTimer (se_cron E) old c else c)\<rparr>"
              using start by simp_all
            have en: "entries (sc_cron w') = (if 0 < old \<and> old \<noteq> i
                then ((entries (sc_cron w))(i \<mapsto> timerFor b args x ?k))(old := None)
                else (entries (sc_cron w))(i \<mapsto> timerFor b args x ?k))"
              using i w' by (simp add: cronLawsD(3) [OF laws(2)])
            have ctx: "sc_runContext w' = sc_runContext w" and st: "sc_store w' = s"
              using w' by simp_all
            have "\<exists>i x args. 0 < i \<and> entries (sc_cron w) i = None
              \<and> lookupTaskExec E (jr_invokeTarget b) = Inr x
              \<and> parseJobArgs (se_decode E) (jr_args b) = Inr args
              \<and> b' = b\<lparr>jr_entryID := i\<rparr> \<and> rows (sc_store w') = setEntry (jr_id b) i (rows (sc_store w))
              \<and> entries (sc_cron w') = (if 0 < old \<and> old \<noteq> i
                  then ((entries (sc_cron w))(i \<mapsto> timerFor b args x ?k))(old := None)
                  else (entries (sc_cron w))(i \<mapsto> timerFor b args x ?k))
              \<and> rows (sc_store w) (jr_id b) \<noteq> None"
              by (intro exI [of _ i] exI [of _ x] exI [of _ args] conjI)
                (use i x a r(2) rows st en cur in simp_all)
            with ctx r(1) show ?thesis unfolding old_def Let_def by simp
          next
            case (Some e)
            with u have u': "js_updateEntryID (se_store E) (jr_id b) i (sc_store w) = (Some e, s)" by simp
            from start x a f t' i32 u' have "r = Some (StoreErr e)" "b' = b"
              "w' = w\<lparr>sc_store := s, sc_cron := cs_stopTimer (se_cron E) i c\<rparr>"
              by (simp_all add: startJob_def Let_def)
            moreover have "(entries (sc_cron w))(i := None) = entries (sc_cron w)"
              using i by (simp add: fun_upd_idem)
            ultimately show ?thesis
              using jobStoreLawsD(4) [OF laws(1) u'] i by (simp add: cronLawsD(3) [OF laws(2)])
          qed
        qed
      qed
    qed
  qed
qed


section \<open>Reloading\<close>

lemma timerFor_entry [simp]: "timerFor (b\<lparr>jr_entryID := e\<rparr>) = timerFor b"
  by (rule ext)+ (simp add: timerFor_def)

text \<open>A job is scheduled: its persisted entry id names a live timer that runs it.\<close>

definition scheduledAt ::
    "('s, 'x, 'k, 'c) schedEnv \<Rightarrow> 'k \<Rightarrow> (int \<Rightarrow> jobRecord option) \<Rightarrow> (int \<Rightarrow> ('x, 'k) timerJob option)
       \<Rightarrow> jobRecord \<Rightarrow> int \<Rightarrow> bool" where
  "scheduledAt E k rs es j i \<longleftrightarrow>
     0 < i \<and> rs (jr_id j) = Some (j\<lparr>jr_entryID := i\<rparr>)
     \<and> (\<exists>x args. lookupTaskExec E (jr_invokeTarget j) = Inr x
          \<and> parseJobArgs (se_decode E) (jr_args j) = Inr args \<and> es i = Some (timerFor j args x k))"

definition enabled :: "jobRecord \<Rightarrow> bool" where
  "enabled j \<longleftrightarrow> jr_status j = STATUS_STATUS_ENABLE"

text \<open>What a reload is to achieve for the jobs \<open>items\<close>.\<close>

definition reloaded ::
    "('s, 'x, 'k, 'c) schedEnv \<Rightarrow> 'k \<Rightarrow> (int \<Rightarrow> jobRecord option) \<Rightarrow> (int \<Rightarrow> ('x, 'k) timerJob option)
       \<Rightarrow> jobRecord list \<Rightarrow> bool" where
  "reloaded E k rs es items \<longleftrightarrow>
     (\<forall>j \<in> set items. if enabled j then \<exists>i. scheduledAt E k rs es j i
        else rs (jr_id j) = Some (j\<lparr>jr_entryID := 0\<rparr>))"

text \<open>The persisted entry ids of the jobs name no timer of this process.\<close>

definition unscheduled :: "(int \<Rightarrow> jobRecord option) \<Rightarrow> jobRecord list \<Rightarrow> bool" where
  "unscheduled rs items \<longleftrightarrow> (\<forall>j \<in> set items. rs (jr_id j) = Some j \<and> jr_entryID j \<le> 0)"

lemma stop_unscheduled:
  assumes laws: "jobStoreLaws (se_store E) rows" "cronLaws (se_cron E) entries"
    and un: "rows (sc_store w) (jr_id j) = Some j" "jr_entryID j \<le> 0"
    and stop: "stopJob E j w = (None, j', w1)"
  shows "j' = j\<lparr>jr_entryID := 0\<rparr> \<and> entries (sc_cron w1) = entries (sc_cron w)
    \<and> rows (sc_store w1) = (rows (sc_store w))(jr_id j \<mapsto> j\<lparr>jr_entryID := 0\<rparr>)
    \<and> sc_runContext w1 = sc_runContext w"
  using stopJob_effect [OF laws stop] un by (simp add: setEntry_def knownEntry_def)

lemma start_unscheduled:
  assumes laws: "jobStoreLaws (se_store E) rows" "cronLaws (se_cron E) entries"
    and un: "rows (sc_store w) (jr_id j) = Some (j\<lparr>jr_entryID := 0\<rparr>)"
    and start: "startJob E ctx (j\<lparr>jr_entryID := 0\<rparr>) w = (None, j', w1)"
    and k: "sc_runContext w = Some k"
  shows "\<exists>i. entries (sc_cron w) i = None \<and> scheduledAt E k (rows (sc_store w1)) (entries (sc_cron w1)) j i
    \<and> (\<forall>n. n \<noteq> i \<longrightarrow> entries (sc_cron w1) n = entries (sc_cron w) n)
    \<and> (\<forall>n. n \<noteq> jr_id j \<longrightarrow> rows (sc_store w1) n = rows (sc_store w) n)
    \<and> sc_runContext w1 = Some k \<and> (\<exists>t. entries (sc_cron w1) i = Some t \<and> tj_jobID t = jr_id j)"
proof -
  have known: "knownEntry (rows (sc_store w)) (j\<lparr>jr_entryID := 0\<rparr>) = 0"
    using un by (simp add: knownEntry_def)
  from startJob_effect [OF laws start] known k obtain i x args where
    i: "0 < i" "entries (sc_cron w) i = None" "lookupTaskExec E (jr_invokeTarget j) = Inr x"
      "parseJobArgs (se_decode E) (jr_args j) = Inr args"
      "rows (sc_store w1) = setEntry (jr_id j) i (rows (sc_store w))"
      "entries (sc_cron w1) = (entries (sc_cron w))(i \<mapsto> timerFor j args x k)"
      "sc_runContext w1 = Some k"
    by auto
  then have "scheduledAt E k (rows (sc_store w1)) (entries (sc_cron w1)) j i"
    using un by (simp add: scheduledAt_def setEntry_def)
  with i show ?thesis by (intro exI [of _ i]) (simp add: setEntry_def timerFor_def)
qed

lemma stopJob_status: "stopJob E b w = (r, b', w') \<Longrightarrow> jr_status b' = jr_status b"
  by (auto simp: stopJob_def Let_def split: sum.splits prod.splits option.splits)

lemma reloadLoop_enabled:
  assumes loop: "reloadLoop E ctx started (j # js) w = (None, w')" and "enabled j"
  shows "\<exists>j1 w1 j2 w2. stopJob E j w = (None, j1, w1) \<and> startJob E ctx j1 w1 = (None, j2, w2)
    \<and> reloadLoop E ctx (started @ [j2]) js w2 = (None, w')"
proof -
  obtain r1 j1 w1 where s: "stopJob E j w = (r1, j1, w1)" by (metis prod_cases3)
  with loop have r1: "r1 = None" by (cases r1) auto
  obtain r2 j2 w2 where b: "startJob E ctx j1 w1 = (r2, j2, w2)" by (metis prod_cases3)
  from stopJob_status [OF s] \<open>enabled j\<close> have en: "jr_status j1 = STATUS_STATUS_ENABLE"
    by (simp add: enabled_def)
  with loop s r1 b have "r2 = None" by (cases r2) auto
  with loop s r1 b en show ?thesis by auto
qed

lemma reloadLoop_ok:
  assumes laws: "jobStoreLaws (se_store E) rows" "cronLaws (se_cron E) entries"
  shows "reloadLoop E ctx started items w = (None, w') \<Longrightarrow> unscheduled (rows (sc_store w)) items \<Longrightarrow>
    distinct (map jr_id items) \<Longrightarrow> sc_runContext w = Some k \<Longrightarrow>
    reloaded E k (rows (sc_store w')) (entries (sc_cron w')) items
    \<and> (\<forall>n. entries (sc_cron w) n \<noteq> None \<longrightarrow> entries (sc_cron w') n = entries (sc_cron w) n)
    \<and> (\<forall>n. n \<notin> jr_id ` set items \<longrightarrow> rows (sc_store w') n = rows (sc_store w) n)
    \<and> (\<forall>n t. entries (sc_cron w) n = None \<longrightarrow> entries (sc_cron w') n = Some t \<longrightarrow>
         (\<exists>j \<in> set items. enabled j \<and> tj_jobID t = jr_id j))"
proof (induction items arbitrary: started w)
  case Nil
  then show ?case by (auto simp: reloaded_def)
next
  case (Cons j items)
  from Cons.prems(2) have un: "rows (sc_store w) (jr_id j) = Some j" "jr_entryID j \<le> 0"
    by (simp_all add: unscheduled_def)
  obtain r1 j1 w1 where s: "stopJob E j w = (r1, j1, w1)" by (metis prod_cases3)
  with Cons.prems(1) have "r1 = None" by (cases r1) auto
  with s have s: "stopJob E j w = (None, j1, w1)" by simp
  note st = stop_unscheduled [OF laws un s]
  have nin: "jr_id j \<notin> jr_id ` set items" and dist: "distinct (map jr_id items)"
    using Cons.prems(3) by auto
  have unI: "unscheduled rs items"
    if "\<forall>n. n \<noteq> jr_id j \<longrightarrow> rs n = rows (sc_store w) n" for rs
    unfolding unscheduled_def
  proof
    fix j' assume j': "j' \<in> set items"
    with nin have "jr_id j' \<noteq> jr_id j" by (metis image_eqI)
    with that j' Cons.prems(2) show "rs (jr_id j') = Some j' \<and> jr_entryID j' \<le> 0"
      by (simp add: unscheduled_def)
  qed
  have un1: "unscheduled (rows (sc_store w1)) items"
    by (rule unI) (use st in simp)
  show ?case
  proof (cases "enabled j")
    case False
    with Cons.prems(1) s st have l: "reloadLoop E ctx started items w1 = (None, w')"
      by (simp add: enabled_def)
    from Cons.IH [OF l un1 dist] st Cons.prems(4) have IH:
      "reloaded E k (rows (sc_store w')) (entries (sc_cron w')) items"
      "\<forall>n. entries (sc_cron w) n \<noteq> None \<longrightarrow> entries (sc_cron w') n = entries (sc_cron w) n"
      "\<forall>n. n \<notin> jr_id ` set items \<longrightarrow> rows (sc_store w') n = rows (sc_store w1) n"
      "\<forall>n t. entries (sc_cron w) n = None \<longrightarrow> entries (sc_cron w') n = Some t \<longrightarrow>
         (\<exists>j \<in> set items. enabled j \<and> tj_jobID t = jr_id j)" by simp_all
    have "rows (sc_store w') (jr_id j) = Some (j\<lparr>jr_entryID := 0\<rparr>)" using IH(3) nin st by simp
    with IH False st show ?thesis by (auto simp: reloaded_def)
  next
    case True
    obtain r2 j2 w2 where b: "startJob E ctx (j\<lparr>jr_entryID := 0\<rparr>) w1 = (r2, j2, w2)"
      by (metis prod_cases3)
    with Cons.prems(1) s st True have "r2 = None" by (cases r2) (auto simp: enabled_def)
    with b have b: "startJob E ctx (j\<lparr>jr_entryID := 0\<rparr>) w1 = (None, j2, w2)" by simp
    have row1: "rows (sc_store w1) (jr_id j) = Some (j\<lparr>jr_entryID := 0\<rparr>)" using st by simp
    have k1: "sc_runContext w1 = Some k" using st Cons.prems(4) by simp
    from start_unscheduled [OF laws row1 b k1] st obtain i where
      i: "entries (sc_cron w) i = None"
        "scheduledAt E k (rows (sc_store w2)) (entries (sc_cron w2)) j i"
        "\<forall>n. n \<noteq> i \<longrightarrow> entries (sc_cron w2) n = entries (sc_cron w) n"
        "\<forall>n. n \<noteq> jr_id j \<longrightarrow> rows (sc_store w2) n = rows (sc_store w1) n"
        "sc_runContext w2 = Some k"
      and t: "\<exists>t. entries (sc_cron w2) i = Some t \<and> tj_jobID t = jr_id j" by auto
    from Cons.prems(1) s st True b
    have l: "reloadLoop E ctx (started @ [j2]) items w2 = (None, w')" by (simp add: enabled_def)
    have un2: "unscheduled (rows (sc_store w2)) items"
      by (rule unI) (use st i(4) in simp)
    note IH = Cons.IH [OF l un2 dist i(5)]
    have keep: "entries (sc_cron w') i = entries (sc_cron w2) i"
      using IH i(2) by (auto simp: scheduledAt_def)
    have row: "rows (sc_store w') (jr_id j) = rows (sc_store w2) (jr_id j)" using IH nin by simp
    have sch: "scheduledAt E k (rows (sc_store w')) (entries (sc_cron w')) j i"
      using i(2) row keep by (simp add: scheduledAt_def)
    have rel: "reloaded E k (rows (sc_store w')) (entries (sc_cron w')) (j # items)"
      using IH sch True by (auto simp: reloaded_def)
    have old: "\<forall>n. entries (sc_cron w) n \<noteq> None \<longrightarrow> entries (sc_cron w') n = entries (sc_cron w) n"
    proof (intro allI impI)
      fix n assume n: "entries (sc_cron w) n \<noteq> None"
      with i(1) have "n \<noteq> i" by auto
      with n i(3) IH show "entries (sc_cron w') n = entries (sc_cron w) n" by simp
    qed
    have new: "\<forall>n t. entries (sc_cron w) n = None \<longrightarrow> entries (sc_cron w') n = Some t \<longrightarrow>
         (\<exists>j \<in> set (j # items). enabled j \<and> tj_jobID t = jr_id j)"
    proof (intro allI impI)
      fix n u assume n: "entries (sc_cron w) n = None" "entries (sc_cron w') n = Some u"
      show "\<exists>j \<in> set (j # items). enabled j \<and> tj_jobID u = jr_id j"
      proof (cases "n = i")
        case eq: True
        with n keep t have "tj_jobID u = jr_id j" by auto
        with True show ?thesis by auto
      next
        case False
        with n i(3) have "entries (sc_cron w2) n = None" by simp
        with IH n(2) have "\<exists>j \<in> set items. enabled j \<and> tj_jobID u = jr_id j" by blast
        then show ?thesis by auto
      qed
    qed
    have rest: "\<forall>n. n \<notin> jr_id ` set (j # items) \<longrightarrow> rows (sc_store w') n = rows (sc_store w) n"
      using IH i(4) st by auto
    from rel old new rest show ?thesis by blast
  qed
qed


section \<open>A store and a cron server\<close>

definition listRows :: "jobRecord list \<Rightarrow> int \<Rightarrow> jobRecord option" where
  "listRows s = map_of (map (\<lambda>r. (jr_id r, r)) s)"

definition listJobs :: "jobRecord list jobStore" where
  "listJobs = \<lparr>
     js_list = (\<lambda>s. if distinct (map jr_id s) then Inr s else Inl ''duplicate''),
     js_findByID = (\<lambda>k s. case find (\<lambda>r. jr_id r = k) s of None \<Rightarrow> Inl ''not found'' | Some r \<Rightarrow> Inr r),
     js_updateEntryID = (\<lambda>k e s. (None, map (\<lambda>r. if jr_id r = k then r\<lparr>jr_entryID := e\<rparr> else r) s))\<rparr>"

lemma listRows_find: "find (\<lambda>r. jr_id r = k) s = listRows s k"
  by (induction s) (auto simp: listRows_def)

lemma listRows_id: "listRows s k = Some r \<Longrightarrow> jr_id r = k"
  by (induction s) (auto simp: listRows_def split: if_splits)

lemma listRows_mem: "distinct (map jr_id s) \<Longrightarrow> r \<in> set s \<Longrightarrow> listRows s (jr_id r) = Some r"
  by (auto simp: listRows_def comp_def intro!: map_of_is_SomeI)

lemma listRows_update:
  "listRows (map (\<lambda>r. if jr_id r = k then r\<lparr>jr_entryID := e\<rparr> else r) s)
     = (listRows s)(k := map_option (\<lambda>r. r\<lparr>jr_entryID := e\<rparr>) (listRows s k))"
  by (induction s) (auto simp: listRows_def fun_eq_iff)

lemma listJobs_laws: "jobStoreLaws listJobs listRows"
  unfolding jobStoreLaws_def
  by (auto simp: listJobs_def listRows_find listRows_mem listRows_update listRows_id
      split: if_splits option.splits)

type_synonym 'j seqCron = "int \<times> (int \<Rightarrow> 'j option)"

text \<open>Entry ids are handed out in sequence.\<close>

definition seqCronOps :: "('j, 'j seqCron) cronServer" where
  "seqCronOps = \<lparr>
     cs_startTimer = (\<lambda>j (n, m). if 0 < n \<and> n < 2 ^ 31 \<and> m n = None
        then (Inr n, (n + 1, m(n \<mapsto> j))) else (Inl ''exhausted'', (n, m))),
     cs_stopTimer = (\<lambda>i (n, m). (n, m(i := None))),
     cs_removeAll = (\<lambda>(n, m). (n, Map.empty)),
     cs_start = (\<lambda>c. (None, c)), cs_stop = (\<lambda>c. (None, c))\<rparr>"

lemma seqCron_laws: "cronLaws seqCronOps snd"
  unfolding cronLaws_def by (auto simp: seqCronOps_def split: if_splits)

definition seqEnv :: "(jobRecord list, nat, unit, (nat, unit) timerJob seqCron) schedEnv" where
  "seqEnv = \<lparr>se_store = listJobs, se_cron = seqCronOps,
     se_lookup = (\<lambda>n. if n = ''sync'' then Some (Some 1) else None),
     se_decode = (\<lambda>a. Inl ''no json'')\<rparr>"

lemma seqEnv_laws: "jobStoreLaws (se_store seqEnv) listRows" "cronLaws (se_cron seqEnv) snd"
  by (simp_all add: seqEnv_def listJobs_laws seqCron_laws)

definition exampleJob :: "int \<Rightarrow> int \<Rightarrow> jobRecord" where
  "exampleJob k e = \<lparr>jr_id = k, jr_invokeTarget = ''sync'', jr_args = [],
     jr_cronExpression = ''@hourly'', jr_status = 1, jr_entryID = e\<rparr>"

definition freshSched :: "jobRecord list \<Rightarrow> (jobRecord list, (nat, unit) timerJob seqCron, unit) sched" where
  "freshSched js = \<lparr>sc_store = js, sc_cron = (1, Map.empty), sc_runContext = None\<rparr>"

section \<open>Properties\<close>

text \<open>C8. Starting a job is all or nothing.  On success the executor and the arguments are valid,
  exactly one new timer runs the job with them, the persisted and the returned entry id name it,
  the timer known before is gone, and no other timer and no other row is touched.  On any
  failure, the failure to persist the new entry id included, rows, timers and the caller's
  record are as before.\<close>

theorem startJob_atomic:
  assumes "jobStoreLaws (se_store E) rows" "cronLaws (se_cron E) entries"
    and "startJob E ctx b w = (r, b', w')"
  shows "(r \<noteq> None \<longrightarrow> b' = b \<and> rows (sc_store w') = rows (sc_store w)
            \<and> entries (sc_cron w') = entries (sc_cron w))
    \<and> (r = None \<longrightarrow> (\<exists>i x args. 0 < i \<and> entries (sc_cron w) i = None
          \<and> lookupTaskExec E (jr_invokeTarget b) = Inr x
          \<and> parseJobArgs (se_decode E) (jr_args b) = Inr args
          \<and> b' = b\<lparr>jr_entryID := i\<rparr>
          \<and> rows (sc_store w') = setEntry (jr_id b) i (rows (sc_store w))
          \<and> entries (sc_cron w') i
              = Some (timerFor b args x (case sc_runContext w of None \<Rightarrow> ctx | Some k \<Rightarrow> k))
          \<and> (\<forall>n. n \<noteq> i \<longrightarrow> entries (sc_cron w') n =
               (if 0 < knownEntry (rows (sc_store w)) b \<and> n = knownEntry (rows (sc_store w)) b
                then None else entries (sc_cron w) n))))"
proof (cases r)
  case None
  with startJob_effect [OF assms] obtain i x args where i: "0 < i" "entries (sc_cron w) i = None"
    "lookupTaskExec E (jr_invokeTarget b) = Inr x" "parseJobArgs (se_decode E) (jr_args b) = Inr args"
    "b' = b\<lparr>jr_entryID := i\<rparr>" "rows (sc_store w') = setEntry (jr_id b) i (rows (sc_store w))"
    and e: "entries (sc_cron w') = (let old = knownEntry (rows (sc_store w)) b;
          new = (entries (sc_cron w))
            (i \<mapsto> timerFor b args x (case sc_runContext w of None \<Rightarrow> ctx | Some k \<Rightarrow> k))
        in if 0 < old \<and> old \<noteq> i then new(old := None) else new)"
    by auto
  have "entries (sc_cron w') i
      = Some (timerFor b args x (case sc_runContext w of None \<Rightarrow> ctx | Some k \<Rightarrow> k))"
    by (simp add: e Let_def)
  moreover have "\<forall>n. n \<noteq> i \<longrightarrow> entries (sc_cron w') n =
       (if 0 < knownEntry (rows (sc_store w)) b \<and> n = knownEntry (rows (sc_store w)) b
        then None else entries (sc_cron w) n)"
    by (simp add: e Let_def)
  ultimately show ?thesis using i None by blast
next
  case (Some x)
  with startJob_effect [OF assms] show ?thesis by simp
qed

theorem startJob_atomic_witness:
  "\<exists>t. snd (sc_cron (snd (snd (startJob seqEnv () (exampleJob 7 0) (freshSched [exampleJob 7 0]))))) 1 = Some t"
proof -
  let ?r = "startJob seqEnv () (exampleJob 7 0) (freshSched [exampleJob 7 0])"
  have r: "?r = (fst ?r, fst (snd ?r), snd (snd ?r))" by simp
  have n: "fst ?r = None" "jr_entryID (fst (snd ?r)) = 1" by code_simp+
  from startJob_atomic [OF seqEnv_laws r] n show ?thesis by auto
qed

text \<open>Stopping a job either fails and changes nothing, or clears the persisted and the
  returned entry id and removes exactly the timer the job was known under.\<close>

theorem stopJob_atomic:
  assumes "jobStoreLaws (se_store E) rows" "cronLaws (se_cron E) entries"
    and "stopJob E b w = (r, b', w')"
  shows "if r = None
    then b' = b\<lparr>jr_entryID := 0\<rparr> \<and> rows (sc_store w') = setEntry (jr_id b) 0 (rows (sc_store w))
      \<and> (\<forall>n. entries (sc_cron w') n =
            (if 0 < n \<and> n = knownEntry (rows (sc_store w)) b then None else entries (sc_cron w) n))
    else b' = b \<and> rows (sc_store w') = rows (sc_store w) \<and> entries (sc_cron w') = entries (sc_cron w)"
  using stopJob_effect [OF assms] by (auto simp: Let_def split: if_splits)

theorem stopJob_atomic_witness:
  "jr_entryID (fst (snd (stopJob seqEnv (exampleJob 7 3) (freshSched [exampleJob 7 3])))) = 0"
proof -
  let ?r = "stopJob seqEnv (exampleJob 7 3) (freshSched [exampleJob 7 3])"
  have r: "?r = (fst ?r, fst (snd ?r), snd (snd ?r))" by simp
  have n: "fst ?r = None" by code_simp
  from stopJob_atomic [OF seqEnv_laws r] n show ?thesis by simp
qed

text \<open>C26. A reload that succeeds, with no persisted entry id left from elsewhere, schedules
  exactly the enabled jobs: each has a persisted entry id naming a live timer that runs it with
  its arguments under the reload context, every disabled job has entry id zero, and each new
  timer belongs to an enabled job.\<close>

theorem Reload_schedules:
  assumes "jobStoreLaws (se_store E) rows" "cronLaws (se_cron E) entries"
    and "js_list (se_store E) (sc_store w) = Inr items" and "\<forall>j \<in> set items. jr_entryID j \<le> 0"
    and "Reload E k w = (None, w')"
  shows "(\<forall>j \<in> set items. if enabled j
        then \<exists>i. scheduledAt E k (rows (sc_store w')) (entries (sc_cron w')) j i
        else rows (sc_store w') (jr_id j) = Some (j\<lparr>jr_entryID := 0\<rparr>))
    \<and> (\<forall>n t. entries (sc_cron w) n = None \<longrightarrow> entries (sc_cron w') n = Some t \<longrightarrow>
         (\<exists>j \<in> set items. enabled j \<and> tj_jobID t = jr_id j))"
proof -
  from assms(5) assms(3) have l: "reloadLoop E k [] items (w\<lparr>sc_runContext := Some k\<rparr>) = (None, w')"
    by (simp add: Reload_def)
  note li = jobStoreLawsD(2) [OF assms(1,3)]
  from li assms(4) have un: "unscheduled (rows (sc_store (w\<lparr>sc_runContext := Some k\<rparr>))) items"
    by (simp add: unscheduled_def)
  from reloadLoop_ok [OF assms(1,2) l un] li show ?thesis by (simp add: reloaded_def)
qed

theorem Reload_schedules_witness:
  "\<exists>i. scheduledAt seqEnv () (listRows (sc_store (snd (Reload seqEnv () (freshSched [exampleJob 7 0, exampleJob 8 0])))))
     (snd (sc_cron (snd (Reload seqEnv () (freshSched [exampleJob 7 0, exampleJob 8 0]))))) (exampleJob 8 0) i"
proof -
  let ?w = "freshSched [exampleJob 7 0, exampleJob 8 0]"
  have l: "js_list (se_store seqEnv) (sc_store ?w) = Inr [exampleJob 7 0, exampleJob 8 0]" by code_simp
  have "fst (Reload seqEnv () ?w) = None" by code_simp
  then have ok: "Reload seqEnv () ?w = (None, snd (Reload seqEnv () ?w))" by (simp add: prod_eq_iff)
  from Reload_schedules [OF seqEnv_laws l _ ok] show ?thesis
    by (simp add: exampleJob_def enabled_def STATUS_STATUS_ENABLE_def)
qed

text \<open>A reload in a new process can silently lose an enabled job.  The entry ids of the
  previous process are still persisted, and stopping a job trusts them: if the first new timer,
  for the job \<open>a\<close>, gets the number that is persisted for the later job \<open>b\<close>, then stopping
  \<open>b\<close> removes the timer of \<open>a\<close>, and the reload succeeds with no timer for \<open>a\<close>.\<close>

theorem Reload_loses_job:
  assumes laws: "jobStoreLaws (se_store E) rows" "cronLaws (se_cron E) entries"
    and l: "js_list (se_store E) (sc_store w) = Inr [a, b]" and fresh: "entries (sc_cron w) = Map.empty"
    and en: "enabled a" "enabled b" and "0 < jr_entryID b"
    and first: "\<And>t i. fst (cs_startTimer (se_cron E) t (sc_cron w)) = Inr (jr_entryID b)
        \<and> fst (cs_startTimer (se_cron E) t (cs_stopTimer (se_cron E) i (sc_cron w))) = Inr (jr_entryID b)"
    and ok: "Reload E k w = (None, w')"
  shows "\<forall>n t. entries (sc_cron w') n = Some t \<longrightarrow> tj_jobID t \<noteq> jr_id a"
proof -
  let ?w = "w\<lparr>sc_runContext := Some k\<rparr>"
  from ok l have "reloadLoop E k [] [a, b] ?w = (None, w')" by (simp add: Reload_def)
  from reloadLoop_enabled [OF this en(1)] obtain a1 w1 a2 w2 where
    s1: "stopJob E a ?w = (None, a1, w1)" and s2: "startJob E k a1 w1 = (None, a2, w2)"
    and l2: "reloadLoop E k ([] @ [a2]) [b] w2 = (None, w')" by blast
  from reloadLoop_enabled [OF l2 en(2)] obtain b1 w3 b2 where
    s3: "stopJob E b w2 = (None, b1, w3)" and s4: "startJob E k b1 w3 = (None, b2, w')"
    by fastforce
  note li = jobStoreLawsD(2) [OF laws(1) l]
  then have ab: "jr_id a \<noteq> jr_id b" and rb: "rows (sc_store w) (jr_id b) = Some b" by auto
  note e1 = stopJob_effect [OF laws s1]
  have cron1: "sc_cron w1 = sc_cron w \<or> (\<exists>i. sc_cron w1 = cs_stopTimer (se_cron E) i (sc_cron w))"
    using s1 by (auto simp: stopJob_def Let_def split: sum.splits prod.splits option.splits if_splits)
  have en1: "entries (sc_cron w1) = Map.empty" using e1 fresh by (auto simp: Let_def)
  have a1: "jr_id a1 = jr_id a" using e1 by simp
  obtain x args c where st: "cs_startTimer (se_cron E) (timerFor a1 args x
      (case sc_runContext w1 of None \<Rightarrow> k | Some r \<Rightarrow> r)) (sc_cron w1) = (Inr (jr_entryID b), c)"
    and a2: "jr_entryID a2 = to_int32 (jr_entryID b)"
  proof -
    from s2 obtain x args i c where
      "cs_startTimer (se_cron E) (timerFor a1 args x
        (case sc_runContext w1 of None \<Rightarrow> k | Some r \<Rightarrow> r)) (sc_cron w1) = (Inr i, c)"
      and "jr_entryID a2 = to_int32 i"
      by (auto simp: startJob_def Let_def split: sum.splits prod.splits option.splits)
    moreover from this first cron1 have "i = jr_entryID b" by (metis fst_conv sum.inject(2))
    ultimately show ?thesis using that by blast
  qed
  have "0 < jr_entryID b \<and> jr_entryID b < 2 ^ 31" using cronLawsD(1) [OF laws(2) st] by simp
  then have a2': "jr_entryID a2 = jr_entryID b" using a2 by (simp add: to_int32_id)
  note e2 = startJob_effect [OF laws s2]
  from e2 a2' en1 have only: "\<forall>n. n \<noteq> jr_entryID b \<longrightarrow> entries (sc_cron w2) n = None"
    by (auto simp: Let_def)
  have row2: "rows (sc_store w2) (jr_id b) = Some b"
    using e1 e2 rb ab a1 by (auto simp: setEntry_def)
  have "knownEntry (rows (sc_store w2)) b = jr_entryID b" using row2 by (simp add: knownEntry_def)
  with stopJob_effect [OF laws s3] \<open>0 < jr_entryID b\<close>
  have "entries (sc_cron w3) = (entries (sc_cron w2))(jr_entryID b := None)" and b1: "jr_id b1 = jr_id b"
    by simp_all
  with only have en3: "entries (sc_cron w3) = Map.empty" by (auto simp: fun_eq_iff)
  show ?thesis
  proof (intro allI impI)
    fix n t assume "entries (sc_cron w') n = Some t"
    with startJob_effect [OF laws s4] en3 have "tj_jobID t = jr_id b1"
      by (auto simp: Let_def timerFor_def split: if_splits)
    with b1 ab show "tj_jobID t \<noteq> jr_id a" by simp
  qed
qed

theorem Reload_loses_job_witness:
  "{n. \<exists>t. snd (sc_cron (snd (Reload seqEnv () (freshSched [exampleJob 7 2, exampleJob 8 1])))) n = Some t
      \<and> tj_jobID t = 7} = {}"
proof -
  let ?w = "freshSched [exampleJob 7 2, exampleJob 8 1]"
  have l: "js_list (se_store seqEnv) (sc_store ?w) = Inr [exampleJob 7 2, exampleJob 8 1]" by code_simp
  have "fst (Reload seqEnv () ?w) = None" by code_simp
  then have ok: "Reload seqEnv () ?w = (None, snd (Reload seqEnv () ?w))" by (simp add: prod_eq_iff)
  have first: "fst (cs_startTimer (se_cron seqEnv) t (sc_cron ?w)) = Inr (jr_entryID (exampleJob 8 1))
      \<and> fst (cs_startTimer (se_cron seqEnv) t (cs_stopTimer (se_cron seqEnv) i (sc_cron ?w)))
          = Inr (jr_entryID (exampleJob 8 1))" for t i
    by (simp add: seqEnv_def seqCronOps_def freshSched_def exampleJob_def)
  have id: "jr_id (exampleJob 7 2) = 7" by (simp add: exampleJob_def)
  have en: "enabled (exampleJob 7 2)" "enabled (exampleJob 8 1)" "0 < jr_entryID (exampleJob 8 1)"
    by (simp_all add: exampleJob_def enabled_def STATUS_STATUS_ENABLE_def)
  have fr: "snd (sc_cron ?w) = Map.empty" by (simp add: freshSched_def)
  show ?thesis using Reload_loses_job [OF seqEnv_laws l fr en first ok] id by simp
qed







text \<open>C25. A task body runs only under a lease of the job's lock, and the lease is released after the body
  and its log, a panic of the body included.  With a lock, or without one and a lock in memory
  instead: if a lease is obtained, the body runs once, in its context, a panic is turned into an
  error, the run is logged once with the status and the error of its outcome, and then the lease is
  released; if the lock is held nothing runs, silently for a scheduled run, as a conflict for a manual one;
  if the lock fails nothing runs.\<close>

theorem executeJob_lease:
  assumes "executionLockerOf memory locker = Inr l"
  shows "case lockerAcquire (Some l) (executionLockKey jobID) of
      Lease lease \<Rightarrow> \<exists>err record. executeJob memory locker toJson now elapsed jobID args exec scheduled
          = (GoReturns err, [Acquired (executionLockKey jobID) lease, Ran lease args, Logged record, Released lease])
        \<and> err = (case exec lease args of TaskReturns _ e \<Rightarrow> map_option TaskErr e | TaskPanics m \<Rightarrow> Some (TaskPanicked m))
        \<and> jl_jobID record = jobID \<and> jl_input record = toJson args
        \<and> jl_output record = (case exec lease args of TaskReturns out _ \<Rightarrow> join_str ''<br/>'' out | TaskPanics _ \<Rightarrow> [])
        \<and> jl_error record = (case err of None \<Rightarrow> [] | Some e \<Rightarrow> jobErrText e)
        \<and> jl_status record = (if err = None then BASE_JOB_LOG_STATUS_SUCCESS else BASE_JOB_LOG_STATUS_FAIL)
    | NotObtained \<Rightarrow> executeJob memory locker toJson now elapsed jobID args exec scheduled
          = (GoReturns (if scheduled then None else Some LockConflict), [])
    | LockFailure e \<Rightarrow> executeJob memory locker toJson now elapsed jobID args exec scheduled = (GoReturns (Some (LockErr e)), [])"
proof (cases "lockerAcquire (Some l) (executionLockKey jobID)")
  case (Lease lease)
  then show ?thesis
    by (cases "exec lease args")
      (simp_all add: executeJob_def assms Execute_def execTask_def withDefer_def Let_def)
qed (simp_all add: executeJob_def assms)

theorem executeJob_lease_witness:
  "\<exists>record. executeJob (Inr (Some \<lparr>lm_mode = ModeMemory, lm_acquire = (\<lambda>_ _. Lease (1 :: nat)), lm_close = None\<rparr>)) None
       (\<lambda>a. ''{}'') 0 5 9 Map.empty (\<lambda>_ _. TaskPanics ''boom'') True
     = (GoReturns (Some (TaskPanicked ''boom'')),
        [Acquired ''kratos:job:9'' 1, Ran 1 Map.empty, Logged record, Released 1])
     \<and> jl_status record = BASE_JOB_LOG_STATUS_FAIL"
proof -
  let ?l = "Some \<lparr>lm_mode = ModeMemory, lm_acquire = (\<lambda>_ _. Lease (1 :: nat)), lm_close = None\<rparr>"
  have key: "executionLockKey 9 = ''kratos:job:9''" by code_simp
  have l: "executionLockerOf (Inr ?l) None = Inr ?l" by (simp add: executionLockerOf_def)
  show ?thesis
    using executeJob_lease [OF l, where jobID = 9 and toJson = "\<lambda>a. ''{}''" and now = 0 and elapsed = 5 and args = Map.empty
        and exec = "\<lambda>_ _. TaskPanics ''boom''" and scheduled = True]
    by (auto simp: key lockerAcquire_def)
qed

end
