(* ===== verification/JobAssembly.thy ===== *)
theory JobAssembly
  imports Scheduler
begin

text \<open>
  How the job component is put together: the
  creation of the registry (\<open>job/registry.go\<close>), of the scheduler (\<open>job/scheduler.go\<close>) and of its
  server (\<open>job/server.go\<close>), and \<open>Job.Run\<close> of \<open>job/job.go\<close>.  The locks and the cron server of
  kratos-kit are parameters; None is a nil pointer.
\<close>

section \<open>Registry\<close>

record 'srv jobRegistry =
  jg_server :: "'srv option"

definition NewRegistry :: "('task list \<Rightarrow> (string, 'srv) result) \<Rightarrow> 'task list \<Rightarrow> (string, 'srv jobRegistry) result" where
  "NewRegistry registerTask tasks = (case registerTask tasks of Inl e \<Rightarrow> Inl e | Inr server \<Rightarrow> Inr \<lparr>jg_server = Some server\<rparr>)"

definition registryServer :: "'srv jobRegistry option \<Rightarrow> 'srv option" where
  "registryServer r = (case r of None \<Rightarrow> None | Some g \<Rightarrow> jg_server g)"

section \<open>Scheduler\<close>

record ('srv, 'store, 'l) schedulerParts =
  sp_server :: "'srv option"
  sp_store :: 'store
  sp_registry :: "'srv jobRegistry option"
  sp_locker :: "'l executionLocker option"

text \<open>\<open>newCron\<close> and \<open>memory\<close> are what \<open>cron.NewServer\<close> and \<open>NewMemoryExecutionLocker\<close> return; a panic of
  the latter is the result \<open>Inl\<close>.\<close>

definition NewSchedulerWithLocker ::
  "'srv \<Rightarrow> (string, 'l executionLocker) result \<Rightarrow> 'store \<Rightarrow> 'srv jobRegistry option \<Rightarrow> 'l executionLocker option
    \<Rightarrow> (string, ('srv, 'store, 'l) schedulerParts) result" where
  "NewSchedulerWithLocker newCron memory store registry locker =
     (let server = (case registryServer registry of None \<Rightarrow> newCron | Some s \<Rightarrow> s);
          built = (\<lambda>l. \<lparr>sp_server = Some server, sp_store = store, sp_registry = registry, sp_locker = Some l\<rparr>)
      in case locker of
           Some l \<Rightarrow> Inr (built l)
         | None \<Rightarrow> (case memory of Inl e \<Rightarrow> Inl e | Inr l \<Rightarrow> Inr (built l)))"

definition NewScheduler ::
  "'srv \<Rightarrow> (string, 'l executionLocker) result \<Rightarrow> 'store \<Rightarrow> 'srv jobRegistry option
    \<Rightarrow> (string, ('srv, 'store, 'l) schedulerParts) result" where
  "NewScheduler newCron memory store registry = (case memory of
      Inl e \<Rightarrow> Inl e
    | Inr l \<Rightarrow> NewSchedulerWithLocker newCron memory store registry (Some l))"

definition schedulerServer :: "('srv, 'store, 'l) schedulerParts option \<Rightarrow> 'srv option" where
  "schedulerServer c = (case c of None \<Rightarrow> None | Some p \<Rightarrow> sp_server p)"

definition schedulerClose :: "('srv, 'store, 'l) schedulerParts option \<Rightarrow> 'l lockManager list" where
  "schedulerClose c = (case c of None \<Rightarrow> [] | Some p \<Rightarrow> (if sp_locker p = None then [] else lockerClose (sp_locker p)))"

section \<open>Server and job\<close>

record ('srv, 'store, 'l) jobServerParts =
  jp_scheduler :: "('srv, 'store, 'l) schedulerParts"
  jp_transport :: 'srv

definition jobNewServer :: "('srv, 'store, 'l) schedulerParts option \<Rightarrow> ('srv, 'store, 'l) jobServerParts option" where
  "jobNewServer server = (case server of None \<Rightarrow> None
    | Some p \<Rightarrow> (case schedulerServer (Some p) of None \<Rightarrow> None
        | Some transport \<Rightarrow> Some \<lparr>jp_scheduler = p, jp_transport = transport\<rparr>))"

text \<open>\<open>Job.Run\<close>: the record has the fields an execution needs.\<close>

definition jobRun ::
    "('s, 'x, 'k, 'c) schedEnv \<Rightarrow> (jobErr \<Rightarrow> string) \<Rightarrow> (string, 'l executionLocker) result \<Rightarrow> 'l executionLocker option
       \<Rightarrow> ((string \<Rightarrow> string option) \<Rightarrow> string) \<Rightarrow> int \<Rightarrow> int \<Rightarrow> ('x \<Rightarrow> 'l \<Rightarrow> (string \<Rightarrow> string option) \<Rightarrow> taskOutcome)
       \<Rightarrow> int \<Rightarrow> string \<Rightarrow> string \<Rightarrow> 'l jobRun" where
  "jobRun E text memory locker toJson now elapsed exec jobID invokeTarget args =
     RunJob E text memory locker toJson now elapsed exec
       (Some \<lparr>jr_id = jobID, jr_invokeTarget = invokeTarget, jr_args = args, jr_cronExpression = [],
          jr_status = 0, jr_entryID = 0\<rparr>)"

section \<open>The parts fit\<close>

text \<open>A scheduler that could be built has a cron server and a lock, so its server exists; it drives the
  server its tasks are registered with whenever there is one, and closing it closes exactly the
  lock that its executions acquire.\<close>
lemma scheduler_parts:
  assumes "NewSchedulerWithLocker newCron memory store registry locker = Inr p"
  shows "\<exists>srv l. sp_server p = Some srv \<and> (registryServer registry \<noteq> None \<longrightarrow> registryServer registry = Some srv)
     \<and> jobNewServer (Some p) = Some \<lparr>jp_scheduler = p, jp_transport = srv\<rparr>
     \<and> sp_locker p = Some l \<and> (locker \<noteq> None \<longrightarrow> locker = Some l) \<and> schedulerClose (Some p) = lockerClose (Some l)"
  using assms
  by (auto simp: NewSchedulerWithLocker_def jobNewServer_def schedulerServer_def schedulerClose_def Let_def
      split: option.splits sum.splits)

text \<open>With a lock that was never initialised no job runs: the call fails before the executor.\<close>
lemma jobRun_unlocked:
  "\<exists>e effects. jobRun E text memory (Some None) toJson now elapsed exec jobID target args = (GoReturns (Some e), effects)
     \<and> (\<forall>l a. Ran l a \<notin> set effects)"
  by (auto simp: jobRun_def RunJob_def lockerAcquire_def executionLockerOf_def executeJob_def LogFailureWithInput_def Let_def
      split: sum.splits)

end
