(* ===== verification/LogEvents.thy ===== *)
theory LogEvents
  imports GoNum
begin

text \<open>
  The data of the log pipeline: the event \<open>LogEvent\<close> of \<open>biz/base_log.go\<close>, the records
  \<open>APILogRecord\<close> and \<open>PolicyEvaluationLogRecord\<close> of \<open>data/log.go\<close>, the default values
  and the conversions.  \<open>int64\<close> and \<open>int32\<close> are machine words; a time is a number, zero
  being \<open>time.Time{}\<close>; the clock, the request-id generator and the default tenant code of
  kratos-kit are arguments.
\<close>

type_synonym int64 = "64 word"
type_synonym int32 = "32 word"
type_synonym goTime = int

section \<open>Records\<close>

record LogEvent =
  ev_kind :: string
  ev_requestID :: string
  ev_traceID :: string
  ev_requestTime :: goTime
  ev_method :: string
  ev_operation :: string
  ev_path :: string
  ev_referer :: string
  ev_requestURI :: string
  ev_requestBody :: string
  ev_requestHeader :: string
  ev_response :: string
  ev_costTime :: int64
  ev_isSuccess :: bool
  ev_statusCode :: int32
  ev_reason :: string
  ev_reasonCode :: string
  ev_location :: string
  ev_tenantID :: int64
  ev_tenantCode :: string
  ev_userID :: int64
  ev_userName :: string
  ev_clientIP :: string
  ev_userAgent :: string
  ev_browserName :: string
  ev_browserVersion :: string
  ev_clientID :: string
  ev_clientName :: string
  ev_loginType :: int32
  ev_deviceID :: string
  ev_osName :: string
  ev_osVersion :: string
  ev_engine :: string
  ev_evaluationType :: int32
  ev_resource :: string
  ev_action :: string
  ev_decision :: int32
  ev_durationMs :: int32
  ev_project :: string
  ev_candidateCount :: int32
  ev_matchedCount :: int32
  ev_actionCode :: int32
  ev_roleID :: int64
  ev_roleCode :: string
  ev_inputHash :: string
  ev_resourceType :: string
  ev_resourceID :: string
  ev_resourceName :: string
  ev_changedFields :: string
  ev_beforeData :: string
  ev_afterData :: string
  ev_accessType :: int32
  ev_dataSource :: string
  ev_tableName :: string
  ev_fieldScope :: string
  ev_dataScope :: string
  ev_affectedRows :: int32
  ev_sensitive :: int32
  ev_sQLText :: string
  ev_sQLDigest :: string
  ev_targetType :: int32
  ev_targetID :: string
  ev_targetName :: string
  ev_oldValue :: string
  ev_newValue :: string

record APILogRecord =
  al_iD :: int64
  al_tenantID :: int64
  al_tenantCode :: string
  al_userID :: int64
  al_userName :: string
  al_requestID :: string
  al_traceID :: string
  al_serviceName :: string
  al_operation :: string
  al_method :: string
  al_path :: string
  al_statusCode :: int32
  al_result :: int32
  al_reasonCode :: string
  al_reason :: string
  al_latencyMs :: int32
  al_clientIP :: string
  al_userAgent :: string
  al_occurredAt :: goTime
  al_createdAt :: goTime

record PolicyEvaluationLogRecord =
  pl_iD :: int64
  pl_tenantID :: int64
  pl_tenantCode :: string
  pl_userID :: int64
  pl_userName :: string
  pl_roleID :: int64
  pl_roleCode :: string
  pl_requestID :: string
  pl_traceID :: string
  pl_clientIP :: string
  pl_engine :: string
  pl_evaluationType :: int32
  pl_resource :: string
  pl_action :: string
  pl_project :: string
  pl_decision :: int32
  pl_reasonCode :: string
  pl_reason :: string
  pl_durationMs :: int32
  pl_candidateCount :: int32
  pl_matchedCount :: int32
  pl_inputHash :: string
  pl_occurredAt :: goTime
  pl_createdAt :: goTime

text \<open>The zero value of the struct.\<close>

definition emptyEvent :: LogEvent where
  "emptyEvent = \<lparr>
     ev_kind = [], ev_requestID = [], ev_traceID = [], ev_requestTime = 0, ev_method = [],
     ev_operation = [], ev_path = [], ev_referer = [], ev_requestURI = [], ev_requestBody
     = [], ev_requestHeader = [], ev_response = [], ev_costTime = 0, ev_isSuccess = False,
     ev_statusCode = 0, ev_reason = [], ev_reasonCode = [], ev_location = [], ev_tenantID
     = 0, ev_tenantCode = [], ev_userID = 0, ev_userName = [], ev_clientIP = [],
     ev_userAgent = [], ev_browserName = [], ev_browserVersion = [], ev_clientID = [],
     ev_clientName = [], ev_loginType = 0, ev_deviceID = [], ev_osName = [], ev_osVersion
     = [], ev_engine = [], ev_evaluationType = 0, ev_resource = [], ev_action = [],
     ev_decision = 0, ev_durationMs = 0, ev_project = [], ev_candidateCount = 0,
     ev_matchedCount = 0, ev_actionCode = 0, ev_roleID = 0, ev_roleCode = [], ev_inputHash
     = [], ev_resourceType = [], ev_resourceID = [], ev_resourceName = [],
     ev_changedFields = [], ev_beforeData = [], ev_afterData = [], ev_accessType = 0,
     ev_dataSource = [], ev_tableName = [], ev_fieldScope = [], ev_dataScope = [],
     ev_affectedRows = 0, ev_sensitive = 0, ev_sQLText = [], ev_sQLDigest = [],
     ev_targetType = 0, ev_targetID = [], ev_targetName = [], ev_oldValue = [],
     ev_newValue = []\<rparr>"

section \<open>Defaults and conversions\<close>

record logEnv =
  le_now :: goTime
  le_newID :: string
  le_defaultTenant :: string

definition normalizeLogEvent :: "logEnv \<Rightarrow> LogEvent \<Rightarrow> LogEvent" where
  "normalizeLogEvent env event =
     (let event = (if ev_kind event = [] then event\<lparr>ev_kind := ''api''\<rparr> else event);
          event = (if ev_requestTime event = 0 then event\<lparr>ev_requestTime := le_now env\<rparr> else event);
          event = (if ev_requestID event = [] then event\<lparr>ev_requestID := le_newID env\<rparr> else event)
      in if ev_tenantCode event = [] then event\<lparr>ev_tenantCode := le_defaultTenant env\<rparr> else event)"

definition logResultSuccess :: int32 where "logResultSuccess = 1"
definition logResultFailure :: int32 where "logResultFailure = 2"
definition logResultError :: int32 where "logResultError = 3"

text \<open>\<open>http.StatusInternalServerError\<close> is 500; the comparison is signed.\<close>

definition logResult :: "bool \<Rightarrow> int32 \<Rightarrow> int32" where
  "logResult success statusCode =
     (if success then logResultSuccess
      else if sint statusCode \<ge> 500 then logResultError
      else logResultFailure)"

definition serviceName :: "string \<Rightarrow> string" where
  "serviceName operation =
     (let parts = split_char (CHR ''/'') (trim_prefix operation ''/'') in
      if length parts \<noteq> 2 then operation
      else last (split_char (CHR ''.'') (parts ! 0)))"

text \<open>\<open>int32(event.CostTime)\<close> keeps the low 32 bits.\<close>

definition apiLogFromEvent :: "goTime \<Rightarrow> LogEvent \<Rightarrow> APILogRecord" where
  "apiLogFromEvent now event = \<lparr>al_iD = 0, al_tenantID = ev_tenantID event,
     al_tenantCode = ev_tenantCode event, al_userID = ev_userID event,
     al_userName = ev_userName event, al_requestID = ev_requestID event,
     al_traceID = ev_traceID event, al_serviceName = serviceName (ev_operation event),
     al_operation = ev_operation event, al_method = ev_method event, al_path = ev_path event,
     al_statusCode = ev_statusCode event,
     al_result = logResult (ev_isSuccess event) (ev_statusCode event),
     al_reasonCode = ev_reasonCode event, al_reason = ev_reason event,
     al_latencyMs = ucast (ev_costTime event), al_clientIP = ev_clientIP event,
     al_userAgent = ev_userAgent event, al_occurredAt = ev_requestTime event, al_createdAt = now\<rparr>"

definition policyEvaluationLogFromEvent :: "goTime \<Rightarrow> LogEvent \<Rightarrow> PolicyEvaluationLogRecord" where
  "policyEvaluationLogFromEvent now event = \<lparr>pl_iD = 0, pl_tenantID = ev_tenantID event,
     pl_tenantCode = ev_tenantCode event, pl_userID = ev_userID event,
     pl_userName = ev_userName event, pl_roleID = ev_roleID event, pl_roleCode = ev_roleCode event,
     pl_requestID = ev_requestID event, pl_traceID = ev_traceID event,
     pl_clientIP = ev_clientIP event, pl_engine = ev_engine event,
     pl_evaluationType = ev_evaluationType event, pl_resource = ev_resource event,
     pl_action = ev_action event, pl_project = ev_project event, pl_decision = ev_decision event,
     pl_reasonCode = ev_reasonCode event, pl_reason = ev_reason event,
     pl_durationMs = ev_durationMs event, pl_candidateCount = ev_candidateCount event,
     pl_matchedCount = ev_matchedCount event, pl_inputHash = ev_inputHash event,
     pl_occurredAt = ev_requestTime event, pl_createdAt = now\<rparr>"

lemma normalize_idem:
  assumes "le_now env \<noteq> 0" "le_newID env \<noteq> []" "le_defaultTenant env \<noteq> []"
  shows "normalizeLogEvent env' (normalizeLogEvent env e) = normalizeLogEvent env e"
proof -
  have "ev_kind (normalizeLogEvent env e) \<noteq> []" "ev_requestTime (normalizeLogEvent env e) \<noteq> 0"
    "ev_requestID (normalizeLogEvent env e) \<noteq> []" "ev_tenantCode (normalizeLogEvent env e) \<noteq> []"
    using assms by (simp_all add: normalizeLogEvent_def Let_def)
  then show ?thesis by (simp add: normalizeLogEvent_def [of env'])
qed

end
