(* ===== verification/GoChannel.thy ===== *)
theory GoChannel
  imports Prelude
begin

text \<open>
  Buffered Go channels as the repository uses them: \<open>make(chan T, n)\<close>, a send in a
  \<open>select\<close> with a \<open>default\<close>, a receive, and \<open>close\<close>.  A send on a closed channel and
  a second close panic.  The locale \<open>bounded_fifo\<close> is the contract the clients (the log
  pipeline and the in-process gRPC streams) rely on; it is interpreted on this model.
\<close>

section \<open>Model\<close>

record 'a chan =
  ch_buf :: "'a list"
  ch_cap :: nat
  ch_closed :: bool

definition chan_make :: "nat \<Rightarrow> 'a chan" where
  "chan_make n = \<lparr>ch_buf = [], ch_cap = n, ch_closed = False\<rparr>"

datatype 'a sendResult = Sent "'a chan" | Full | SendPanic

definition chan_send :: "'a \<Rightarrow> 'a chan \<Rightarrow> 'a sendResult" where
  "chan_send x c =
     (if ch_closed c then SendPanic
      else if length (ch_buf c) < ch_cap c then Sent (c\<lparr>ch_buf := ch_buf c @ [x]\<rparr>)
      else Full)"

datatype 'a recvResult = Received 'a "'a chan" | Drained | Empty

definition chan_recv :: "'a chan \<Rightarrow> 'a recvResult" where
  "chan_recv c =
     (case ch_buf c of
        x # xs \<Rightarrow> Received x (c\<lparr>ch_buf := xs\<rparr>)
      | [] \<Rightarrow> if ch_closed c then Drained else Empty)"

text \<open>None is the panic of closing a closed channel.\<close>

definition chan_close :: "'a chan \<Rightarrow> 'a chan option" where
  "chan_close c = (if ch_closed c then None else Some (c\<lparr>ch_closed := True\<rparr>))"

section \<open>The contract of a bounded first-in first-out buffer\<close>

datatype 'a bufferOp = Offer 'a | Take

locale bounded_fifo =
  fixes contents :: "'c \<Rightarrow> 'a list"
    and bound :: "'c \<Rightarrow> nat"
    and offer :: "'a \<Rightarrow> 'c \<Rightarrow> 'c option"
    and take1 :: "'c \<Rightarrow> ('a \<times> 'c) option"
  assumes offer_iff: "(\<exists>c'. offer x c = Some c') \<Longrightarrow> length (contents c) < bound c"
    and offer_contents: "offer x c = Some c' \<Longrightarrow> contents c' = contents c @ [x] \<and> bound c' = bound c"
    and take_contents: "take1 c = Some (y, c') \<Longrightarrow> contents c = y # contents c' \<and> bound c' = bound c"
    and take_stuck: "take1 c = None \<Longrightarrow> contents c = []"
begin

text \<open>A history of operations: what was accepted, what was taken, and the buffer after it;
  a refused offer and a take from the empty buffer change nothing.\<close>

fun history :: "'a bufferOp list \<Rightarrow> 'c \<Rightarrow> 'a list \<times> 'a list \<times> 'c" where
  "history [] c = ([], [], c)"
| "history (Offer x # ops) c =
     (case offer x c of
        None \<Rightarrow> history ops c
      | Some c' \<Rightarrow> (case history ops c' of (i, out, d) \<Rightarrow> (x # i, out, d)))"
| "history (Take # ops) c =
     (case take1 c of
        None \<Rightarrow> history ops c
      | Some (y, c') \<Rightarrow> (case history ops c' of (i, out, d) \<Rightarrow> (i, y # out, d)))"

lemma history_fifo:
  "history ops c = (i, out, d) \<Longrightarrow> contents c @ i = out @ contents d"
proof (induction ops arbitrary: c i out d)
  case Nil
  then show ?case by simp
next
  case (Cons a ops)
  show ?case
  proof (cases a)
    case (Offer x)
    show ?thesis
    proof (cases "offer x c")
      case None
      with Cons Offer show ?thesis by simp
    next
      case (Some c')
      obtain i' out' d' where h: "history ops c' = (i', out', d')" by (metis prod_cases3)
      with Cons.prems Offer Some have eq: "i = x # i'" "out = out'" "d = d'" by auto
      from Cons.IH [OF h] offer_contents [OF Some] eq show ?thesis by simp
    qed
  next
    case Take
    show ?thesis
    proof (cases "take1 c")
      case None
      with Cons Take show ?thesis by simp
    next
      case (Some p)
      obtain y c' where p: "p = (y, c')" by force
      obtain i' out' d' where h: "history ops c' = (i', out', d')" by (metis prod_cases3)
      with Cons.prems Take Some p have eq: "i = i'" "out = y # out'" "d = d'" by auto
      from Cons.IH [OF h] take_contents [OF Some [unfolded p]] eq show ?thesis by simp
    qed
  qed
qed

lemma offer_bound:
  "offer x c = Some c' \<Longrightarrow> length (contents c') \<le> bound c' \<and> bound c' = bound c"
  using offer_iff [of x c] offer_contents [of x c c'] by auto

lemma take_bound:
  "take1 c = Some (y, c') \<Longrightarrow> length (contents c) \<le> bound c \<Longrightarrow>
     length (contents c') \<le> bound c' \<and> bound c' = bound c"
  using take_contents [of c y c'] by auto

lemma history_bound:
  "history ops c = (i, out, d) \<Longrightarrow> length (contents c) \<le> bound c \<Longrightarrow>
     length (contents d) \<le> bound d \<and> bound d = bound c"
proof (induction ops arbitrary: c i out d)
  case Nil
  then show ?case by simp
next
  case (Cons a ops)
  show ?case
  proof (cases a)
    case (Offer x)
    show ?thesis
    proof (cases "offer x c")
      case None
      with Cons.IH [of c i out d] Cons.prems Offer show ?thesis by auto
    next
      case (Some c')
      obtain i' out' d' where h: "history ops c' = (i', out', d')" by (metis prod_cases3)
      with Cons.prems Offer Some have "d = d'" by auto
      with Cons.IH [OF h] offer_bound [OF Some] show ?thesis by simp
    qed
  next
    case Take
    show ?thesis
    proof (cases "take1 c")
      case None
      with Cons.IH [of c i out d] Cons.prems Take show ?thesis by auto
    next
      case (Some p)
      obtain y c' where p: "p = (y, c')" by force
      obtain i' out' d' where h: "history ops c' = (i', out', d')" by (metis prod_cases3)
      with Cons.prems Take Some p have "d = d'" by auto
      with Cons.IH [OF h] take_bound [OF Some [unfolded p] Cons.prems(2)] show ?thesis by simp
    qed
  qed
qed

end

section \<open>Channels satisfy the contract\<close>

definition chan_offer :: "'a \<Rightarrow> 'a chan \<Rightarrow> 'a chan option" where
  "chan_offer x c = (case chan_send x c of Sent c' \<Rightarrow> Some c' | Full \<Rightarrow> None | SendPanic \<Rightarrow> None)"

definition chan_take :: "'a chan \<Rightarrow> ('a \<times> 'a chan) option" where
  "chan_take c = (case chan_recv c of Received x c' \<Rightarrow> Some (x, c') | Drained \<Rightarrow> None | Empty \<Rightarrow> None)"

interpretation chanq: bounded_fifo ch_buf ch_cap chan_offer chan_take
  by unfold_locales
    (auto simp: chan_offer_def chan_send_def chan_take_def chan_recv_def
      split: if_splits list.splits)

lemma chan_offer_Sent: "chan_send x c = Sent c' \<longleftrightarrow> chan_offer x c = Some c'"
  by (auto simp: chan_offer_def split: sendResult.splits)

lemma chan_take_Received: "chan_recv c = Received x c' \<longleftrightarrow> chan_take c = Some (x, c')"
  by (auto simp: chan_take_def split: recvResult.splits)

lemma chan_send_closed: "chan_send x c = Sent c' \<Longrightarrow> \<not> ch_closed c \<and> \<not> ch_closed c'"
  by (auto simp: chan_send_def split: if_splits)

lemma chan_recv_closed: "chan_recv c = Received x c' \<Longrightarrow> ch_closed c' = ch_closed c"
  by (auto simp: chan_recv_def split: list.splits if_splits)

lemma chan_recv_Drained: "chan_recv c = Drained \<longleftrightarrow> ch_buf c = [] \<and> ch_closed c"
  by (auto simp: chan_recv_def split: list.splits)

end
