(* ===== verification/LogPipeline.thy ===== *)
theory LogPipeline
  imports LogEvents GoChannel
begin

text \<open>
  Model of the log pipeline of \<open>biz/base_log.go\<close>: the process-wide emitter, the bounded buffer
  between request handlers and the background worker (a step relation over \<open>Emit\<close>, \<open>run\<close>
  and \<open>close\<close>), the consumer that stores delivered messages, and the primary key it derives
  from a message id.  The queue of kratos-kit, \<open>encoding/json\<close> and the host's \<open>LogStore\<close> are
  parameters.
\<close>

section \<open>The primary key of a message\<close>

definition messageSequenceBits :: nat where
  "messageSequenceBits = 20"

definition hashKey :: "string \<Rightarrow> int64" where
  "hashKey messageID =
     (let value = fnv64a messageID AND MaxInt64 in if value = 0 then 1 else value)"

definition LogMessagePrimaryKey :: "string \<Rightarrow> int64" where
  "LogMessagePrimaryKey messageID =
     (if messageID = [] then 0
      else let parts = split_n2 (CHR ''-'') messageID in
        if length parts = 2 then
          (case parse_int64 (parts ! 0) of
             None \<Rightarrow> hashKey messageID
           | Some timestamp \<Rightarrow>
               if 0 < timestamp \<and> timestamp \<le> (2 ^ 63 - 1) div 2 ^ messageSequenceBits then
                 (case parse_int64 (parts ! 1) of
                    None \<Rightarrow> hashKey messageID
                  | Some sequence \<Rightarrow>
                      if 0 \<le> sequence \<and> sequence < 2 ^ messageSequenceBits
                      then push_bit messageSequenceBits (word_of_int timestamp) OR word_of_int sequence
                      else hashKey messageID)
               else hashKey messageID)
        else hashKey messageID)"

text \<open>The text of a stream id.\<close>

definition streamID :: "nat \<Rightarrow> nat \<Rightarrow> string" where
  "streamID ts seq = dec ts @ ''-'' @ dec seq"

definition streamIDOk :: "nat \<Rightarrow> nat \<Rightarrow> bool" where
  "streamIDOk ts seq \<longleftrightarrow> 0 < ts \<and> ts < 2 ^ 43 \<and> seq < 2 ^ 20"

lemma pack_inj:
  assumes "q < m" "q' < (m :: nat)"
  shows "t * m + q = t' * m + q' \<longleftrightarrow> t = t' \<and> q = q'"
proof
  assume eq: "t * m + q = t' * m + q'"
  have "(t * m + q) div m = t" "(t' * m + q') div m = t'" using assms by simp_all
  with eq have "t = t'" by simp
  with eq show "t = t' \<and> q = q'" by simp
qed simp

lemma hashKey_pos: "0 < sint (hashKey m)"
proof (cases "fnv64a m AND MaxInt64 = 0")
  case True
  then show ?thesis by (simp add: hashKey_def Let_def)
next
  case False
  have "0 \<le> sint (fnv64a m AND MaxInt64)" by (rule sint_and_MaxInt64)
  moreover have "sint (fnv64a m AND MaxInt64) \<noteq> 0"
    using False by (simp add: signed_eq_0_iff)
  ultimately show ?thesis using False by (simp add: hashKey_def Let_def)
qed

lemma stream_key_value:
  assumes "0 < t" "t \<le> (2 ^ 63 - 1) div 2 ^ 20" "0 \<le> q" "q < 2 ^ 20"
  shows "push_bit 20 (word_of_int t) OR word_of_int q = (word_of_int (t * 2 ^ 20 + q) :: int64)"
    and "uint (word_of_int (t * 2 ^ 20 + q) :: int64) = t * 2 ^ 20 + q"
    and "0 < t * 2 ^ 20 + q" and "t * 2 ^ 20 + q < 2 ^ 63"
proof -
  show "push_bit 20 (word_of_int t) OR word_of_int q = (word_of_int (t * 2 ^ 20 + q) :: int64)"
    using assms by (intro or_shift_word) simp_all
  have "t \<le> 8796093022207" using assms(2) by simp
  with assms show pos: "0 < t * 2 ^ 20 + q" and lt: "t * 2 ^ 20 + q < 2 ^ 63" by simp_all
  from pos lt show "uint (word_of_int (t * 2 ^ 20 + q) :: int64) = t * 2 ^ 20 + q"
    by (intro uint_word_of_int_small) simp_all
qed

lemma stream_key_pos:
  assumes "0 < t" "t \<le> (2 ^ 63 - 1) div 2 ^ 20" "0 \<le> q" "q < 2 ^ 20"
  shows "0 < sint (push_bit 20 (word_of_int t) OR word_of_int q :: int64)"
  using stream_key_value [OF assms] by (simp add: sint64_uint)

lemma key_pos: "m \<noteq> [] \<Longrightarrow> 0 < sint (LogMessagePrimaryKey m)"
  using hashKey_pos stream_key_pos
  by (simp add: LogMessagePrimaryKey_def Let_def messageSequenceBits_def split: option.split)

lemma key_stream:
  assumes "streamIDOk ts seq"
  shows "sint (LogMessagePrimaryKey (streamID ts seq)) = int ts * 2 ^ 20 + int seq"
proof -
  have minus: "CHR ''-'' \<notin> set (dec ts)"
    by (rule dec_no_char) (simp add: is_digit_def byte_val_def)
  then have "cut_char (CHR ''-'') (streamID ts seq) = (dec ts, dec seq, True)"
    by (simp add: cut_char_found streamID_def)
  then have parts: "split_n2 (CHR ''-'') (streamID ts seq) = [dec ts, dec seq]"
    by (simp add: split_n2_def)
  have ne: "streamID ts seq \<noteq> []" by (simp add: streamID_def)
  from assms have b: "0 < int ts" "int ts \<le> (2 ^ 63 - 1) div 2 ^ 20" "0 \<le> int seq" "int seq < 2 ^ 20"
    by (simp_all add: streamIDOk_def)
  from assms have p: "parse_int64 (dec ts) = Some (int ts)" "parse_int64 (dec seq) = Some (int seq)"
    by (auto simp: streamIDOk_def intro!: parse_int64_dec)
  have "LogMessagePrimaryKey (streamID ts seq)
      = push_bit 20 (word_of_int (int ts)) OR word_of_int (int seq)"
    using b by (simp add: LogMessagePrimaryKey_def ne parts p messageSequenceBits_def)
  with stream_key_value [OF b] show ?thesis by (simp add: sint64_uint)
qed

section \<open>Consuming a message\<close>

text \<open>A value of a queue message: a string or anything else.\<close>

datatype msgValue = StrValue string | OtherValue

record queueMessage =
  qm_id :: string
  qm_values :: "string \<Rightarrow> msgValue option"

text \<open>The host's log store.\<close>

record 's logStore =
  ls_createAPI :: "APILogRecord \<Rightarrow> 's \<Rightarrow> string option \<times> 's"
  ls_existsAPI :: "int64 \<Rightarrow> 's \<Rightarrow> (string, bool) result"
  ls_createPolicy :: "PolicyEvaluationLogRecord \<Rightarrow> 's \<Rightarrow> string option \<times> 's"
  ls_existsPolicy :: "int64 \<Rightarrow> 's \<Rightarrow> (string, bool) result"

datatype logErr =
  EmptyBody | BadBody string | UnknownKind string | StoreFailed string

definition settle ::
    "string option \<times> 's \<Rightarrow> int64 \<Rightarrow> ('s \<Rightarrow> (string, bool) result) \<Rightarrow> logErr option \<times> 's" where
  "settle r recordID exists =
     (case r of
        (None, s) \<Rightarrow> (None, s)
      | (Some e, s) \<Rightarrow>
          if recordID = 0 then (Some (StoreFailed e), s)
          else if exists s = Inr True then (None, s)
          else (Some (StoreFailed e), s))"

definition persist ::
    "'s logStore \<Rightarrow> goTime \<Rightarrow> LogEvent \<Rightarrow> int64 \<Rightarrow> 's \<Rightarrow> logErr option \<times> 's" where
  "persist st now event recordID s =
     (if ev_kind event = ''api'' then
        settle (ls_createAPI st ((apiLogFromEvent now event)\<lparr>al_iD := recordID\<rparr>) s) recordID
          (ls_existsAPI st recordID)
      else if ev_kind event = ''policy_evaluation'' then
        settle (ls_createPolicy st ((policyEvaluationLogFromEvent now event)\<lparr>pl_iD := recordID\<rparr>) s)
          recordID (ls_existsPolicy st recordID)
      else (Some (UnknownKind (ev_kind event)), s))"

definition Consume ::
    "(string \<Rightarrow> (string, LogEvent) result) \<Rightarrow> 's logStore \<Rightarrow> logEnv \<Rightarrow> queueMessage \<Rightarrow> 's
       \<Rightarrow> logErr option \<times> 's" where
  "Consume unmarshal st env message s =
     (case qm_values message ''data'' of
        Some (StrValue raw) \<Rightarrow>
          if raw = [] then (Some EmptyBody, s)
          else (case unmarshal raw of
              Inl e \<Rightarrow> (Some (BadBody e), s)
            | Inr event \<Rightarrow> persist st (le_now env) (normalizeLogEvent env event)
                (LogMessagePrimaryKey (qm_id message)) s)
      | _ \<Rightarrow> (Some EmptyBody, s))"

text \<open>
  What the code relies on of \<open>LogStore\<close> (\<open>data/log.go\<close>: a method creates one log, or tells whether the
  one with an id has been written), over the primary keys \<open>api s\<close> and \<open>policy s\<close> of the stored records:
  a create writes its record or nothing, a primary key other than zero only once; it has written it if
  it succeeds, while a failure does not tell; and an existence check that does not fail tells the truth.
\<close>

definition createsOne :: "('r \<Rightarrow> 's \<Rightarrow> string option \<times> 's) \<Rightarrow> ('r \<Rightarrow> int64) \<Rightarrow> ('s \<Rightarrow> int64 list) \<Rightarrow> ('s \<Rightarrow> int64 list) \<Rightarrow> bool" where
  "createsOne create key table other \<longleftrightarrow> (\<forall>r s e s'. create r s = (e, s') \<longrightarrow>
     other s' = other s
   \<and> (table s' = table s @ [key r] \<and> (key r = 0 \<or> key r \<notin> set (table s)) \<or> table s' = table s \<and> e \<noteq> None))"

definition tellsExists :: "(int64 \<Rightarrow> 's \<Rightarrow> (string, bool) result) \<Rightarrow> ('s \<Rightarrow> int64 list) \<Rightarrow> bool" where
  "tellsExists exists table \<longleftrightarrow> (\<forall>k s b. exists k s = Inr b \<longrightarrow> b = (k \<in> set (table s)))"

definition storeLaws :: "'s logStore \<Rightarrow> ('s \<Rightarrow> int64 list) \<Rightarrow> ('s \<Rightarrow> int64 list) \<Rightarrow> bool" where
  "storeLaws st api policy \<longleftrightarrow>
     createsOne (ls_createAPI st) al_iD api policy \<and> tellsExists (ls_existsAPI st) api
   \<and> createsOne (ls_createPolicy st) pl_iD policy api \<and> tellsExists (ls_existsPolicy st) policy"

text \<open>The kind under which an event is stored, and the tables of a kind and of the other.\<close>

definition storedKind :: "LogEvent \<Rightarrow> string" where
  "storedKind e = (if ev_kind e = [] then ''api'' else ev_kind e)"

definition keysFor :: "('s \<Rightarrow> int64 list) \<Rightarrow> ('s \<Rightarrow> int64 list) \<Rightarrow> string \<Rightarrow> 's \<Rightarrow> int64 list" where
  "keysFor api policy kind s = (if kind = ''api'' then api s else policy s)"

definition otherKeys :: "('s \<Rightarrow> int64 list) \<Rightarrow> ('s \<Rightarrow> int64 list) \<Rightarrow> string \<Rightarrow> 's \<Rightarrow> int64 list" where
  "otherKeys api policy kind s = (if kind = ''api'' then policy s else api s)"

lemma normalize_kind: "ev_kind (normalizeLogEvent env ev) = storedKind ev"
  by (simp add: normalizeLogEvent_def storedKind_def Let_def)

text \<open>One create and its look-up, over the table it writes to.\<close>

lemma settle_effect:
  assumes "createsOne create key table other" "tellsExists ex table" "create r s = c" "key r = k"
    and "settle c k (ex k) = (e, s')"
  shows "other s' = other s \<and> (table s' = table s \<or> table s' = table s @ [k] \<and> (k = 0 \<or> k \<notin> set (table s)))
    \<and> (e = None \<longrightarrow> k \<in> set (table s'))"
proof -
  obtain e1 s1 where c: "create r s = (e1, s1)" by fastforce
  have law: "other s1 = other s" "table s1 = table s @ [k] \<and> (k = 0 \<or> k \<notin> set (table s)) \<or> table s1 = table s \<and> e1 \<noteq> None"
    using assms(1,4) c unfolding createsOne_def by blast+
  have s1: "s' = s1" using assms(3,5) c by (auto simp: settle_def split: option.splits if_splits)
  have "k \<in> set (table s1)" if "e = None"
  proof (cases e1)
    case None
    then show ?thesis using law by auto
  next
    case (Some x)
    then have "ex k s1 = Inr True" using assms(3,5) c that by (auto simp: settle_def split: if_splits)
    then show ?thesis using assms(2) by (auto simp: tellsExists_def)
  qed
  then show ?thesis using law s1 by blast
qed

lemma settle_again:
  assumes "createsOne create key table other" "tellsExists ex table" "key r = k" "k \<noteq> 0" "k \<in> set (table s)"
    and "\<And>t. \<exists>b. ex k t = Inr b"
  shows "\<exists>s'. settle (create r s) k (ex k) = (None, s') \<and> table s' = table s \<and> other s' = other s"
proof -
  obtain e s1 where c: "create r s = (e, s1)" by fastforce
  have law: "other s1 = other s" "table s1 = table s @ [key r] \<and> (key r = 0 \<or> key r \<notin> set (table s)) \<or> table s1 = table s \<and> e \<noteq> None"
    using assms(1) c unfolding createsOne_def by blast+
  from law(2) have t: "table s1 = table s \<and> e \<noteq> None" using assms(3-5) by blast
  obtain b where b: "ex k s1 = Inr b" using assms(6) by blast
  then have "b" using assms(2,5) t unfolding tellsExists_def by metis
  then have "ex k s1 = Inr True" using b by simp
  then show ?thesis using c t law(1) assms(4) by (auto simp: settle_def)
qed

lemma persist_effect:
  assumes "storeLaws st api policy" and "persist st now ev k s = (e, s')"
  shows "otherKeys api policy (ev_kind ev) s' = otherKeys api policy (ev_kind ev) s
    \<and> (keysFor api policy (ev_kind ev) s' = keysFor api policy (ev_kind ev) s
       \<or> keysFor api policy (ev_kind ev) s' = keysFor api policy (ev_kind ev) s @ [k]
         \<and> (k = 0 \<or> k \<notin> set (keysFor api policy (ev_kind ev) s)))
    \<and> (e = None \<longrightarrow> ev_kind ev \<in> {''api'', ''policy_evaluation''} \<and> k \<in> set (keysFor api policy (ev_kind ev) s'))"
proof -
  have L: "createsOne (ls_createAPI st) al_iD api policy" "tellsExists (ls_existsAPI st) api"
    "createsOne (ls_createPolicy st) pl_iD policy api" "tellsExists (ls_existsPolicy st) policy"
    using assms(1) by (simp_all add: storeLaws_def)
  consider "ev_kind ev = ''api''" | "ev_kind ev = ''policy_evaluation''"
    | "ev_kind ev \<notin> {''api'', ''policy_evaluation''}" by blast
  then show ?thesis
  proof cases
    case 1
    with assms(2) have "settle (ls_createAPI st ((apiLogFromEvent now ev)\<lparr>al_iD := k\<rparr>) s) k (ls_existsAPI st k) = (e, s')"
      by (simp add: persist_def)
    from settle_effect [OF L(1,2) refl _ this] 1 show ?thesis by (simp add: keysFor_def otherKeys_def)
  next
    case 2
    with assms(2) have "settle (ls_createPolicy st ((policyEvaluationLogFromEvent now ev)\<lparr>pl_iD := k\<rparr>) s) k (ls_existsPolicy st k) = (e, s')"
      by (simp add: persist_def)
    from settle_effect [OF L(3,4) refl _ this] 2 show ?thesis by (simp add: keysFor_def otherKeys_def)
  next
    case 3
    then show ?thesis using assms(2) by (auto simp: persist_def)
  qed
qed

lemma persist_again:
  assumes laws: "storeLaws st api policy" and "k \<noteq> 0" and "k \<in> set (keysFor api policy (ev_kind ev) s)"
    and kind: "ev_kind ev \<in> {''api'', ''policy_evaluation''}"
    and up: "\<And>t. \<exists>b. ls_existsAPI st k t = Inr b" "\<And>t. \<exists>b. ls_existsPolicy st k t = Inr b"
  shows "\<exists>s'. persist st now ev k s = (None, s') \<and> api s' = api s \<and> policy s' = policy s"
proof (cases "ev_kind ev = ''api''")
  case True
  have L: "createsOne (ls_createAPI st) al_iD api policy" "tellsExists (ls_existsAPI st) api"
    using laws by (simp_all add: storeLaws_def)
  have "al_iD ((apiLogFromEvent now ev)\<lparr>al_iD := k\<rparr>) = k" "k \<in> set (api s)" using assms(3) True by (simp_all add: keysFor_def)
  from settle_again [OF L this(1) assms(2) this(2) up(1)] True show ?thesis by (auto simp: persist_def)
next
  case False
  with kind have p: "ev_kind ev = ''policy_evaluation''" by simp
  have L: "createsOne (ls_createPolicy st) pl_iD policy api" "tellsExists (ls_existsPolicy st) policy"
    using laws by (simp_all add: storeLaws_def)
  have "pl_iD ((policyEvaluationLogFromEvent now ev)\<lparr>pl_iD := k\<rparr>) = k" "k \<in> set (policy s)"
    using assms(3) p by (simp_all add: keysFor_def)
  from settle_again [OF L this(1) assms(2) this(2) up(2)] p show ?thesis by (auto simp: persist_def)
qed

section \<open>The pipeline\<close>

definition logBufferSize :: nat where
  "logBufferSize = 2048"

definition LogEventStream :: string where
  "LogEventStream = ''base.log.event''"

text \<open>Where the background worker is: at the head of its \<open>range\<close> loop, in the body with an
  event, or returned (\<open>worker.Done\<close>).\<close>

datatype workerState = Waiting | Delivering LogEvent | WorkerDone

text \<open>
  The state: the channel, the \<open>closed\<close> flag, the worker, the calls of \<open>queue.Append\<close> made so far, and
  for each of them whether the queue took the message.  Three fields record the history: the events
  accepted by \<open>Emit\<close> and those whose body has run, in order, and whether a send panicked.
\<close>

record pipeline =
  pl_events :: "LogEvent chan"
  pl_closed :: bool
  pl_worker :: workerState
  pl_appended :: "(string \<times> string) list"
  pl_taken :: "bool list"
  pl_accepted :: "LogEvent list"
  pl_processed :: "LogEvent list"
  pl_panic :: bool

definition newLogPipeline :: pipeline where
  "newLogPipeline = \<lparr>pl_events = chan_make logBufferSize, pl_closed = False, pl_worker = Waiting,
     pl_appended = [], pl_taken = [], pl_accepted = [], pl_processed = [], pl_panic = False\<rparr>"

datatype emitErr = BufferClosed | BufferFull

text \<open>\<open>Emit\<close> runs under the read lock, \<open>closePipeline\<close> (the first part of \<open>close\<close>) under the
  write lock, so each is one step.\<close>

definition Emit :: "logEnv \<Rightarrow> LogEvent \<Rightarrow> pipeline \<Rightarrow> emitErr option \<times> pipeline" where
  "Emit env event p =
     (let event = normalizeLogEvent env event in
      if pl_closed p then (Some BufferClosed, p)
      else case chan_send event (pl_events p) of
        Sent c \<Rightarrow> (None, p\<lparr>pl_events := c, pl_accepted := pl_accepted p @ [event]\<rparr>)
      | Full \<Rightarrow> (Some BufferFull, p)
      | SendPanic \<Rightarrow> (Some BufferClosed, p\<lparr>pl_panic := True\<rparr>))"

definition closePipeline :: "pipeline \<Rightarrow> pipeline" where
  "closePipeline p =
     (if pl_closed p then p
      else case chan_close (pl_events p) of
        Some c \<Rightarrow> p\<lparr>pl_closed := True, pl_events := c\<rparr>
      | None \<Rightarrow> p\<lparr>pl_closed := True, pl_panic := True\<rparr>)"

text \<open>
  The worker: receive, or the body of the loop; an event that cannot be serialized is logged and
  skipped, and one that \<open>Append\<close> refuses (\<open>takes\<close> is False) is logged and dropped.  None when the worker
  waits or has returned.
\<close>

definition workerStep :: "(LogEvent \<Rightarrow> (string, string) result) \<Rightarrow> bool \<Rightarrow> pipeline \<Rightarrow> pipeline option" where
  "workerStep marshal takes p =
     (case pl_worker p of
        Waiting \<Rightarrow> (case chan_recv (pl_events p) of
            Received e c \<Rightarrow> Some (p\<lparr>pl_events := c, pl_worker := Delivering e\<rparr>)
          | Drained \<Rightarrow> Some (p\<lparr>pl_worker := WorkerDone\<rparr>)
          | Empty \<Rightarrow> None)
      | Delivering e \<Rightarrow>
          let p' = p\<lparr>pl_worker := Waiting, pl_processed := pl_processed p @ [e]\<rparr> in
          (case marshal e of
             Inl _ \<Rightarrow> Some p'
           | Inr body \<Rightarrow> Some (p'\<lparr>pl_appended := pl_appended p @ [(LogEventStream, body)],
                               pl_taken := pl_taken p @ [takes]\<rparr>))
      | WorkerDone \<Rightarrow> None)"

inductive pipe_step :: "(LogEvent \<Rightarrow> (string, string) result) \<Rightarrow> pipeline \<Rightarrow> pipeline \<Rightarrow> bool"
  for marshal where
  emit: "Emit env e p = (r, p') \<Longrightarrow> pipe_step marshal p p'"
| close_it: "pipe_step marshal p (closePipeline p)"
| work: "workerStep marshal takes p = Some p' \<Longrightarrow> pipe_step marshal p p'"

inductive pipe_reach :: "(LogEvent \<Rightarrow> (string, string) result) \<Rightarrow> pipeline \<Rightarrow> bool"
  for marshal where
  start: "pipe_reach marshal newLogPipeline"
| step: "pipe_reach marshal p \<Longrightarrow> pipe_step marshal p p' \<Longrightarrow> pipe_reach marshal p'"

inductive_cases pipe_stepE: "pipe_step marshal p p'"

definition inflight :: "pipeline \<Rightarrow> LogEvent list" where
  "inflight p = (case pl_worker p of Waiting \<Rightarrow> [] | Delivering e \<Rightarrow> [e] | WorkerDone \<Rightarrow> [])"

text \<open>The bodies that serialize, as \<open>Append\<close> gets them.\<close>

definition bodies :: "(LogEvent \<Rightarrow> (string, string) result) \<Rightarrow> LogEvent list \<Rightarrow> (string \<times> string) list" where
  "bodies marshal es =
     concat (map (\<lambda>e. case marshal e of Inl _ \<Rightarrow> [] | Inr b \<Rightarrow> [(LogEventStream, b)]) es)"

definition pipe_inv :: "(LogEvent \<Rightarrow> (string, string) result) \<Rightarrow> pipeline \<Rightarrow> bool" where
  "pipe_inv marshal p \<longleftrightarrow>
     pl_accepted p = pl_processed p @ inflight p @ ch_buf (pl_events p)
     \<and> pl_appended p = bodies marshal (pl_processed p) \<and> length (pl_taken p) = length (pl_appended p)
     \<and> length (ch_buf (pl_events p)) \<le> ch_cap (pl_events p) \<and> ch_cap (pl_events p) = logBufferSize
     \<and> ch_closed (pl_events p) = pl_closed p \<and> \<not> pl_panic p
     \<and> (pl_worker p = WorkerDone \<longrightarrow> pl_closed p \<and> ch_buf (pl_events p) = [])"

lemma Emit_result:
  assumes "Emit env e p = (r, p')"
  shows "p' = p \<and> r \<noteq> None \<or>
    (\<exists>c. chan_offer (normalizeLogEvent env e) (pl_events p) = Some c \<and> \<not> pl_closed p \<and> r = None
       \<and> p' = p\<lparr>pl_events := c, pl_accepted := pl_accepted p @ [normalizeLogEvent env e]\<rparr>)
    \<or> (\<not> pl_closed p \<and> ch_closed (pl_events p))"
  using assms
  by (auto simp: Emit_def Let_def chan_offer_def chan_send_def split: if_splits sendResult.splits)

lemma Emit_inv:
  assumes "pipe_inv marshal p" and "Emit env e p = (r, p')"
  shows "pipe_inv marshal p'"
proof -
  from assms(1) have sync: "ch_closed (pl_events p) = pl_closed p" by (simp add: pipe_inv_def)
  from Emit_result [OF assms(2)] sync consider "p' = p"
    | c where "chan_offer (normalizeLogEvent env e) (pl_events p) = Some c" "\<not> pl_closed p"
      "p' = p\<lparr>pl_events := c, pl_accepted := pl_accepted p @ [normalizeLogEvent env e]\<rparr>" by auto
  then show ?thesis
  proof cases
    case 1
    with assms(1) show ?thesis by simp
  next
    case 2
    from chanq.offer_contents [OF 2(1)] chanq.offer_bound [OF 2(1)]
      chan_send_closed [of "normalizeLogEvent env e" "pl_events p" c] 2(1) sync assms(1) 2
    show ?thesis by (auto simp: pipe_inv_def inflight_def chan_offer_Sent)
  qed
qed

lemma close_inv: "pipe_inv marshal p \<Longrightarrow> pipe_inv marshal (closePipeline p)"
  by (auto simp: pipe_inv_def closePipeline_def chan_close_def inflight_def)

lemma bodies_snoc:
  "bodies marshal (es @ [e]) = bodies marshal es
     @ (case marshal e of Inl _ \<Rightarrow> [] | Inr b \<Rightarrow> [(LogEventStream, b)])"
  by (simp add: bodies_def)

lemma work_inv:
  assumes inv: "pipe_inv marshal p" and step: "workerStep marshal takes p = Some p'"
  shows "pipe_inv marshal p'"
proof (cases "pl_worker p")
  case Waiting
  show ?thesis
  proof (cases "chan_recv (pl_events p)")
    case (Received e c)
    with Waiting step have p': "p' = p\<lparr>pl_events := c, pl_worker := Delivering e\<rparr>"
      by (simp add: workerStep_def)
    from Received have "chan_take (pl_events p) = Some (e, c)" by (simp add: chan_take_Received)
    from chanq.take_contents [OF this] chanq.take_bound [OF this] chan_recv_closed [OF Received]
      inv p' Waiting
    show ?thesis by (auto simp: pipe_inv_def inflight_def)
  next
    case Drained
    with Waiting step inv show ?thesis
      by (auto simp: workerStep_def pipe_inv_def inflight_def chan_recv_Drained)
  next
    case Empty
    with Waiting step show ?thesis by (simp add: workerStep_def)
  qed
next
  case (Delivering e)
  with step inv show ?thesis
    by (auto simp: workerStep_def pipe_inv_def inflight_def bodies_snoc Let_def split: sum.splits)
next
  case WorkerDone
  with step show ?thesis by (simp add: workerStep_def)
qed

lemma pipe_reach_inv: "pipe_reach marshal p \<Longrightarrow> pipe_inv marshal p"
proof (induction rule: pipe_reach.induct)
  case start
  show ?case
    by (simp add: pipe_inv_def newLogPipeline_def inflight_def chan_make_def bodies_def)
next
  case (step p p')
  from step.hyps(2) show ?case
    by (rule pipe_stepE) (use step.IH Emit_inv close_inv work_inv in blast)+
qed

text \<open>After \<open>close\<close> the worker needs at most two steps for each buffered event; \<open>takes\<close> tells what the
  queue does with the n-th call of \<open>Append\<close>.\<close>

fun drain :: "(LogEvent \<Rightarrow> (string, string) result) \<Rightarrow> (nat \<Rightarrow> bool) \<Rightarrow> nat \<Rightarrow> pipeline \<Rightarrow> pipeline option" where
  "drain marshal takes 0 p = (if pl_worker p = WorkerDone then Some p else None)"
| "drain marshal takes (Suc n) p =
     (if pl_worker p = WorkerDone then Some p
      else (case workerStep marshal (takes (length (pl_appended p))) p of None \<Rightarrow> None | Some p' \<Rightarrow> drain marshal takes n p'))"

definition workLeft :: "pipeline \<Rightarrow> nat" where
  "workLeft p = 2 * length (ch_buf (pl_events p))
     + (case pl_worker p of Waiting \<Rightarrow> 1 | Delivering _ \<Rightarrow> 2 | WorkerDone \<Rightarrow> 0)"

lemma workerStep_left:
  assumes "pl_worker p \<noteq> WorkerDone" and "ch_closed (pl_events p)"
  shows "\<exists>p'. workerStep marshal takes p = Some p' \<and> workLeft p' < workLeft p
    \<and> ch_closed (pl_events p') \<and> pl_accepted p' = pl_accepted p"
proof (cases "pl_worker p")
  case Waiting
  with assms(2) show ?thesis
    by (cases "ch_buf (pl_events p)")
      (auto simp: workerStep_def workLeft_def chan_recv_def)
next
  case (Delivering e)
  with assms(2) show ?thesis
    by (auto simp: workerStep_def workLeft_def Let_def split: sum.split)
next
  case WorkerDone
  with assms show ?thesis by simp
qed

lemma drain_done:
  "ch_closed (pl_events p) \<Longrightarrow> workLeft p \<le> n \<Longrightarrow>
     \<exists>q. drain marshal takes n p = Some q \<and> pl_worker q = WorkerDone \<and> pl_accepted q = pl_accepted p"
proof (induction n arbitrary: p)
  case 0
  then show ?case by (cases "pl_worker p") (simp_all add: workLeft_def)
next
  case (Suc n)
  show ?case
  proof (cases "pl_worker p = WorkerDone")
    case True
    then show ?thesis by simp
  next
    case False
    from workerStep_left [OF False Suc.prems(1)] obtain p' where p':
      "workerStep marshal (takes (length (pl_appended p))) p = Some p'" "workLeft p' < workLeft p" "ch_closed (pl_events p')"
      "pl_accepted p' = pl_accepted p" by blast
    with Suc.prems have "workLeft p' \<le> n" by simp
    with Suc.IH p' False show ?thesis by fastforce
  qed
qed

lemma drain_inv:
  "pipe_inv marshal p \<Longrightarrow> drain marshal takes n p = Some q \<Longrightarrow> pipe_inv marshal q"
proof (induction n arbitrary: p)
  case 0
  then show ?case by (auto split: if_splits)
next
  case (Suc n)
  then show ?case by (auto split: if_splits option.splits dest: work_inv)
qed

section \<open>The process-wide emitter\<close>

text \<open>\<open>logEmitterState.emitter\<close>: nil or the pipeline of the process.\<close>

definition EmitLog ::
    "bool \<Rightarrow> logEnv \<Rightarrow> LogEvent \<Rightarrow> pipeline \<Rightarrow> emitErr option \<times> pipeline" where
  "EmitLog isSet env event p = (if isSet then Emit env event p else (None, p))"

section \<open>Properties\<close>

text \<open>The pipeline after close and the steps its worker has left.\<close>

lemma closed_drained:
  assumes "pipe_reach marshal p"
  shows "\<exists>q. drain marshal takes (workLeft (closePipeline p)) (closePipeline p) = Some q
    \<and> pl_worker q = WorkerDone \<and> pl_processed q = pl_accepted p
    \<and> pl_appended q = bodies marshal (pl_accepted p)
    \<and> (\<forall>env e. Emit env e q = (Some BufferClosed, q))"
proof -
  have inv: "pipe_inv marshal (closePipeline p)" by (intro close_inv pipe_reach_inv assms)
  have cl: "pl_closed (closePipeline p)"
    by (auto simp: closePipeline_def split: option.splits)
  with inv have ch: "ch_closed (pl_events (closePipeline p))" by (simp add: pipe_inv_def)
  have acc: "pl_accepted (closePipeline p) = pl_accepted p"
    by (auto simp: closePipeline_def split: option.splits)
  from drain_done [OF ch order_refl] obtain q where q:
    "drain marshal takes (workLeft (closePipeline p)) (closePipeline p) = Some q"
    "pl_worker q = WorkerDone" "pl_accepted q = pl_accepted (closePipeline p)" by blast
  have "pipe_inv marshal q" using drain_inv [OF inv q(1)] .
  with q acc show ?thesis by (auto simp: pipe_inv_def inflight_def Emit_def Let_def)
qed

text \<open>C7. In every reachable state of the pipeline, whatever the interleaving of request
  handlers, worker and shutdown, the accepted events are those already handed to the queue, then
  the one in the worker's hands, then the buffered ones, in their order: none is lost, duplicated
  or reordered; the buffer holds at most 2048 events; no send ever hits a closed channel; and the
  messages appended to the queue are the serializable processed events, in order.\<close>

theorem pipeline_invariant:
  assumes "pipe_reach marshal p"
  shows "pl_accepted p = pl_processed p @ inflight p @ ch_buf (pl_events p)
    \<and> length (ch_buf (pl_events p)) \<le> 2048 \<and> \<not> pl_panic p
    \<and> pl_appended p = bodies marshal (pl_processed p)"
  using pipe_reach_inv [OF assms] by (simp add: pipe_inv_def logBufferSize_def)

theorem pipeline_invariant_witness:
  "\<not> pl_panic (snd (Emit \<lparr>le_now = 1, le_newID = ''id'', le_defaultTenant = ''t''\<rparr> emptyEvent newLogPipeline))"
proof -
  have "pipe_reach (\<lambda>e. Inr (ev_requestID e))
      (snd (Emit \<lparr>le_now = 1, le_newID = ''id'', le_defaultTenant = ''t''\<rparr> emptyEvent newLogPipeline))"
    by (rule pipe_reach.step [OF pipe_reach.start pipe_step.emit]) (rule surjective_pairing)
  from pipeline_invariant [OF this] show ?thesis by simp
qed

text \<open>C23. Shutdown drains: from any reachable state, after \<open>close\<close> has marked the pipeline closed
  the worker returns by itself within two steps for each buffered event (so \<open>close\<close> returns),
  every event that was ever accepted has then been offered to the queue, in order, and \<open>Emit\<close>
  refuses from then on.\<close>

theorem close_drains:
  assumes "pipe_reach marshal p"
  shows "\<exists>q. drain marshal takes (workLeft (closePipeline p)) (closePipeline p) = Some q
    \<and> pl_worker q = WorkerDone \<and> pl_processed q = pl_accepted p
    \<and> pl_appended q = bodies marshal (pl_accepted p)
    \<and> (\<forall>env e. Emit env e q = (Some BufferClosed, q))"
  using assms by (rule closed_drained)

theorem close_drains_witness:
  "\<exists>q. drain (\<lambda>e. Inr (ev_requestID e)) (\<lambda>_. True) (workLeft (closePipeline newLogPipeline))
      (closePipeline newLogPipeline) = Some q \<and> pl_worker q = WorkerDone"
  using close_drains [OF pipe_reach.start [of "\<lambda>e. Inr (ev_requestID e)"]] by blast

text \<open>C38. The primary key of a message is zero exactly for the empty message id and otherwise a
  positive \<open>int64\<close>, hash fallback included; and on stream ids \<open>timestamp-sequence\<close> (time stamps
  below \<open>2^43\<close>, sequence numbers below \<open>2^20\<close>) it is injective and follows the order of the
  stream.\<close>

theorem LogMessagePrimaryKey_correct:
  "(sint (LogMessagePrimaryKey m) = 0 \<longleftrightarrow> m = []) \<and> 0 \<le> sint (LogMessagePrimaryKey m)
   \<and> (streamIDOk ts seq \<longrightarrow> streamIDOk ts' seq' \<longrightarrow>
       (LogMessagePrimaryKey (streamID ts seq) = LogMessagePrimaryKey (streamID ts' seq')
          \<longleftrightarrow> ts = ts' \<and> seq = seq')
       \<and> (sint (LogMessagePrimaryKey (streamID ts seq)) < sint (LogMessagePrimaryKey (streamID ts' seq'))
          \<longleftrightarrow> ts < ts' \<or> ts = ts' \<and> seq < seq'))"
proof (intro conjI impI)
  have nil: "LogMessagePrimaryKey [] = 0" by (simp add: LogMessagePrimaryKey_def)
  show "sint (LogMessagePrimaryKey m) = 0 \<longleftrightarrow> m = []"
    using key_pos [of m] nil by (cases "m = []") auto
  show "0 \<le> sint (LogMessagePrimaryKey m)"
    using key_pos [of m] nil by (cases "m = []") auto
  assume ok: "streamIDOk ts seq" "streamIDOk ts' seq'"
  note key = key_stream [OF ok(1)] key_stream [OF ok(2)]
  have b: "seq < 2 ^ 20" "seq' < 2 ^ 20" using ok by (simp_all add: streamIDOk_def)
  have "int ts * 2 ^ 20 + int seq < int ts' * 2 ^ 20 + int seq' \<longleftrightarrow> ts < ts' \<or> ts = ts' \<and> seq < seq'"
    using b by auto
  with key show "sint (LogMessagePrimaryKey (streamID ts seq)) < sint (LogMessagePrimaryKey (streamID ts' seq'))
          \<longleftrightarrow> ts < ts' \<or> ts = ts' \<and> seq < seq'" by simp
  have "int ts * 2 ^ 20 + int seq = int ts' * 2 ^ 20 + int seq' \<longleftrightarrow> ts = ts' \<and> seq = seq'"
  proof -
    have "int ts * 2 ^ 20 + int seq = int (ts * 2 ^ 20 + seq)"
      and "int ts' * 2 ^ 20 + int seq' = int (ts' * 2 ^ 20 + seq')" by simp_all
    then show ?thesis by (simp only: of_nat_eq_iff pack_inj [OF b])
  qed
  with key show "LogMessagePrimaryKey (streamID ts seq) = LogMessagePrimaryKey (streamID ts' seq')
          \<longleftrightarrow> ts = ts' \<and> seq = seq'" by metis
qed

theorem LogMessagePrimaryKey_correct_witness:
  "LogMessagePrimaryKey (streamID 1700000000000 1) \<noteq> LogMessagePrimaryKey (streamID 1700000000000 2)"
proof -
  have "streamIDOk 1700000000000 1" "streamIDOk 1700000000000 2" by (simp_all add: streamIDOk_def)
  then show ?thesis
    using LogMessagePrimaryKey_correct [of "[]" 1700000000000 1 1700000000000 2] by simp
qed

text \<open>C24. Consuming is idempotent and never acknowledges a loss: if a message with an id is
  acknowledged, it carried an event of a known kind, a record with the primary key of the message is in
  the table of that kind, appended now or there before but never twice, and the other table is as it was;
  and delivering the same message again, at any later clock reading, is acknowledged without adding a
  record to either table, provided the existence checks for that key do not fail.\<close>

theorem Consume_idempotent:
  assumes laws: "storeLaws st api policy" and id: "qm_id msg \<noteq> []"
    and ok: "Consume unmarshal st env msg s = (None, s')"
    and up: "\<And>t. \<exists>b. ls_existsAPI st (LogMessagePrimaryKey (qm_id msg)) t = Inr b"
      "\<And>t. \<exists>b. ls_existsPolicy st (LogMessagePrimaryKey (qm_id msg)) t = Inr b"
  shows "\<exists>raw event. qm_values msg ''data'' = Some (StrValue raw) \<and> unmarshal raw = Inr event
    \<and> storedKind event \<in> {''api'', ''policy_evaluation''}
    \<and> LogMessagePrimaryKey (qm_id msg) \<in> set (keysFor api policy (storedKind event) s')
    \<and> (keysFor api policy (storedKind event) s' = keysFor api policy (storedKind event) s
       \<or> keysFor api policy (storedKind event) s'
           = keysFor api policy (storedKind event) s @ [LogMessagePrimaryKey (qm_id msg)]
         \<and> LogMessagePrimaryKey (qm_id msg) \<notin> set (keysFor api policy (storedKind event) s))
    \<and> otherKeys api policy (storedKind event) s' = otherKeys api policy (storedKind event) s
    \<and> (\<exists>s''. Consume unmarshal st env' msg s' = (None, s'') \<and> api s'' = api s' \<and> policy s'' = policy s')"
proof -
  let ?k = "LogMessagePrimaryKey (qm_id msg)"
  from key_pos [OF id] have k: "?k \<noteq> 0" by auto
  from ok obtain raw ev where m: "qm_values msg ''data'' = Some (StrValue raw)" "raw \<noteq> []"
      "unmarshal raw = Inr ev"
    and p: "persist st (le_now env) (normalizeLogEvent env ev) ?k s = (None, s')"
    by (auto simp: Consume_def split: option.splits msgValue.splits if_splits sum.splits)
  note a = persist_effect [OF laws p, unfolded normalize_kind]
  obtain s'' where "persist st (le_now env') (normalizeLogEvent env' ev) ?k s' = (None, s'')"
      "api s'' = api s'" "policy s'' = policy s'"
    using a persist_again [OF laws k _ _ up, of "normalizeLogEvent env' ev" s' "le_now env'"]
    unfolding normalize_kind by auto
  then have "\<exists>s''. Consume unmarshal st env' msg s' = (None, s'') \<and> api s'' = api s' \<and> policy s'' = policy s'"
    using m by (simp add: Consume_def)
  then show ?thesis using a k m by blast
qed

text \<open>A store that keeps the records in lists and rejects a second record with the same key.\<close>

type_synonym listStore = "APILogRecord list \<times> PolicyEvaluationLogRecord list"

definition listStoreOps :: "listStore logStore" where
  "listStoreOps = \<lparr>
     ls_createAPI = (\<lambda>r (a, p). if al_iD r \<noteq> 0 \<and> al_iD r \<in> set (map al_iD a)
       then (Some ''duplicate'', (a, p)) else (None, (a @ [r], p))),
     ls_existsAPI = (\<lambda>k (a, p). Inr (k \<in> set (map al_iD a))),
     ls_createPolicy = (\<lambda>r (a, p). if pl_iD r \<noteq> 0 \<and> pl_iD r \<in> set (map pl_iD p)
       then (Some ''duplicate'', (a, p)) else (None, (a, p @ [r]))),
     ls_existsPolicy = (\<lambda>k (a, p). Inr (k \<in> set (map pl_iD p)))\<rparr>"

lemma listStore_laws: "storeLaws listStoreOps (\<lambda>s. map al_iD (fst s)) (\<lambda>s. map pl_iD (snd s))"
  unfolding storeLaws_def listStoreOps_def createsOne_def tellsExists_def by (auto split: if_splits)

definition exampleMessage :: queueMessage where
  "exampleMessage = \<lparr>qm_id = ''1700000000000-1'', qm_values = [''data'' \<mapsto> StrValue ''body'']\<rparr>"

definition exampleEnv :: logEnv where
  "exampleEnv = \<lparr>le_now = 5, le_newID = ''id'', le_defaultTenant = ''t''\<rparr>"

theorem Consume_idempotent_witness:
  "\<exists>s1 s2. Consume (\<lambda>b. Inr emptyEvent) listStoreOps exampleEnv exampleMessage ([], []) = (None, s1)
    \<and> map al_iD (fst s1) = [LogMessagePrimaryKey ''1700000000000-1''] \<and> map pl_iD (snd s1) = []
    \<and> Consume (\<lambda>b. Inr emptyEvent) listStoreOps (exampleEnv\<lparr>le_now := 9\<rparr>) exampleMessage s1 = (None, s2)
    \<and> map al_iD (fst s2) = map al_iD (fst s1)"
proof -
  obtain s1 where ok: "Consume (\<lambda>b. Inr emptyEvent) listStoreOps exampleEnv exampleMessage ([], []) = (None, s1)"
    by (simp add: Consume_def exampleMessage_def persist_def normalizeLogEvent_def emptyEvent_def
        listStoreOps_def settle_def Let_def)
  have up: "\<exists>b. ls_existsAPI listStoreOps k s = Inr b" "\<exists>b. ls_existsPolicy listStoreOps k s = Inr b"
    for k s by (simp_all add: listStoreOps_def split: prod.splits)
  have id: "qm_id exampleMessage = ''1700000000000-1''" by (simp add: exampleMessage_def)
  then have ne: "qm_id exampleMessage \<noteq> []" by simp
  have kind: "storedKind emptyEvent = ''api''" by (simp add: storedKind_def emptyEvent_def)
  let ?k = "LogMessagePrimaryKey ''1700000000000-1''" and ?key = "keysFor (\<lambda>s :: listStore. map al_iD (fst s)) (\<lambda>s. map pl_iD (snd s))"
    and ?other = "otherKeys (\<lambda>s :: listStore. map al_iD (fst s)) (\<lambda>s. map pl_iD (snd s))"
  from Consume_idempotent [OF listStore_laws ne ok up, where env' = "exampleEnv\<lparr>le_now := 9\<rparr>"]
  obtain event s2 where e: "event = emptyEvent" and f: "?k \<in> set (?key (storedKind event) s1)"
    "?key (storedKind event) s1 = ?key (storedKind event) ([], []) \<or> ?key (storedKind event) s1 = ?key (storedKind event) ([], []) @ [?k]"
    "?other (storedKind event) s1 = ?other (storedKind event) ([], [])"
    "Consume (\<lambda>b. Inr emptyEvent) listStoreOps (exampleEnv\<lparr>le_now := 9\<rparr>) exampleMessage s1 = (None, s2)"
    "map al_iD (fst s2) = map al_iD (fst s1)"
    unfolding id by blast
  from f(1-3) have "map al_iD (fst s1) = [?k]" "map pl_iD (snd s1) = []"
    unfolding e kind keysFor_def otherKeys_def by auto
  then show ?thesis using ok f(4,5) by (intro exI [of _ s1] exI [of _ s2] conjI)
qed

end
