(* ===== verification/Emitter.thy ===== *)
theory Emitter
  imports LogPipeline
begin

text \<open>
  The process-wide part of \<open>biz/base_log.go\<close>: the emitter that \<open>NewLogPipeline\<close> registers, its
  cleanup, and \<open>EmitLog\<close>, which reads the emitter and then calls it, so that another goroutine can
  replace or close it in between.  A process holds its pipelines in the order of their creation;
  the emitter is nil or one of them.
\<close>

section \<open>State and operations\<close>

record processLogs =
  pg_emitter :: "nat option"
  pg_pipelines :: "pipeline list"

definition emptyProcess :: processLogs where
  "emptyProcess = \<lparr>pg_emitter = None, pg_pipelines = []\<rparr>"

definition SetLogEmitter :: "nat option \<Rightarrow> processLogs \<Rightarrow> processLogs" where
  "SetLogEmitter v g = g\<lparr>pg_emitter := v\<rparr>"

definition NewLogPipeline :: "processLogs \<Rightarrow> processLogs" where
  "NewLogPipeline g = SetLogEmitter (Some (length (pg_pipelines g))) (g\<lparr>pg_pipelines := pg_pipelines g @ [newLogPipeline]\<rparr>)"

text \<open>The two steps of the cleanup of a pipeline.\<close>

definition cleanupEmitter :: "processLogs \<Rightarrow> processLogs" where
  "cleanupEmitter g = SetLogEmitter None g"

definition cleanupClose :: "nat \<Rightarrow> processLogs \<Rightarrow> processLogs" where
  "cleanupClose i g = g\<lparr>pg_pipelines := (pg_pipelines g)[i := closePipeline (pg_pipelines g ! i)]\<rparr>"

text \<open>\<open>EmitLog\<close>: the emitter it reads, and the call on what it has read.\<close>

definition emitRead :: "processLogs \<Rightarrow> nat option" where
  "emitRead g = pg_emitter g"

definition emitCall :: "nat option \<Rightarrow> logEnv \<Rightarrow> LogEvent \<Rightarrow> processLogs \<Rightarrow> emitErr option \<times> processLogs" where
  "emitCall v env e g = (case v of None \<Rightarrow> (None, g)
    | Some i \<Rightarrow> (case Emit env e (pg_pipelines g ! i) of (r, p) \<Rightarrow> (r, g\<lparr>pg_pipelines := (pg_pipelines g)[i := p]\<rparr>)))"

text \<open>A call may run on an emitter that was read in an earlier state.\<close>

inductive process_step :: "(LogEvent \<Rightarrow> (string, string) result) \<Rightarrow> processLogs \<Rightarrow> processLogs \<Rightarrow> bool" for marshal where
  new: "process_step marshal g (NewLogPipeline g)"
| unset: "process_step marshal g (cleanupEmitter g)"
| close: "i < length (pg_pipelines g) \<Longrightarrow> process_step marshal g (cleanupClose i g)"
| emit: "\<forall>i. v = Some i \<longrightarrow> i < length (pg_pipelines g) \<Longrightarrow> emitCall v env e g = (r, g') \<Longrightarrow> process_step marshal g g'"
| work: "i < length (pg_pipelines g) \<Longrightarrow> workerStep marshal takes (pg_pipelines g ! i) = Some p \<Longrightarrow>
     process_step marshal g (g\<lparr>pg_pipelines := (pg_pipelines g)[i := p]\<rparr>)"

inductive process_reach :: "(LogEvent \<Rightarrow> (string, string) result) \<Rightarrow> processLogs \<Rightarrow> bool" for marshal where
  start: "process_reach marshal emptyProcess"
| step: "process_reach marshal g \<Longrightarrow> process_step marshal g g' \<Longrightarrow> process_reach marshal g'"

section \<open>Every pipeline of the process behaves as one of its own\<close>

definition process_inv :: "(LogEvent \<Rightarrow> (string, string) result) \<Rightarrow> processLogs \<Rightarrow> bool" where
  "process_inv marshal g \<longleftrightarrow> (\<forall>p \<in> set (pg_pipelines g). pipe_reach marshal p)
     \<and> (\<forall>i. pg_emitter g = Some i \<longrightarrow> i < length (pg_pipelines g))"

lemma process_inv_update:
  assumes "process_inv marshal g" "pipe_reach marshal p"
  shows "process_inv marshal (g\<lparr>pg_pipelines := (pg_pipelines g)[i := p]\<rparr>)"
  using assms by (auto simp: process_inv_def dest: subsetD [OF set_update_subset_insert])

lemma process_inv_nth: "process_inv marshal g \<Longrightarrow> i < length (pg_pipelines g) \<Longrightarrow> pipe_reach marshal (pg_pipelines g ! i)"
  by (simp add: process_inv_def)

lemma process_inv_step: "process_step marshal g g' \<Longrightarrow> process_inv marshal g \<Longrightarrow> process_inv marshal g'"
proof (induction rule: process_step.induct)
  case (new g)
  then show ?case by (auto simp: process_inv_def NewLogPipeline_def SetLogEmitter_def intro: pipe_reach.start)
next
  case (unset g)
  then show ?case by (simp add: process_inv_def cleanupEmitter_def SetLogEmitter_def)
next
  case (close i g)
  then show ?case unfolding cleanupClose_def
    by (intro process_inv_update pipe_reach.step [OF process_inv_nth pipe_step.close_it])
next
  case (emit v g env e r g')
  show ?case
  proof (cases v)
    case None
    then show ?thesis using emit by (simp add: emitCall_def)
  next
    case (Some j)
    obtain r' p where p: "Emit env e (pg_pipelines g ! j) = (r', p)" by fastforce
    show ?thesis
    proof (cases "j < length (pg_pipelines g)")
      case True
      then have "pipe_reach marshal p" using emit.prems p pipe_reach.step [OF process_inv_nth pipe_step.emit] by blast
      then have "process_inv marshal (g\<lparr>pg_pipelines := (pg_pipelines g)[j := p]\<rparr>)" using emit.prems by (intro process_inv_update)
      then show ?thesis using emit.hyps Some p by (auto simp: emitCall_def)
    next
      case False
      then show ?thesis using emit Some p by (simp add: emitCall_def)
    qed
  qed
next
  case (work i g p)
  then show ?case by (intro process_inv_update pipe_reach.step [OF process_inv_nth pipe_step.work])
qed

lemma process_reach_inv: "process_reach marshal g \<Longrightarrow> process_inv marshal g"
proof (induction rule: process_reach.induct)
  case start
  then show ?case by (simp add: emptyProcess_def process_inv_def)
next
  case (step g g')
  then show ?case using process_inv_step by blast
qed

abbreviation process_steps :: "(LogEvent \<Rightarrow> (string, string) result) \<Rightarrow> processLogs \<Rightarrow> processLogs \<Rightarrow> bool" where
  "process_steps marshal \<equiv> (process_step marshal)\<^sup>*\<^sup>*"

lemma process_steps_reach: "process_steps marshal g g' \<Longrightarrow> process_reach marshal g \<Longrightarrow> process_reach marshal g'"
  by (induction rule: rtranclp_induct) (auto intro: process_reach.step)

lemma process_steps_length: "process_steps marshal g g' \<Longrightarrow> length (pg_pipelines g) \<le> length (pg_pipelines g')"
  by (induction rule: rtranclp_induct)
    (auto elim!: process_step.cases simp: NewLogPipeline_def SetLogEmitter_def cleanupEmitter_def cleanupClose_def emitCall_def
      split: option.splits prod.splits)

text \<open>What an \<open>EmitLog\<close> that returns without error has done, whatever happened since it read the
  emitter: with no emitter the event is dropped silently; otherwise the pipeline it read has
  accepted the event, and shutting that pipeline down hands it to the queue, after all it had accepted before.\<close>
theorem EmitLog_accepted:
  assumes "process_reach marshal early" "process_steps marshal early g"
    and "emitCall (emitRead early) env e g = (None, g')"
  shows "pg_emitter early = None \<and> g' = g
    \<or> (\<exists>i q. pg_emitter early = Some i \<and> pl_accepted (pg_pipelines g' ! i) = pl_accepted (pg_pipelines g ! i) @ [normalizeLogEvent env e]
        \<and> drain marshal takes (workLeft (closePipeline (pg_pipelines g' ! i))) (closePipeline (pg_pipelines g' ! i)) = Some q
        \<and> pl_appended q = bodies marshal (pl_accepted (pg_pipelines g ! i) @ [normalizeLogEvent env e]))"
proof (cases "pg_emitter early")
  case None
  then show ?thesis using assms(3) by (simp add: emitCall_def emitRead_def)
next
  case (Some i)
  have i: "i < length (pg_pipelines g)"
    using process_reach_inv [OF assms(1)] Some process_steps_length [OF assms(2)] by (auto simp: process_inv_def)
  have reach: "pipe_reach marshal (pg_pipelines g ! i)" using process_inv_nth [OF process_reach_inv [OF process_steps_reach [OF assms(2,1)]] i] .
  obtain p where p: "Emit env e (pg_pipelines g ! i) = (None, p)" "pg_pipelines g' ! i = p"
    using assms(3) Some i by (auto simp: emitCall_def emitRead_def split: prod.splits)
  have "pl_closed (pg_pipelines g ! i) = ch_closed (pl_events (pg_pipelines g ! i))"
    using pipe_reach_inv [OF reach] by (simp add: pipe_inv_def)
  then have acc: "pl_accepted p = pl_accepted (pg_pipelines g ! i) @ [normalizeLogEvent env e]"
    using Emit_result [OF p(1)] by auto
  have "pipe_reach marshal p" by (rule pipe_reach.step [OF reach pipe_step.emit [OF p(1)]])
  then show ?thesis using closed_drained [of marshal p takes] acc Some p(2) by auto
qed

theorem EmitLog_accepted_witness:
  "\<exists>q. drain (\<lambda>_. Inr ''body'') (\<lambda>_. True) (workLeft (closePipeline (pg_pipelines (snd (emitCall (Some 0) env e (NewLogPipeline emptyProcess))) ! 0)))
       (closePipeline (pg_pipelines (snd (emitCall (Some 0) env e (NewLogPipeline emptyProcess))) ! 0)) = Some q
     \<and> pl_appended q = [(LogEventStream, ''body'')]"
proof -
  let ?g = "NewLogPipeline emptyProcess" and ?m = "\<lambda>_ :: LogEvent. Inr ''body'' :: (string, string) result"
  have r: "process_reach ?m ?g" by (rule process_reach.step [OF process_reach.start process_step.new])
  have em: "pg_emitter ?g = Some 0" by (simp add: NewLogPipeline_def SetLogEmitter_def emptyProcess_def)
  have "fst (emitCall (Some 0) env e ?g) = None"
    by (simp add: emitCall_def NewLogPipeline_def SetLogEmitter_def emptyProcess_def Emit_def newLogPipeline_def
        chan_send_def chan_make_def logBufferSize_def Let_def)
  then have run: "emitCall (emitRead ?g) env e ?g = (None, snd (emitCall (Some 0) env e ?g))"
    by (simp add: emitRead_def em prod_eq_iff)
  have "pl_accepted (pg_pipelines ?g ! 0) = []"
    by (simp add: NewLogPipeline_def SetLogEmitter_def emptyProcess_def newLogPipeline_def)
  then show ?thesis using EmitLog_accepted [OF r rtranclp.rtrancl_refl run, of "\<lambda>_. True"] em by (auto simp: bodies_def)
qed

text \<open>The cleanup of a pipeline clears the emitter even when another pipeline has replaced it: from
  then on events are dropped without an error although that pipeline is open.\<close>
theorem cleanup_unsets_successor:
  "\<exists>g. process_reach marshal g \<and> \<not> pl_closed (pg_pipelines g ! 1) \<and> pg_pipelines g ! 0 = closePipeline newLogPipeline
     \<and> (\<forall>env e. emitCall (emitRead g) env e g = (None, g))"
proof -
  let ?g = "cleanupClose 0 (cleanupEmitter (NewLogPipeline (NewLogPipeline emptyProcess)))"
  have "process_reach marshal ?g"
    by (intro process_reach.step [OF _ process_step.close] process_reach.step [OF _ process_step.unset]
        process_reach.step [OF _ process_step.new] process_reach.start)
      (simp add: cleanupEmitter_def NewLogPipeline_def SetLogEmitter_def emptyProcess_def)
  then show ?thesis
    by (intro exI [of _ ?g]) (simp add: cleanupClose_def cleanupEmitter_def NewLogPipeline_def SetLogEmitter_def
        emptyProcess_def emitRead_def emitCall_def newLogPipeline_def)
qed

end
