(* ===== verification/Proto.thy ===== *)
theory Proto
  imports Prelude
begin

text \<open>
  Dynamic protobuf messages as the reflection interface \<open>protoreflect\<close> shows them to the
  server code: a message knows its full name, whether it is valid (a typed nil is not) and
  its fields in descriptor order.  A field carries its proto name, its JSON name and its value.
  Map entries are listed in the order one \<open>Range\<close> call visits them, which the protobuf
  runtime leaves open.
\<close>

datatype msg_kind = MessageKind | GroupKind

datatype pmsg = PMsg (pm_name: string) (pm_valid: bool) (pm_fields: "pfield list")
and pfield = PField (pf_name: string) (pf_json: string) (pf_val: pval)
and pval =
    PInt64 bool bool int
    \<comment> \<open>singular int64 field: has presence, is set, value\<close>
  | PScalar
    \<comment> \<open>singular field of another scalar kind\<close>
  | PScalarList bool nat
    \<comment> \<open>repeated scalar field: element kind is int64, length\<close>
  | PScalarMap nat
    \<comment> \<open>map field with scalar values, number of entries\<close>
  | PMsgList msg_kind "pmsg list"
    \<comment> \<open>repeated message or group field\<close>
  | PMsgMap "pentry list"
    \<comment> \<open>map field with message values\<close>
  | PSingle msg_kind "pmsg option"
    \<comment> \<open>singular message field, None when it is not set\<close>
and pentry = PEntry (pe_key: string) (pe_val: pmsg)

text \<open>The number of messages a message holds, itself included.\<close>

fun msg_count :: "pmsg \<Rightarrow> nat"
  and fields_count :: "pfield list \<Rightarrow> nat"
  and val_count :: "pval \<Rightarrow> nat"
  and msgs_count :: "pmsg list \<Rightarrow> nat"
  and entries_count :: "pentry list \<Rightarrow> nat" where
  "msg_count (PMsg n v fs) = Suc (fields_count fs)"
| "fields_count [] = 0"
| "fields_count (PField n j x # fs) = val_count x + fields_count fs"
| "val_count (PMsgList k ms) = msgs_count ms"
| "val_count (PMsgMap es) = entries_count es"
| "val_count (PSingle k (Some m)) = msg_count m"
| "val_count _ = 0"
| "msgs_count [] = 0"
| "msgs_count (m # ms) = msg_count m + msgs_count ms"
| "entries_count [] = 0"
| "entries_count (PEntry k m # es) = msg_count m + entries_count es"

lemma msgs_count_ge: "length ms \<le> msgs_count ms"
proof (induction ms)
  case Nil
  then show ?case by simp
next
  case (Cons m ms)
  then show ?case by (cases m) simp
qed

end
