(* ===== verification/TenantScope.thy ===== *)
theory TenantScope
  imports Proto
begin

text \<open>
  Model of \<open>server/middleware/tenant.go\<close>: the middleware that fills in and checks the
  \<open>tenant_id\<close> fields of a request.  \<open>messageHasTenantField\<close>, \<open>applyTenantScope\<close>,
  \<open>applyTenantID\<close> and \<open>NewTenantScopeMiddleware\<close> are the functions of the same names.
  The \<open>visited\<close> map of the code holds the full names of the message types on the current
  recursion path (each call deletes its own name when it returns); here it is a list that is
  passed down.  The code writes into the request message; the model returns the new message.
  A Go panic (reading a repeated field as one integer) is the error \<open>TenantPanic\<close>.
\<close>

section \<open>Model\<close>

record auth_info =
  ai_tenant_id :: int
  ai_tenant_code :: string

datatype tenant_error =
    NoIdentity            \<comment> \<open>\<open>errorsx.Unauthenticated\<close>\<close>
  | OwnTenantInvalid      \<comment> \<open>\<open>errorsx.InvalidArgument\<close>: the caller's own tenant\<close>
  | TenantIDNotPositive   \<comment> \<open>\<open>errorsx.InvalidArgument\<close>: an explicit zero\<close>
  | ForeignTenant         \<comment> \<open>\<open>errorsx.PermissionDenied\<close>\<close>
  | TenantPanic           \<comment> \<open>\<open>protoreflect\<close> panics on a type mismatch\<close>
  | HandlerError string   \<comment> \<open>an error of the wrapped handler\<close>

definition tenantFieldName :: string where
  "tenantFieldName = ''tenant_id''"

fun messageHasTenantField :: "string list \<Rightarrow> pmsg \<Rightarrow> bool"
  and hasTenantFields :: "string list \<Rightarrow> pfield list \<Rightarrow> bool"
  and hasTenantVal :: "string list \<Rightarrow> pval \<Rightarrow> bool"
  and hasTenantMsgs :: "string list \<Rightarrow> pmsg list \<Rightarrow> bool"
  and hasTenantEntries :: "string list \<Rightarrow> pentry list \<Rightarrow> bool" where
  "messageHasTenantField visited (PMsg n v fs) =
     (if \<not> v then False
      else if n \<in> set visited then False
      else hasTenantFields (n # visited) fs)"
| "hasTenantFields visited [] = False"
| "hasTenantFields visited (PField n j x # fs) =
     (if n = tenantFieldName then True
      else if hasTenantVal visited x then True
      else hasTenantFields visited fs)"
| "hasTenantVal visited (PMsgMap es) = hasTenantEntries visited es"
| "hasTenantVal visited (PMsgList k ms) = hasTenantMsgs visited ms"
| "hasTenantVal visited (PSingle k (Some m)) = messageHasTenantField visited m"
| "hasTenantVal visited _ = False"
| "hasTenantMsgs visited [] = False"
| "hasTenantMsgs visited (m # ms) =
     (if messageHasTenantField visited m then True else hasTenantMsgs visited ms)"
| "hasTenantEntries visited [] = False"
| "hasTenantEntries visited (PEntry k m # es) =
     (if messageHasTenantField visited m then True else hasTenantEntries visited es)"

definition applyTenantID ::
  "string \<Rightarrow> auth_info \<Rightarrow> bool \<Rightarrow> bool \<Rightarrow> int \<Rightarrow> (tenant_error, pval) result" where
  "applyTenantID defaultCode auth presence isset requested =
     (if ai_tenant_code auth = defaultCode then Inr (PInt64 presence isset requested)
      else if ai_tenant_id auth \<le> 0 then Inl OwnTenantInvalid
      else if presence \<and> isset \<and> requested = 0 then Inl TenantIDNotPositive
      else if requested < 0 then Inr (PInt64 presence isset requested)
      else if requested = 0 then Inr (PInt64 presence True (ai_tenant_id auth))
      else if requested \<noteq> ai_tenant_id auth then Inl ForeignTenant
      else Inr (PInt64 presence isset requested))"

text \<open>The branch of \<open>applyTenantScope\<close> for a field named \<open>tenant_id\<close>.\<close>

fun applyTenantField :: "string \<Rightarrow> auth_info \<Rightarrow> pval \<Rightarrow> (tenant_error, pval) result" where
  "applyTenantField dc auth (PInt64 p s i) = applyTenantID dc auth p s i"
| "applyTenantField dc auth (PScalarList True n) = Inl TenantPanic"
| "applyTenantField dc auth x = Inr x"

fun applyTenantScope :: "string \<Rightarrow> auth_info \<Rightarrow> string list \<Rightarrow> pmsg \<Rightarrow> (tenant_error, pmsg) result"
  and applyTenantFields ::
    "string \<Rightarrow> auth_info \<Rightarrow> string list \<Rightarrow> pfield list \<Rightarrow> (tenant_error, pfield list) result"
  and applyTenantVal :: "string \<Rightarrow> auth_info \<Rightarrow> string list \<Rightarrow> pval \<Rightarrow> (tenant_error, pval) result"
  and applyTenantMsgs ::
    "string \<Rightarrow> auth_info \<Rightarrow> string list \<Rightarrow> pmsg list \<Rightarrow> (tenant_error, pmsg list) result"
  and applyTenantEntries ::
    "string \<Rightarrow> auth_info \<Rightarrow> string list \<Rightarrow> pentry list \<Rightarrow> (tenant_error, pentry list) result" where
  "applyTenantScope dc auth visited (PMsg n v fs) =
     (if \<not> v then Inr (PMsg n v fs)
      else if n \<in> set visited then Inr (PMsg n v fs)
      else bindR (applyTenantFields dc auth (n # visited) fs) (\<lambda>fs'. Inr (PMsg n v fs')))"
| "applyTenantFields dc auth visited [] = Inr []"
| "applyTenantFields dc auth visited (PField n j x # fs) =
     bindR (if n = tenantFieldName then applyTenantField dc auth x
            else applyTenantVal dc auth visited x)
       (\<lambda>x'. bindR (applyTenantFields dc auth visited fs)
          (\<lambda>fs'. Inr (PField n j x' # fs')))"
| "applyTenantVal dc auth visited (PMsgMap es) =
     bindR (applyTenantEntries dc auth visited es) (\<lambda>es'. Inr (PMsgMap es'))"
| "applyTenantVal dc auth visited (PMsgList k ms) =
     bindR (applyTenantMsgs dc auth visited ms) (\<lambda>ms'. Inr (PMsgList k ms'))"
| "applyTenantVal dc auth visited (PSingle k (Some m)) =
     bindR (applyTenantScope dc auth visited m) (\<lambda>m'. Inr (PSingle k (Some m')))"
| "applyTenantVal dc auth visited x = Inr x"
| "applyTenantMsgs dc auth visited [] = Inr []"
| "applyTenantMsgs dc auth visited (m # ms) =
     bindR (applyTenantScope dc auth visited m)
       (\<lambda>m'. bindR (applyTenantMsgs dc auth visited ms) (\<lambda>ms'. Inr (m' # ms')))"
| "applyTenantEntries dc auth visited [] = Inr []"
| "applyTenantEntries dc auth visited (PEntry k m # es) =
     bindR (applyTenantScope dc auth visited m)
       (\<lambda>m'. bindR (applyTenantEntries dc auth visited es) (\<lambda>es'. Inr (PEntry k m' # es')))"

text \<open>
  A request is a protobuf message or another value; \<open>auth.FromContext\<close> fails or returns a
  possibly nil identity; the wrapped handler is a function of the request it is given.
\<close>

datatype 'a request = ProtoRequest pmsg | OtherRequest 'a

definition NewTenantScopeMiddleware ::
  "string \<Rightarrow> ('a request \<Rightarrow> (tenant_error, 'r) result) \<Rightarrow> (string, auth_info option) result \<Rightarrow>
   'a request \<Rightarrow> (tenant_error, 'r) result" where
  "NewTenantScopeMiddleware dc handler identity req =
     (case req of
        OtherRequest x \<Rightarrow> handler req
      | ProtoRequest m \<Rightarrow>
          if \<not> messageHasTenantField [] m then handler req
          else (case identity of
                  Inl e \<Rightarrow> Inl NoIdentity
                | Inr None \<Rightarrow> Inl NoIdentity
                | Inr (Some auth) \<Rightarrow>
                    bindR (applyTenantScope dc auth [] m) (\<lambda>m'. handler (ProtoRequest m'))))"

section \<open>Tenant ids of a message\<close>

text \<open>The values of all singular int64 fields named \<open>tenant_id\<close>, at every depth.\<close>

fun ownID :: "pval \<Rightarrow> int list" where
  "ownID (PInt64 p s i) = [i]"
| "ownID x = []"

fun tidsMsg :: "pmsg \<Rightarrow> int list"
  and tidsFields :: "pfield list \<Rightarrow> int list"
  and tidsVal :: "pval \<Rightarrow> int list"
  and tidsMsgs :: "pmsg list \<Rightarrow> int list"
  and tidsEntries :: "pentry list \<Rightarrow> int list" where
  "tidsMsg (PMsg n v fs) = (if v then tidsFields fs else [])"
| "tidsFields [] = []"
| "tidsFields (PField n j x # fs) =
     (if n = tenantFieldName then ownID x else []) @ tidsVal x @ tidsFields fs"
| "tidsVal (PMsgMap es) = tidsEntries es"
| "tidsVal (PMsgList k ms) = tidsMsgs ms"
| "tidsVal (PSingle k (Some m)) = tidsMsg m"
| "tidsVal _ = []"
| "tidsMsgs [] = []"
| "tidsMsgs (m # ms) = tidsMsg m @ tidsMsgs ms"
| "tidsEntries [] = []"
| "tidsEntries (PEntry k m # es) = tidsMsg m @ tidsEntries es"

text \<open>The message with every one of these fields that is zero set to \<open>t\<close>, and nothing else changed.\<close>

fun fillID :: "int \<Rightarrow> string \<Rightarrow> pval \<Rightarrow> pval" where
  "fillID t n (PInt64 p s i) = (if n = tenantFieldName \<and> i = 0 then PInt64 p True t else PInt64 p s i)"
| "fillID t n x = x"

fun fillMsg :: "int \<Rightarrow> pmsg \<Rightarrow> pmsg"
  and fillFields :: "int \<Rightarrow> pfield list \<Rightarrow> pfield list"
  and fillVal :: "int \<Rightarrow> pval \<Rightarrow> pval"
  and fillMsgs :: "int \<Rightarrow> pmsg list \<Rightarrow> pmsg list"
  and fillEntries :: "int \<Rightarrow> pentry list \<Rightarrow> pentry list" where
  "fillMsg t (PMsg n v fs) = PMsg n v (if v then fillFields t fs else fs)"
| "fillFields t [] = []"
| "fillFields t (PField n j x # fs) = PField n j (fillID t n (fillVal t x)) # fillFields t fs"
| "fillVal t (PMsgMap es) = PMsgMap (fillEntries t es)"
| "fillVal t (PMsgList k ms) = PMsgList k (fillMsgs t ms)"
| "fillVal t (PSingle k (Some m)) = PSingle k (Some (fillMsg t m))"
| "fillVal t x = x"
| "fillMsgs t [] = []"
| "fillMsgs t (m # ms) = fillMsg t m # fillMsgs t ms"
| "fillEntries t [] = []"
| "fillEntries t (PEntry k m # es) = PEntry k (fillMsg t m) # fillEntries t es"

text \<open>The two things a message must not have for the rewrite to reach all its tenant ids: a message type
  that occurs twice on a path from the root, and tenant ids below a field that is itself named
  \<open>tenant_id\<close> but holds messages.\<close>

fun plainMsg :: "string list \<Rightarrow> pmsg \<Rightarrow> bool"
  and plainFields :: "string list \<Rightarrow> pfield list \<Rightarrow> bool"
  and plainVal :: "string list \<Rightarrow> pval \<Rightarrow> bool"
  and plainMsgs :: "string list \<Rightarrow> pmsg list \<Rightarrow> bool"
  and plainEntries :: "string list \<Rightarrow> pentry list \<Rightarrow> bool" where
  "plainMsg visited (PMsg n v fs) = (n \<notin> set visited \<and> plainFields (n # visited) fs)"
| "plainFields visited [] = True"
| "plainFields visited (PField n j x # fs) =
     ((if n = tenantFieldName then tidsVal x = [] else plainVal visited x) \<and> plainFields visited fs)"
| "plainVal visited (PMsgMap es) = plainEntries visited es"
| "plainVal visited (PMsgList k ms) = plainMsgs visited ms"
| "plainVal visited (PSingle k (Some m)) = plainMsg visited m"
| "plainVal visited _ = True"
| "plainMsgs visited [] = True"
| "plainMsgs visited (m # ms) = (plainMsg visited m \<and> plainMsgs visited ms)"
| "plainEntries visited [] = True"
| "plainEntries visited (PEntry k m # es) = (plainMsg visited m \<and> plainEntries visited es)"

definition scopedID :: "auth_info \<Rightarrow> int \<Rightarrow> bool" where
  "scopedID auth i \<longleftrightarrow> i = ai_tenant_id auth \<or> i < 0"

section \<open>Lemmas\<close>

lemmas applyTenantScope_induct =
  applyTenantScope_applyTenantFields_applyTenantVal_applyTenantMsgs_applyTenantEntries.induct

lemma applyTenantID_scoped:
  "applyTenantID dc auth p s i = Inr y \<Longrightarrow> ai_tenant_code auth \<noteq> dc \<Longrightarrow>
     \<exists>s' i'. y = PInt64 p s' i' \<and> scopedID auth i'"
  by (auto simp: applyTenantID_def scopedID_def split: if_splits)

lemma applyTenantField_scoped:
  "applyTenantField dc auth x = Inr y \<Longrightarrow> ai_tenant_code auth \<noteq> dc \<Longrightarrow> tidsVal x = [] \<Longrightarrow>
     (\<forall>i \<in> set (ownID y). scopedID auth i) \<and> tidsVal y = []"
  by (induction dc auth x rule: applyTenantField.induct) (auto dest!: applyTenantID_scoped)

lemma fill_no_tids:
  "tidsMsg m = [] \<Longrightarrow> fillMsg t m = m"
  "tidsFields fs = [] \<Longrightarrow> fillFields t fs = fs"
  "tidsVal x = [] \<Longrightarrow> fillVal t x = x"
  "tidsMsgs ms = [] \<Longrightarrow> fillMsgs t ms = ms"
  "tidsEntries es = [] \<Longrightarrow> fillEntries t es = es"
proof (induction t m and t fs and t x and t ms and t es rule: fillMsg_fillFields_fillVal_fillMsgs_fillEntries.induct)
  case (3 t n j x fs)
  then show ?case by (cases x) (auto split: if_splits)
qed auto

lemma applyTenantField_fill:
  "applyTenantField dc auth x = Inr y \<Longrightarrow> ai_tenant_code auth \<noteq> dc \<Longrightarrow> tidsVal x = [] \<Longrightarrow>
     y = fillID (ai_tenant_id auth) tenantFieldName (fillVal (ai_tenant_id auth) x)"
  unfolding fill_no_tids(3)
  by (induction dc auth x rule: applyTenantField.induct) (auto simp: applyTenantID_def split: if_splits)

lemma fillID_other: "n \<noteq> tenantFieldName \<Longrightarrow> fillID t n x = x"
  by (cases x) simp_all

lemma apply_fill:
  "applyTenantScope dc auth vis m = Inr m' \<Longrightarrow> ai_tenant_code auth \<noteq> dc \<Longrightarrow> plainMsg vis m \<Longrightarrow>
     m' = fillMsg (ai_tenant_id auth) m"
  "applyTenantFields dc auth vis fs = Inr fs' \<Longrightarrow> ai_tenant_code auth \<noteq> dc \<Longrightarrow> plainFields vis fs \<Longrightarrow>
     fs' = fillFields (ai_tenant_id auth) fs"
  "applyTenantVal dc auth vis x = Inr x' \<Longrightarrow> ai_tenant_code auth \<noteq> dc \<Longrightarrow> plainVal vis x \<Longrightarrow>
     x' = fillVal (ai_tenant_id auth) x"
  "applyTenantMsgs dc auth vis ms = Inr ms' \<Longrightarrow> ai_tenant_code auth \<noteq> dc \<Longrightarrow> plainMsgs vis ms \<Longrightarrow>
     ms' = fillMsgs (ai_tenant_id auth) ms"
  "applyTenantEntries dc auth vis es = Inr es' \<Longrightarrow> ai_tenant_code auth \<noteq> dc \<Longrightarrow> plainEntries vis es \<Longrightarrow>
     es' = fillEntries (ai_tenant_id auth) es"
proof (induction dc auth vis m and dc auth vis fs and dc auth vis x and dc auth vis ms and
    dc auth vis es arbitrary: m' and fs' and x' and ms' and es' rule: applyTenantScope_induct)
  case (3 dc auth visited n j x fs)
  show ?case
  proof (cases "n = tenantFieldName")
    case True
    then show ?thesis using 3 by (auto simp: bindR_Inr_iff dest: applyTenantField_fill)
  next
    case False
    then show ?thesis using 3 by (auto simp: bindR_Inr_iff fillID_other)
  qed
qed (auto simp: bindR_Inr_iff split: if_splits)

lemma apply_scoped:
  "applyTenantScope dc auth vis m = Inr m' \<Longrightarrow> ai_tenant_code auth \<noteq> dc \<Longrightarrow> plainMsg vis m \<Longrightarrow>
     \<forall>i \<in> set (tidsMsg m'). scopedID auth i"
  "applyTenantFields dc auth vis fs = Inr fs' \<Longrightarrow> ai_tenant_code auth \<noteq> dc \<Longrightarrow> plainFields vis fs \<Longrightarrow>
     \<forall>i \<in> set (tidsFields fs'). scopedID auth i"
  "applyTenantVal dc auth vis x = Inr x' \<Longrightarrow> ai_tenant_code auth \<noteq> dc \<Longrightarrow> plainVal vis x \<Longrightarrow>
     \<forall>i \<in> set (tidsVal x'). scopedID auth i"
  "applyTenantMsgs dc auth vis ms = Inr ms' \<Longrightarrow> ai_tenant_code auth \<noteq> dc \<Longrightarrow> plainMsgs vis ms \<Longrightarrow>
     \<forall>i \<in> set (tidsMsgs ms'). scopedID auth i"
  "applyTenantEntries dc auth vis es = Inr es' \<Longrightarrow> ai_tenant_code auth \<noteq> dc \<Longrightarrow> plainEntries vis es \<Longrightarrow>
     \<forall>i \<in> set (tidsEntries es'). scopedID auth i"
proof (induction dc auth vis m and dc auth vis fs and dc auth vis x and dc auth vis ms and
    dc auth vis es arbitrary: m' and fs' and x' and ms' and es' rule: applyTenantScope_induct)
  case (3 dc auth visited n j x fs)
  show ?case
  proof (cases "n = tenantFieldName")
    case True
    with 3 obtain y fs1 where y: "applyTenantField dc auth x = Inr y" "applyTenantFields dc auth visited fs = Inr fs1"
        "fs' = PField n j y # fs1"
      by (auto simp: bindR_Inr_iff)
    with 3 True have "\<forall>i \<in> set (tidsFields fs1). scopedID auth i" by simp
    moreover have "\<forall>i \<in> set (ownID y). scopedID auth i" "tidsVal y = []"
      using applyTenantField_scoped [OF y(1)] 3 True by auto
    ultimately show ?thesis using y(3) by auto
  next
    case False
    then show ?thesis using 3 by (auto simp: bindR_Inr_iff)
  qed
qed (auto simp: bindR_Inr_iff split: if_splits)

text \<open>A message in which the search finds no tenant field is not changed by the rewrite.\<close>

lemma apply_no_tenant_field:
  "\<not> messageHasTenantField vis m \<Longrightarrow> applyTenantScope dc auth vis m = Inr m"
  "\<not> hasTenantFields vis fs \<Longrightarrow> applyTenantFields dc auth vis fs = Inr fs"
  "\<not> hasTenantVal vis x \<Longrightarrow> applyTenantVal dc auth vis x = Inr x"
  "\<not> hasTenantMsgs vis ms \<Longrightarrow> applyTenantMsgs dc auth vis ms = Inr ms"
  "\<not> hasTenantEntries vis es \<Longrightarrow> applyTenantEntries dc auth vis es = Inr es"
  by (induction dc auth vis m and dc auth vis fs and dc auth vis x and dc auth vis ms and
    dc auth vis es rule: applyTenantScope_induct) (auto split: if_splits)

text \<open>The default tenant's requests are left as they are, unless the reflection panics.\<close>

lemma applyTenantField_default:
  "ai_tenant_code auth = dc \<Longrightarrow> applyTenantField dc auth x = Inr y \<Longrightarrow> y = x"
  by (induction dc auth x rule: applyTenantField.induct) (auto simp: applyTenantID_def)

lemma apply_default:
  "applyTenantScope dc auth vis m = Inr m' \<Longrightarrow> ai_tenant_code auth = dc \<Longrightarrow> m' = m"
  "applyTenantFields dc auth vis fs = Inr fs' \<Longrightarrow> ai_tenant_code auth = dc \<Longrightarrow> fs' = fs"
  "applyTenantVal dc auth vis x = Inr x' \<Longrightarrow> ai_tenant_code auth = dc \<Longrightarrow> x' = x"
  "applyTenantMsgs dc auth vis ms = Inr ms' \<Longrightarrow> ai_tenant_code auth = dc \<Longrightarrow> ms' = ms"
  "applyTenantEntries dc auth vis es = Inr es' \<Longrightarrow> ai_tenant_code auth = dc \<Longrightarrow> es' = es"
  by (induction dc auth vis m and dc auth vis fs and dc auth vis x and dc auth vis ms and
    dc auth vis es arbitrary: m' and fs' and x' and ms' and es' rule: applyTenantScope_induct)
    (auto simp: bindR_Inr_iff split: if_splits dest: applyTenantField_default [OF refl])

text \<open>A second pass over a rewritten message succeeds and changes nothing.\<close>

lemma applyTenantField_idem:
  "applyTenantField dc auth x = Inr y \<Longrightarrow> applyTenantField dc auth y = Inr y"
  by (induction dc auth x rule: applyTenantField.induct)
    (auto simp: applyTenantID_def split: if_splits)

lemma apply_idem:
  "applyTenantScope dc auth vis m = Inr m' \<Longrightarrow> applyTenantScope dc auth vis m' = Inr m'"
  "applyTenantFields dc auth vis fs = Inr fs' \<Longrightarrow> applyTenantFields dc auth vis fs' = Inr fs'"
  "applyTenantVal dc auth vis x = Inr x' \<Longrightarrow> applyTenantVal dc auth vis x' = Inr x'"
  "applyTenantMsgs dc auth vis ms = Inr ms' \<Longrightarrow> applyTenantMsgs dc auth vis ms' = Inr ms'"
  "applyTenantEntries dc auth vis es = Inr es' \<Longrightarrow> applyTenantEntries dc auth vis es' = Inr es'"
  by (induction dc auth vis m and dc auth vis fs and dc auth vis x and dc auth vis ms and
    dc auth vis es arbitrary: m' and fs' and x' and ms' and es' rule: applyTenantScope_induct)
    (auto simp: bindR_Inr_iff split: if_splits dest: applyTenantField_idem)

lemma no_tenant_field_tids:
  "\<not> messageHasTenantField vis m \<Longrightarrow> plainMsg vis m \<Longrightarrow> tidsMsg m = []"
  "\<not> hasTenantFields vis fs \<Longrightarrow> plainFields vis fs \<Longrightarrow> tidsFields fs = []"
  "\<not> hasTenantVal vis x \<Longrightarrow> plainVal vis x \<Longrightarrow> tidsVal x = []"
  "\<not> hasTenantMsgs vis ms \<Longrightarrow> plainMsgs vis ms \<Longrightarrow> tidsMsgs ms = []"
  "\<not> hasTenantEntries vis es \<Longrightarrow> plainEntries vis es \<Longrightarrow> tidsEntries es = []"
  by (induction vis m and vis fs and vis x and vis ms and vis es
      rule: messageHasTenantField_hasTenantFields_hasTenantVal_hasTenantMsgs_hasTenantEntries.induct)
    (auto split: if_splits)

section \<open>Properties\<close>

text \<open>C3. Let no message type recur on a path of the request, and let it have no tenant ids below a
  field that is named \<open>tenant_id\<close> but holds messages.  Then the middleware either fails whatever the
  handler is, or calls the handler: for a caller of the default tenant with the request as it was sent;
  for any other caller with the request in which every int64 \<open>tenant_id\<close>, at every depth, that was zero
  is the caller's tenant and nothing else has changed, and then every one of them is the caller's own
  tenant or negative (the values left to the Proto rules).\<close>

theorem tenant_scope_sound:
  assumes plain: "plainMsg [] m"
  shows "(\<exists>e. \<forall>h. NewTenantScopeMiddleware dc h (Inr (Some auth)) (ProtoRequest m) = Inl e) \<or>
    (\<exists>m'. (\<forall>h. NewTenantScopeMiddleware dc h (Inr (Some auth)) (ProtoRequest m) = h (ProtoRequest m')) \<and>
       (if ai_tenant_code auth = dc then m' = m
        else m' = fillMsg (ai_tenant_id auth) m \<and> (\<forall>i \<in> set (tidsMsg m'). scopedID auth i)))"
proof (cases "messageHasTenantField [] m")
  case False
  with plain have "tidsMsg m = []" by (simp add: no_tenant_field_tids)
  with False show ?thesis
    by (intro disjI2 exI [of _ m]) (simp add: NewTenantScopeMiddleware_def fill_no_tids)
next
  case True
  show ?thesis
  proof (cases "applyTenantScope dc auth [] m")
    case (Inl e)
    with True show ?thesis by (auto simp: NewTenantScopeMiddleware_def)
  next
    case (Inr m')
    have "if ai_tenant_code auth = dc then m' = m
        else m' = fillMsg (ai_tenant_id auth) m \<and> (\<forall>i \<in> set (tidsMsg m'). scopedID auth i)"
      using apply_default(1) [OF Inr] apply_fill(1) [OF Inr _ plain] apply_scoped(1) [OF Inr _ plain] by simp
    with True Inr show ?thesis
      by (intro disjI2 exI [of _ m']) (simp add: NewTenantScopeMiddleware_def)
  qed
qed

definition acme :: auth_info where
  "acme = \<lparr>ai_tenant_id = 7, ai_tenant_code = ''acme''\<rparr>"

definition createReq :: pmsg where
  "createReq = PMsg ''CreateReq'' True
     [PField ''tenant_id'' ''tenantId'' (PInt64 False False 0),
      PField ''items'' ''items''
        (PMsgList MessageKind [PMsg ''Item'' True [PField ''tenant_id'' ''tenantId'' (PInt64 False True 7)]])]"

theorem tenant_scope_sound_witness:
  "(\<forall>h :: unit request \<Rightarrow> (tenant_error, unit) result.
      NewTenantScopeMiddleware ''default'' h (Inr (Some acme)) (ProtoRequest createReq)
        = h (ProtoRequest (fillMsg 7 createReq))) \<and> tidsMsg createReq = [0, 7] \<and> tidsMsg (fillMsg 7 createReq) = [7, 7]"
proof -
  have "\<not> (\<exists>e. \<forall>h :: unit request \<Rightarrow> (tenant_error, unit) result.
            NewTenantScopeMiddleware ''default'' h (Inr (Some acme)) (ProtoRequest createReq) = Inl e)"
    (is "\<not> (\<exists>e. \<forall>h. ?run h = Inl e)")
  proof
    assume "\<exists>e. \<forall>h. ?run h = Inl e"
    then have "\<exists>e. ?run (\<lambda>r. Inr ()) = Inl e" by blast
    then show False
      by (simp add: NewTenantScopeMiddleware_def createReq_def acme_def tenantFieldName_def applyTenantID_def)
  qed
  moreover have "ai_tenant_code acme \<noteq> ''default''" "ai_tenant_id acme = 7" "plainMsg [] createReq"
    by (simp_all add: acme_def createReq_def tenantFieldName_def)
  ultimately have "\<forall>h :: unit request \<Rightarrow> (tenant_error, unit) result. ?run h = h (ProtoRequest (fillMsg 7 createReq))"
    using tenant_scope_sound [of createReq "''default''" acme] by force
  then show ?thesis by (simp add: createReq_def tenantFieldName_def)
qed

text \<open>The \<open>visited\<close> set is keyed by message type, not by message: a message nested
  in a message of its own type is handed on unchecked.  For every caller with a valid tenant
  outside the default one and every other tenant id there is a request that the middleware
  passes to the handler with that foreign id in it.\<close>

theorem tenant_scope_recursive_gap:
  assumes "ai_tenant_code auth \<noteq> dc" "0 < ai_tenant_id auth"
    and "0 < foreign" "foreign \<noteq> ai_tenant_id auth"
  shows "\<exists>m m'. foreign \<in> set (tidsMsg m') \<and> \<not> scopedID auth foreign \<and>
    (\<forall>h. NewTenantScopeMiddleware dc h (Inr (Some auth)) (ProtoRequest m) = h (ProtoRequest m'))"
proof -
  let ?child = "PMsg ''Node'' True [PField ''tenant_id'' ''tenantId'' (PInt64 False True foreign)]"
  let ?m = "\<lambda>s t. PMsg ''Node'' True [PField ''tenant_id'' ''tenantId'' (PInt64 False s t),
             PField ''children'' ''children'' (PMsgList MessageKind [?child])]"
  have "\<forall>h. NewTenantScopeMiddleware dc h (Inr (Some auth)) (ProtoRequest (?m False 0))
          = h (ProtoRequest (?m True (ai_tenant_id auth)))"
    using assms by (simp add: NewTenantScopeMiddleware_def tenantFieldName_def applyTenantID_def)
  moreover have "foreign \<in> set (tidsMsg (?m True (ai_tenant_id auth)))"
    by (simp add: tenantFieldName_def)
  moreover have "\<not> scopedID auth foreign"
    using assms by (simp add: scopedID_def)
  ultimately show ?thesis by blast
qed

theorem tenant_scope_recursive_gap_witness:
  "\<exists>m m'. 9 \<in> set (tidsMsg m') \<and> \<not> scopedID acme 9 \<and>
    (\<forall>h :: unit request \<Rightarrow> (tenant_error, unit) result.
       NewTenantScopeMiddleware ''default'' h (Inr (Some acme)) (ProtoRequest m) = h (ProtoRequest m'))"
  by (rule tenant_scope_recursive_gap) (simp_all add: acme_def)

text \<open>Nor is anything checked below a field that is named \<open>tenant_id\<close> but is not an int64: \<open>continue\<close>
  also skips the messages in it.\<close>

theorem tenant_scope_named_gap:
  assumes "ai_tenant_code auth \<noteq> dc" "0 < ai_tenant_id auth"
    and "0 < foreign" "foreign \<noteq> ai_tenant_id auth"
  shows "\<exists>m. foreign \<in> set (tidsMsg m) \<and> \<not> scopedID auth foreign \<and>
    (\<forall>h. NewTenantScopeMiddleware dc h (Inr (Some auth)) (ProtoRequest m) = h (ProtoRequest m))"
proof -
  let ?child = "PMsg ''Scope'' True [PField ''tenant_id'' ''tenantId'' (PInt64 False True foreign)]"
  let ?m = "PMsg ''Request'' True [PField ''tenant_id'' ''tenantId'' (PSingle MessageKind (Some ?child))]"
  have "\<forall>h. NewTenantScopeMiddleware dc h (Inr (Some auth)) (ProtoRequest ?m) = h (ProtoRequest ?m)"
    by (simp add: NewTenantScopeMiddleware_def tenantFieldName_def)
  moreover have "foreign \<in> set (tidsMsg ?m)" by (simp add: tenantFieldName_def)
  moreover have "\<not> scopedID auth foreign"
    using assms by (simp add: scopedID_def)
  ultimately show ?thesis by blast
qed

text \<open>A request that names a tenant field never reaches the handler without an identity;
  a request without one reaches it unchanged, whatever the identity, and the rewrite would not
  have changed it; for the default tenant the handler only ever sees the request as sent; and
  running the middleware on its own output is the same as running the handler on it.\<close>

theorem tenant_scope_frame:
  "(messageHasTenantField [] m \<longrightarrow> identity = Inl e \<or> identity = Inr None \<longrightarrow>
      NewTenantScopeMiddleware dc h identity (ProtoRequest m) = Inl NoIdentity) \<and>
   (\<not> messageHasTenantField [] m \<longrightarrow>
      NewTenantScopeMiddleware dc h identity (ProtoRequest m) = h (ProtoRequest m) \<and>
      applyTenantScope dc auth [] m = Inr m) \<and>
   (ai_tenant_code auth = dc \<longrightarrow> applyTenantScope dc auth [] m = Inr m' \<longrightarrow> m' = m) \<and>
   (applyTenantScope dc auth [] m = Inr m' \<longrightarrow>
      NewTenantScopeMiddleware dc h (Inr (Some auth)) (ProtoRequest m') = h (ProtoRequest m'))"
proof (intro conjI impI)
  show "NewTenantScopeMiddleware dc h identity (ProtoRequest m) = Inl NoIdentity"
    if "messageHasTenantField [] m" "identity = Inl e \<or> identity = Inr None"
    using that by (auto simp: NewTenantScopeMiddleware_def)
  show "NewTenantScopeMiddleware dc h identity (ProtoRequest m) = h (ProtoRequest m)"
    and "applyTenantScope dc auth [] m = Inr m" if "\<not> messageHasTenantField [] m"
    using that by (simp_all add: NewTenantScopeMiddleware_def apply_no_tenant_field)
  show "m' = m" if "ai_tenant_code auth = dc" "applyTenantScope dc auth [] m = Inr m'"
    using that by (blast dest: apply_default(1))
  show "NewTenantScopeMiddleware dc h (Inr (Some auth)) (ProtoRequest m') = h (ProtoRequest m')"
    if "applyTenantScope dc auth [] m = Inr m'"
    using apply_idem(1) [OF that] by (simp add: NewTenantScopeMiddleware_def)
qed

theorem tenant_scope_frame_witness:
  "messageHasTenantField [] createReq \<and>
   NewTenantScopeMiddleware ''default'' (\<lambda>r. Inr ()) (Inr None) (ProtoRequest createReq :: unit request)
     = Inl NoIdentity"
proof -
  have h: "messageHasTenantField [] createReq"
    by (simp add: createReq_def tenantFieldName_def)
  then show ?thesis
    using tenant_scope_frame [of createReq "Inr None" "''x''" "''default''"
        "\<lambda>r :: unit request. Inr ()" acme createReq]
    by simp
qed

end
