(* ===== verification/SqlComments.thy ===== *)
theory SqlComments
  imports Prelude
begin

text \<open>
  Model of \<open>stripSQLComments\<close> and \<open>isSQLWhitespace\<close> of
  \<open>resource/migration/description.go\<close>: the scanner that removes comments from a migration
  script before it is executed and before its digest is checked.  The loop variable \<open>index\<close>
  is the rest of the content still to be read; the other loop variables are the fields of
  \<open>sqlScan\<close>.  Each case of the \<open>switch\<close> is one step function.
\<close>

section \<open>Model\<close>

datatype sqlCommentState =
  sqlNormal | sqlSingleQuote | sqlDoubleQuote | sqlBacktick | sqlLineComment | sqlBlockComment

record sqlScan =
  sq_result :: string
  sq_state :: sqlCommentState
  sq_lineStart :: bool
  sq_lineOutputStart :: nat
  sq_lineStandalone :: bool
  sq_blockStandalone :: bool

definition LF :: char where "LF = CHR 0x0A"
definition CR :: char where "CR = CHR 0x0D"
definition TAB :: char where "TAB = CHR 0x09"
definition FF :: char where "FF = CHR 0x0C"
definition SP :: char where "SP = CHR 0x20"
definition QUOTE1 :: char where "QUOTE1 = CHR 0x27"
definition QUOTE2 :: char where "QUOTE2 = CHR 0x22"
definition BACKTICK :: char where "BACKTICK = CHR 0x60"
definition BACKSLASH :: char where "BACKSLASH = CHR 0x5C"
definition HASH :: char where "HASH = CHR 0x23"
definition DASH :: char where "DASH = CHR 0x2D"
definition SLASH :: char where "SLASH = CHR 0x2F"
definition STAR :: char where "STAR = CHR 0x2A"

lemmas sql_chars = LF_def CR_def TAB_def FF_def SP_def QUOTE1_def QUOTE2_def BACKTICK_def
  BACKSLASH_def HASH_def DASH_def SLASH_def STAR_def

definition isSQLWhitespace :: "char \<Rightarrow> bool" where
  "isSQLWhitespace c \<longleftrightarrow> c = SP \<or> c = TAB \<or> c = LF \<or> c = CR \<or> c = FF"

definition sqlInit :: sqlScan where
  "sqlInit = \<lparr>sq_result = [], sq_state = sqlNormal, sq_lineStart = True, sq_lineOutputStart = 0,
     sq_lineStandalone = False, sq_blockStandalone = False\<rparr>"

definition put :: "char \<Rightarrow> sqlScan \<Rightarrow> sqlScan" where
  "put c st = st\<lparr>sq_result := sq_result st @ [c]\<rparr>"

text \<open>\<open>result = result[:lineOutputStart]\<close>.\<close>

definition cutLine :: "sqlScan \<Rightarrow> sqlScan" where
  "cutLine st = st\<lparr>sq_result := take (sq_lineOutputStart st) (sq_result st)\<rparr>"

text \<open>\<open>lineStart = true; lineOutputStart = len(result)\<close>.\<close>

definition newLine :: "sqlScan \<Rightarrow> sqlScan" where
  "newLine st = st\<lparr>sq_lineStart := True, sq_lineOutputStart := length (sq_result st)\<rparr>"

fun dropLF :: "string \<Rightarrow> string" where
  "dropLF [] = []"
| "dropLF (x # xs) = (if x = LF then xs else x # xs)"

text \<open>The condition of a dash comment: two dashes, then white space or the end.\<close>

fun dashComment :: "string \<Rightarrow> bool" where
  "dashComment [] = False"
| "dashComment [x] = (x = DASH)"
| "dashComment (x # y # ys) = (x = DASH \<and> isSQLWhitespace y)"

definition normalStep :: "sqlScan \<Rightarrow> char \<Rightarrow> string \<Rightarrow> sqlScan \<times> string" where
  "normalStep st c cs =
    (if c = CR then
       (if sq_blockStandalone st
        then (newLine ((cutLine st)\<lparr>sq_blockStandalone := False\<rparr>), dropLF cs)
        else (newLine (put c st), cs))
     else if c = LF then
       (if sq_blockStandalone st
        then (newLine ((cutLine st)\<lparr>sq_blockStandalone := False\<rparr>), cs)
        else (newLine (put c st), cs))
     else if sq_lineStart st \<and> (c = SP \<or> c = TAB) then (put c st, cs)
     else
       let st = st\<lparr>sq_blockStandalone := False\<rparr> in
       if c = QUOTE1 then ((put c st)\<lparr>sq_lineStart := False, sq_state := sqlSingleQuote\<rparr>, cs)
       else if c = QUOTE2 then ((put c st)\<lparr>sq_lineStart := False, sq_state := sqlDoubleQuote\<rparr>, cs)
       else if c = BACKTICK then ((put c st)\<lparr>sq_lineStart := False, sq_state := sqlBacktick\<rparr>, cs)
       else if c = HASH then
         ((if sq_lineStart st then (cutLine st)\<lparr>sq_lineStandalone := True\<rparr> else st)
            \<lparr>sq_state := sqlLineComment\<rparr>, cs)
       else if c = DASH then
         (if dashComment cs then
            ((if sq_lineStart st then (cutLine st)\<lparr>sq_lineStandalone := True\<rparr> else st)
               \<lparr>sq_state := sqlLineComment\<rparr>, tl cs)
          else ((put c st)\<lparr>sq_lineStart := False\<rparr>, cs))
       else if c = SLASH then
         (if cs \<noteq> [] \<and> hd cs = STAR then
            ((if sq_lineStart st then (cutLine st)\<lparr>sq_blockStandalone := True\<rparr> else st)
               \<lparr>sq_state := sqlBlockComment\<rparr>, tl cs)
          else ((put c st)\<lparr>sq_lineStart := False\<rparr>, cs))
       else ((put c st)\<lparr>sq_lineStart := False\<rparr>, cs))"

fun closingQuote :: "sqlCommentState \<Rightarrow> char \<Rightarrow> bool" where
  "closingQuote sqlSingleQuote c = (c = QUOTE1)"
| "closingQuote sqlDoubleQuote c = (c = QUOTE2)"
| "closingQuote sqlBacktick c = (c = BACKTICK)"
| "closingQuote _ c = False"

definition quotedStep :: "sqlScan \<Rightarrow> char \<Rightarrow> string \<Rightarrow> sqlScan \<times> string" where
  "quotedStep st c cs =
    (let st = put c st in
     if c = BACKSLASH \<and> cs \<noteq> [] then (put (hd cs) st, tl cs)
     else if closingQuote (sq_state st) c then
       (if cs \<noteq> [] \<and> hd cs = c then (put (hd cs) st, tl cs)
        else (st\<lparr>sq_state := sqlNormal\<rparr>, cs))
     else (st, cs))"

definition lineCommentStep :: "sqlScan \<Rightarrow> char \<Rightarrow> string \<Rightarrow> sqlScan \<times> string" where
  "lineCommentStep st c cs =
    (if c = CR then
       (if sq_lineStandalone st
        then ((newLine (st\<lparr>sq_lineStandalone := False\<rparr>))\<lparr>sq_state := sqlNormal\<rparr>, dropLF cs)
        else ((newLine (put c st))\<lparr>sq_state := sqlNormal\<rparr>, cs))
     else if c = LF then
       (if sq_lineStandalone st
        then ((newLine (st\<lparr>sq_lineStandalone := False\<rparr>))\<lparr>sq_state := sqlNormal\<rparr>, cs)
        else ((newLine (put c st))\<lparr>sq_state := sqlNormal\<rparr>, cs))
     else (st, cs))"

definition blockCommentStep :: "sqlScan \<Rightarrow> char \<Rightarrow> string \<Rightarrow> sqlScan \<times> string" where
  "blockCommentStep st c cs =
    (if c = STAR \<and> cs \<noteq> [] \<and> hd cs = SLASH then (st\<lparr>sq_state := sqlNormal\<rparr>, tl cs)
     else (st, cs))"

fun sqlStep :: "sqlScan \<Rightarrow> char \<Rightarrow> string \<Rightarrow> sqlScan \<times> string" where
  "sqlStep st c cs =
    (case sq_state st of
       sqlNormal \<Rightarrow> normalStep st c cs
     | sqlSingleQuote \<Rightarrow> quotedStep st c cs
     | sqlDoubleQuote \<Rightarrow> quotedStep st c cs
     | sqlBacktick \<Rightarrow> quotedStep st c cs
     | sqlLineComment \<Rightarrow> lineCommentStep st c cs
     | sqlBlockComment \<Rightarrow> blockCommentStep st c cs)"

declare sqlStep.simps [simp del]

lemma dropLF_suffix: "\<exists>u. cs = u @ dropLF cs"
  by (cases cs) (auto intro: exI [of _ "[]"] exI [of _ "[LF]"])

text \<open>Every step reads at least one byte and leaves a suffix of the content.\<close>

lemma sqlStep_suffix: "sqlStep st c cs = (st', rest) \<Longrightarrow> \<exists>u. cs = u @ rest"
proof -
  assume step: "sqlStep st c cs = (st', rest)"
  have tl: "cs \<noteq> [] \<Longrightarrow> \<exists>u. cs = u @ tl cs" by (metis append_Cons append_Nil list.collapse)
  have dash: "dashComment cs \<Longrightarrow> cs \<noteq> []" by (cases cs) auto
  show ?thesis
    using step tl dash dropLF_suffix [of cs]
    by (auto simp: sqlStep.simps normalStep_def quotedStep_def lineCommentStep_def
        blockCommentStep_def Let_def split: sqlCommentState.splits if_splits)
qed

lemma sqlStep_length: "sqlStep st c cs = (st', rest) \<Longrightarrow> length rest \<le> length cs"
  by (auto dest!: sqlStep_suffix)

function sqlLoop :: "sqlScan \<Rightarrow> string \<Rightarrow> sqlScan" where
  "sqlLoop st [] = st"
| "sqlLoop st (c # cs) = sqlLoop (fst (sqlStep st c cs)) (snd (sqlStep st c cs))"
  by pat_completeness auto
termination
proof (relation "measure (\<lambda>(st, s). length s)")
  fix st c cs
  have "length (snd (sqlStep st c cs)) \<le> length cs"
    by (rule sqlStep_length [of st c cs "fst (sqlStep st c cs)"]) simp
  then show "((fst (sqlStep st c cs), snd (sqlStep st c cs)), st, c # cs)
      \<in> measure (\<lambda>(st, s). length s)"
    by (cases "sqlStep st c cs") simp
qed simp

definition stripSQLComments :: "string \<Rightarrow> string" where
  "stripSQLComments content = sq_result (sqlLoop sqlInit content)"

section \<open>Nothing is invented\<close>

text \<open>A step extends the output only by bytes it has read, in their order.\<close>

lemma subseq_put: "subseq r u \<Longrightarrow> subseq (r @ [c]) (u @ [c])"
  by simp

lemma take_subseq: "subseq (take n r) r"
  by (metis append_take_drop_id list_emb_append2 subseq_order.order_refl prefix_imp_subseq
      take_is_prefix)

lemma subseq_take: "subseq r u \<Longrightarrow> subseq (take n r) u"
  using take_subseq subseq_order.order_trans by blast

lemma subseq_append_right: "subseq r u \<Longrightarrow> subseq r (u @ v)"
  by (meson prefixI prefix_imp_subseq subseq_order.order_trans)

definition grows :: "sqlScan \<Rightarrow> char \<Rightarrow> string \<Rightarrow> sqlScan \<times> string \<Rightarrow> bool" where
  "grows st c cs r \<longleftrightarrow>
     sq_result (fst r) = sq_result st \<or> sq_result (fst r) = sq_result st @ [c] \<or>
     sq_result (fst r) = take (sq_lineOutputStart st) (sq_result st) \<or>
     (cs \<noteq> [] \<and> snd r = tl cs \<and> sq_result (fst r) = sq_result st @ [c, hd cs])"

lemma normalStep_grows: "grows st c cs (normalStep st c cs)"
  by (simp add: grows_def normalStep_def Let_def put_def cutLine_def newLine_def)

lemma quotedStep_grows: "grows st c cs (quotedStep st c cs)"
  by (simp add: grows_def quotedStep_def Let_def put_def)

lemma lineCommentStep_grows: "grows st c cs (lineCommentStep st c cs)"
  by (simp add: grows_def lineCommentStep_def put_def newLine_def)

lemma blockCommentStep_grows: "grows st c cs (blockCommentStep st c cs)"
  by (simp add: grows_def blockCommentStep_def)

lemmas step_grows = normalStep_grows quotedStep_grows lineCommentStep_grows blockCommentStep_grows

lemma sqlStep_grows: "grows st c cs (sqlStep st c cs)"
  using step_grows by (cases "sq_state st") (simp_all add: sqlStep.simps)

lemma sqlStep_subseq:
  assumes "sqlStep st c cs = (st', rest)"
  shows "\<exists>u. c # cs = u @ rest \<and> subseq (sq_result st') (sq_result st @ u)"
proof -
  obtain u where u: "cs = u @ rest" using sqlStep_suffix [OF assms] by blast
  have one: "subseq (sq_result st @ [c]) (sq_result st @ c # u)"
    by (rule list_emb_append_mono) simp_all
  have none: "subseq (sq_result st) (sq_result st @ c # u)"
    by (rule subseq_append_right) simp
  have cut: "subseq (take n (sq_result st)) (sq_result st @ c # u)" for n
    using none subseq_take by blast
  have two: "cs \<noteq> [] \<Longrightarrow> rest = tl cs \<Longrightarrow>
      subseq (sq_result st @ [c, hd cs]) (sq_result st @ c # u)"
  proof -
    assume "cs \<noteq> []" and tl: "rest = tl cs"
    then obtain x xs where cs: "cs = x # xs" by (cases cs) auto
    have "x # xs = u @ xs" using u unfolding tl unfolding cs by simp
    then have "u = [x]" by (cases u) auto
    then show ?thesis unfolding cs by simp
  qed
  have "grows st c cs (st', rest)" using sqlStep_grows [of st c cs] assms by simp
  then have "subseq (sq_result st') (sq_result st @ c # u)"
    unfolding grows_def fst_conv snd_conv using one none cut two by metis
  with u show ?thesis by (intro exI [of _ "c # u"]) simp
qed

lemma sqlLoop_subseq: "subseq (sq_result (sqlLoop st s)) (sq_result st @ s)"
proof (induction st s rule: sqlLoop.induct)
  case (1 st)
  then show ?case by simp
next
  case (2 st c cs)
  obtain st' rest where step: "sqlStep st c cs = (st', rest)" by fastforce
  obtain u where u: "c # cs = u @ rest" "subseq (sq_result st') (sq_result st @ u)"
    using sqlStep_subseq [OF step] by blast
  have "subseq (sq_result (sqlLoop st' rest)) (sq_result st' @ rest)"
    using 2 step by simp
  also have "subseq (sq_result st' @ rest) ((sq_result st @ u) @ rest)"
    using u(2) by (rule list_emb_append_mono) simp
  finally have "subseq (sq_result (sqlLoop st' rest)) (sq_result st @ c # cs)"
    using u(1) by simp
  moreover have "sqlLoop st (c # cs) = sqlLoop st' rest" using step by simp
  ultimately show ?case by (simp only:)
qed

section \<open>Lines and segments\<close>

text \<open>
  A script seen from outside the scanner: a line is a list of segments and an end of line.
  \<open>Blank\<close> is white space inside a line, \<open>Code\<close> is SQL text that opens no comment and no
  quote, \<open>Lit\<close> is a quoted literal or identifier, \<open>LineC\<close> a line comment (opened by a hash or
  by two dashes) and \<open>BlockC\<close> a block comment, which may span several physical lines.
\<close>

datatype sqlSeg =
  Blank string | Code string | Lit sqlCommentState string | LineC bool string | BlockC string

fun quoteChar :: "sqlCommentState \<Rightarrow> char" where
  "quoteChar sqlDoubleQuote = QUOTE2"
| "quoteChar sqlBacktick = BACKTICK"
| "quoteChar _ = QUOTE1"

fun segText :: "sqlSeg \<Rightarrow> string" where
  "segText (Blank s) = s"
| "segText (Code s) = s"
| "segText (Lit k b) = quoteChar k # b @ [quoteChar k]"
| "segText (LineC hash b) = (if hash then [HASH] else [DASH, DASH]) @ b"
| "segText (BlockC b) = SLASH # STAR # b @ [STAR, SLASH]"

fun isComment :: "sqlSeg \<Rightarrow> bool" where
  "isComment (LineC h b) = True"
| "isComment (BlockC b) = True"
| "isComment _ = False"

fun isBlank :: "sqlSeg \<Rightarrow> bool" where
  "isBlank (Blank s) = True"
| "isBlank _ = False"

definition keepSeg :: "sqlSeg \<Rightarrow> string" where
  "keepSeg s = (if isComment s then [] else segText s)"

text \<open>
  What is left of a line.  \<open>acc\<close> is the indentation kept so far and \<open>seen\<close> tells that a
  comment was met: a line with code keeps everything but its comments (and the indentation
  before a leading comment), a line of comments only disappears with its end of line, and a
  blank line stays.
\<close>

fun lineOut :: "string \<Rightarrow> bool \<Rightarrow> sqlSeg list \<Rightarrow> string \<Rightarrow> string" where
  "lineOut acc seen [] eol = (if seen then [] else acc @ eol)"
| "lineOut acc seen (s # ss) eol =
     (if isComment s then lineOut [] True ss eol
      else if isBlank s then lineOut (acc @ segText s) seen ss eol
      else acc @ segText s @ concat (map keepSeg ss) @ eol)"

text \<open>Well-formed segments and lines.\<close>

fun codeBody :: "string \<Rightarrow> bool" where
  "codeBody [] = True"
| "codeBody (c # cs) =
     (c \<notin> {CR, LF, QUOTE1, QUOTE2, BACKTICK, HASH} \<and>
      (c = DASH \<longrightarrow> cs \<noteq> [] \<and> \<not> dashComment cs) \<and>
      (c = SLASH \<longrightarrow> cs \<noteq> [] \<and> hd cs \<noteq> STAR) \<and> codeBody cs)"

fun litBody :: "char \<Rightarrow> string \<Rightarrow> bool" where
  "litBody q [] = True"
| "litBody q [c] = (c \<noteq> BACKSLASH \<and> c \<noteq> q)"
| "litBody q (c # x # xs) =
     (if c = BACKSLASH then litBody q xs
      else if c = q then x = q \<and> litBody q xs
      else litBody q (x # xs))"

fun blockBody :: "string \<Rightarrow> bool" where
  "blockBody [] = True"
| "blockBody (c # cs) = (\<not> (c = STAR \<and> cs \<noteq> [] \<and> hd cs = SLASH) \<and> blockBody cs)"

fun segOk :: "sqlSeg \<Rightarrow> bool" where
  "segOk (Blank s) = (\<forall>c \<in> set s. c = SP \<or> c = TAB)"
| "segOk (Code s) = (s \<noteq> [] \<and> hd s \<noteq> SP \<and> hd s \<noteq> TAB \<and> codeBody s)"
| "segOk (Lit k b) = (k \<in> {sqlSingleQuote, sqlDoubleQuote, sqlBacktick} \<and> litBody (quoteChar k) b)"
| "segOk (LineC h b) = (CR \<notin> set b \<and> LF \<notin> set b \<and> (\<not> h \<longrightarrow> b \<noteq> [] \<longrightarrow> isSQLWhitespace (hd b)))"
| "segOk (BlockC b) = blockBody b"

definition segsText :: "sqlSeg list \<Rightarrow> string" where
  "segsText ss = concat (map segText ss)"

fun lineOk :: "sqlSeg list \<Rightarrow> bool" where
  "lineOk [] = True"
| "lineOk (s # ss) =
     (segOk s \<and> lineOk ss \<and>
      (case s of LineC h b \<Rightarrow> ss = []
       | Lit k b \<Rightarrow> segsText ss = [] \<or> hd (segsText ss) \<noteq> quoteChar k
       | _ \<Rightarrow> True))"

definition eolOk :: "string \<Rightarrow> bool" where
  "eolOk e \<longleftrightarrow> e = [LF] \<or> e = [CR, LF]"

section \<open>The scanner on one segment\<close>

text \<open>
  Between two segments the scanner is in \<open>mk out acc ls pend\<close>: \<open>out\<close> is the output of the
  earlier lines, \<open>acc\<close> that of the current line.
\<close>

definition mk :: "string \<Rightarrow> string \<Rightarrow> bool \<Rightarrow> bool \<Rightarrow> sqlScan" where
  "mk out acc ls pend = \<lparr>sq_result = out @ acc, sq_state = sqlNormal, sq_lineStart = ls,
     sq_lineOutputStart = length out, sq_lineStandalone = False, sq_blockStandalone = pend\<rparr>"

lemma mk_init: "sqlInit = mk [] [] True False"
  by (simp add: mk_def sqlInit_def)

lemma chars_distinct [simp]:
  "CR \<noteq> LF" "LF \<noteq> CR" "SP \<noteq> CR" "SP \<noteq> LF" "TAB \<noteq> CR" "TAB \<noteq> LF" "QUOTE1 \<noteq> CR" "QUOTE1 \<noteq> LF"
  "QUOTE2 \<noteq> CR" "QUOTE2 \<noteq> LF" "BACKTICK \<noteq> CR" "BACKTICK \<noteq> LF" "QUOTE2 \<noteq> QUOTE1"
  "BACKTICK \<noteq> QUOTE1" "BACKTICK \<noteq> QUOTE2" "HASH \<noteq> CR" "HASH \<noteq> LF" "DASH \<noteq> CR" "DASH \<noteq> LF"
  "SLASH \<noteq> CR" "SLASH \<noteq> LF" "HASH \<noteq> QUOTE1" "HASH \<noteq> QUOTE2" "HASH \<noteq> BACKTICK"
  "DASH \<noteq> QUOTE1" "DASH \<noteq> QUOTE2" "DASH \<noteq> BACKTICK" "DASH \<noteq> HASH" "SLASH \<noteq> QUOTE1"
  "SLASH \<noteq> QUOTE2" "SLASH \<noteq> BACKTICK" "SLASH \<noteq> HASH" "SLASH \<noteq> DASH" "HASH \<noteq> SP" "HASH \<noteq> TAB"
  "DASH \<noteq> SP" "DASH \<noteq> TAB" "SLASH \<noteq> SP" "SLASH \<noteq> TAB" "QUOTE1 \<noteq> SP" "QUOTE1 \<noteq> TAB"
  "QUOTE2 \<noteq> SP" "QUOTE2 \<noteq> TAB" "BACKTICK \<noteq> SP" "BACKTICK \<noteq> TAB" "STAR \<noteq> SLASH"
  "SP \<noteq> QUOTE1" "SP \<noteq> QUOTE2" "SP \<noteq> BACKTICK" "SP \<noteq> HASH" "SP \<noteq> DASH" "SP \<noteq> SLASH"
  "TAB \<noteq> QUOTE1" "TAB \<noteq> QUOTE2" "TAB \<noteq> BACKTICK" "TAB \<noteq> HASH" "TAB \<noteq> DASH" "TAB \<noteq> SLASH"
  "BACKSLASH \<noteq> QUOTE1" "BACKSLASH \<noteq> QUOTE2" "BACKSLASH \<noteq> BACKTICK"
  "QUOTE1 \<noteq> BACKSLASH" "QUOTE2 \<noteq> BACKSLASH" "BACKTICK \<noteq> BACKSLASH"
  by (simp_all add: sql_chars)

lemmas step_defs = sqlStep.simps normalStep_def put_def cutLine_def newLine_def Let_def mk_def

lemma loop_blank:
  "\<forall>c \<in> set s. c = SP \<or> c = TAB \<Longrightarrow>
     sqlLoop (mk out acc True p) (s @ t) = sqlLoop (mk out (acc @ s) True p) t"
proof (induction s arbitrary: acc)
  case Nil
  then show ?case by simp
next
  case (Cons c s)
  then have "sqlLoop (mk out acc True p) ((c # s) @ t) = sqlLoop (mk out (acc @ [c]) True p) (s @ t)"
    by (auto simp: step_defs)
  with Cons show ?case by simp
qed

lemma loop_blank_mid:
  "\<forall>c \<in> set s. c = SP \<or> c = TAB \<Longrightarrow>
     sqlLoop (mk out acc False False) (s @ t) = sqlLoop (mk out (acc @ s) False False) t"
proof (induction s arbitrary: acc)
  case Nil
  then show ?case by simp
next
  case (Cons c s)
  then have "sqlLoop (mk out acc False False) ((c # s) @ t)
      = sqlLoop (mk out (acc @ [c]) False False) (s @ t)"
    by (auto simp: step_defs)
  with Cons show ?case by simp
qed

lemma dashComment_append: "cs \<noteq> [] \<Longrightarrow> \<not> dashComment cs \<Longrightarrow> \<not> dashComment (cs @ t)"
  by (induction cs rule: dashComment.induct) (auto elim: dashComment.elims)

lemma code_step:
  assumes "codeBody (c # cs)" and "ls \<longrightarrow> c \<noteq> SP \<and> c \<noteq> TAB"
  shows "sqlLoop (mk out acc ls p) (c # cs @ t) = sqlLoop (mk out (acc @ [c]) False False) (cs @ t)"
  using assms dashComment_append [of cs t] by (cases ls) (auto simp: step_defs)

lemma loop_code_mid:
  "codeBody s \<Longrightarrow> sqlLoop (mk out acc False False) (s @ t) = sqlLoop (mk out (acc @ s) False False) t"
proof (induction s arbitrary: acc)
  case Nil
  then show ?case by simp
next
  case (Cons c s)
  then show ?case using code_step [of c s False out acc False t] by simp
qed

lemma loop_code:
  assumes "segOk (Code s)"
  shows "sqlLoop (mk out acc ls p) (s @ t) = sqlLoop (mk out (acc @ s) False False) t"
proof -
  from assms obtain c cs where s: "s = c # cs" and "c \<noteq> SP" "c \<noteq> TAB" "codeBody (c # cs)"
    by (cases s) auto
  then show ?thesis
    using code_step [of c cs ls out acc p t] loop_code_mid [of cs out "acc @ [c]" t] by simp
qed

definition quoted :: "sqlCommentState \<Rightarrow> string \<Rightarrow> string \<Rightarrow> sqlScan" where
  "quoted k out acc = (mk out acc False False)\<lparr>sq_state := k\<rparr>"

lemma quoted_open:
  "k \<in> {sqlSingleQuote, sqlDoubleQuote, sqlBacktick} \<Longrightarrow>
     sqlLoop (mk out acc ls p) (quoteChar k # t) = sqlLoop (quoted k out (acc @ [quoteChar k])) t"
  by (elim insertE) (simp_all add: quoted_def step_defs)

lemma quoted_plain:
  "k \<in> {sqlSingleQuote, sqlDoubleQuote, sqlBacktick} \<Longrightarrow> c \<noteq> BACKSLASH \<Longrightarrow> c \<noteq> quoteChar k \<Longrightarrow>
     sqlLoop (quoted k out acc) (c # cs) = sqlLoop (quoted k out (acc @ [c])) cs"
  by (elim insertE) (simp_all add: quoted_def sqlStep.simps quotedStep_def put_def mk_def Let_def)

lemma quoted_pair:
  "k \<in> {sqlSingleQuote, sqlDoubleQuote, sqlBacktick} \<Longrightarrow>
     c = BACKSLASH \<or> c = quoteChar k \<and> x = c \<Longrightarrow>
     sqlLoop (quoted k out acc) (c # x # xs) = sqlLoop (quoted k out (acc @ [c, x])) xs"
  by (elim insertE disjE)
    (simp_all add: quoted_def sqlStep.simps quotedStep_def put_def mk_def Let_def)

lemma quoted_close:
  "k \<in> {sqlSingleQuote, sqlDoubleQuote, sqlBacktick} \<Longrightarrow> t = [] \<or> hd t \<noteq> quoteChar k \<Longrightarrow>
     sqlLoop (quoted k out acc) (quoteChar k # t)
       = sqlLoop (mk out (acc @ [quoteChar k]) False False) t"
  by (cases k; cases t)
    (simp_all add: quoted_def sqlStep.simps quotedStep_def put_def mk_def Let_def)

lemma loop_lit_body:
  assumes k: "k \<in> {sqlSingleQuote, sqlDoubleQuote, sqlBacktick}"
    and t: "t = [] \<or> hd t \<noteq> quoteChar k"
  shows "litBody (quoteChar k) b \<Longrightarrow> sqlLoop (quoted k out acc) (b @ quoteChar k # t)
    = sqlLoop (mk out (acc @ b @ [quoteChar k]) False False) t"
proof (induction "quoteChar k" b arbitrary: acc rule: litBody.induct)
  case 1
  then show ?case by (simp add: quoted_close [OF k t] del: sqlLoop.simps)
next
  case (2 c)
  then show ?case by (simp add: quoted_plain [OF k] quoted_close [OF k t] del: sqlLoop.simps)
next
  case (3 c x xs)
  show ?case
  proof (cases "c = BACKSLASH \<or> c = quoteChar k")
    case True
    with 3 have "litBody (quoteChar k) xs" "c = BACKSLASH \<or> c = quoteChar k \<and> x = c"
      by (auto split: if_splits)
    moreover from this True 3 have "sqlLoop (quoted k out (acc @ [c, x])) (xs @ quoteChar k # t)
        = sqlLoop (mk out ((acc @ [c, x]) @ xs @ [quoteChar k]) False False) t"
      by blast
    ultimately show ?thesis by (simp add: quoted_pair [OF k] del: sqlLoop.simps)
  next
    case False
    with 3 have "litBody (quoteChar k) (x # xs)" by simp
    with False 3 have "sqlLoop (quoted k out (acc @ [c])) ((x # xs) @ quoteChar k # t)
        = sqlLoop (mk out ((acc @ [c]) @ (x # xs) @ [quoteChar k]) False False) t"
      by blast
    with False show ?thesis by (simp add: quoted_plain [OF k] del: sqlLoop.simps)
  qed
qed

lemma loop_lit:
  assumes "segOk (Lit k b)" and "t = [] \<or> hd t \<noteq> quoteChar k"
  shows "sqlLoop (mk out acc ls p) (segText (Lit k b) @ t)
    = sqlLoop (mk out (acc @ segText (Lit k b)) False False) t"
proof -
  from assms(1) have k: "k \<in> {sqlSingleQuote, sqlDoubleQuote, sqlBacktick}"
    and b: "litBody (quoteChar k) b" by simp_all
  show ?thesis
    using quoted_open [OF k, of out acc ls p "b @ quoteChar k # t"]
      loop_lit_body [OF k assms(2) b, of out "acc @ [quoteChar k]"]
    by (simp del: sqlLoop.simps)
qed

lemma loop_block_body:
  "blockBody b \<Longrightarrow> sq_state st = sqlBlockComment \<Longrightarrow>
     sqlLoop st (b @ STAR # SLASH # t) = sqlLoop (st\<lparr>sq_state := sqlNormal\<rparr>) t"
proof (induction b)
  case Nil
  then show ?case by (simp add: sqlStep.simps blockCommentStep_def)
next
  case (Cons c b)
  have hd: "hd (b @ STAR # SLASH # t) = SLASH \<longrightarrow> b \<noteq> [] \<and> hd b = SLASH"
    by (cases b) auto
  from Cons.prems hd have "sqlStep st c (b @ STAR # SLASH # t) = (st, b @ STAR # SLASH # t)"
    by (auto simp: sqlStep.simps blockCommentStep_def)
  with Cons show ?case by simp
qed

lemma loop_block:
  assumes "blockBody b" and "p \<longrightarrow> ls"
  shows "sqlLoop (mk out acc ls p) (segText (BlockC b) @ t)
    = sqlLoop (if ls then mk out [] True True else mk out acc False False) t"
  using assms by (auto simp: step_defs loop_block_body)

lemma loop_line_body:
  "CR \<notin> set b \<Longrightarrow> LF \<notin> set b \<Longrightarrow> sq_state st = sqlLineComment \<Longrightarrow> sqlLoop st (b @ t) = sqlLoop st t"
proof (induction b)
  case Nil
  then show ?case by simp
next
  case (Cons c b)
  then have "sqlStep st c (b @ t) = (st, b @ t)"
    by (auto simp: sqlStep.simps lineCommentStep_def)
  with Cons show ?case by simp
qed

definition inLine :: "string \<Rightarrow> string \<Rightarrow> bool \<Rightarrow> sqlScan" where
  "inLine out acc ls =
     (if ls then (mk out [] True False)\<lparr>sq_lineStandalone := True, sq_state := sqlLineComment\<rparr>
      else (mk out acc False False)\<lparr>sq_state := sqlLineComment\<rparr>)"

lemma dashComment_line:
  "(b \<noteq> [] \<longrightarrow> isSQLWhitespace (hd b)) \<Longrightarrow> t = [] \<or> hd t = LF \<or> hd t = CR \<Longrightarrow>
     dashComment (DASH # b @ t)"
  by (cases b; cases t) (auto simp: isSQLWhitespace_def)

lemma loop_line:
  assumes "segOk (LineC h b)" and "p \<longrightarrow> ls" and "t = [] \<or> hd t = LF \<or> hd t = CR"
  shows "sqlLoop (mk out acc ls p) (segText (LineC h b) @ t) = sqlLoop (inLine out acc ls) t"
proof -
  have "sqlLoop (mk out acc ls p) (segText (LineC h b) @ t) = sqlLoop (inLine out acc ls) (b @ t)"
  proof (cases h)
    case True
    with assms show ?thesis by (auto simp: step_defs inLine_def)
  next
    case False
    with assms have "dashComment (DASH # b @ t)"
      by (intro dashComment_line) auto
    with False assms show ?thesis by (auto simp: step_defs inLine_def)
  qed
  also have "\<dots> = sqlLoop (inLine out acc ls) t"
    using assms by (intro loop_line_body) (auto simp: inLine_def)
  finally show ?thesis .
qed

lemma loop_line_eol:
  assumes "eolOk e"
  shows "sqlLoop (inLine out acc ls) (e @ t)
    = sqlLoop (mk (if ls then out else out @ acc @ e) [] True False) t"
  using assms unfolding eolOk_def
  by (cases ls) (auto simp: inLine_def step_defs lineCommentStep_def)

lemma loop_eol:
  assumes "eolOk e" and "p \<longrightarrow> ls"
  shows "sqlLoop (mk out acc ls p) (e @ t)
    = sqlLoop (mk (if p then out else out @ acc @ e) [] True False) t"
  using assms unfolding eolOk_def by (auto simp: step_defs)


section \<open>The scanner on a line\<close>

lemma segsText_simps [simp]: "segsText [] = []" "segsText (s # ss) = segText s @ segsText ss"
  by (simp_all add: segsText_def)

lemma eolOk_hd: "eolOk e \<Longrightarrow> e \<noteq> [] \<and> (hd e = LF \<or> hd e = CR)"
  by (auto simp: eolOk_def)

lemma quoteChar_eol [simp]: "quoteChar k \<noteq> LF" "quoteChar k \<noteq> CR"
  by (cases k; simp add: sql_chars)+

text \<open>What may follow a line: an end of line or the end of the script.\<close>

definition lineTail :: "string \<Rightarrow> bool" where
  "lineTail t \<longleftrightarrow> t = [] \<or> hd t = LF \<or> hd t = CR"

lemma lineTail_eol: "eolOk e \<Longrightarrow> lineTail (e @ t)"
  by (auto simp: lineTail_def eolOk_def)

lemma lineTail_quote:
  "lineTail t \<Longrightarrow> segsText ss = [] \<or> hd (segsText ss) \<noteq> quoteChar k \<Longrightarrow>
     segsText ss @ t = [] \<or> hd (segsText ss @ t) \<noteq> quoteChar k"
  by (metis append_self_conv2 hd_append lineTail_def quoteChar_eol)

lemma loop_segs_mid:
  assumes "lineOk ss" and "eolOk e"
  shows "sqlLoop (mk out acc False False) (segsText ss @ e @ t)
    = sqlLoop (mk (out @ acc @ concat (map keepSeg ss) @ e) [] True False) t"
  using assms
proof (induction ss arbitrary: acc)
  case Nil
  then show ?case using loop_eol [of e False False out acc t] by (simp del: sqlLoop.simps)
next
  case (Cons s ss)
  show ?case
  proof (cases s)
    case (Blank b)
    with Cons show ?thesis
      using loop_blank_mid [of b out acc "segsText ss @ e @ t"]
      by (simp add: keepSeg_def del: sqlLoop.simps)
  next
    case (Code b)
    with Cons show ?thesis
      using loop_code [of b out acc False False "segsText ss @ e @ t"]
      by (simp add: keepSeg_def del: sqlLoop.simps)
  next
    case (Lit k b)
    with Cons have q: "segsText ss @ e @ t = [] \<or> hd (segsText ss @ e @ t) \<noteq> quoteChar k"
      by (intro lineTail_quote lineTail_eol) simp_all
    from Cons.prems Lit have ok: "segOk (Lit k b)" by simp
    from Cons Lit show ?thesis
      using loop_lit [OF ok q, of out acc False False]
      by (simp add: keepSeg_def del: sqlLoop.simps)
  next
    case (LineC h b)
    with Cons have ss: "ss = []" and ok: "segOk (LineC h b)" by simp_all
    have "e @ t = [] \<or> hd (e @ t) = LF \<or> hd (e @ t) = CR"
      using lineTail_eol [OF Cons.prems(2)] by (simp add: lineTail_def)
    with LineC ss show ?thesis
      using loop_line [OF ok, of False False "e @ t" out acc]
        loop_line_eol [OF Cons.prems(2), of out acc False t]
      by (simp add: keepSeg_def del: sqlLoop.simps)
  next
    case (BlockC b)
    with Cons show ?thesis
      using loop_block [of b False False out acc "segsText ss @ e @ t"]
      by (simp add: keepSeg_def del: sqlLoop.simps)
  qed
qed

lemma loop_segs:
  assumes "lineOk ss" and "eolOk e"
  shows "sqlLoop (mk out acc True p) (segsText ss @ e @ t)
    = sqlLoop (mk (out @ lineOut acc p ss e) [] True False) t"
  using assms
proof (induction ss arbitrary: acc p)
  case Nil
  then show ?case using loop_eol [of e p True out acc t] by (simp del: sqlLoop.simps)
next
  case (Cons s ss)
  then have IH: "sqlLoop (mk out acc' True p') (segsText ss @ e @ t)
      = sqlLoop (mk (out @ lineOut acc' p' ss e) [] True False) t" for acc' p' by simp
  have mid: "sqlLoop (mk out acc' False False) (segsText ss @ e @ t)
      = sqlLoop (mk (out @ acc' @ concat (map keepSeg ss) @ e) [] True False) t" for acc'
    using Cons.prems by (intro loop_segs_mid) simp_all
  show ?case
  proof (cases s)
    case (Blank b)
    with Cons.prems show ?thesis
      using loop_blank [of b out acc p "segsText ss @ e @ t"] by (simp add: IH del: sqlLoop.simps)
  next
    case (Code b)
    with Cons.prems show ?thesis
      using loop_code [of b out acc True p "segsText ss @ e @ t"] by (simp add: mid del: sqlLoop.simps)
  next
    case (Lit k b)
    with Cons.prems have q: "segsText ss @ e @ t = [] \<or> hd (segsText ss @ e @ t) \<noteq> quoteChar k"
      by (intro lineTail_quote lineTail_eol) simp_all
    from Cons.prems Lit have ok: "segOk (Lit k b)" by simp
    from Lit show ?thesis
      using loop_lit [OF ok q, of out acc True p] by (simp add: mid del: sqlLoop.simps)
  next
    case (LineC h b)
    with Cons.prems have ss: "ss = []" and ok: "segOk (LineC h b)" by simp_all
    have "e @ t = [] \<or> hd (e @ t) = LF \<or> hd (e @ t) = CR"
      using lineTail_eol [OF Cons.prems(2)] by (simp add: lineTail_def)
    with LineC ss show ?thesis
      using loop_line [OF ok, of p True "e @ t" out acc]
        loop_line_eol [OF Cons.prems(2), of out acc True t]
      by (simp del: sqlLoop.simps)
  next
    case (BlockC b)
    with Cons.prems show ?thesis
      using loop_block [of b p True out acc "segsText ss @ e @ t"]
      by (simp add: IH del: sqlLoop.simps)
  qed
qed

text \<open>
  The last line of a script may lack an end of line; there a block comment keeps the blanks
  that follow it.
\<close>

fun lastOut :: "string \<Rightarrow> sqlSeg list \<Rightarrow> string" where
  "lastOut acc [] = acc"
| "lastOut acc (s # ss) =
     (if isComment s then lastOut [] ss
      else if isBlank s then lastOut (acc @ segText s) ss
      else acc @ segText s @ concat (map keepSeg ss))"

lemma result_mk [simp]: "sq_result (mk out acc ls p) = out @ acc"
  by (simp add: mk_def)

lemma result_inLine [simp]: "sq_result (inLine out acc ls) = (if ls then out else out @ acc)"
  by (simp add: inLine_def)

lemma loop_last_mid:
  assumes "lineOk ss"
  shows "sq_result (sqlLoop (mk out acc False False) (segsText ss))
    = out @ acc @ concat (map keepSeg ss)"
  using assms
proof (induction ss arbitrary: acc)
  case Nil
  then show ?case by simp
next
  case (Cons s ss)
  show ?case
  proof (cases s)
    case (Blank b)
    with Cons show ?thesis
      by (simp add: keepSeg_def loop_blank_mid del: sqlLoop.simps)
  next
    case (Code b)
    with Cons show ?thesis
      using loop_code [of b out acc False False "segsText ss"]
      by (simp add: keepSeg_def del: sqlLoop.simps)
  next
    case (Lit k b)
    with Cons have q: "segsText ss = [] \<or> hd (segsText ss) \<noteq> quoteChar k" by simp
    from Cons.prems Lit have ok: "segOk (Lit k b)" by simp
    from Cons Lit show ?thesis
      using loop_lit [OF ok q, of out acc False False]
      by (simp add: keepSeg_def del: sqlLoop.simps)
  next
    case (LineC h b)
    with Cons have ss: "ss = []" and ok: "segOk (LineC h b)" by simp_all
    with LineC show ?thesis
      using loop_line [OF ok, of False False "[]" out acc]
      by (simp add: keepSeg_def)
  next
    case (BlockC b)
    with Cons show ?thesis
      using loop_block [of b False False out acc "segsText ss"]
      by (simp add: keepSeg_def del: sqlLoop.simps)
  qed
qed

lemma loop_last:
  assumes "lineOk ss"
  shows "sq_result (sqlLoop (mk out acc True p) (segsText ss)) = out @ lastOut acc ss"
  using assms
proof (induction ss arbitrary: acc p)
  case Nil
  then show ?case by simp
next
  case (Cons s ss)
  then have IH: "sq_result (sqlLoop (mk out acc' True p') (segsText ss)) = out @ lastOut acc' ss"
    for acc' p' by simp
  have mid: "sq_result (sqlLoop (mk out acc' False False) (segsText ss))
      = out @ acc' @ concat (map keepSeg ss)" for acc'
    using Cons.prems by (intro loop_last_mid) simp_all
  show ?case
  proof (cases s)
    case (Blank b)
    with Cons.prems show ?thesis by (simp add: loop_blank IH del: sqlLoop.simps)
  next
    case (Code b)
    with Cons.prems show ?thesis
      using loop_code [of b out acc True p "segsText ss"] by (simp add: mid del: sqlLoop.simps)
  next
    case (Lit k b)
    with Cons.prems have q: "segsText ss = [] \<or> hd (segsText ss) \<noteq> quoteChar k" by simp
    from Cons.prems Lit have ok: "segOk (Lit k b)" by simp
    from Lit show ?thesis
      using loop_lit [OF ok q, of out acc True p] by (simp add: mid del: sqlLoop.simps)
  next
    case (LineC h b)
    with Cons.prems have ss: "ss = []" and ok: "segOk (LineC h b)" by simp_all
    with LineC show ?thesis
      using loop_line [OF ok, of p True "[]" out acc] by simp
  next
    case (BlockC b)
    with Cons.prems show ?thesis
      using loop_block [of b p True out acc "segsText ss"] by (simp add: IH del: sqlLoop.simps)
  qed
qed

section \<open>Whole scripts\<close>

text \<open>A script: its lines with their ends of line, and a last line without one.\<close>

type_synonym sqlScript = "(sqlSeg list \<times> string) list \<times> sqlSeg list"

definition scriptOk :: "sqlScript \<Rightarrow> bool" where
  "scriptOk s \<longleftrightarrow> (\<forall>(ss, e) \<in> set (fst s). lineOk ss \<and> eolOk e) \<and> lineOk (snd s)"

definition scriptText :: "sqlScript \<Rightarrow> string" where
  "scriptText s = concat (map (\<lambda>(ss, e). segsText ss @ e) (fst s)) @ segsText (snd s)"

definition scriptOut :: "sqlScript \<Rightarrow> string" where
  "scriptOut s = concat (map (\<lambda>(ss, e). lineOut [] False ss e) (fst s)) @ lastOut [] (snd s)"

lemma loop_script:
  assumes "\<forall>(ss, e) \<in> set ls. lineOk ss \<and> eolOk e" and "lineOk l"
  shows "sq_result (sqlLoop (mk out [] True False)
      (concat (map (\<lambda>(ss, e). segsText ss @ e) ls) @ segsText l))
    = out @ concat (map (\<lambda>(ss, e). lineOut [] False ss e) ls) @ lastOut [] l"
  using assms
proof (induction ls arbitrary: out)
  case Nil
  then show ?case by (simp add: loop_last del: sqlLoop.simps)
next
  case (Cons x ls)
  obtain ss e where x: "x = (ss, e)" by force
  with Cons.prems have ok: "lineOk ss" "eolOk e" by simp_all
  show ?case
    using Cons loop_segs [OF ok, of out "[]" False] by (simp add: x del: sqlLoop.simps)
qed

lemma strip_script: "scriptOk s \<Longrightarrow> stripSQLComments (scriptText s) = scriptOut s"
  using loop_script [of "fst s" "snd s" "[]"]
  by (simp add: scriptOk_def scriptText_def scriptOut_def stripSQLComments_def mk_init
      del: sqlLoop.simps)

lemma keepSeg_plain: "\<forall>s \<in> set ss. \<not> isComment s \<Longrightarrow> concat (map keepSeg ss) = segsText ss"
  by (induction ss) (simp_all add: keepSeg_def)

lemma lineOut_plain:
  "\<forall>s \<in> set ss. \<not> isComment s \<Longrightarrow> lineOut acc False ss e = acc @ segsText ss @ e"
  by (induction acc False ss e rule: lineOut.induct) (auto simp: keepSeg_plain)

lemma lastOut_plain: "\<forall>s \<in> set ss. \<not> isComment s \<Longrightarrow> lastOut acc ss = acc @ segsText ss"
  by (induction acc ss rule: lastOut.induct) (auto simp: keepSeg_plain)

text \<open>The literals (quoted strings and identifiers) of a line, in order.\<close>

definition plainScript :: "sqlScript \<Rightarrow> bool" where
  "plainScript s \<longleftrightarrow>
     (\<forall>(ss, e) \<in> set (fst s). \<forall>x \<in> set ss. \<not> isComment x) \<and> (\<forall>x \<in> set (snd s). \<not> isComment x)"

lemma concat_plain:
  "\<forall>(ss, e) \<in> set ls. \<forall>x \<in> set ss. \<not> isComment x \<Longrightarrow>
     concat (map (\<lambda>(ss, e). lineOut [] False ss e) ls) = concat (map (\<lambda>(ss, e). segsText ss @ e) ls)"
  by (induction ls) (auto simp: lineOut_plain)

lemma scriptOut_plain: "plainScript s \<Longrightarrow> scriptOut s = scriptText s"
  by (simp add: plainScript_def scriptOut_def scriptText_def concat_plain lastOut_plain)

section \<open>Properties\<close>

text \<open>C20. Comment removal refines its line-by-line specification: on a script made of
  well-formed lines, every line keeps its code, its string literals and its quoted identifiers
  (comment look-alikes inside them included), comments are removed, the indentation before a
  leading comment is removed with it, and a line that held only comments disappears together
  with its end of line, while blank lines stay.\<close>

theorem stripSQLComments_refines:
  assumes "scriptOk s"
  shows "stripSQLComments (scriptText s) = scriptOut s"
  using assms by (rule strip_script)

definition exampleScript :: sqlScript where
  "exampleScript =
     ([([Blank ''  '', LineC False '' note''], [LF]),
       ([Code ''SELECT '', Lit sqlSingleQuote ''-- kept /* kept */'', Blank '' '', BlockC '' gone ''],
        [CR, LF]),
       ([BlockC '' alone '', Blank '' ''], [LF]),
       ([], [LF])],
      [Code ''FROM t'', LineC True ''end''])"

theorem stripSQLComments_refines_witness:
  "scriptOk exampleScript \<and>
   stripSQLComments (scriptText exampleScript) =
     ''SELECT '' @ [QUOTE1] @ ''-- kept /* kept */'' @ [QUOTE1] @ '' '' @ [CR, LF, LF] @ ''FROM t''"
proof -
  have ok: "scriptOk exampleScript" by code_simp
  have "scriptOut exampleScript =
      ''SELECT '' @ [QUOTE1] @ ''-- kept /* kept */'' @ [QUOTE1] @ '' '' @ [CR, LF, LF] @ ''FROM t''"
    by code_simp
  with ok show ?thesis using stripSQLComments_refines [OF ok] by simp
qed

text \<open>Nothing is invented: the cleaned script consists of bytes of the original script in
  their original order, for every byte sequence, unterminated literals and comments
  included.\<close>

theorem stripSQLComments_subseq: "subseq (stripSQLComments content) content"
  using sqlLoop_subseq [of sqlInit content] by (simp add: stripSQLComments_def sqlInit_def)

text \<open>A script without comments is left byte for byte as it is, so that the digest of a
  comment-free migration is that of the file.\<close>

theorem stripSQLComments_plain:
  assumes "scriptOk s" and "plainScript s"
  shows "stripSQLComments (scriptText s) = scriptText s"
  using strip_script [OF assms(1)] scriptOut_plain [OF assms(2)] by simp

theorem stripSQLComments_plain_witness:
  "stripSQLComments (''a - b / c'' @ [LF] @ ''d'') = ''a - b / c'' @ [LF] @ ''d''"
proof -
  have "scriptOk ([([Code ''a - b / c''], [LF])], [Code ''d''])"
    and "plainScript ([([Code ''a - b / c''], [LF])], [Code ''d''])"
    by code_simp+
  from stripSQLComments_plain [OF this] show ?thesis by (simp add: scriptText_def)
qed

text \<open>A block comment that is the only separator of two tokens is removed without leaving a
  space, so the tokens merge, although a comment separates tokens in SQL.\<close>

theorem stripSQLComments_merges:
  assumes "segOk (Code a)" and "blockBody b" and "segOk (Code c)"
  shows "stripSQLComments (a @ ''/*'' @ b @ ''*/'' @ c) = a @ c"
proof -
  have ok: "scriptOk ([], [Code a, BlockC b, Code c])"
    using assms by (simp add: scriptOk_def)
  show ?thesis
    using strip_script [OF ok]
    by (simp add: scriptText_def scriptOut_def keepSeg_def sql_chars)
qed

theorem stripSQLComments_merges_witness:
  "stripSQLComments (''DROP'' @ ''/*'' @ '' c '' @ ''*/'' @ ''TABLE'') = ''DROPTABLE''"
proof -
  have ok: "segOk (Code ''DROP'')" "blockBody '' c ''" "segOk (Code ''TABLE'')" by code_simp+
  from stripSQLComments_merges [OF ok] show ?thesis by simp
qed

end
