(* ===== verification/GoPath.thy ===== *)
theory GoPath
  imports Prelude
begin

text \<open>
  The functions of the Go packages \<open>path\<close>, \<open>io/fs\<close> and \<open>unicode/utf8\<close> that the
  repository calls: \<open>path.Clean\<close>, \<open>path.Base\<close>, \<open>path.Ext\<close>, \<open>fs.ValidPath\<close> and
  \<open>utf8.ValidString\<close>, each on byte strings.
\<close>

section \<open>path\<close>

definition SLASHC :: char where "SLASHC = CHR 0x2F"
definition DOT :: char where "DOT = CHR 0x2E"

text \<open>The lexical processing of \<open>path.Clean\<close>, on a stack of kept elements.\<close>

fun clean_step :: "bool \<Rightarrow> string list \<Rightarrow> string \<Rightarrow> string list" where
  "clean_step rooted stack c =
     (if c = [] \<or> c = ''.'' then stack
      else if c = ''..'' then
        (case stack of
           [] \<Rightarrow> (if rooted then [] else [''..''])
         | e # rest \<Rightarrow> if e = ''..'' then ''..'' # stack else rest)
      else c # stack)"

definition path_clean :: "string \<Rightarrow> string" where
  "path_clean s =
     (let rooted = has_prefix s [SLASHC];
          body = join_str [SLASHC] (rev (foldl (clean_step rooted) [] (split_char SLASHC s)))
      in if rooted then SLASHC # body else if body = [] then ''.'' else body)"

definition path_base :: "string \<Rightarrow> string" where
  "path_base s =
     (if s = [] then ''.''
      else let t = rev (dropWhile (\<lambda>c. c = SLASHC) (rev s)) in
        if t = [] then ''/''
        else (case cut_last SLASHC t of (a, b, found) \<Rightarrow> if found then b else t))"

definition path_ext :: "string \<Rightarrow> string" where
  "path_ext s =
     (let tl = (case cut_last SLASHC s of (a, b, found) \<Rightarrow> if found then b else s)
      in case cut_last DOT tl of (a, b, found) \<Rightarrow> if found then DOT # b else [])"

section \<open>utf8\<close>

definition cont :: "char \<Rightarrow> bool" where
  "cont c \<longleftrightarrow> 128 \<le> byte_val c \<and> byte_val c \<le> 191"

fun utf8_len :: "string \<Rightarrow> nat" where
  "utf8_len [] = 0"
| "utf8_len (a # s) =
     (let x = byte_val a in
      if x < 128 then 1
      else if 194 \<le> x \<and> x \<le> 223 then
        (case s of b # _ \<Rightarrow> if cont b then 2 else 0 | _ \<Rightarrow> 0)
      else if 224 \<le> x \<and> x \<le> 239 then
        (case s of b # c # _ \<Rightarrow>
           if cont b \<and> cont c \<and> (x = 224 \<longrightarrow> 160 \<le> byte_val b) \<and> (x = 237 \<longrightarrow> byte_val b \<le> 159)
           then 3 else 0 | _ \<Rightarrow> 0)
      else if 240 \<le> x \<and> x \<le> 244 then
        (case s of b # c # d # _ \<Rightarrow>
           if cont b \<and> cont c \<and> cont d \<and> (x = 240 \<longrightarrow> 144 \<le> byte_val b)
             \<and> (x = 244 \<longrightarrow> byte_val b \<le> 143)
           then 4 else 0 | _ \<Rightarrow> 0)
      else 0)"

fun utf8_valid_acc :: "nat \<Rightarrow> string \<Rightarrow> bool" where
  "utf8_valid_acc skip [] = True"
| "utf8_valid_acc (Suc n) (c # s) = utf8_valid_acc n s"
| "utf8_valid_acc 0 (c # s) =
     (case utf8_len (c # s) of 0 \<Rightarrow> False | Suc n \<Rightarrow> utf8_valid_acc n s)"

definition utf8_valid :: "string \<Rightarrow> bool" where
  "utf8_valid s = utf8_valid_acc 0 s"

section \<open>io/fs\<close>

definition fs_elem_ok :: "string \<Rightarrow> bool" where
  "fs_elem_ok e \<longleftrightarrow> e \<noteq> [] \<and> e \<noteq> ''.'' \<and> e \<noteq> ''..''"

definition fs_valid_path :: "string \<Rightarrow> bool" where
  "fs_valid_path name \<longleftrightarrow>
     utf8_valid name \<and> (name = ''.'' \<or> list_all fs_elem_ok (split_char SLASHC name))"

lemma fs_valid_path_elems:
  "fs_valid_path name \<Longrightarrow> name \<noteq> ''.'' \<Longrightarrow> e \<in> set (split_char SLASHC name) \<Longrightarrow>
     e \<noteq> [] \<and> e \<noteq> ''.'' \<and> e \<noteq> ''..''"
  by (auto simp: fs_valid_path_def list_all_iff fs_elem_ok_def)

lemma split_char_append_sep:
  "split_char c (a @ c # b) = split_char c a @ split_char c b"
proof (induction a)
  case Nil
  then show ?case by simp
next
  case (Cons x a)
  obtain y ys where "split_char c a = y # ys" by (cases "split_char c a") auto
  with Cons show ?case by auto
qed

end
