(* ===== verification/Migration.thy ===== *)
theory Migration
  imports GoPath SqlComments
begin

text \<open>
  Model of \<open>resource/migration\<close>: reading the files a migration record refers to
  (\<open>files.go\<close>), the file system shown to the migration runner and the localized descriptions
  (\<open>description.go\<close>), their synchronisation into the translation table (\<open>sync.go\<close>), and
  the registration and execution of the migrations (\<open>migration.go\<close>).  The migration package
  of kratos-kit (file references, registry, runner) is the record \<open>migKit\<close>, gorm is the record
  \<open>gormTx\<close>, and a source's \<open>fs.FS\<close> is the record \<open>fsys\<close>; all are parameters.
\<close>

section \<open>File systems\<close>

datatype fsErr = ErrNotExist string | FsFailure string

text \<open>An opened file: what \<open>Stat\<close>, \<open>io.ReadAll\<close> and \<open>Close\<close> return on it.\<close>

record openFile =
  of_stat :: "(fsErr, string) result"
  of_read :: "(fsErr, string) result"
  of_close :: "fsErr option"

record walkEntry =
  we_path :: string
  we_name :: string
  we_dir :: bool
  we_err :: "fsErr option"

text \<open>\<open>fs_walk root\<close> is the sequence of calls \<open>fs.WalkDir\<close> makes to its callback.\<close>

record fsys =
  fs_readFile :: "string \<Rightarrow> (fsErr, string) result"
  fs_open :: "string \<Rightarrow> (fsErr, openFile) result"
  fs_readDir :: "string \<Rightarrow> (fsErr, string list) result"
  fs_walk :: "string \<Rightarrow> walkEntry list"

record fileReference =
  fr_path :: string
  fr_sha :: string

record fileContent =
  fc_path :: string
  fc_content :: string

text \<open>A registered migration source (\<open>module.Migration\<close>).\<close>

record migSource =
  ms_name :: string
  ms_fs :: fsys
  ms_path :: string
  ms_deps :: "string list"

datatype migErr =
  NotReferences string | OutsideRoot string | BadPath string | WrongDataSource string
| ReadFailed string fsErr | DigestMismatch string | UnknownModule string
| WalkFailed fsErr | BadDescriptionPath string | EncodeFailed string
| DescriptionsFailed string migErr | RegistryFailed string | RunnerFailed string
| ClientFailed string string | ModuleFailed string string
| NeedDefaultClient | HistoriesFailed string | RecordsFailed string
| MissingHistory string string string | CreateFailed string | SaveFailed string | SyncFailed migErr

section \<open>files.go\<close>

text \<open>One iteration of the loop of \<open>ReadFiles\<close>; \<open>digest\<close> is \<open>NewFileReference(...).SHA256\<close>.\<close>

definition executedContent :: "string \<Rightarrow> string \<Rightarrow> string" where
  "executedContent p raw = (if path_ext p = ''.sql'' then stripSQLComments raw else raw)"

definition relativeTo :: "string \<Rightarrow> string \<Rightarrow> (migErr, string) result" where
  "relativeTo root p =
     (if root \<noteq> ''.'' then
        (if \<not> has_prefix p (root @ ''/'') then Inl (OutsideRoot p)
         else Inr (trim_prefix p (root @ ''/'')))
      else Inr p)"

definition checkLocation ::
    "string \<Rightarrow> string \<Rightarrow> string \<Rightarrow> string \<Rightarrow> string \<Rightarrow> (migErr, unit) result" where
  "checkLocation defaultTarget version dataSource p relative =
     (let parts = split_char SLASHC relative;
          target = (if length parts = 4 then parts ! 2 else defaultTarget)
      in if \<not> fs_valid_path p \<or> (length parts \<noteq> 2 \<and> length parts \<noteq> 3 \<and> length parts \<noteq> 4)
            \<or> parts ! 0 \<noteq> version then Inl (BadPath p)
         else if 3 \<le> length parts \<and> target \<noteq> dataSource then Inl (WrongDataSource p)
         else Inr ())"

definition readReference ::
    "string \<Rightarrow> (string \<Rightarrow> string \<Rightarrow> string) \<Rightarrow> migSource \<Rightarrow> string \<Rightarrow> string \<Rightarrow> fileReference
       \<Rightarrow> (migErr, fileContent) result" where
  "readReference defaultTarget digest source version dataSource file =
     (let p = fr_path file in
      bindR (relativeTo (path_clean (ms_path source)) p) (\<lambda>relative.
      bindR (checkLocation defaultTarget version dataSource p relative) (\<lambda>_.
      case fs_readFile (ms_fs source) p of
        Inl e \<Rightarrow> Inl (ReadFailed p e)
      | Inr raw \<Rightarrow>
          let content = executedContent p raw in
          if digest p content \<noteq> fr_sha file then Inl (DigestMismatch p)
          else Inr \<lparr>fc_path = p, fc_content = content\<rparr>)))"

definition ReadFiles ::
    "string \<Rightarrow> (string \<Rightarrow> string \<Rightarrow> string) \<Rightarrow> (string \<Rightarrow> (string, fileReference list) result)
       \<Rightarrow> migSource list \<Rightarrow> string \<Rightarrow> string \<Rightarrow> string \<Rightarrow> string
       \<Rightarrow> (migErr, fileContent list) result" where
  "ReadFiles defaultTarget digest decode sources moduleName version dataSource references =
     (if references = [] then Inr []
      else case decode references of
        Inl e \<Rightarrow> Inl (NotReferences e)
      | Inr files \<Rightarrow>
          if files = [] then Inr []
          else case find (\<lambda>s. ms_name s = moduleName) sources of
            None \<Rightarrow> Inl (UnknownModule moduleName)
          | Some source \<Rightarrow> mapR (readReference defaultTarget digest source version dataSource) files)"

text \<open>
  What a file reference must satisfy: a valid path \<open>root/version/...\<close> of one, two or three
  further elements, none of them empty or a dot path, whose data source is the requested one
  (the default one unless the path names another), and the recorded digest.
\<close>

definition rootElems :: "string \<Rightarrow> string list" where
  "rootElems root = (if root = ''.'' then [] else split_char SLASHC root)"

definition located :: "string \<Rightarrow> string \<Rightarrow> string \<Rightarrow> string \<Rightarrow> string \<Rightarrow> bool" where
  "located defaultTarget root version dataSource p \<longleftrightarrow>
     (\<exists>rest. p = join_str ''/'' (rootElems root @ version # rest)
        \<and> (\<forall>e \<in> set (version # rest). fs_elem_ok e \<and> SLASHC \<notin> set e)
        \<and> (length rest = 1
           \<or> length rest = 2 \<and> dataSource = defaultTarget
           \<or> length rest = 3 \<and> dataSource = rest ! 1))"

lemma SLASHC_str: "''/'' = [SLASHC]" by (simp add: SLASHC_def)

lemma split_join_path:
  assumes "relativeTo root p = Inr rel"
  shows "split_char SLASHC p = rootElems root @ split_char SLASHC rel"
proof (cases "root = ''.''")
  case True
  with assms show ?thesis by (simp add: relativeTo_def rootElems_def)
next
  case False
  with assms have pre: "has_prefix p (root @ ''/'')" and rel: "rel = trim_prefix p (root @ ''/'')"
    by (auto simp: relativeTo_def split: if_splits)
  from pre obtain t where "p = (root @ ''/'') @ t" unfolding has_prefix_iff by blast
  with rel have "p = (root @ ''/'') @ rel" by (simp only: trim_prefix_append)
  with False show ?thesis
    by (simp add: rootElems_def SLASHC_str split_char_append_sep)
qed

lemma checkLocation_located:
  assumes "relativeTo root p = Inr rel"
    and "checkLocation d version ds p rel = Inr ()"
  shows "located d root version ds p"
proof -
  let ?parts = "split_char SLASHC rel"
  from assms(2) have valid: "fs_valid_path p"
    and len: "length ?parts = 2 \<or> length ?parts = 3 \<or> length ?parts = 4"
    and ver: "?parts ! 0 = version"
    and target: "3 \<le> length ?parts \<longrightarrow> (if length ?parts = 4 then ?parts ! 2 else d) = ds"
    by (auto simp: checkLocation_def Let_def split: if_splits)
  from len ver obtain rest where rest: "?parts = version # rest"
    by (cases ?parts) auto
  have split: "split_char SLASHC p = rootElems root @ version # rest"
    using split_join_path [OF assms(1)] rest by simp
  then have p: "p = join_str ''/'' (rootElems root @ version # rest)"
    using join_split_char [of SLASHC p] by (simp add: SLASHC_str)
  have ne: "p \<noteq> ''.''"
  proof
    assume "p = ''.''"
    then have "split_char SLASHC p = [''.'']" by (simp add: SLASHC_def)
    with split rest len show False by (cases "rootElems root") auto
  qed
  have elems: "\<forall>e \<in> set (version # rest). fs_elem_ok e \<and> SLASHC \<notin> set e"
  proof
    fix e assume "e \<in> set (version # rest)"
    then have e: "e \<in> set (split_char SLASHC p)" using split by auto
    with valid ne have "fs_elem_ok e" by (simp add: fs_valid_path_def list_all_iff)
    moreover from e have "SLASHC \<notin> set e" by (rule split_char_parts)
    ultimately show "fs_elem_ok e \<and> SLASHC \<notin> set e" by simp
  qed
  have lens: "length rest = 1 \<or> length rest = 2 \<and> ds = d \<or> length rest = 3 \<and> ds = rest ! 1"
    using len target rest by auto
  from p elems lens show ?thesis unfolding located_def by blast
qed

lemma readReference_Inr:
  "readReference d digest s version ds file = Inr c \<Longrightarrow>
     fc_path c = fr_path file
     \<and> located d (path_clean (ms_path s)) version ds (fr_path file)
     \<and> (\<exists>raw. fs_readFile (ms_fs s) (fr_path file) = Inr raw
          \<and> fc_content c = executedContent (fr_path file) raw)
     \<and> digest (fr_path file) (fc_content c) = fr_sha file"
  by (auto simp: readReference_def Let_def bindR_Inr_iff split: sum.splits if_splits
      dest: checkLocation_located)

section \<open>The file system of the runner\<close>

definition isHiddenDescription :: "string \<Rightarrow> bool" where
  "isHiddenDescription name \<longleftrightarrow>
     path_ext (path_base name) = ''.md'' \<and> path_base name \<noteq> ''README.md''"

datatype openErr =
  OpenErr fsErr | StatErr fsErr | StatCloseErr fsErr fsErr | ReadErr fsErr | CloseErr fsErr

text \<open>\<open>migrationSourceFS.Open\<close>; the cleaned script is a file whose \<open>Stat\<close> is that of the
  original file and whose \<open>Close\<close> does nothing.\<close>

definition sourceOpen :: "fsys \<Rightarrow> string \<Rightarrow> (openErr, openFile) result" where
  "sourceOpen f name =
     (if isHiddenDescription name then Inl (OpenErr (ErrNotExist name))
      else case fs_open f name of
        Inl e \<Rightarrow> Inl (OpenErr e)
      | Inr file \<Rightarrow>
          if path_ext name \<noteq> ''.sql'' then Inr file
          else case of_stat file of
            Inl e \<Rightarrow> (case of_close file of
                Some ce \<Rightarrow> Inl (StatCloseErr e ce) | None \<Rightarrow> Inl (StatErr e))
          | Inr info \<Rightarrow> (case of_read file of
                Inl e \<Rightarrow> Inl (ReadErr e)
              | Inr content \<Rightarrow> (case of_close file of
                    Some ce \<Rightarrow> Inl (CloseErr ce)
                  | None \<Rightarrow> Inr \<lparr>of_stat = Inr info, of_read = Inr (stripSQLComments content),
                                 of_close = None\<rparr>)))"

text \<open>\<open>migrationSourceFS.ReadDir\<close>, on the names of the entries.\<close>

definition sourceReadDir :: "fsys \<Rightarrow> string \<Rightarrow> (fsErr, string list) result" where
  "sourceReadDir f name =
     (case fs_readDir f name of
        Inl e \<Rightarrow> Inl e
      | Inr entries \<Rightarrow> Inr (filter (\<lambda>n. \<not> isHiddenDescription n) entries))"

text \<open>The documented relation of \<open>fs.ReadFile\<close> to \<open>Open\<close> and \<open>io.ReadAll\<close>.\<close>

definition readsWhatOpens :: "fsys \<Rightarrow> bool" where
  "readsWhatOpens f \<longleftrightarrow>
     (\<forall>n file raw. fs_open f n = Inr file \<longrightarrow> fs_readFile f n = Inr raw \<longrightarrow> of_read file = Inr raw)"

lemma sourceOpen_content:
  assumes "readsWhatOpens f" and "sourceOpen f n = Inr file" and "fs_readFile f n = Inr raw"
  shows "of_read file = Inr (executedContent n raw)"
proof -
  from assms(2) obtain g where g: "fs_open f n = Inr g"
    by (auto simp: sourceOpen_def split: if_splits sum.splits)
  with assms have read: "of_read g = Inr raw" unfolding readsWhatOpens_def by blast
  show ?thesis
    using assms(2) g read
    by (auto simp: sourceOpen_def executedContent_def split: if_splits sum.splits option.splits)
qed

section \<open>Localized descriptions\<close>

record descTranslation =
  dt_module :: string
  dt_version :: string
  dt_dataSource :: string
  dt_locale :: string
  dt_description :: string

definition is_alpha :: "char \<Rightarrow> bool" where
  "is_alpha c \<longleftrightarrow> (65 \<le> byte_val c \<and> byte_val c \<le> 90) \<or> (97 \<le> byte_val c \<and> byte_val c \<le> 122)"

definition is_alnum :: "char \<Rightarrow> bool" where
  "is_alnum c \<longleftrightarrow> is_alpha c \<or> (48 \<le> byte_val c \<and> byte_val c \<le> 57)"

definition localeTag :: "string \<Rightarrow> bool" where
  "localeTag s \<longleftrightarrow>
     (case split_char (CHR ''-'') s of
        [] \<Rightarrow> False
      | l # ss \<Rightarrow> list_all is_alpha l \<and> 2 \<le> length l \<and> length l \<le> 3
          \<and> list_all (\<lambda>x. list_all is_alnum x \<and> 2 \<le> length x \<and> length x \<le> 8) ss)"

text \<open>\<open>localizedReadmePattern.FindStringSubmatch\<close>: the captured locale.\<close>

definition localizedReadme :: "string \<Rightarrow> string option" where
  "localizedReadme name =
     (if has_prefix name ''README.'' \<and> has_suffix name ''.md'' \<and> 10 \<le> length name then
        (let l = take (length name - 10) (drop 7 name) in if localeTag l then Some l else None)
      else None)"

text \<open>The callback of the walk.\<close>

definition visitDescription ::
    "string \<Rightarrow> (string list \<Rightarrow> (string, string) result) \<Rightarrow> string \<Rightarrow> string \<Rightarrow> walkEntry
       \<Rightarrow> (migErr, descTranslation list) result" where
  "visitDescription defaultTarget encode moduleName cleanRoot entry =
     (case we_err entry of
        Some e \<Rightarrow> Inl (WalkFailed e)
      | None \<Rightarrow>
          if we_dir entry then Inr []
          else case localizedReadme (we_name entry) of
            None \<Rightarrow> Inr []
          | Some loc \<Rightarrow>
              let relative = (if cleanRoot \<noteq> ''.'' then trim_prefix (we_path entry) (cleanRoot @ ''/'')
                              else we_path entry);
                  parts = split_char SLASHC relative
              in if length parts \<noteq> 2 \<and> length parts \<noteq> 3 \<and> length parts \<noteq> 4
                 then Inl (BadDescriptionPath (we_path entry))
                 else case encode [we_path entry] of
                   Inl e \<Rightarrow> Inl (EncodeFailed e)
                 | Inr reference \<Rightarrow>
                     Inr [\<lparr>dt_module = moduleName, dt_version = parts ! 0,
                           dt_dataSource = (if length parts = 4 then parts ! 2 else defaultTarget),
                           dt_locale = loc, dt_description = reference\<rparr>])"

fun descLess :: "descTranslation \<Rightarrow> descTranslation \<Rightarrow> bool" where
  "descLess l r =
     (if dt_module l \<noteq> dt_module r then dt_module l < dt_module r
      else if dt_version l \<noteq> dt_version r then dt_version l < dt_version r
      else if dt_dataSource l \<noteq> dt_dataSource r then dt_dataSource l < dt_dataSource r
      else dt_locale l < dt_locale r)"

text \<open>\<open>sort.Slice\<close> with \<open>descLess\<close>: an insertion sort, one of the orders the library may
  produce; with distinct resource keys it is the only one.\<close>

fun insertDesc :: "descTranslation \<Rightarrow> descTranslation list \<Rightarrow> descTranslation list" where
  "insertDesc x [] = [x]"
| "insertDesc x (y # ys) = (if descLess y x then y # insertDesc x ys else x # y # ys)"

definition sortDescriptionTranslations :: "descTranslation list \<Rightarrow> descTranslation list" where
  "sortDescriptionTranslations ts = foldr insertDesc ts []"

definition loadDescriptionTranslations ::
    "string \<Rightarrow> (string list \<Rightarrow> (string, string) result) \<Rightarrow> string \<Rightarrow> fsys \<Rightarrow> string
       \<Rightarrow> (migErr, descTranslation list) result" where
  "loadDescriptionTranslations defaultTarget encode moduleName files root =
     bindR (mapR (visitDescription defaultTarget encode moduleName (path_clean root))
              (fs_walk files (path_clean root)))
       (\<lambda>tss. Inr (sortDescriptionTranslations (concat tss)))"


section \<open>sync.go\<close>

record migHistory =
  mh_id :: int
  mh_module :: string
  mh_dataSource :: string
  mh_version :: string

record migTranslation =
  mt_id :: int
  mt_targetKey :: string
  mt_targetID :: int
  mt_locale :: string
  mt_name :: string

text \<open>The calls of gorm inside the transaction, on an opaque database \<open>'d\<close>.\<close>

record 'd gormTx =
  tx_histories :: "'d \<Rightarrow> (string, migHistory list) result"
  tx_records :: "string \<Rightarrow> 'd \<Rightarrow> (string, migTranslation list) result"
  tx_create :: "migTranslation \<Rightarrow> 'd \<Rightarrow> (string, migTranslation \<times> 'd) result"
  tx_save :: "migTranslation \<Rightarrow> 'd \<Rightarrow> (string, 'd) result"

definition DescriptionTargetKey :: string where
  "DescriptionTargetKey = ''base_migration.description''"

definition historyIDs :: "migHistory list \<Rightarrow> string \<times> string \<times> string \<Rightarrow> int" where
  "historyIDs hs = foldl (\<lambda>m h. m((mh_module h, mh_dataSource h, mh_version h) := mh_id h)) (\<lambda>_. 0) hs"

definition existingRecords :: "migTranslation list \<Rightarrow> int \<times> string \<Rightarrow> migTranslation option" where
  "existingRecords rs = foldl (\<lambda>m r. m((mt_targetID r, mt_locale r) \<mapsto> r)) Map.empty rs"

definition newRecord :: "int \<Rightarrow> descTranslation \<Rightarrow> migTranslation" where
  "newRecord hid t = \<lparr>mt_id = 0, mt_targetKey = DescriptionTargetKey, mt_targetID = hid,
     mt_locale = dt_locale t, mt_name = dt_description t\<rparr>"

text \<open>One iteration of the loop over the translations: the map of existing records and the
  database before and after.\<close>

definition syncStep ::
    "'d gormTx \<Rightarrow> (string \<times> string \<times> string \<Rightarrow> int) \<Rightarrow> descTranslation
       \<Rightarrow> (int \<times> string \<Rightarrow> migTranslation option) \<Rightarrow> 'd
       \<Rightarrow> (migErr, (int \<times> string \<Rightarrow> migTranslation option) \<times> 'd) result" where
  "syncStep tx hids t existing d =
     (let hid = hids (dt_module t, dt_dataSource t, dt_version t) in
      if hid = 0 then Inl (MissingHistory (dt_module t) (dt_dataSource t) (dt_version t))
      else case existing (hid, dt_locale t) of
        None \<Rightarrow> (case tx_create tx (newRecord hid t) d of
            Inl e \<Rightarrow> Inl (CreateFailed e)
          | Inr (r, d') \<Rightarrow> Inr (existing((hid, dt_locale t) \<mapsto> r), d'))
      | Some r \<Rightarrow>
          if mt_name r = dt_description t then Inr (existing, d)
          else (let r' = r\<lparr>mt_name := dt_description t\<rparr> in
                case tx_save tx r' d of
                  Inl e \<Rightarrow> Inl (SaveFailed e)
                | Inr d' \<Rightarrow> Inr (existing((hid, dt_locale t) \<mapsto> r'), d')))"

fun syncLoop ::
    "'d gormTx \<Rightarrow> (string \<times> string \<times> string \<Rightarrow> int) \<Rightarrow> descTranslation list
       \<Rightarrow> (int \<times> string \<Rightarrow> migTranslation option) \<Rightarrow> 'd \<Rightarrow> (migErr, 'd) result" where
  "syncLoop tx hids [] existing d = Inr d"
| "syncLoop tx hids (t # ts) existing d =
     bindR (syncStep tx hids t existing d) (\<lambda>(existing', d'). syncLoop tx hids ts existing' d')"

definition syncTransaction ::
    "'d gormTx \<Rightarrow> descTranslation list \<Rightarrow> 'd \<Rightarrow> (migErr, 'd) result" where
  "syncTransaction tx ts d =
     (case tx_histories tx d of
        Inl e \<Rightarrow> Inl (HistoriesFailed e)
      | Inr hs \<Rightarrow> (case tx_records tx DescriptionTargetKey d of
          Inl e \<Rightarrow> Inl (RecordsFailed e)
        | Inr rs \<Rightarrow> syncLoop tx (historyIDs hs) ts (existingRecords rs) d))"

text \<open>\<open>gorm.DB.Transaction\<close> keeps the changes when the callback returns nil and undoes them
  otherwise.  \<open>central\<close> tells whether the default client exists and has a database.\<close>

definition syncDescriptionTranslations ::
    "'d gormTx \<Rightarrow> bool \<Rightarrow> descTranslation list \<Rightarrow> 'd \<Rightarrow> migErr option \<times> 'd" where
  "syncDescriptionTranslations tx central ts d =
     (if ts = [] then (None, d)
      else if \<not> central then (Some NeedDefaultClient, d)
      else case syncTransaction tx ts d of
        Inl e \<Rightarrow> (Some (SyncFailed e), d)
      | Inr d' \<Rightarrow> (None, d'))"

text \<open>
  The documented behaviour of gorm that the loop relies on, over the rows of the table: a
  find returns the matching rows, a create adds the row with a fresh primary key, a save
  replaces the row with the same primary key; a find changes nothing.
\<close>

definition gormLaws :: "'d gormTx \<Rightarrow> ('d \<Rightarrow> migTranslation set) \<Rightarrow> ('d \<Rightarrow> migHistory list) \<Rightarrow> bool" where
  "gormLaws tx rows hists \<longleftrightarrow>
     (\<forall>d. inj_on mt_id (rows d))
     \<and> (\<forall>d hs. tx_histories tx d = Inr hs \<longrightarrow> hs = hists d)
     \<and> (\<forall>k d rs. tx_records tx k d = Inr rs \<longrightarrow> set rs = {r \<in> rows d. mt_targetKey r = k})
     \<and> (\<forall>r d r' d'. tx_create tx r d = Inr (r', d') \<longrightarrow>
          r' = r\<lparr>mt_id := mt_id r'\<rparr> \<and> mt_id r' \<notin> mt_id ` rows d \<and> rows d' = insert r' (rows d)
          \<and> hists d' = hists d)
     \<and> (\<forall>r d d'. tx_save tx r d = Inr d' \<longrightarrow> mt_id r \<in> mt_id ` rows d \<longrightarrow>
          rows d' = insert r {x \<in> rows d. mt_id x \<noteq> mt_id r} \<and> hists d' = hists d)"

definition recKey :: "migTranslation \<Rightarrow> int \<times> string" where
  "recKey r = (mt_targetID r, mt_locale r)"

definition ours :: "migTranslation set \<Rightarrow> migTranslation set" where
  "ours rs = {r \<in> rs. mt_targetKey r = DescriptionTargetKey}"

text \<open>The map of existing records indexes the description rows of the table.\<close>

definition indexes :: "(int \<times> string \<Rightarrow> migTranslation option) \<Rightarrow> migTranslation set \<Rightarrow> bool" where
  "indexes existing rs \<longleftrightarrow>
     (\<forall>k r. existing k = Some r \<longleftrightarrow> r \<in> ours rs \<and> recKey r = k)"

lemma existing_foldl:
  "foldl (\<lambda>m r. m((mt_targetID r, mt_locale r) \<mapsto> r)) m rs k
     = (case find (\<lambda>r. recKey r = k) (rev rs) of None \<Rightarrow> m k | Some r \<Rightarrow> Some r)"
proof (induction rs arbitrary: m rule: rev_induct)
  case Nil
  then show ?case by simp
next
  case (snoc r rs)
  then show ?case by (auto simp: recKey_def)
qed

lemma find_key:
  "inj_on f (set xs) \<Longrightarrow> find (\<lambda>r. f r = k) xs = Some r \<longleftrightarrow> r \<in> set xs \<and> f r = k"
proof (induction xs)
  case Nil
  then show ?case by simp
next
  case (Cons x xs)
  then have "inj_on f (set xs)" by (simp add: inj_on_insert)
  with Cons show ?case by (auto dest: inj_onD)
qed

lemma existing_indexes:
  assumes "set rs = ours rows" and "inj_on recKey (ours rows)"
  shows "indexes (existingRecords rs) rows"
proof -
  have "existingRecords rs k = find (\<lambda>r. recKey r = k) (rev rs)" for k
    unfolding existingRecords_def existing_foldl by (simp split: option.splits)
  moreover have "inj_on recKey (set (rev rs))" using assms by simp
  ultimately show ?thesis
    unfolding indexes_def using find_key assms(1) by (simp add: find_key)
qed

definition keyOf :: "(string \<times> string \<times> string \<Rightarrow> int) \<Rightarrow> descTranslation \<Rightarrow> int \<times> string" where
  "keyOf hids t = (hids (dt_module t, dt_dataSource t, dt_version t), dt_locale t)"

text \<open>The table holds the translation \<open>t\<close>.\<close>

definition stored :: "(string \<times> string \<times> string \<Rightarrow> int) \<Rightarrow> migTranslation set \<Rightarrow> descTranslation \<Rightarrow> bool" where
  "stored hids rs t \<longleftrightarrow> (\<exists>r \<in> ours rs. recKey r = keyOf hids t \<and> mt_name r = dt_description t)"

text \<open>The rows that a synchronisation of the keys \<open>K\<close> has no business with.\<close>

definition unrelated :: "(int \<times> string) set \<Rightarrow> migTranslation set \<Rightarrow> migTranslation set" where
  "unrelated K rs = {r \<in> rs. mt_targetKey r \<noteq> DescriptionTargetKey \<or> recKey r \<notin> K}"

lemma gormLaws_create:
  "gormLaws tx rows hists \<Longrightarrow> tx_create tx r d = Inr (r', d') \<Longrightarrow>
     r' = r\<lparr>mt_id := mt_id r'\<rparr> \<and> rows d' = insert r' (rows d) \<and> hists d' = hists d"
  unfolding gormLaws_def by meson

lemma gormLaws_save:
  "gormLaws tx rows hists \<Longrightarrow> tx_save tx r d = Inr d' \<Longrightarrow> mt_id r \<in> mt_id ` rows d \<Longrightarrow>
     rows d' = insert r {x \<in> rows d. mt_id x \<noteq> mt_id r} \<and> hists d' = hists d"
  unfolding gormLaws_def by meson

lemma indexes_iff: "indexes e rs \<Longrightarrow> e k = Some r \<longleftrightarrow> r \<in> ours rs \<and> recKey r = k"
  unfolding indexes_def by blast

lemma indexesD1: "indexes e rs \<Longrightarrow> x \<in> ours rs \<Longrightarrow> e (recKey x) = Some x"
  unfolding indexes_def by blast

lemma syncStep_effect:
  assumes laws: "gormLaws tx rows hists" and ix: "indexes existing (rows d)"
    and step: "syncStep tx hids t existing d = Inr (existing', d')"
  shows "indexes existing' (rows d') \<and> stored hids (rows d') t
    \<and> unrelated {keyOf hids t} (rows d') = unrelated {keyOf hids t} (rows d)
    \<and> hists d' = hists d \<and> hids (dt_module t, dt_dataSource t, dt_version t) \<noteq> 0"
proof -
  let ?hid = "hids (dt_module t, dt_dataSource t, dt_version t)"
  let ?k = "(?hid, dt_locale t)"
  have k: "keyOf hids t = ?k" by (simp add: keyOf_def)
  from step have hid: "?hid \<noteq> 0" by (auto simp: syncStep_def Let_def split: if_splits)
  show ?thesis
  proof (cases "existing ?k")
    case None
    with step hid obtain r where c: "tx_create tx (newRecord ?hid t) d = Inr (r, d')"
      and e': "existing' = existing(?k \<mapsto> r)"
      by (auto simp: syncStep_def Let_def split: sum.splits prod.splits)
    from gormLaws_create [OF laws c] have r: "r = (newRecord ?hid t)\<lparr>mt_id := mt_id r\<rparr>"
      and rows: "rows d' = insert r (rows d)" and h: "hists d' = hists d" by simp_all
    from r have f: "mt_targetKey r = DescriptionTargetKey" "recKey r = ?k"
        "mt_name r = dt_description t"
      unfolding newRecord_def recKey_def by (metis migTranslation.select_convs
          migTranslation.update_convs(1))+
    have no: "\<forall>x \<in> ours (rows d). recKey x \<noteq> ?k"
    proof
      fix x assume "x \<in> ours (rows d)"
      from indexesD1 [OF ix this] None show "recKey x \<noteq> ?k" by auto
    qed
    have "ours (rows d') = insert r (ours (rows d))" using rows f by (auto simp: ours_def)
    with ix no f e' have "indexes existing' (rows d')"
      unfolding indexes_def by auto
    with rows f h hid k show ?thesis by (auto simp: stored_def unrelated_def ours_def)
  next
    case (Some r)
    from ix Some have r: "r \<in> rows d" "mt_targetKey r = DescriptionTargetKey" "recKey r = ?k"
      unfolding indexes_def ours_def by auto
    show ?thesis
    proof (cases "mt_name r = dt_description t")
      case True
      with step hid Some ix r k show ?thesis
        by (auto simp: syncStep_def Let_def stored_def ours_def)
    next
      case False
      define r' where "r' = r\<lparr>mt_name := dt_description t\<rparr>"
      with False step hid Some have s: "tx_save tx r' d = Inr d'"
        and e': "existing' = existing(?k \<mapsto> r')"
        by (auto simp: syncStep_def Let_def split: sum.splits)
      have id: "mt_id r' = mt_id r" and f: "mt_targetKey r' = DescriptionTargetKey"
          "recKey r' = ?k" "mt_name r' = dt_description t"
        using r by (simp_all add: r'_def recKey_def)
      have "mt_id r' \<in> mt_id ` rows d" using r(1) id by simp
      with gormLaws_save [OF laws s] id have rows: "rows d' = insert r' {x \<in> rows d. mt_id x \<noteq> mt_id r}"
        and h: "hists d' = hists d" by simp_all
      have "inj_on mt_id (rows d)" using laws by (simp add: gormLaws_def)
      then have uniq: "\<forall>x \<in> rows d. mt_id x = mt_id r \<longrightarrow> x = r"
        using r(1) by (simp add: inj_on_def)
      have rows': "rows d' = insert r' (rows d - {r})" using rows uniq by auto
      have "indexes existing' (rows d')"
        unfolding indexes_def
      proof (intro allI)
        fix q x
        show "existing' q = Some x \<longleftrightarrow> x \<in> ours (rows d') \<and> recKey x = q"
        proof (cases "q = ?k")
          case True
          have "\<forall>x \<in> ours (rows d). recKey x = ?k \<longrightarrow> x = r"
            using indexesD1 [OF ix] Some by fastforce
          with True e' f rows' show ?thesis by (auto simp: ours_def)
        next
          case False
          then have "existing' q = existing q" using e' by simp
          moreover have "x \<in> ours (rows d') \<and> recKey x = q \<longleftrightarrow> x \<in> ours (rows d) \<and> recKey x = q"
            using False f r rows' by (auto simp: ours_def)
          ultimately show ?thesis using indexes_iff [OF ix, of q x] by simp
        qed
      qed
      with rows' f r h hid k show ?thesis by (auto simp: stored_def unrelated_def ours_def)
    qed
  qed
qed

lemma stored_step:
  assumes "stored hids rs t" and "keyOf hids t \<notin> K" and "unrelated K rs' = unrelated K rs"
  shows "stored hids rs' t"
proof -
  from assms(1) obtain r where r: "r \<in> ours rs" "recKey r = keyOf hids t"
    "mt_name r = dt_description t" unfolding stored_def by auto
  with assms(2) have "r \<in> unrelated K rs" by (auto simp: unrelated_def ours_def)
  then have "r \<in> rs'" unfolding assms(3) [symmetric] by (simp add: unrelated_def)
  with r show ?thesis by (auto simp: stored_def ours_def)
qed

lemma unrelated_mono:
  assumes "K \<subseteq> L" and "unrelated K rs = unrelated K rs'"
  shows "unrelated L rs = unrelated L rs'"
proof -
  have "unrelated L s = {r \<in> unrelated K s. mt_targetKey r \<noteq> DescriptionTargetKey \<or> recKey r \<notin> L}"
    for s using assms(1) by (auto simp: unrelated_def)
  with assms(2) show ?thesis by simp
qed

lemma syncLoop_effect:
  assumes laws: "gormLaws tx rows hists"
  shows "indexes existing (rows d) \<Longrightarrow> syncLoop tx hids ts existing d = Inr d' \<Longrightarrow>
    distinct (map (keyOf hids) ts) \<Longrightarrow>
    (\<forall>t \<in> set ts. stored hids (rows d') t)
    \<and> unrelated (keyOf hids ` set ts) (rows d') = unrelated (keyOf hids ` set ts) (rows d)
    \<and> hists d' = hists d \<and> inj_on recKey (ours (rows d'))
    \<and> (\<forall>t \<in> set ts. hids (dt_module t, dt_dataSource t, dt_version t) \<noteq> 0)"
proof (induction ts arbitrary: existing d)
  case Nil
  then have "inj_on recKey (ours (rows d))"
    unfolding indexes_def inj_on_def by (metis option.inject)
  with Nil show ?case by simp
next
  case (Cons t ts)
  from Cons.prems(2) obtain existing1 d1 where
    s: "syncStep tx hids t existing d = Inr (existing1, d1)"
    and l: "syncLoop tx hids ts existing1 d1 = Inr d'"
    by (auto simp: bindR_Inr_iff)
  note e = syncStep_effect [OF laws Cons.prems(1) s]
  have dist: "distinct (map (keyOf hids) ts)" and nin: "keyOf hids t \<notin> keyOf hids ` set ts"
    using Cons.prems(3) by auto
  from e have "indexes existing1 (rows d1)" by simp
  note IH = Cons.IH [OF this l dist]
  have "stored hids (rows d') t"
    using stored_step [of hids "rows d1" t "keyOf hids ` set ts" "rows d'"] e nin IH by auto
  moreover have "unrelated (keyOf hids ` set (t # ts)) (rows d')
      = unrelated (keyOf hids ` set (t # ts)) (rows d)"
    using unrelated_mono [of "{keyOf hids t}" "keyOf hids ` set (t # ts)" "rows d1" "rows d"]
      unrelated_mono [of "keyOf hids ` set ts" "keyOf hids ` set (t # ts)" "rows d'" "rows d1"]
      e IH by auto
  ultimately show ?case using e IH by auto
qed

lemma syncLoop_noop:
  assumes "indexes existing (rows d)" and "inj_on recKey (ours (rows d))"
    and "\<forall>t \<in> set ts. stored hids (rows d) t"
    and "\<forall>t \<in> set ts. hids (dt_module t, dt_dataSource t, dt_version t) \<noteq> 0"
  shows "syncLoop tx hids ts existing d = Inr d"
  using assms
proof (induction ts)
  case Nil
  then show ?case by simp
next
  case (Cons t ts)
  then obtain r where "r \<in> ours (rows d)" "recKey r = keyOf hids t" "mt_name r = dt_description t"
    unfolding stored_def by auto
  with Cons.prems(1) have "existing (keyOf hids t) = Some r" unfolding indexes_def by blast
  with Cons \<open>mt_name r = dt_description t\<close> have "syncStep tx hids t existing d = Inr (existing, d)"
    by (simp add: syncStep_def keyOf_def)
  with Cons show ?case by simp
qed


section \<open>migration.go\<close>

text \<open>A database client of the map handed to \<open>NewMigration\<close>: nil, without a database, or usable.\<close>

datatype gormClient = NilClient | NoDB | Client nat

record migContributor =
  mc_name :: string
  mc_fs :: fsys
  mc_path :: string
  mc_deps :: "string list"

text \<open>
  The migration package of kratos-kit: \<open>'g\<close> is its registry, \<open>'n\<close> its runner, \<open>'w\<close> the
  databases it works on.  A contributor's file system is the one behind \<open>migrationSourceFS\<close>.
\<close>

record ('g, 'n, 'w) migKit =
  mk_defaultTarget :: string
  mk_encode :: "fsys \<Rightarrow> string list \<Rightarrow> (string, string) result"
  mk_newRegistry :: "migContributor list \<Rightarrow> (string, 'g) result"
  mk_newRunner :: "'g \<Rightarrow> (string, 'n) result"
  mk_setClient :: "gormClient \<Rightarrow> 'n \<Rightarrow> (string, 'n) result"
  mk_run :: "'n \<Rightarrow> string \<Rightarrow> 'w \<Rightarrow> string option \<times> 'w"
  mk_tx :: "'w gormTx"

record 'g migRuntime =
  mr_registry :: "'g option"
  mr_names :: "string list"
  mr_databases :: "(string \<times> gormClient) list"
  mr_sources :: "migSource list"

fun setClients ::
    "('g, 'n, 'w) migKit \<Rightarrow> (string \<times> gormClient) list \<Rightarrow> string list \<Rightarrow> 'n \<Rightarrow> (migErr, 'n) result" where
  "setClients kit dbs [] runner = Inr runner"
| "setClients kit dbs (name # names) runner =
     (case mk_setClient kit (case map_of dbs name of None \<Rightarrow> NilClient | Some c \<Rightarrow> c) runner of
        Inl e \<Rightarrow> Inl (ClientFailed name e)
      | Inr runner' \<Rightarrow> setClients kit dbs names runner')"

fun runModules ::
    "('g, 'n, 'w) migKit \<Rightarrow> 'n \<Rightarrow> string list \<Rightarrow> 'w \<Rightarrow> migErr option \<times> 'w" where
  "runModules kit runner [] w = (None, w)"
| "runModules kit runner (name # names) w =
     (case mk_run kit runner name w of
        (Some e, w') \<Rightarrow> (Some (ModuleFailed name e), w')
      | (None, w') \<Rightarrow> runModules kit runner names w')"

text \<open>\<open>Migration.Run\<close>; the names of the client map are sorted before use.\<close>

definition migrationRun ::
    "('g, 'n, 'w) migKit \<Rightarrow> 'g migRuntime option \<Rightarrow> 'w \<Rightarrow> migErr option \<times> 'w" where
  "migrationRun kit rt w =
     (case rt of
        None \<Rightarrow> (None, w)
      | Some r \<Rightarrow> (case mr_registry r of
          None \<Rightarrow> (None, w)
        | Some reg \<Rightarrow> (case mk_newRunner kit reg of
            Inl e \<Rightarrow> (Some (RunnerFailed e), w)
          | Inr runner \<Rightarrow>
              (case setClients kit (mr_databases r) (sort (map fst (mr_databases r))) runner of
                 Inl e \<Rightarrow> (Some e, w)
               | Inr runner' \<Rightarrow> runModules kit runner' (mr_names r) w))))"

text \<open>The loop of \<open>NewMigration\<close> over the sources.\<close>

definition describeSource ::
    "('g, 'n, 'w) migKit \<Rightarrow> migSource
       \<Rightarrow> (migErr, descTranslation list \<times> migContributor \<times> string) result" where
  "describeSource kit value =
     (case loadDescriptionTranslations (mk_defaultTarget kit) (mk_encode kit (ms_fs value))
             (ms_name value) (ms_fs value) (ms_path value) of
        Inl e \<Rightarrow> Inl (DescriptionsFailed (ms_name value) e)
      | Inr ts \<Rightarrow> Inr (ts, \<lparr>mc_name = ms_name value, mc_fs = ms_fs value, mc_path = ms_path value,
                            mc_deps = ms_deps value\<rparr>, ms_name value))"

definition centralUsable :: "string \<Rightarrow> (string \<times> gormClient) list \<Rightarrow> bool" where
  "centralUsable target dbs \<longleftrightarrow>
     (case map_of dbs target of
        None \<Rightarrow> False | Some NilClient \<Rightarrow> False | Some NoDB \<Rightarrow> False | Some (Client _) \<Rightarrow> True)"

definition NewMigration ::
    "('g, 'n, 'w) migKit \<Rightarrow> (string \<times> gormClient) list \<Rightarrow> migSource list \<Rightarrow> 'w
       \<Rightarrow> (migErr, 'g migRuntime) result \<times> 'w" where
  "NewMigration kit dbs migrations w =
     (case mapR (describeSource kit) migrations of
        Inl e \<Rightarrow> (Inl e, w)
      | Inr described \<Rightarrow>
          let contributors = map (fst \<circ> snd) described;
              translations = sortDescriptionTranslations (concat (map fst described));
              rt = \<lparr>mr_registry = None, mr_names = map (snd \<circ> snd) described,
                    mr_databases = dbs, mr_sources = migrations\<rparr>
          in if contributors = [] then (Inr rt, w)
             else case mk_newRegistry kit contributors of
               Inl e \<Rightarrow> (Inl (RegistryFailed e), w)
             | Inr reg \<Rightarrow>
                 let rt = rt\<lparr>mr_registry := Some reg\<rparr> in
                 (case migrationRun kit (Some rt) w of
                    (Some e, w') \<Rightarrow> (Inl e, w')
                  | (None, w') \<Rightarrow>
                      (case syncDescriptionTranslations (mk_tx kit)
                              (centralUsable (mk_defaultTarget kit) dbs) translations w' of
                         (Some e, w'') \<Rightarrow> (Inl e, w'')
                       | (None, w'') \<Rightarrow> (Inr rt, w''))))"

section \<open>Sorting\<close>

definition descKey :: "descTranslation \<Rightarrow> string \<times> string \<times> string \<times> string" where
  "descKey t = (dt_module t, dt_version t, dt_dataSource t, dt_locale t)"

lemma descLess_linear:
  "descKey l \<noteq> descKey r \<Longrightarrow> descLess l r \<or> descLess r l"
  by (auto simp: descKey_def)

lemma descLess_asym: "descLess l r \<Longrightarrow> \<not> descLess r l"
  by (auto split: if_splits)

lemma descLess_trans: "descLess a b \<Longrightarrow> descLess b c \<Longrightarrow> descLess a c"
  by (auto split: if_splits)

lemma descLess_key_cong: "descKey a = descKey b \<Longrightarrow> descLess c a = descLess c b \<and> descLess a c = descLess b c"
  by (auto simp: descKey_def)

lemma insertDesc_mset: "mset (insertDesc x ys) = add_mset x (mset ys)"
  by (induction x ys rule: insertDesc.induct) (simp_all del: descLess.simps)

lemma sortDesc_mset: "mset (sortDescriptionTranslations ts) = mset ts"
  by (induction ts) (simp_all add: sortDescriptionTranslations_def insertDesc_mset)

text \<open>No later element is smaller.\<close>

fun descSorted :: "descTranslation list \<Rightarrow> bool" where
  "descSorted [] = True"
| "descSorted (x # xs) = ((\<forall>y \<in> set xs. \<not> descLess y x) \<and> descSorted xs)"

lemma insertDesc_set: "set (insertDesc x ys) = insert x (set ys)"
  using insertDesc_mset [of x ys] by (metis set_mset_add_mset_insert set_mset_mset)

lemma descLess_not_trans: "\<not> descLess b a \<Longrightarrow> \<not> descLess c b \<Longrightarrow> \<not> descLess c a"
  using descLess_linear descLess_trans descLess_key_cong by metis

lemma insertDesc_sorted: "descSorted ys \<Longrightarrow> descSorted (insertDesc x ys)"
proof (induction x ys rule: insertDesc.induct)
  case (1 x)
  then show ?case by simp
next
  case (2 x y ys)
  show ?case
  proof (cases "descLess y x")
    case True
    with 2 descLess_asym [OF True] show ?thesis by (simp add: insertDesc_set del: descLess.simps)
  next
    case False
    with 2 descLess_not_trans [of y x] show ?thesis by (auto simp del: descLess.simps)
  qed
qed

lemma sortDesc_sorted: "descSorted (sortDescriptionTranslations ts)"
  by (induction ts) (simp_all add: sortDescriptionTranslations_def insertDesc_sorted)

lemma descSorted_unique:
  "descSorted xs \<Longrightarrow> descSorted ys \<Longrightarrow> mset xs = mset ys \<Longrightarrow> distinct (map descKey xs) \<Longrightarrow> xs = ys"
proof (induction xs arbitrary: ys)
  case Nil
  then show ?case by simp
next
  case (Cons x xs)
  then obtain y zs where ys: "ys = y # zs" by (cases ys) auto
  from Cons.prems(3) have sets: "set (x # xs) = set ys" by (metis set_mset_mset)
  have "descKey y = descKey x"
  proof (rule ccontr)
    assume ne: "descKey y \<noteq> descKey x"
    with sets ys have "y \<in> set xs" "x \<in> set zs" by auto
    with Cons.prems(1,2) ys have "\<not> descLess y x" "\<not> descLess x y" by (simp_all del: descLess.simps)
    with descLess_linear ne show False by metis
  qed
  moreover from sets ys have "y \<in> set (x # xs)" by auto
  ultimately have "x = y" using Cons.prems(4)
    by (metis distinct.simps(2) image_eqI list.set_map list.simps(9) set_ConsD)
  with Cons ys show ?case by (auto simp del: descLess.simps)
qed


section \<open>Properties\<close>

text \<open>C6. What \<open>ReadFiles\<close> returns is exactly what the migration record vouches for: one
  content per reference, in the order of the references; every path lies inside the requested
  version of the module's source (no empty, dot or dot-dot element can lead out of it) and
  belongs to the requested data source; and every content is that of the file, with the comments
  of a script removed, and has the recorded digest.\<close>

theorem ReadFiles_sound:
  assumes "ReadFiles dt digest decode sources m version ds refs = Inr contents" and "contents \<noteq> []"
  shows "\<exists>files source. decode refs = Inr files
    \<and> find (\<lambda>s. ms_name s = m) sources = Some source
    \<and> list_all2 (\<lambda>file c. fc_path c = fr_path file
        \<and> located dt (path_clean (ms_path source)) version ds (fr_path file)
        \<and> (\<exists>raw. fs_readFile (ms_fs source) (fr_path file) = Inr raw
             \<and> fc_content c = executedContent (fr_path file) raw)
        \<and> digest (fr_path file) (fc_content c) = fr_sha file) files contents"
proof -
  from assms obtain files source where
    f: "decode refs = Inr files" "find (\<lambda>s. ms_name s = m) sources = Some source"
    and r: "mapR (readReference dt digest source version ds) files = Inr contents"
    by (auto simp: ReadFiles_def split: if_splits sum.splits option.splits)
  from r have "list_all2 (\<lambda>file c. readReference dt digest source version ds file = Inr c) files contents"
    by (simp add: mapR_Inr_iff)
  then show ?thesis
    using f readReference_Inr by (fastforce elim!: list_all2_mono)
qed

definition exampleFs :: fsys where
  "exampleFs = \<lparr>fs_readFile = (\<lambda>n. if n = ''assets/v1/mysql/a.up.sql'' then Inr ''X/* c */Y''
       else Inl (ErrNotExist n)),
     fs_open = (\<lambda>n. if n = ''assets/v1/mysql/a.up.sql''
       then Inr \<lparr>of_stat = Inr n, of_read = Inr ''X/* c */Y'', of_close = None\<rparr>
       else Inl (ErrNotExist n)),
     fs_readDir = (\<lambda>n. Inr []), fs_walk = (\<lambda>r. [])\<rparr>"

definition exampleSource :: migSource where
  "exampleSource = \<lparr>ms_name = ''admin'', ms_fs = exampleFs, ms_path = ''assets'', ms_deps = []\<rparr>"

definition exampleDecode :: "string \<Rightarrow> (string, fileReference list) result" where
  "exampleDecode r = Inr [\<lparr>fr_path = ''assets/v1/mysql/a.up.sql'', fr_sha = ''XY''\<rparr>]"

lemma example_read:
  "ReadFiles ''default'' (\<lambda>p c. c) exampleDecode [exampleSource] ''admin'' ''v1'' ''default'' ''r''
     = Inr [\<lparr>fc_path = ''assets/v1/mysql/a.up.sql'', fc_content = ''XY''\<rparr>]"
  by code_simp

theorem ReadFiles_sound_witness:
  "\<exists>source. find (\<lambda>s. ms_name s = ''admin'') [exampleSource] = Some source
    \<and> located ''default'' (path_clean (ms_path source)) ''v1'' ''default'' ''assets/v1/mysql/a.up.sql''"
  using ReadFiles_sound [OF example_read]
  by (auto simp: exampleDecode_def exampleSource_def list_all2_Cons1)

text \<open>C37. What an operator reads is what was executed: if \<open>ReadFiles\<close> returns the content of a
  file that the file system shown to the migration runner can open, then reading that opened
  file gives the same bytes, whether the file is a script (cleaned on both paths) or a
  description (untouched on both).\<close>

theorem ReadFiles_matches_runner:
  assumes "readsWhatOpens (ms_fs source)"
    and "readReference dt digest source version ds file = Inr c"
    and "sourceOpen (ms_fs source) (fr_path file) = Inr opened"
  shows "of_read opened = Inr (fc_content c)"
proof -
  from readReference_Inr [OF assms(2)] obtain raw
    where "fs_readFile (ms_fs source) (fr_path file) = Inr raw"
      and "fc_content c = executedContent (fr_path file) raw" by auto
  with sourceOpen_content [OF assms(1,3)] show ?thesis by simp
qed

theorem ReadFiles_matches_runner_witness:
  "of_read \<lparr>of_stat = Inr ''assets/v1/mysql/a.up.sql'', of_read = Inr ''XY'', of_close = None\<rparr>
     = Inr (fc_content \<lparr>fc_path = ''assets/v1/mysql/a.up.sql'', fc_content = ''XY''\<rparr>)"
proof (rule ReadFiles_matches_runner)
  show "readsWhatOpens (ms_fs exampleSource)"
    by (auto simp: readsWhatOpens_def exampleSource_def exampleFs_def split: if_splits)
  show "readReference ''default'' (\<lambda>p c. c) exampleSource ''v1'' ''default''
      \<lparr>fr_path = ''assets/v1/mysql/a.up.sql'', fr_sha = ''XY''\<rparr>
    = Inr \<lparr>fc_path = ''assets/v1/mysql/a.up.sql'', fc_content = ''XY''\<rparr>" by code_simp
  show "sourceOpen (ms_fs exampleSource)
      (fr_path \<lparr>fr_path = ''assets/v1/mysql/a.up.sql'', fr_sha = ''XY''\<rparr>)
    = Inr \<lparr>of_stat = Inr ''assets/v1/mysql/a.up.sql'', of_read = Inr ''XY'', of_close = None\<rparr>"
    by code_simp
qed

text \<open>C36. A successful synchronisation leaves exactly one description row for every translation,
  with the translated reference as its name; rows of other translation targets and of keys that
  are not synchronised are untouched; and running the synchronisation again on the result
  changes nothing.  It presumes the documented behaviour of gorm (\<open>gormLaws\<close>), one row per
  record and language before, and at most one translation for each record and language.\<close>

theorem sync_correct:
  assumes laws: "gormLaws tx rows hists" and "ts \<noteq> []"
    and uniq: "inj_on recKey (ours (rows d))"
    and dist: "distinct (map (keyOf (historyIDs (hists d))) ts)"
    and ok: "syncDescriptionTranslations tx True ts d = (None, d')"
    and reread: "tx_histories tx d' = Inr (hists d')" "tx_records tx DescriptionTargetKey d' = Inr rs'"
  shows "(\<forall>t \<in> set ts. \<exists>!r. r \<in> ours (rows d') \<and> recKey r = keyOf (historyIDs (hists d)) t
            \<and> mt_name r = dt_description t)
    \<and> unrelated (keyOf (historyIDs (hists d)) ` set ts) (rows d')
       = unrelated (keyOf (historyIDs (hists d)) ` set ts) (rows d)
    \<and> syncDescriptionTranslations tx True ts d' = (None, d')"
proof -
  from ok \<open>ts \<noteq> []\<close> have "syncTransaction tx ts d = Inr d'"
    by (auto simp: syncDescriptionTranslations_def split: sum.splits)
  then obtain hs rs where h: "tx_histories tx d = Inr hs" "tx_records tx DescriptionTargetKey d = Inr rs"
    and l: "syncLoop tx (historyIDs hs) ts (existingRecords rs) d = Inr d'"
    by (auto simp: syncTransaction_def split: sum.splits)
  from laws h have hs: "hs = hists d" unfolding gormLaws_def by meson
  have recs: "tx_records tx DescriptionTargetKey d0 = Inr r0 \<Longrightarrow> set r0 = ours (rows d0)" for d0 r0
    using laws unfolding gormLaws_def ours_def by meson
  have ix: "indexes (existingRecords rs) (rows d)"
    using existing_indexes [OF recs [OF h(2)] uniq] .
  note e = syncLoop_effect [OF laws ix l [unfolded hs] dist]
  have inj: "inj_on recKey (ours (rows d'))" using e by simp
  have ix': "indexes (existingRecords rs') (rows d')"
    using existing_indexes [OF recs [OF reread(2)] inj] .
  have same: "hists d' = hists d" using e by simp
  have "syncLoop tx (historyIDs (hists d)) ts (existingRecords rs') d' = Inr d'"
    using syncLoop_noop [where rows = rows and d = d', OF ix' inj] e by blast
  then have again: "syncDescriptionTranslations tx True ts d' = (None, d')"
    using \<open>ts \<noteq> []\<close> reread same by (simp add: syncDescriptionTranslations_def syncTransaction_def)
  have ex1: "\<forall>t \<in> set ts. \<exists>!r. r \<in> ours (rows d') \<and> recKey r = keyOf (historyIDs (hists d)) t
            \<and> mt_name r = dt_description t"
  proof
    fix t assume "t \<in> set ts"
    with e have "stored (historyIDs (hists d)) (rows d') t" by blast
    with inj show "\<exists>!r. r \<in> ours (rows d') \<and> recKey r = keyOf (historyIDs (hists d)) t
        \<and> mt_name r = dt_description t"
      unfolding stored_def by (metis inj_onD)
  qed
  with e again show ?thesis by blast
qed

text \<open>A concrete table: the rows without their primary keys, in the order of creation.\<close>

type_synonym exampleDb = "(string \<times> int \<times> string \<times> string) list"

definition exampleRow :: "nat \<Rightarrow> string \<times> int \<times> string \<times> string \<Rightarrow> migTranslation" where
  "exampleRow i x = (case x of (k, t, l, n) \<Rightarrow>
     \<lparr>mt_id = int i + 1, mt_targetKey = k, mt_targetID = t, mt_locale = l, mt_name = n\<rparr>)"

definition exampleUnrow :: "migTranslation \<Rightarrow> string \<times> int \<times> string \<times> string" where
  "exampleUnrow r = (mt_targetKey r, mt_targetID r, mt_locale r, mt_name r)"

definition exampleRows :: "exampleDb \<Rightarrow> migTranslation set" where
  "exampleRows d = (\<lambda>i. exampleRow i (d ! i)) ` {..<length d}"

definition exampleHistory :: migHistory where
  "exampleHistory = \<lparr>mh_id = 7, mh_module = ''m'', mh_dataSource = ''d'', mh_version = ''v1''\<rparr>"

definition exampleTx :: "exampleDb gormTx" where
  "exampleTx = \<lparr>tx_histories = (\<lambda>d. Inr [exampleHistory]),
     tx_records = (\<lambda>k d. Inr (filter (\<lambda>r. mt_targetKey r = k)
       (map (\<lambda>i. exampleRow i (d ! i)) [0..<length d]))),
     tx_create = (\<lambda>r d. Inr (r\<lparr>mt_id := int (length d) + 1\<rparr>, d @ [exampleUnrow r])),
     tx_save = (\<lambda>r d. if 0 < mt_id r \<and> nat (mt_id r) \<le> length d
       then Inr (d[nat (mt_id r) - 1 := exampleUnrow r]) else Inl ''no such row'')\<rparr>"

lemma exampleRow_id: "mt_id (exampleRow i x) = int i + 1"
  by (simp add: exampleRow_def split: prod.splits)

lemma exampleRow_unrow: "mt_id r = int i + 1 \<Longrightarrow> exampleRow i (exampleUnrow r) = r"
  by (simp add: exampleRow_def exampleUnrow_def)

lemma example_create:
  "exampleRows (d @ [exampleUnrow r]) = insert (r\<lparr>mt_id := int (length d) + 1\<rparr>) (exampleRows d)"
proof -
  have "exampleRow (length d) (exampleUnrow r) = r\<lparr>mt_id := int (length d) + 1\<rparr>"
    by (simp add: exampleRow_def exampleUnrow_def)
  moreover have "(\<lambda>i. exampleRow i ((d @ [exampleUnrow r]) ! i)) ` {..<length d} = exampleRows d"
    unfolding exampleRows_def by (rule image_cong) (simp_all add: nth_append)
  ultimately show ?thesis by (simp add: exampleRows_def lessThan_Suc)
qed

lemma example_save:
  assumes "i < length d" and "mt_id r = int i + 1"
  shows "exampleRows (d[i := exampleUnrow r]) = insert r {x \<in> exampleRows d. mt_id x \<noteq> mt_id r}"
proof (intro set_eqI iffI)
  fix x assume "x \<in> exampleRows (d[i := exampleUnrow r])"
  then obtain j where j: "j < length d" "x = exampleRow j (d[i := exampleUnrow r] ! j)"
    by (auto simp: exampleRows_def)
  show "x \<in> insert r {x \<in> exampleRows d. mt_id x \<noteq> mt_id r}"
  proof (cases "j = i")
    case True
    with j assms show ?thesis by (simp add: exampleRow_unrow)
  next
    case False
    with j assms show ?thesis by (auto simp: exampleRows_def exampleRow_id)
  qed
next
  fix x assume x: "x \<in> insert r {x \<in> exampleRows d. mt_id x \<noteq> mt_id r}"
  show "x \<in> exampleRows (d[i := exampleUnrow r])"
  proof (cases "x = r")
    case True
    with assms show ?thesis
      by (auto simp: exampleRows_def exampleRow_unrow intro!: image_eqI [of _ _ i])
  next
    case False
    with x obtain j where j: "j < length d" "x = exampleRow j (d ! j)" "mt_id x \<noteq> mt_id r"
      by (auto simp: exampleRows_def)
    with assms have "j \<noteq> i" by (auto simp: exampleRow_id)
    with j show ?thesis by (auto simp: exampleRows_def intro!: image_eqI [of _ _ j])
  qed
qed

lemma example_laws: "gormLaws exampleTx exampleRows (\<lambda>d. [exampleHistory])"
  unfolding gormLaws_def
proof (intro conjI allI impI)
  fix d :: exampleDb
  show "inj_on mt_id (exampleRows d)"
    by (auto simp: inj_on_def exampleRows_def exampleRow_id)
next
  fix d :: exampleDb and hs
  assume "tx_histories exampleTx d = Inr hs"
  then show "hs = [exampleHistory]" by (simp add: exampleTx_def)
next
  fix k and d :: exampleDb and rs
  assume "tx_records exampleTx k d = Inr rs"
  then have "rs = filter (\<lambda>r. mt_targetKey r = k) (map (\<lambda>i. exampleRow i (d ! i)) [0..<length d])"
    by (simp add: exampleTx_def)
  then show "set rs = {r \<in> exampleRows d. mt_targetKey r = k}"
    by (auto simp: exampleRows_def atLeast0LessThan)
next
  fix r r' and d d' :: exampleDb
  assume "tx_create exampleTx r d = Inr (r', d')"
  then have eq: "r' = r\<lparr>mt_id := int (length d) + 1\<rparr>" "d' = d @ [exampleUnrow r]"
    by (auto simp: exampleTx_def)
  then show "r' = r\<lparr>mt_id := mt_id r'\<rparr>" by simp
  show "mt_id r' \<notin> mt_id ` exampleRows d"
    using eq by (auto simp: exampleRows_def exampleRow_id)
  show "exampleRows d' = insert r' (exampleRows d)" using eq example_create by simp
next
  fix r and d d' :: exampleDb
  assume s: "tx_save exampleTx r d = Inr d'"
  then have pos: "0 < mt_id r" "nat (mt_id r) \<le> length d"
    and d': "d' = d[nat (mt_id r) - 1 := exampleUnrow r]"
    by (auto simp: exampleTx_def split: if_splits)
  have i: "nat (mt_id r) - 1 < length d" "mt_id r = int (nat (mt_id r) - 1) + 1" using pos by auto
  show "exampleRows d' = insert r {x \<in> exampleRows d. mt_id x \<noteq> mt_id r}"
    using example_save [OF i] d' by simp
qed simp_all

theorem sync_correct_witness:
  "syncDescriptionTranslations exampleTx True
     [\<lparr>dt_module = ''m'', dt_version = ''v1'', dt_dataSource = ''d'', dt_locale = ''en'', dt_description = ''new''\<rparr>]
     [(DescriptionTargetKey, 7, ''en'', ''new'')]
   = (None, [(DescriptionTargetKey, 7, ''en'', ''new'')])"
proof -
  let ?ts = "[\<lparr>dt_module = ''m'', dt_version = ''v1'', dt_dataSource = ''d'', dt_locale = ''en'',
    dt_description = ''new''\<rparr>]"
  let ?d = "[(DescriptionTargetKey, 7, ''en'', ''old'')] :: exampleDb"
  let ?d' = "[(DescriptionTargetKey, 7, ''en'', ''new'')] :: exampleDb"
  have ok: "syncDescriptionTranslations exampleTx True ?ts ?d = (None, ?d')" by code_simp
  have uniq: "inj_on recKey (ours (exampleRows ?d))"
    by (auto simp: inj_on_def ours_def exampleRows_def)
  have r: "tx_records exampleTx DescriptionTargetKey ?d' = Inr [exampleRow 0 (?d' ! 0)]" by code_simp
  show ?thesis
    using sync_correct [OF example_laws _ uniq _ ok _ r] by (simp add: exampleTx_def)
qed

text \<open>The order in which sources and walks deliver the translations does not matter: two
  permutations of translations with distinct (module, version, data source, locale) are sorted
  to the same list, on which descriptions are then synchronised.\<close>

theorem sortDescriptionTranslations_deterministic:
  assumes "mset xs = mset ys" and "distinct (map descKey xs)"
  shows "sortDescriptionTranslations xs = sortDescriptionTranslations ys"
proof (rule descSorted_unique)
  show "distinct (map descKey (sortDescriptionTranslations xs))"
    using assms(2) sortDesc_mset [of xs] by (metis mset_eq_imp_distinct_iff mset_map)
qed (simp_all add: sortDesc_sorted sortDesc_mset assms(1))

theorem sortDescriptionTranslations_deterministic_witness:
  "let a = \<lparr>dt_module = ''m'', dt_version = ''v1'', dt_dataSource = ''d'', dt_locale = ''en'', dt_description = ''1''\<rparr>;
       b = \<lparr>dt_module = ''m'', dt_version = ''v1'', dt_dataSource = ''d'', dt_locale = ''ja'', dt_description = ''2''\<rparr>
   in sortDescriptionTranslations [b, a] = sortDescriptionTranslations [a, b]"
  unfolding Let_def
  by (rule sortDescriptionTranslations_deterministic) (simp_all add: descKey_def)

end
