(* ===== verification/KeyedTable.thy ===== *)
theory KeyedTable
  imports Prelude
begin

text \<open>
  The contract of the repository's registries (SSE streams, OpenAPI documents): a
  registration either fails, in which case the caller keeps the old table, or adds
  its items under their keys without changing a key that is taken.  The lemmas about sequences
  of registrations are proved once here; each registry interprets the locale on its own
  definitions.
\<close>

locale atomic_registry =
  fixes table :: "'r \<Rightarrow> 'k \<Rightarrow> 'v option"
    and register :: "'i list \<Rightarrow> 'r \<Rightarrow> 'e + 'r"
    and key :: "'i \<Rightarrow> 'k"
    and val :: "'i \<Rightarrow> 'v"
  assumes kept: "register xs r = Inr r' \<Longrightarrow> table r k = Some v \<Longrightarrow> table r' k = Some v"
    and added: "register xs r = Inr r' \<Longrightarrow> x \<in> set xs \<Longrightarrow> table r' (key x) = Some (val x)"
    and origin: "register xs r = Inr r' \<Longrightarrow> table r' k = Some v \<Longrightarrow>
      table r k = Some v \<or> (\<exists>x \<in> set xs. key x = k \<and> val x = v)"
begin

text \<open>A program that tries registrations in turn and keeps the table of a failed one.\<close>

fun attempts :: "'i list list \<Rightarrow> 'r \<Rightarrow> 'r" where
  "attempts [] r = r"
| "attempts (xs # xss) r = (case register xs r of Inl _ \<Rightarrow> attempts xss r | Inr r' \<Rightarrow> attempts xss r')"

lemma attempts_kept: "table r k = Some v \<Longrightarrow> table (attempts xss r) k = Some v"
proof (induction xss arbitrary: r)
  case Nil
  then show ?case by simp
next
  case (Cons xs xss)
  then show ?case by (cases "register xs r") (auto dest: kept)
qed

lemma attempts_origin:
  "table (attempts xss r) k = Some v \<Longrightarrow>
     table r k = Some v \<or> (\<exists>xs \<in> set xss. \<exists>x \<in> set xs. key x = k \<and> val x = v)"
proof (induction xss arbitrary: r)
  case Nil
  then show ?case by simp
next
  case (Cons xs xss)
  show ?case
  proof (cases "register xs r")
    case (Inl e)
    with Cons show ?thesis by fastforce
  next
    case (Inr r')
    with Cons.prems have "table (attempts xss r') k = Some v" by simp
    from Cons.IH [OF this] origin [OF Inr] show ?thesis by fastforce
  qed
qed

text \<open>An item that was registered stays registered, and two items under one key agree.\<close>

lemma registered_stays:
  assumes "register xs r = Inr r'" and "x \<in> set xs"
  shows "table (attempts xss r') (key x) = Some (val x)"
  using added [OF assms] by (rule attempts_kept)

lemma same_key_same_value:
  assumes "register xs r = Inr r'" "x \<in> set xs"
    and "register ys (attempts xss r') = Inr r''" "y \<in> set ys" and "key x = key y"
  shows "val x = val y"
proof -
  have "table r'' (key x) = Some (val x)"
    using kept [OF assms(3)] registered_stays [OF assms(1,2)] by blast
  moreover have "table r'' (key y) = Some (val y)" using added [OF assms(3,4)] .
  ultimately show ?thesis using assms(5) by simp
qed

end

end
