(* ===== verification/Roles.thy ===== *)
theory Roles
  imports Prelude
begin

text \<open>The built-in role codes of \<open>const/role.go\<close> and the rules about them.\<close>

definition BASE_ROLE_CODE_SUPER :: string where "BASE_ROLE_CODE_SUPER = ''super''"
definition BASE_ROLE_CODE_TENANT :: string where "BASE_ROLE_CODE_TENANT = ''tenant''"
definition BASE_ROLE_CODE_ADMIN :: string where "BASE_ROLE_CODE_ADMIN = ''admin''"
definition BASE_ROLE_CODE_AUTHUSER :: string where "BASE_ROLE_CODE_AUTHUSER = ''authuser''"
definition BASE_ROLE_CODE_USER :: string where "BASE_ROLE_CODE_USER = ''user''"

definition IsDefaultBaseRole :: "string \<Rightarrow> bool" where
  "IsDefaultBaseRole roleCode \<longleftrightarrow> roleCode = BASE_ROLE_CODE_SUPER \<or> roleCode = BASE_ROLE_CODE_TENANT"

definition IsBaseRoleStatusProtected :: "string \<Rightarrow> bool" where
  "IsBaseRoleStatusProtected roleCode \<longleftrightarrow> roleCode = BASE_ROLE_CODE_ADMIN
     \<or> roleCode = BASE_ROLE_CODE_AUTHUSER \<or> roleCode = BASE_ROLE_CODE_USER"

end
