(* ===== verification/Sse.thy ===== *)
theory Sse
  imports KeyedTable Roles
begin

text \<open>
  Model of the SSE component: the stream registry (\<open>sse/registry.go\<close>), the request resolver and
  the transport server (\<open>sse/server.go\<close>), the subscription handler (\<open>sse/sse.go\<close>), the
  publisher (\<open>sse/publisher.go\<close>) and the detached request context (\<open>sse/context.go\<close>).
  Streams, the authenticator, the token store and the transport of kratos-kit are parameters.
\<close>

section \<open>The registry\<close>

text \<open>A stream of the host: \<open>ss_resolveTenant\<close> is its optional \<open>tenantResolver\<close> method.\<close>

record sseStream =
  ss_id :: string
  ss_resolve :: "string \<Rightarrow> int \<Rightarrow> (string, string) result"
  ss_resolveTenant :: "(string \<Rightarrow> int \<Rightarrow> int \<Rightarrow> (string, string) result) option"

type_synonym sseRegistry = "string \<Rightarrow> sseStream option"

datatype sseErr =
  NilStream | EmptyStreamID | DuplicateStream string | StreamErr string
| NilRequest | NeedAuth | BadAuthorization | TokenErr string | BackendOnly | BadSubject | TokenExpired
| NotRegistered string | NotInitialised | HttpOnly | Unsupported | ServerErr string

definition emptyRegistry :: sseRegistry where
  "emptyRegistry = Map.empty"

text \<open>The first loop of \<open>Register\<close>; \<open>registered\<close> is the set of ids of this call.\<close>

fun checkStreams :: "sseRegistry \<Rightarrow> string set \<Rightarrow> sseStream option list \<Rightarrow> (sseErr, unit) result" where
  "checkStreams r registered [] = Inr ()"
| "checkStreams r registered (None # ss) = Inl NilStream"
| "checkStreams r registered (Some s # ss) =
     (if ss_id s = [] then Inl EmptyStreamID
      else if r (ss_id s) \<noteq> None then Inl (DuplicateStream (ss_id s))
      else if ss_id s \<in> registered then Inl (DuplicateStream (ss_id s))
      else checkStreams r (insert (ss_id s) registered) ss)"

fun storeStreams :: "sseStream option list \<Rightarrow> sseRegistry \<Rightarrow> sseRegistry" where
  "storeStreams [] r = r"
| "storeStreams (None # ss) r = storeStreams ss r"
| "storeStreams (Some s # ss) r = storeStreams ss (r(ss_id s \<mapsto> s))"

definition sseRegister :: "sseStream option list \<Rightarrow> sseRegistry \<Rightarrow> sseErr + sseRegistry" where
  "sseRegister streams r =
     (case checkStreams r {} streams of
        Inl e \<Rightarrow> Inl e
      | Inr _ \<Rightarrow> Inr (storeStreams streams r))"

text \<open>\<open>resolve\<close>: transport id, found, error.\<close>

definition sseResolve ::
    "sseRegistry \<Rightarrow> string \<Rightarrow> string \<Rightarrow> int \<Rightarrow> int \<Rightarrow> string \<times> bool \<times> sseErr option" where
  "sseResolve r streamID channelID userID tenantID =
     (case r streamID of
        None \<Rightarrow> ([], False, None)
      | Some s \<Rightarrow>
          (case (if 0 < tenantID then
                   (case ss_resolveTenant s of
                      Some f \<Rightarrow> f channelID userID tenantID
                    | None \<Rightarrow> ss_resolve s channelID userID)
                 else ss_resolve s channelID userID) of
             Inl e \<Rightarrow> ([], True, Some (StreamErr e))
           | Inr transportID \<Rightarrow> (transportID, True, None)))"

definition sseResolvePlain :: "sseRegistry \<Rightarrow> string \<Rightarrow> string \<Rightarrow> int \<Rightarrow> string \<times> bool \<times> sseErr option" where
  "sseResolvePlain r streamID channelID userID = sseResolve r streamID channelID userID 0"

definition sseResolveWithTenant :: "sseRegistry \<Rightarrow> string \<Rightarrow> string \<Rightarrow> int \<Rightarrow> int \<Rightarrow> string \<times> bool \<times> sseErr option" where
  "sseResolveWithTenant r streamID channelID userID tenantID = sseResolve r streamID channelID userID tenantID"

fun streamIDs :: "sseStream option list \<Rightarrow> string list" where
  "streamIDs [] = []"
| "streamIDs (None # ss) = streamIDs ss"
| "streamIDs (Some s # ss) = ss_id s # streamIDs ss"

lemma streamIDs_mem: "k \<in> set (streamIDs ss) \<longleftrightarrow> (\<exists>s. Some s \<in> set ss \<and> ss_id s = k)"
  by (induction ss rule: streamIDs.induct) auto

lemma checkStreams_ok:
  "checkStreams r seen ss = Inr () \<longleftrightarrow>
     None \<notin> set ss \<and> (\<forall>k \<in> set (streamIDs ss). k \<noteq> [] \<and> r k = None \<and> k \<notin> seen)
     \<and> distinct (streamIDs ss)"
  by (induction r seen ss rule: checkStreams.induct) auto

lemma storeStreams_other: "(\<forall>s. Some s \<in> set ss \<longrightarrow> ss_id s \<noteq> k) \<Longrightarrow> storeStreams ss r k = r k"
  by (induction ss r rule: storeStreams.induct) auto

lemma storeStreams_origin:
  "storeStreams ss r k = Some v \<Longrightarrow> r k = Some v \<or> (Some v \<in> set ss \<and> ss_id v = k)"
  by (induction ss r rule: storeStreams.induct) (auto split: if_splits)

lemma storeStreams_added:
  "distinct (streamIDs ss) \<Longrightarrow> Some s \<in> set ss \<Longrightarrow> storeStreams ss r (ss_id s) = Some s"
proof (induction ss r rule: storeStreams.induct)
  case (1 r)
  then show ?case by simp
next
  case (2 ss r)
  then show ?case by simp
next
  case (3 t ss r)
  show ?case
  proof (cases "s = t")
    case True
    with 3 have "\<forall>u. Some u \<in> set ss \<longrightarrow> ss_id u \<noteq> ss_id t"
      by (auto simp: streamIDs_mem)
    with True show ?thesis by (simp add: storeStreams_other)
  next
    case False
    with 3 show ?thesis by (simp add: fun_upd_def)
  qed
qed

lemma sseRegister_Inr:
  "sseRegister ss r = Inr r' \<longleftrightarrow> checkStreams r {} ss = Inr () \<and> r' = storeStreams ss r"
  by (auto simp: sseRegister_def split: sum.splits)

text \<open>Successful registrations contain no nil stream, so items are keyed by the stream's id.\<close>

definition streamKey :: "sseStream option \<Rightarrow> string" where
  "streamKey s = (case s of None \<Rightarrow> [] | Some t \<Rightarrow> ss_id t)"

interpretation sseReg: atomic_registry "\<lambda>r :: sseRegistry. r" sseRegister streamKey the
proof
  fix xs r r' k v
  assume reg: "sseRegister xs r = Inr r'" and k: "r k = Some v"
  have "\<forall>s. Some s \<in> set xs \<longrightarrow> ss_id s \<noteq> k"
    using reg k unfolding sseRegister_Inr checkStreams_ok
    by (metis option.distinct(1) streamIDs_mem)
  with reg k show "r' k = Some v" by (simp add: sseRegister_Inr storeStreams_other)
next
  fix xs r r' x
  assume reg: "sseRegister xs r = Inr r'" and x: "x \<in> set xs"
  then obtain s where "x = Some s" by (cases x) (auto simp: sseRegister_Inr checkStreams_ok)
  with reg x show "r' (streamKey x) = Some (the x)"
    by (auto simp: sseRegister_Inr checkStreams_ok streamKey_def intro: storeStreams_added)
next
  fix xs r r' k v
  assume reg: "sseRegister xs r = Inr r'" and k: "r' k = Some v"
  then show "r k = Some v \<or> (\<exists>x \<in> set xs. streamKey x = k \<and> the x = v)"
    by (auto simp: sseRegister_Inr streamKey_def dest!: storeStreams_origin intro!: bexI)
qed


section \<open>Requests\<close>

text \<open>The claims of a verified token, as the getters of the authenticator return them.\<close>

record claims =
  cl_userID :: "(string, int) result"
  cl_roleCode :: "(string, string) result"
  cl_tenantID :: "(string, int) result"

record sseRequest =
  rq_hasURL :: bool
  rq_stream :: string
  rq_channel :: string
  rq_authorization :: string


definition frontRole :: "string \<Rightarrow> bool" where
  "frontRole role \<longleftrightarrow> role = BASE_ROLE_CODE_USER \<or> role = BASE_ROLE_CODE_AUTHUSER"

text \<open>
  \<open>requestUserID\<close>: \<open>bearer\<close> is \<open>engine.BearerWord\<close>, \<open>auth\<close> the authenticator (None when nil),
  \<open>valid\<close> the token store (None when nil).  The error of the tenant claim is ignored; Go's
  getter then returns zero.
\<close>

definition requestUserID ::
    "string \<Rightarrow> sseRequest \<Rightarrow> string \<Rightarrow> (string \<Rightarrow> (string, claims) result) option
       \<Rightarrow> (int \<Rightarrow> string \<Rightarrow> bool) option \<Rightarrow> (sseErr, int \<times> int) result" where
  "requestUserID bearer request streamID auth valid =
     (case auth of
        None \<Rightarrow> Inr (0, 0)
      | Some authenticate \<Rightarrow>
          let parts = str_fields (rq_authorization request) in
          if length parts = 0 then Inl NeedAuth
          else if length parts \<noteq> 2 \<or> \<not> equal_fold (parts ! 0) bearer then Inl BadAuthorization
          else (case authenticate (parts ! 1) of
              Inl e \<Rightarrow> Inl (TokenErr e)
            | Inr cl \<Rightarrow> (case cl_userID cl of
                Inl e \<Rightarrow> Inl (TokenErr e)
              | Inr userID \<Rightarrow> (case cl_roleCode cl of
                  Inl e \<Rightarrow> Inl (TokenErr e)
                | Inr roleCode \<Rightarrow>
                    if frontRole roleCode \<and> streamID \<noteq> ''base.notification'' then Inl BackendOnly
                    else if userID \<le> 0 then Inl BadSubject
                    else let tenantID = (case cl_tenantID cl of Inl _ \<Rightarrow> 0 | Inr t \<Rightarrow> t) in
                      if userID \<noteq> 0 \<and> (case valid of None \<Rightarrow> False | Some v \<Rightarrow> \<not> v userID (parts ! 1))
                      then Inl TokenExpired
                      else Inr (userID, tenantID)))))"

text \<open>\<open>NewStreamResolver\<close> applied to a request (None is a nil request).\<close>

definition streamResolver ::
    "string \<Rightarrow> sseRegistry option \<Rightarrow> (string \<Rightarrow> (string, claims) result) option
       \<Rightarrow> (int \<Rightarrow> string \<Rightarrow> bool) option \<Rightarrow> sseRequest option \<Rightarrow> (sseErr, string) result" where
  "streamResolver bearer registry auth valid request =
     (case request of
        None \<Rightarrow> Inl NilRequest
      | Some rq \<Rightarrow>
          if \<not> rq_hasURL rq then Inl NilRequest
          else bindR (requestUserID bearer rq (rq_stream rq) auth valid) (\<lambda>(userID, tenantID).
            case registry of
              None \<Rightarrow> Inr (rq_stream rq)
            | Some r \<Rightarrow>
                (case sseResolve r (rq_stream rq) (rq_channel rq) userID tenantID of
                   (transportID, found, err) \<Rightarrow>
                     (case err of
                        Some e \<Rightarrow> Inl e
                      | None \<Rightarrow> if found then Inr transportID else Inl (NotRegistered (rq_stream rq))))))"

section \<open>The subscription handler\<close>

text \<open>The payload that \<open>ExtractAuthClaims\<close> fills.\<close>

record tokenPayload =
  tp_userID :: int
  tp_tenantID :: int
  tp_roleCode :: string

text \<open>The runtime: the transport server (and its publisher), the registry, the authenticator and
  the token store; a verified token gives optional claims, which are then extracted.\<close>

record ('srv, 'cl) sseRuntime =
  sr_server :: "'srv option"
  sr_publisher :: "'srv option"
  sr_registry :: "sseRegistry option"
  sr_authenticator :: "(string \<Rightarrow> (string, 'cl option) result) option"
  sr_extract :: "'cl \<Rightarrow> (string, tokenPayload) result"
  sr_tokenValid :: "(int \<Rightarrow> string \<Rightarrow> bool) option"

definition stripBearer :: "string \<Rightarrow> string \<Rightarrow> string" where
  "stripBearer bearer token =
     (if length bearer + 1 \<le> length token
         \<and> equal_fold (take (length bearer + 1) token) (bearer @ '' '')
      then drop (length bearer + 1) token else token)"

definition sseAuthenticate ::
    "string \<Rightarrow> ('srv, 'cl) sseRuntime \<Rightarrow> string \<Rightarrow> (sseErr, tokenPayload) result" where
  "sseAuthenticate bearer rt header =
     (case (sr_authenticator rt, sr_tokenValid rt) of
        (Some authenticate, Some valid) \<Rightarrow>
          if header = [] then Inl NeedAuth
          else let token = stripBearer bearer header in
            (case authenticate token of
               Inl e \<Rightarrow> Inl (TokenErr e)
             | Inr None \<Rightarrow> Inl (TokenErr [])
             | Inr (Some cl) \<Rightarrow> (case sr_extract rt cl of
                 Inl e \<Rightarrow> Inl (TokenErr e)
               | Inr p \<Rightarrow>
                   if tp_userID p = 0 then Inl (TokenErr [])
                   else if \<not> valid (tp_userID p) token then Inl TokenExpired
                   else Inr p))
      | _ \<Rightarrow> Inl NeedAuth)"

text \<open>What \<open>Serve\<close> does: an error for the caller, a 401 written to the response, or a stream.\<close>

datatype serveOutcome = ServeError sseErr | Unauthorized401 | Streaming string

definition sseServe ::
    "string \<Rightarrow> ('srv, 'cl) sseRuntime \<Rightarrow> bool \<Rightarrow> string option \<Rightarrow> string \<Rightarrow> string \<Rightarrow> serveOutcome" where
  "sseServe bearer rt hasWriter request streamID channelID =
     (case (sr_server rt, sr_registry rt) of
        (Some _, Some registry) \<Rightarrow>
          if \<not> hasWriter then ServeError HttpOnly
          else (case request of
              None \<Rightarrow> ServeError HttpOnly
            | Some header \<Rightarrow> (case sseAuthenticate bearer rt header of
                Inl _ \<Rightarrow> Unauthorized401
              | Inr p \<Rightarrow>
                  if tp_userID p \<le> 0 \<or> (frontRole (tp_roleCode p) \<and> streamID \<noteq> ''base.notification'')
                  then Unauthorized401
                  else (case sseResolve registry streamID channelID (tp_userID p) (tp_tenantID p) of
                      (transportID, found, err) \<Rightarrow>
                        if \<not> found then ServeError Unsupported
                        else (case err of Some e \<Rightarrow> ServeError e | None \<Rightarrow> Streaming transportID))))
      | _ \<Rightarrow> ServeError NotInitialised)"

definition NewPublisher :: "'srv option \<Rightarrow> 'srv option" where
  "NewPublisher server = server"

definition BindServer :: "'srv option \<Rightarrow> ('srv, 'cl) sseRuntime \<Rightarrow> ('srv, 'cl) sseRuntime" where
  "BindServer server rt = rt\<lparr>sr_server := server, sr_publisher := NewPublisher server\<rparr>"

definition UnbindServer :: "('srv, 'cl) sseRuntime \<Rightarrow> ('srv, 'cl) sseRuntime" where
  "UnbindServer rt = rt\<lparr>sr_server := None, sr_publisher := None\<rparr>"

text \<open>\<open>NewSSE\<close>: the runtime, bound to the transport of the server if there is one, and its cleanup.\<close>

definition NewSSE ::
    "(string \<Rightarrow> (string, 'cl option) result) option \<Rightarrow> ('cl \<Rightarrow> (string, tokenPayload) result)
       \<Rightarrow> (int \<Rightarrow> string \<Rightarrow> bool) option \<Rightarrow> sseRegistry option \<Rightarrow> 'srv option option
       \<Rightarrow> ('srv, 'cl) sseRuntime \<times> (('srv, 'cl) sseRuntime \<Rightarrow> ('srv, 'cl) sseRuntime)" where
  "NewSSE authenticator extract tokenValid registry server =
     (let rt = \<lparr>sr_server = None, sr_publisher = None, sr_registry = registry, sr_authenticator = authenticator,
                sr_extract = extract, sr_tokenValid = tokenValid\<rparr>
      in (case server of None \<Rightarrow> rt | Some srv \<Rightarrow> BindServer srv rt, UnbindServer))"

definition PublishEnabled :: "('srv, 'cl) sseRuntime \<Rightarrow> bool" where
  "PublishEnabled rt \<longleftrightarrow> sr_publisher rt \<noteq> None"

text \<open>\<open>TryPublishJSON\<close>: the event handed to the transport, if any.\<close>

definition TryPublishJSON ::
    "'srv option \<Rightarrow> string \<Rightarrow> string \<Rightarrow> (string, string) result \<Rightarrow> ('srv \<times> string \<times> string \<times> string) option" where
  "TryPublishJSON publisher streamID eventID marshalled =
     (case publisher of
        None \<Rightarrow> None
      | Some srv \<Rightarrow>
          if streamID = [] \<or> eventID = [] then None
          else (case marshalled of Inl _ \<Rightarrow> None | Inr body \<Rightarrow> Some (srv, streamID, eventID, body)))"

definition PublishJSON ::
    "('srv, 'cl) sseRuntime \<Rightarrow> string \<Rightarrow> string \<Rightarrow> (string, string) result
       \<Rightarrow> ('srv \<times> string \<times> string \<times> string) option" where
  "PublishJSON rt streamID eventID marshalled =
     (if sr_publisher rt \<noteq> None then TryPublishJSON (sr_publisher rt) streamID eventID marshalled else None)"

section \<open>The transport server\<close>

record 'srv sseServer =
  sv_server :: "'srv option"
  sv_inProcess :: bool

text \<open>
  \<open>NewServer\<close>: None is the absent configuration.  \<open>create\<close> builds the handler (for the
  independent transport from a clone of the configuration that is switched to in-process),
  \<open>registerStream\<close> and \<open>definitions\<close> are methods of the transport; the flag of the result
  tells whether the handler was stopped by \<open>cleanup\<close>.
\<close>

datatype 'srv newServer =
  NoServer | CreateFailed sseErr | RegisterFailed sseErr bool | NewServer "'srv sseServer" "sseRegistry option"

definition sseNewServer ::
    "bool \<Rightarrow> bool \<Rightarrow> (bool \<Rightarrow> (string, 'srv) result) \<Rightarrow> ('srv \<Rightarrow> sseStream option list \<Rightarrow> string option)
       \<Rightarrow> ('srv \<Rightarrow> sseStream option list) \<Rightarrow> sseStream option list \<Rightarrow> sseRegistry option \<Rightarrow> 'srv newServer" where
  "sseNewServer configured inProcess create registerStream defs streams registry =
     (if \<not> configured then NoServer
      else case create True of
        Inl e \<Rightarrow> CreateFailed (ServerErr e)
      | Inr srv \<Rightarrow>
          let runtime = \<lparr>sv_server = Some srv, sv_inProcess = inProcess\<rparr> in
          (case registerStream srv streams of
             Some e \<Rightarrow> RegisterFailed (ServerErr e) True
           | None \<Rightarrow> (case registry of
               None \<Rightarrow> NewServer runtime None
             | Some r \<Rightarrow> (case sseRegister (defs srv) r of
                 Inl e \<Rightarrow> RegisterFailed e True
               | Inr r' \<Rightarrow> NewServer runtime (Some r')))))"

text \<open>\<open>Start\<close> and \<open>Stop\<close>: whether the transport's method is called.\<close>

definition sseStartCalls :: "'srv sseServer option \<Rightarrow> bool" where
  "sseStartCalls s = (case s of None \<Rightarrow> False | Some v \<Rightarrow> sv_server v \<noteq> None \<and> \<not> sv_inProcess v)"

definition sseStopCalls :: "'srv sseServer option \<Rightarrow> bool" where
  "sseStopCalls s = (case s of None \<Rightarrow> False | Some v \<Rightarrow> sv_server v \<noteq> None)"

definition sseEndpoint :: "('srv \<Rightarrow> (string, 'url) result) \<Rightarrow> 'srv sseServer option \<Rightarrow> (sseErr, 'url) result" where
  "sseEndpoint endpoint s = (case s of None \<Rightarrow> Inl NotInitialised
    | Some v \<Rightarrow> (case sv_server v of None \<Rightarrow> Inl NotInitialised
        | Some srv \<Rightarrow> (case endpoint srv of Inl e \<Rightarrow> Inl (ServerErr e) | Inr url \<Rightarrow> Inr url)))"

text \<open>A runtime without a transport serves no stream and publishes nothing; the cleanup restores that.\<close>
lemma sse_unbound:
  assumes "NewSSE authenticator extract tokenValid registry server = (rt, cleanup)" "r = cleanup rt \<or> server = None \<and> r = rt"
  shows "sseServe bearer r hasWriter request streamID channelID = ServeError NotInitialised"
    and "PublishJSON r streamID eventID marshalled = None" and "\<not> PublishEnabled r"
  using assms by (auto simp: NewSSE_def UnbindServer_def sseServe_def PublishJSON_def PublishEnabled_def Let_def)

section \<open>The detached request context\<close>

text \<open>
  \<open>DetachRequestContext\<close>: the request's context ends once, by its deadline or by the client; the
  watcher goroutine sees that end or the cleanup, whichever is first, and returns.
\<close>

datatype ctxEvent = DeadlineExpired | ClientGone | Cleanup

record detached =
  dc_done :: "ctxEvent option"
  dc_watching :: bool
  dc_cancelled :: bool

definition detachInit :: detached where
  "detachInit = \<lparr>dc_done = None, dc_watching = True, dc_cancelled = False\<rparr>"

text \<open>A context that is done keeps its first error, so a later end has no effect.\<close>

definition detachStep :: "ctxEvent \<Rightarrow> detached \<Rightarrow> detached" where
  "detachStep ev d =
     (case ev of
        Cleanup \<Rightarrow> d\<lparr>dc_watching := False, dc_cancelled := True\<rparr>
      | _ \<Rightarrow>
          if dc_done d \<noteq> None then d
          else let d = d\<lparr>dc_done := Some ev\<rparr> in
            if \<not> dc_watching d then d
            else d\<lparr>dc_watching := False, dc_cancelled := (dc_cancelled d \<or> ev \<noteq> DeadlineExpired)\<rparr>)"

definition detachRun :: "ctxEvent list \<Rightarrow> detached" where
  "detachRun evs = foldl (\<lambda>d ev. detachStep ev d) detachInit evs"

text \<open>The first end of the original context in a list of events.\<close>

definition firstEnd :: "ctxEvent list \<Rightarrow> ctxEvent option" where
  "firstEnd evs = find (\<lambda>e. e \<noteq> Cleanup) evs"

lemma detachRun_snoc: "detachRun (evs @ [e]) = detachStep e (detachRun evs)"
  by (simp add: detachRun_def)

lemma firstEnd_snoc:
  "firstEnd (evs @ [e]) = (case firstEnd evs of None \<Rightarrow> if e \<noteq> Cleanup then Some e else None | Some x \<Rightarrow> Some x)"
  by (induction evs) (auto simp: firstEnd_def)

lemma detach_state:
  "dc_done (detachRun evs) = firstEnd evs
   \<and> dc_watching (detachRun evs) = (Cleanup \<notin> set evs \<and> firstEnd evs = None)
   \<and> dc_cancelled (detachRun evs) = (Cleanup \<in> set evs \<or> firstEnd evs = Some ClientGone)"
proof (induction evs rule: rev_induct)
  case Nil
  then show ?case by (simp add: detachRun_def detachInit_def firstEnd_def)
next
  case (snoc e evs)
  then show ?case
    by (cases e; cases "firstEnd evs")
      (auto simp: detachRun_snoc firstEnd_snoc detachStep_def Let_def)
qed


section \<open>Properties\<close>

text \<open>Registration is all or nothing and permanent: it succeeds exactly when every stream is
  non-nil, has a non-empty id that is not registered yet, and no id occurs twice in the call;
  then every stream is found under its id and nothing else changed; and whatever registrations
  are attempted later, each of them still resolves to that same stream.\<close>

theorem sseRegister_permanent:
  "((\<exists>r'. sseRegister ss r = Inr r') \<longleftrightarrow>
      None \<notin> set ss \<and> (\<forall>k \<in> set (streamIDs ss). k \<noteq> [] \<and> r k = None) \<and> distinct (streamIDs ss))
   \<and> (\<forall>r'. sseRegister ss r = Inr r' \<longrightarrow>
        (\<forall>s. Some s \<in> set ss \<longrightarrow> sseReg.attempts later r' (ss_id s) = Some s)
        \<and> (\<forall>k. k \<notin> set (streamIDs ss) \<longrightarrow> r' k = r k))"
proof (intro conjI allI impI)
  show "(\<exists>r'. sseRegister ss r = Inr r') \<longleftrightarrow>
      None \<notin> set ss \<and> (\<forall>k \<in> set (streamIDs ss). k \<noteq> [] \<and> r k = None) \<and> distinct (streamIDs ss)"
    by (auto simp: sseRegister_Inr checkStreams_ok)
next
  fix r' s assume "sseRegister ss r = Inr r'" "Some s \<in> set ss"
  from sseReg.registered_stays [OF this] show "sseReg.attempts later r' (ss_id s) = Some s"
    by (simp add: streamKey_def)
next
  fix r' k assume "sseRegister ss r = Inr r'" "k \<notin> set (streamIDs ss)"
  then show "r' k = r k" by (auto simp: sseRegister_Inr streamIDs_mem intro!: storeStreams_other)
qed

definition exampleStream :: sseStream where
  "exampleStream = \<lparr>ss_id = ''base.notification'', ss_resolve = (\<lambda>c u. Inr ''legacy''),
     ss_resolveTenant = Some (\<lambda>c u t. Inr ''tenant'')\<rparr>"

theorem sseRegister_permanent_witness:
  "\<exists>r'. sseRegister [Some exampleStream] emptyRegistry = Inr r'
     \<and> sseReg.attempts [[None], [Some exampleStream]] r' ''base.notification'' = Some exampleStream"
proof -
  have "\<exists>r'. sseRegister [Some exampleStream] emptyRegistry = Inr r'"
    using sseRegister_permanent [of "[Some exampleStream]" emptyRegistry "[]"]
    by (simp add: emptyRegistry_def exampleStream_def)
  then show ?thesis
    using sseRegister_permanent [of "[Some exampleStream]" emptyRegistry "[[None], [Some exampleStream]]"]
    by (auto simp: exampleStream_def)
qed

text \<open>C18. The stream resolver never hands out a stream without authorization: with an
  authenticator and a registry configured, a transport id is returned only for a request whose
  Authorization header is the bearer scheme and one token that verifies, belongs to a positive
  user whose token is not revoked, with a front-office role only for \<open>base.notification\<close>; and
  the id is the one the registered stream computes for that user, by its tenant method exactly
  when the token has a positive tenant and the stream is tenant aware.\<close>

theorem streamResolver_authorized:
  assumes "streamResolver bearer (Some r) (Some authenticate) valid (Some rq) = Inr transportID"
  shows "\<exists>scheme token cl userID role s. str_fields (rq_authorization rq) = [scheme, token]
    \<and> equal_fold scheme bearer \<and> authenticate token = Inr cl
    \<and> cl_userID cl = Inr userID \<and> 0 < userID \<and> (\<forall>v. valid = Some v \<longrightarrow> v userID token)
    \<and> cl_roleCode cl = Inr role \<and> (frontRole role \<longrightarrow> rq_stream rq = ''base.notification'')
    \<and> r (rq_stream rq) = Some s
    \<and> (case (cl_tenantID cl, ss_resolveTenant s) of
         (Inr tenant, Some f) \<Rightarrow>
           (if 0 < tenant then f (rq_channel rq) userID tenant else ss_resolve s (rq_channel rq) userID)
           = Inr transportID
       | _ \<Rightarrow> ss_resolve s (rq_channel rq) userID = Inr transportID)"
proof -
  from assms obtain userID tenant where
    u: "requestUserID bearer rq (rq_stream rq) (Some authenticate) valid = Inr (userID, tenant)"
    and res: "sseResolve r (rq_stream rq) (rq_channel rq) userID tenant = (transportID, True, None)"
  proof -
    from assms obtain userID tenant where
      u: "requestUserID bearer rq (rq_stream rq) (Some authenticate) valid = Inr (userID, tenant)"
      by (auto simp: streamResolver_def bindR_Inr_iff split: if_splits)
    obtain tid found err where
      res: "sseResolve r (rq_stream rq) (rq_channel rq) userID tenant = (tid, found, err)"
      by (metis prod_cases3)
    from assms u res have "err = None" "found" "tid = transportID"
      by (auto simp: streamResolver_def split: if_splits option.splits)
    with u res show ?thesis using that by simp
  qed
  from u obtain cl role where len: "length (str_fields (rq_authorization rq)) = 2"
    and c: "equal_fold (str_fields (rq_authorization rq) ! 0) bearer"
      "authenticate (str_fields (rq_authorization rq) ! 1) = Inr cl"
      "cl_userID cl = Inr userID" "0 < userID" "cl_roleCode cl = Inr role"
      "frontRole role \<longrightarrow> rq_stream rq = ''base.notification''"
      "\<forall>v. valid = Some v \<longrightarrow> v userID (str_fields (rq_authorization rq) ! 1)"
      "tenant = (case cl_tenantID cl of Inl _ \<Rightarrow> 0 | Inr t \<Rightarrow> t)"
    by (auto simp: requestUserID_def Let_def not_le split: if_splits sum.splits option.splits)
  from len obtain scheme token where f: "str_fields (rq_authorization rq) = [scheme, token]"
    by (metis (no_types, opaque_lifting) One_nat_def Suc_1 length_0_conv length_Suc_conv)
  from res obtain s where s: "r (rq_stream rq) = Some s"
    by (auto simp: sseResolve_def split: option.splits)
  with res have "(if 0 < tenant then (case ss_resolveTenant s of Some f \<Rightarrow> f (rq_channel rq) userID tenant
          | None \<Rightarrow> ss_resolve s (rq_channel rq) userID) else ss_resolve s (rq_channel rq) userID)
        = Inr transportID"
    by (auto simp: sseResolve_def split: sum.splits)
  then have "(case (cl_tenantID cl, ss_resolveTenant s) of
         (Inr tenant, Some f) \<Rightarrow>
           (if 0 < tenant then f (rq_channel rq) userID tenant else ss_resolve s (rq_channel rq) userID)
           = Inr transportID
       | _ \<Rightarrow> ss_resolve s (rq_channel rq) userID = Inr transportID)"
    using c(8) by (auto split: sum.splits option.splits if_splits)
  with f c s show ?thesis by auto
qed

definition exampleClaims :: claims where
  "exampleClaims = \<lparr>cl_userID = Inr 7, cl_roleCode = Inr ''user'', cl_tenantID = Inr 3\<rparr>"

definition exampleRequest :: sseRequest where
  "exampleRequest = \<lparr>rq_hasURL = True, rq_stream = ''base.notification'', rq_channel = ''c'',
     rq_authorization = ''bearer  tok''\<rparr>"

theorem streamResolver_authorized_witness:
  "streamResolver ''Bearer'' (Some [''base.notification'' \<mapsto> exampleStream]) (Some (\<lambda>t. Inr exampleClaims))
     (Some (\<lambda>u t. t = ''tok'')) (Some exampleRequest) = Inr ''tenant''
   \<and> (\<exists>scheme token. str_fields (rq_authorization exampleRequest) = [scheme, token])"
proof -
  have f: "str_fields ''bearer  tok'' = [''bearer'', ''tok'']" by code_simp
  have e: "equal_fold ''bearer'' ''Bearer''" by code_simp
  have ok: "streamResolver ''Bearer'' (Some [''base.notification'' \<mapsto> exampleStream])
      (Some (\<lambda>t. Inr exampleClaims)) (Some (\<lambda>u t. t = ''tok'')) (Some exampleRequest) = Inr ''tenant''"
    by (simp add: streamResolver_def requestUserID_def exampleRequest_def exampleClaims_def f e
        sseResolve_def exampleStream_def)
  from streamResolver_authorized [OF this] obtain scheme token
    where "str_fields (rq_authorization exampleRequest) = [scheme, token]" by (elim exE conjE)
  with ok show ?thesis by (intro conjI exI)
qed

text \<open>C17. The subscription handler streams only to an authenticated user: on every other path it
  writes a 401 or returns an error.  When it streams, the header's token (its bearer prefix
  stripped) verified, was valid for a positive user, a front-office role asked only for
  \<open>base.notification\<close>, and the stream is the registered one resolved for that user and
  tenant; without server, registry, authenticator or token store it never streams.\<close>

theorem sseServe_authorized:
  assumes "sseServe bearer rt hasWriter request streamID channelID = Streaming transportID"
  shows "\<exists>header authenticate valid cl p registry. request = Some header \<and> header \<noteq> []
    \<and> sr_authenticator rt = Some authenticate \<and> sr_tokenValid rt = Some valid
    \<and> authenticate (stripBearer bearer header) = Inr (Some cl) \<and> sr_extract rt cl = Inr p
    \<and> valid (tp_userID p) (stripBearer bearer header) \<and> 0 < tp_userID p
    \<and> (frontRole (tp_roleCode p) \<longrightarrow> streamID = ''base.notification'')
    \<and> sr_server rt \<noteq> None \<and> sr_registry rt = Some registry
    \<and> sseResolve registry streamID channelID (tp_userID p) (tp_tenantID p) = (transportID, True, None)"
proof -
  from assms obtain header registry p where h: "request = Some header" "sr_registry rt = Some registry"
    and auth: "sseAuthenticate bearer rt header = Inr p"
    and rest: "\<not> (tp_userID p \<le> 0 \<or> (frontRole (tp_roleCode p) \<and> streamID \<noteq> ''base.notification''))"
      "sseResolve registry streamID channelID (tp_userID p) (tp_tenantID p) = (transportID, True, None)"
    and srv: "sr_server rt \<noteq> None"
    by (auto simp: sseServe_def split: option.splits if_splits sum.splits prod.splits)
  from auth obtain authenticate valid cl where
    "header \<noteq> []" "sr_authenticator rt = Some authenticate" "sr_tokenValid rt = Some valid"
    "authenticate (stripBearer bearer header) = Inr (Some cl)" "sr_extract rt cl = Inr p"
    "valid (tp_userID p) (stripBearer bearer header)"
    by (auto simp: sseAuthenticate_def Let_def split: option.splits if_splits sum.splits)
  with h rest srv show ?thesis by auto
qed

definition exampleRuntime :: "(nat, nat) sseRuntime" where
  "exampleRuntime = \<lparr>sr_server = Some 1, sr_publisher = Some 1,
     sr_registry = Some [''base.notification'' \<mapsto> exampleStream],
     sr_authenticator = Some (\<lambda>t. Inr (Some 5)),
     sr_extract = (\<lambda>c. Inr \<lparr>tp_userID = 7, tp_tenantID = 0, tp_roleCode = ''authuser''\<rparr>),
     sr_tokenValid = Some (\<lambda>u t. t = ''tok'')\<rparr>"

theorem sseServe_authorized_witness:
  "sseServe ''Bearer'' exampleRuntime True (Some ''BEARER tok'') ''base.notification'' ''c'' = Streaming ''legacy''
   \<and> sr_authenticator exampleRuntime \<noteq> None"
proof -
  have ok: "sseServe ''Bearer'' exampleRuntime True (Some ''BEARER tok'') ''base.notification'' ''c''
      = Streaming ''legacy''" by code_simp
  have "sr_authenticator exampleRuntime \<noteq> None"
    using sseServe_authorized [OF ok] by (elim exE conjE) simp
  with ok show ?thesis by simp
qed

text \<open>When the detached context is cancelled: by the cleanup, or when the client is gone before
  the deadline of the original request expired.  After that deadline the watcher has returned,
  so a later disconnect of the client no longer cancels the stream, although the comment of
  \<open>DetachRequestContext\<close> promises to keep that signal.\<close>

theorem detach_cancelled_iff:
  "(dc_cancelled (detachRun evs) \<longleftrightarrow> Cleanup \<in> set evs \<or> firstEnd evs = Some ClientGone)
   \<and> \<not> dc_cancelled (detachRun [DeadlineExpired, ClientGone])"
  using detach_state [of evs] detach_state [of "[DeadlineExpired, ClientGone]"]
  by (simp add: firstEnd_def)

end
