(* ===== verification/Locales.thy ===== *)
theory Locales
  imports Prelude Complex_Main
begin

text \<open>
  Model of \<open>resource/locale/locale.go\<close>: normalisation of language tags and the candidate list
  computed from an Accept-Language value.  \<open>language.Parse\<close> of golang.org/x/text is the
  parameter \<open>parseTag\<close> (the canonical text of a valid tag), \<open>strconv.ParseFloat\<close> is
  \<open>parseQ\<close>, which gives no number for an error, a NaN or an infinity.
\<close>

section \<open>Model\<close>

definition beforeChar :: "char \<Rightarrow> string \<Rightarrow> string" where
  "beforeChar c s = takeWhile (\<lambda>x. x \<noteq> c) s"

definition localeNormalize :: "(string \<Rightarrow> string option) \<Rightarrow> string \<Rightarrow> string" where
  "localeNormalize parseTag value =
     (let v = beforeChar (CHR '';'') (beforeChar (CHR '','') (trim_space value));
          v = replace_char (CHR ''_'') ''-'' (trim_space v)
      in if v = [] then []
         else case parseTag v of Some tag \<Rightarrow> tag | None \<Rightarrow> to_lower v)"

record preference =
  pr_locale :: string
  pr_quality :: rat
  pr_order :: nat

text \<open>The loop over the parameters of one part: a malformed weight gives zero and ends it.\<close>

fun partQuality :: "(string \<Rightarrow> rat option) \<Rightarrow> rat \<Rightarrow> string list \<Rightarrow> rat" where
  "partQuality parseQ q [] = q"
| "partQuality parseQ q (p # ps) =
     (case cut_char (CHR ''='') p of (name, raw, found) \<Rightarrow>
        if \<not> found \<or> \<not> equal_fold (trim_space name) ''q'' then partQuality parseQ q ps
        else (case parseQ (trim_space raw) of
            None \<Rightarrow> 0
          | Some x \<Rightarrow> if x < 0 \<or> 1 < x then 0 else partQuality parseQ x ps))"

definition parsePart ::
    "(string \<Rightarrow> string option) \<Rightarrow> (string \<Rightarrow> rat option) \<Rightarrow> nat \<times> string \<Rightarrow> preference list" where
  "parsePart parseTag parseQ = (\<lambda>(order, part).
     (let parameters = split_char (CHR '';'') part;
          loc = localeNormalize parseTag (hd parameters)
      in if loc = [] \<or> loc = ''*'' then []
         else let q = partQuality parseQ 1 (tl parameters) in
           if q = 0 then [] else [\<lparr>pr_locale = loc, pr_quality = q, pr_order = order\<rparr>]))"

text \<open>\<open>sort.SliceStable\<close>: higher quality first, then the order of the header.\<close>

definition prefLess :: "preference \<Rightarrow> preference \<Rightarrow> bool" where
  "prefLess l r = (if pr_quality l = pr_quality r then pr_order l < pr_order r
                   else pr_quality r < pr_quality l)"

fun insertPref :: "preference \<Rightarrow> preference list \<Rightarrow> preference list" where
  "insertPref x [] = [x]"
| "insertPref x (y # ys) = (if prefLess y x then y # insertPref x ys else x # y # ys)"

definition parsePreferences ::
    "(string \<Rightarrow> string option) \<Rightarrow> (string \<Rightarrow> rat option) \<Rightarrow> string \<Rightarrow> preference list" where
  "parsePreferences parseTag parseQ value =
     foldr insertPref
       (concat (map (parsePart parseTag parseQ) (enumerate 0 (split_char (CHR '','') value)))) []"

text \<open>\<open>appendCandidate\<close>: \<open>seen\<close> is the set of the elements of \<open>result\<close>.\<close>

definition appendCandidate :: "string list \<Rightarrow> string \<Rightarrow> string list" where
  "appendCandidate result value =
     (if value = [] then result else if value \<in> set result then result else result @ [value])"

text \<open>The inner loop: the tag and its parents, by cutting at the last hyphen.\<close>

definition parentTag :: "string \<Rightarrow> string option" where
  "parentTag s = (case cut_last (CHR ''-'') s of (parent, rest, found) \<Rightarrow>
     if found then Some parent else None)"

lemma parentTag_Some: "parentTag s = Some p \<longleftrightarrow> (\<exists>q. cut_last (CHR ''-'') s = (p, q, True))"
  by (auto simp: parentTag_def split: prod.splits if_splits)

lemma parentTag_shorter: "parentTag s = Some p \<Longrightarrow> length p < length s"
  by (auto simp: parentTag_Some cut_last_found)

function tagChain :: "string \<Rightarrow> string list" where
  "tagChain s = (case parentTag s of None \<Rightarrow> [s] | Some parent \<Rightarrow> s # tagChain parent)"
  by pat_completeness auto
termination
  by (relation "measure length") (auto dest: parentTag_shorter)

declare tagChain.simps [simp del]

definition addPreference :: "string list \<Rightarrow> preference \<Rightarrow> string list" where
  "addPreference result p = foldl appendCandidate result (tagChain (pr_locale p))"

definition localeCandidates ::
    "(string \<Rightarrow> string option) \<Rightarrow> (string \<Rightarrow> rat option) \<Rightarrow> string \<Rightarrow> string list" where
  "localeCandidates parseTag parseQ value =
     foldl addPreference [] (parsePreferences parseTag parseQ value)"

section \<open>Lemmas\<close>

lemma appendCandidate_props:
  "distinct r \<and> [] \<notin> set r \<Longrightarrow> distinct (appendCandidate r v) \<and> [] \<notin> set (appendCandidate r v)"
  by (auto simp: appendCandidate_def)

lemma appendCandidate_set: "set (appendCandidate r v) = set r \<union> ({v} - {[]})"
  by (auto simp: appendCandidate_def)

lemma foldl_append_props:
  "distinct r \<and> [] \<notin> set r \<Longrightarrow>
     distinct (foldl appendCandidate r vs) \<and> [] \<notin> set (foldl appendCandidate r vs)"
proof (induction vs arbitrary: r)
  case (Cons v vs)
  from Cons.IH [OF appendCandidate_props [OF Cons.prems]] show ?case by simp
qed simp

lemma foldl_append_set: "set (foldl appendCandidate r vs) = set r \<union> (set vs - {[]})"
  by (induction vs arbitrary: r) (auto simp: appendCandidate_set)

lemma foldl_pref_props:
  "distinct r \<and> [] \<notin> set r \<Longrightarrow>
     distinct (foldl addPreference r ps) \<and> [] \<notin> set (foldl addPreference r ps)"
proof (induction ps arbitrary: r)
  case (Cons p ps)
  have "distinct (addPreference r p) \<and> [] \<notin> set (addPreference r p)"
    unfolding addPreference_def by (rule foldl_append_props [OF Cons.prems])
  from Cons.IH [OF this] show ?case by simp
qed simp

lemma foldl_pref_set:
  "set (foldl addPreference r ps) = set r \<union> (\<Union>p \<in> set ps. set (tagChain (pr_locale p)) - {[]})"
  by (induction ps arbitrary: r) (auto simp: addPreference_def foldl_append_set)

lemma tagChain_hd: "\<exists>c. tagChain s = s # c"
  by (subst tagChain.simps) (simp split: option.split)

lemma tagChain_self: "s \<in> set (tagChain s)"
  using tagChain_hd [of s] by auto

lemma tagChain_parent:
  "t \<in> set (tagChain s) \<Longrightarrow> cut_last (CHR ''-'') t = (p, q, True) \<Longrightarrow> p \<in> set (tagChain s)"
proof (induction s rule: tagChain.induct)
  case (1 s)
  show ?case
  proof (cases "parentTag s")
    case (Some a)
    then have chain: "tagChain s = s # tagChain a" by (subst tagChain.simps) simp
    show ?thesis
    proof (cases "t = s")
      case eq: True
      with 1(3) Some have "p = a" by (simp add: parentTag_Some)
      with chain tagChain_self [of a] show ?thesis by simp
    next
      case False
      with 1(2) chain have "t \<in> set (tagChain a)" by simp
      with 1(1) [OF Some] 1(3) chain show ?thesis by simp
    qed
  next
    case None
    then have "tagChain s = [s]" by (subst tagChain.simps) simp
    with 1 None show ?thesis by (simp add: parentTag_def)
  qed
qed

lemma insertPref_set: "set (insertPref x ys) = insert x (set ys)"
  by (induction x ys rule: insertPref.induct) auto

lemma foldr_insertPref_set: "set (foldr insertPref xs []) = set xs"
  by (induction xs) (auto simp: insertPref_set)

lemma parsePart_props:
  "p \<in> set (parsePart parseTag parseQ x) \<Longrightarrow> pr_locale p \<noteq> [] \<and> pr_locale p \<noteq> ''*'' \<and> pr_quality p \<noteq> 0"
  by (auto simp: parsePart_def Let_def split: prod.splits if_splits)

lemma parsePreferences_props:
  "p \<in> set (parsePreferences parseTag parseQ v) \<Longrightarrow>
     pr_locale p \<noteq> [] \<and> pr_locale p \<noteq> ''*'' \<and> pr_quality p \<noteq> 0"
  by (auto simp: parsePreferences_def foldr_insertPref_set dest!: parsePart_props)

fun prefSorted :: "preference list \<Rightarrow> bool" where
  "prefSorted [] = True"
| "prefSorted (x # xs) = ((\<forall>y \<in> set xs. \<not> prefLess y x) \<and> prefSorted xs)"

lemma prefLess_trans: "\<not> prefLess b a \<Longrightarrow> \<not> prefLess c b \<Longrightarrow> \<not> prefLess c a"
  by (auto simp: prefLess_def split: if_splits)

lemma insertPref_sorted: "prefSorted ys \<Longrightarrow> prefSorted (insertPref x ys)"
proof (induction x ys rule: insertPref.induct)
  case (1 x)
  then show ?case by simp
next
  case (2 x y ys)
  show ?case
  proof (cases "prefLess y x")
    case True
    then have "\<not> prefLess x y" by (auto simp: prefLess_def split: if_splits)
    with True 2 show ?thesis by (auto simp: insertPref_set)
  next
    case False
    with 2 prefLess_trans [of y x] show ?thesis by auto
  qed
qed

lemma parsePreferences_sorted: "prefSorted (parsePreferences parseTag parseQ v)"
proof -
  have "prefSorted (foldr insertPref xs [])" for xs
    by (induction xs) (auto intro: insertPref_sorted)
  then show ?thesis by (simp add: parsePreferences_def)
qed

lemma candidates_prefix:
  "\<exists>rest. foldl addPreference r (p # ps) = foldl appendCandidate r (tagChain (pr_locale p)) @ rest"
proof -
  have app: "\<exists>rest. foldl appendCandidate r vs = r @ rest" for r vs
  proof (induction vs arbitrary: r)
    case (Cons v vs)
    have "\<exists>u. appendCandidate r v = r @ u" by (auto simp: appendCandidate_def)
    with Cons.IH [of "appendCandidate r v"] show ?case by (auto simp: append_assoc)
  qed simp
  have "\<exists>rest. foldl addPreference r ps = r @ rest" for r ps
  proof (induction ps arbitrary: r)
    case (Cons p ps)
    from app [of r "tagChain (pr_locale p)"] Cons.IH [of "addPreference r p"] show ?case
      by (auto simp: addPreference_def append_assoc)
  qed simp
  from this [of "addPreference r p" ps] show ?thesis by (simp add: addPreference_def)
qed

section \<open>Properties\<close>

text \<open>The language candidates of an Accept-Language value are free of repetitions, of the
  empty (default) language and of the wildcard; they contain every accepted tag and, with each
  tag, the tag without its last subtag; the accepted tags are ranked by weight and then by
  position, refused ones (weight zero or malformed) being left out; and the best tag comes
  first.\<close>

theorem localeCandidates_correct:
  "distinct (localeCandidates parseTag parseQ v) \<and> [] \<notin> set (localeCandidates parseTag parseQ v)
   \<and> (\<forall>t p q. t \<in> set (localeCandidates parseTag parseQ v) \<longrightarrow> cut_last (CHR ''-'') t = (p, q, True) \<longrightarrow>
        p \<noteq> [] \<longrightarrow> p \<in> set (localeCandidates parseTag parseQ v))
   \<and> (\<forall>p \<in> set (parsePreferences parseTag parseQ v). pr_locale p \<in> set (localeCandidates parseTag parseQ v)
        \<and> pr_quality p \<noteq> 0 \<and> pr_locale p \<noteq> ''*'')
   \<and> prefSorted (parsePreferences parseTag parseQ v)
   \<and> (\<forall>p ps. parsePreferences parseTag parseQ v = p # ps \<longrightarrow>
        (\<exists>rest. localeCandidates parseTag parseQ v = pr_locale p # rest))"
proof (intro conjI allI impI ballI)
  have props: "distinct (localeCandidates parseTag parseQ v) \<and> [] \<notin> set (localeCandidates parseTag parseQ v)"
    unfolding localeCandidates_def by (rule foldl_pref_props) simp
  then show "distinct (localeCandidates parseTag parseQ v)" "[] \<notin> set (localeCandidates parseTag parseQ v)"
    by simp_all
  show "prefSorted (parsePreferences parseTag parseQ v)" by (rule parsePreferences_sorted)
next
  fix t p q assume t: "t \<in> set (localeCandidates parseTag parseQ v)"
    and cut: "cut_last (CHR ''-'') t = (p, q, True)" and "p \<noteq> []"
  from t obtain pr where "pr \<in> set (parsePreferences parseTag parseQ v)" "t \<in> set (tagChain (pr_locale pr))"
    by (auto simp: localeCandidates_def foldl_pref_set)
  with tagChain_parent [OF _ cut] \<open>p \<noteq> []\<close> show "p \<in> set (localeCandidates parseTag parseQ v)"
    by (auto simp: localeCandidates_def foldl_pref_set)
next
  fix p assume p: "p \<in> set (parsePreferences parseTag parseQ v)"
  from parsePreferences_props [OF p] show "pr_quality p \<noteq> 0" "pr_locale p \<noteq> ''*''" by simp_all
  from parsePreferences_props [OF p] p tagChain_self [of "pr_locale p"]
  show "pr_locale p \<in> set (localeCandidates parseTag parseQ v)"
    by (auto simp: localeCandidates_def foldl_pref_set)
next
  fix p ps assume ps: "parsePreferences parseTag parseQ v = p # ps"
  then have "pr_locale p \<noteq> []" using parsePreferences_props [of p parseTag parseQ v] by simp
  moreover obtain c where chain: "tagChain (pr_locale p) = pr_locale p # c"
    using tagChain_hd by blast
  moreover have "\<exists>u. foldl appendCandidate [x] vs = x # u" for x vs
  proof (induction vs rule: rev_induct)
    case (snoc y ys)
    then show ?case by (auto simp: appendCandidate_def)
  qed simp
  ultimately have "\<exists>u. foldl appendCandidate [] (tagChain (pr_locale p)) = pr_locale p # u"
    by (simp add: appendCandidate_def)
  with candidates_prefix [of "[]" p ps] ps
  show "\<exists>rest. localeCandidates parseTag parseQ v = pr_locale p # rest"
    unfolding localeCandidates_def by fastforce
qed

theorem localeCandidates_correct_witness:
  "''zh'' \<in> set (localeCandidates (\<lambda>t. Some t) (\<lambda>q. None) ''zh-Hant'')"
proof -
  have c: "localeCandidates (\<lambda>t. Some t) (\<lambda>q. None) ''zh-Hant'' = [''zh-Hant'', ''zh'']" by code_simp
  have "cut_last (CHR ''-'') ''zh-Hant'' = (''zh'', ''Hant'', True)" by code_simp
  then show ?thesis
    using localeCandidates_correct [of "\<lambda>t. Some t" "\<lambda>q. None" "''zh-Hant''"] c by (metis list.distinct(1) list.set_intros(1))
qed

end
