(* ===== verification/OpenApiRegistry.thy ===== *)
theory OpenApiRegistry
  imports KeyedTable Locales
begin

text \<open>
  Model of \<open>resource/openapi/registry.go\<close>, \<open>resource/openapi/resources.go\<close> and
  \<open>resource/openapi/http.go\<close>: the registry of OpenAPI documents and its lookups, the documents
  read from a module's file system, and the routes they are served on.  \<open>yamlPaths\<close> stands for
  the YAML decoder: the paths of a document with their methods, in one iteration order.
\<close>

section \<open>Keys\<close>

definition NUL :: char where "NUL = CHR 0x00"

definition httpMethods :: "string list" where
  "httpMethods = [''delete'', ''get'', ''head'', ''options'', ''patch'', ''post'', ''put'', ''trace'']"

definition newAPIKey :: "string \<Rightarrow> string \<Rightarrow> string" where
  "newAPIKey p method = to_upper method @ [NUL] @ p"

definition newDocumentKey :: "string \<Rightarrow> string \<Rightarrow> string" where
  "newDocumentKey key loc = key @ [NUL] @ loc"

definition newLocaleAPIKey :: "string \<Rightarrow> string \<Rightarrow> string" where
  "newLocaleAPIKey loc apiKey = loc @ [NUL] @ apiKey"

record document =
  doc_key :: string
  doc_name :: string
  doc_locale :: string
  doc_data :: string

datatype registryErr =
  BadKey string | EmptyName string | EmptyData string | UnnormalizedLocale string
| DuplicateDocument string string | BadDocument string string | DuplicateAPI string string string string
| ReadError string | RouteError string

text \<open>\<open>documentKeyPattern\<close>: a letter or digit, then letters, digits, dots, underscores, hyphens.\<close>

definition key_alnum :: "char \<Rightarrow> bool" where
  "key_alnum c \<longleftrightarrow> (48 \<le> byte_val c \<and> byte_val c \<le> 57) \<or> (65 \<le> byte_val c \<and> byte_val c \<le> 90)
     \<or> (97 \<le> byte_val c \<and> byte_val c \<le> 122)"

definition documentKeyOk :: "string \<Rightarrow> bool" where
  "documentKeyOk s \<longleftrightarrow>
     (case s of [] \<Rightarrow> False
      | c # cs \<Rightarrow> key_alnum c \<and>
          list_all (\<lambda>x. key_alnum x \<or> x = CHR ''.'' \<or> x = CHR ''_'' \<or> x = CHR ''-'') cs)"

definition validateDocument :: "(string \<Rightarrow> string option) \<Rightarrow> document \<Rightarrow> (registryErr, unit) result" where
  "validateDocument parseTag d =
     (if \<not> documentKeyOk (doc_key d) then Inl (BadKey (doc_key d))
      else if doc_name d = [] then Inl (EmptyName (doc_key d))
      else if doc_data d = [] then Inl (EmptyData (doc_key d))
      else if doc_locale d \<noteq> [] \<and> localeNormalize parseTag (doc_locale d) \<noteq> doc_locale d
      then Inl (UnnormalizedLocale (doc_key d))
      else Inr ())"

definition documentAPIKeys ::
    "(string \<Rightarrow> (string, (string \<times> string list) list) result) \<Rightarrow> string \<Rightarrow> (string, string list) result" where
  "documentAPIKeys yamlPaths data =
     (case yamlPaths data of
        Inl e \<Rightarrow> Inl e
      | Inr paths \<Rightarrow> Inr (concat (map (\<lambda>(p, methods).
          map (newAPIKey p) (filter (\<lambda>m. to_lower m \<in> set httpMethods) methods)) paths)))"

section \<open>Registration\<close>

record openapiRegistry =
  rg_documents :: "document list"
  rg_byKey :: "string \<Rightarrow> document option"
  rg_keysByAPI :: "string \<Rightarrow> string option"

definition emptyOpenapi :: openapiRegistry where
  "emptyOpenapi = \<lparr>rg_documents = [], rg_byKey = Map.empty, rg_keysByAPI = Map.empty\<rparr>"

text \<open>The loop that claims the operations of one document.\<close>

fun claimAPIs ::
    "document \<Rightarrow> string \<Rightarrow> string list \<Rightarrow> (string \<Rightarrow> string option)
       \<Rightarrow> (registryErr, string \<Rightarrow> string option) result" where
  "claimAPIs d documentKey [] owners = Inr owners"
| "claimAPIs d documentKey (apiKey # ks) owners =
     (case owners (newLocaleAPIKey (doc_locale d) apiKey) of
        Some owner \<Rightarrow> Inl (DuplicateAPI (doc_key d) owner (doc_locale d) apiKey)
      | None \<Rightarrow> claimAPIs d documentKey ks (owners(newLocaleAPIKey (doc_locale d) apiKey \<mapsto> documentKey)))"

definition normalizeDocument :: "(string \<Rightarrow> string option) \<Rightarrow> document \<Rightarrow> document" where
  "normalizeDocument parseTag d = d\<lparr>doc_locale := localeNormalize parseTag (doc_locale d)\<rparr>"

text \<open>One iteration of the loop of \<open>Register\<close>, on the working copies.\<close>

definition registerOne ::
    "(string \<Rightarrow> string option) \<Rightarrow> (string \<Rightarrow> (string, (string \<times> string list) list) result)
       \<Rightarrow> document \<Rightarrow> openapiRegistry \<Rightarrow> (registryErr, openapiRegistry) result" where
  "registerOne parseTag yamlPaths document r =
     (let d = normalizeDocument parseTag document;
          documentKey = newDocumentKey (doc_key d) (doc_locale d)
      in bindR (validateDocument parseTag d) (\<lambda>_.
         case rg_byKey r documentKey of
           Some existing \<Rightarrow>
             if doc_name existing = doc_name d \<and> doc_data existing = doc_data d then Inr r
             else Inl (DuplicateDocument (doc_key d) (doc_locale d))
         | None \<Rightarrow>
             (case documentAPIKeys yamlPaths (doc_data d) of
                Inl e \<Rightarrow> Inl (BadDocument (doc_key d) e)
              | Inr apiKeys \<Rightarrow>
                  bindR (claimAPIs d documentKey apiKeys (rg_keysByAPI r)) (\<lambda>owners.
                  Inr \<lparr>rg_documents = rg_documents r @ [d],
                       rg_byKey = (rg_byKey r)(documentKey \<mapsto> d), rg_keysByAPI = owners\<rparr>))))"

fun openapiRegister ::
    "(string \<Rightarrow> string option) \<Rightarrow> (string \<Rightarrow> (string, (string \<times> string list) list) result)
       \<Rightarrow> document list \<Rightarrow> openapiRegistry \<Rightarrow> (registryErr, openapiRegistry) result" where
  "openapiRegister parseTag yamlPaths [] r = Inr r"
| "openapiRegister parseTag yamlPaths (d # ds) r =
     bindR (registerOne parseTag yamlPaths d r) (openapiRegister parseTag yamlPaths ds)"

section \<open>Queries\<close>

definition DocumentsByLocale :: "(string \<Rightarrow> string option) \<Rightarrow> openapiRegistry \<Rightarrow> string \<Rightarrow> document list" where
  "DocumentsByLocale parseTag r loc =
     filter (\<lambda>d. doc_locale d = localeNormalize parseTag loc) (rg_documents r)"

text \<open>The first loop of \<open>DocumentsForLocale\<close>: the map from document keys to the selected ones.\<close>

definition selectLocale :: "document list \<Rightarrow> (string \<Rightarrow> document option) \<Rightarrow> string \<Rightarrow> (string \<Rightarrow> document option)" where
  "selectLocale docs sel loc =
     foldl (\<lambda>s d. if doc_locale d = loc \<and> s (doc_key d) = None then s(doc_key d \<mapsto> d) else s) sel docs"

definition DocumentsForLocale :: "openapiRegistry \<Rightarrow> string list \<Rightarrow> document list" where
  "DocumentsForLocale r candidates =
     (let selected = foldl (selectLocale (rg_documents r)) Map.empty (candidates @ [[]]);
          selected = selectLocale (rg_documents r) selected []
      in filter (\<lambda>d. case selected (doc_key d) of
            None \<Rightarrow> False | Some s \<Rightarrow> doc_locale s = doc_locale d) (rg_documents r))"

definition registryLocales :: "openapiRegistry \<Rightarrow> string list" where
  "registryLocales r = sort (remdups (filter (\<lambda>l. l \<noteq> []) (map doc_locale (rg_documents r))))"

text \<open>The loops of \<open>DocumentByOperationForLocale\<close> and
  \<open>parsedDocumentByOperationForLocale\<close> over the candidate locales.\<close>

fun findOwner :: "openapiRegistry \<Rightarrow> string \<Rightarrow> string list \<Rightarrow> string option" where
  "findOwner r apiKey [] = None"
| "findOwner r apiKey (l # ls) =
     (case rg_keysByAPI r (newLocaleAPIKey l apiKey) of
        None \<Rightarrow> findOwner r apiKey ls
      | Some k \<Rightarrow> Some k)"

definition DocumentByOperationForLocale ::
    "openapiRegistry \<Rightarrow> string list \<Rightarrow> string \<Rightarrow> string \<Rightarrow> document option" where
  "DocumentByOperationForLocale r candidates p method =
     (case findOwner r (newAPIKey p method) (candidates @ [[]]) of
        None \<Rightarrow> None
      | Some k \<Rightarrow> rg_byKey r k)"

definition parsedDocumentByOperationForLocale ::
    "(string \<Rightarrow> (string, 'api) result) \<Rightarrow> openapiRegistry \<Rightarrow> string list \<Rightarrow> string \<Rightarrow> string
       \<Rightarrow> (string, 'api) result option" where
  "parsedDocumentByOperationForLocale parse r candidates p method =
     map_option (\<lambda>d. parse (doc_data d)) (DocumentByOperationForLocale r candidates p method)"

text \<open>The cache of one document: the first \<open>load\<close> parses, \<open>sync.Once\<close> keeps its result, an error included.\<close>

record 'api cachedOpenAPIDocument =
  cd_data :: string
  cd_loaded :: "(string, 'api) result option"

definition cachedLoad ::
    "(string \<Rightarrow> (string, 'api) result) \<Rightarrow> 'api cachedOpenAPIDocument \<Rightarrow> (string, 'api) result \<times> 'api cachedOpenAPIDocument" where
  "cachedLoad parse d = (case cd_loaded d of
      Some r \<Rightarrow> (r, d)
    | None \<Rightarrow> (let r = parse (cd_data d) in (r, d\<lparr>cd_loaded := Some r\<rparr>)))"

text \<open>So a document that starts unloaded answers every query as if it were parsed each time.\<close>

lemma cachedLoad_transparent:
  assumes "cd_loaded d = None \<or> cd_loaded d = Some (parse (cd_data d))"
  shows "fst (cachedLoad parse d) = parse (cd_data d)"
    and "cd_data (snd (cachedLoad parse d)) = cd_data d"
    and "cd_loaded (snd (cachedLoad parse d)) = Some (parse (cd_data d))"
  using assms by (auto simp: cachedLoad_def Let_def)

definition displayAPIKey :: "string \<Rightarrow> string" where
  "displayAPIKey apiKey = (case cut_char NUL apiKey of (before, after, found) \<Rightarrow>
     if found then before @ '' '' @ after else apiKey)"

lemma displayAPIKey_newAPIKey: "NUL \<notin> set (to_upper method) \<Longrightarrow> displayAPIKey (newAPIKey p method) = to_upper method @ '' '' @ p"
  using cut_char_found [of NUL "to_upper method @ NUL # p" "to_upper method" p]
  by (simp add: displayAPIKey_def newAPIKey_def)

definition hasDocumentsForLocale :: "openapiRegistry \<Rightarrow> string list \<Rightarrow> bool" where
  "hasDocumentsForLocale r candidates \<longleftrightarrow>
     list_ex (\<lambda>d. list_ex (\<lambda>l. doc_locale d = l) (candidates @ [[]])) (rg_documents r)"

section \<open>resources.go\<close>

record resourceItem =
  ri_projectKey :: string
  ri_projectName :: string

definition resourceProject :: "resourceItem \<Rightarrow> string \<times> string" where
  "resourceProject r =
     (let key = (if ri_projectKey r = [] then ''kratos-core'' else ri_projectKey r)
      in (key, if ri_projectName r = [] then key else ri_projectName r))"

text \<open>\<open>resourceFilePattern\<close>: the captured locale (empty when absent), None when it does not match.\<close>

definition tagLetters :: "char \<Rightarrow> bool" where
  "tagLetters c \<longleftrightarrow> (65 \<le> byte_val c \<and> byte_val c \<le> 90) \<or> (97 \<le> byte_val c \<and> byte_val c \<le> 122)"

definition tagParts :: "string \<Rightarrow> string list" where
  "tagParts s = split_char (CHR ''-'') (replace_char (CHR ''_'') ''-'' s)"

definition fileLocaleOk :: "string \<Rightarrow> bool" where
  "fileLocaleOk s \<longleftrightarrow>
     (case tagParts s of [] \<Rightarrow> False
      | l # ps \<Rightarrow> list_all tagLetters l \<and> 2 \<le> length l \<and> length l \<le> 8
          \<and> list_all (\<lambda>p. list_all key_alnum p \<and> 1 \<le> length p \<and> length p \<le> 8) ps)"

definition resourceFile :: "string \<Rightarrow> string option" where
  "resourceFile name =
     (case cut_last (CHR ''.'') name of (stem, ext, found) \<Rightarrow>
        if \<not> found \<or> ext \<notin> {''yaml'', ''yml'', ''json''} then None
        else if stem = ''openapi'' then Some []
        else if has_prefix stem ''openapi.'' \<and> fileLocaleOk (drop 8 stem) then Some (drop 8 stem)
        else None)"

text \<open>A module's file system as \<open>readResourceFiles\<close> uses it: the directory (names, sorted by the
  code, with the directory flag) or an error, and the files; a missing file is None in \<open>Inl\<close>.\<close>

record moduleFiles =
  mf_dir :: "(string, (string \<times> bool) list) result"
  mf_file :: "string \<Rightarrow> (string option, string) result"

fun readListed ::
    "(string \<Rightarrow> string option) \<Rightarrow> moduleFiles \<Rightarrow> (string \<times> bool) list
       \<Rightarrow> (registryErr, (string \<times> string) list) result" where
  "readListed parseTag f [] = Inr []"
| "readListed parseTag f ((name, isDir) # es) =
     (if isDir then readListed parseTag f es
      else case resourceFile name of
        None \<Rightarrow> readListed parseTag f es
      | Some loc \<Rightarrow> (case mf_file f name of
            Inl e \<Rightarrow> Inl (ReadError name)
          | Inr data \<Rightarrow> bindR (readListed parseTag f es)
              (\<lambda>rest. Inr ((localeNormalize parseTag loc, data) # rest))))"

fun readDefault :: "moduleFiles \<Rightarrow> string list \<Rightarrow> (registryErr, (string \<times> string) list) result" where
  "readDefault f [] = Inr []"
| "readDefault f (n # ns) =
     (case mf_file f n of
        Inr data \<Rightarrow> Inr [([], data)]
      | Inl None \<Rightarrow> readDefault f ns
      | Inl (Some e) \<Rightarrow> Inl (ReadError e))"

definition readResourceFiles ::
    "(string \<Rightarrow> string option) \<Rightarrow> moduleFiles option \<Rightarrow> (registryErr, (string \<times> string) list) result" where
  "readResourceFiles parseTag files =
     (case files of
        None \<Rightarrow> Inr []
      | Some f \<Rightarrow> (case mf_dir f of
            Inl _ \<Rightarrow> readDefault f [''openapi.yaml'', ''openapi.yml'', ''openapi.json'']
          | Inr entries \<Rightarrow> readListed parseTag f (sort_key fst entries)))"

fun newRegistryLoop ::
    "(string \<Rightarrow> string option) \<Rightarrow> (string \<Rightarrow> (string, (string \<times> string list) list) result)
       \<Rightarrow> (resourceItem \<times> moduleFiles option) list \<Rightarrow> openapiRegistry
       \<Rightarrow> (registryErr, openapiRegistry) result" where
  "newRegistryLoop parseTag yamlPaths [] r = Inr r"
| "newRegistryLoop parseTag yamlPaths ((item, files) # rs) r =
     (case resourceProject item of (key, name) \<Rightarrow>
        bindR (readResourceFiles parseTag files) (\<lambda>docs.
        bindR (openapiRegister parseTag yamlPaths
            (map (\<lambda>(loc, data). \<lparr>doc_key = key, doc_name = name, doc_locale = loc, doc_data = data\<rparr>) docs) r)
          (newRegistryLoop parseTag yamlPaths rs)))"

definition openapiNewRegistry ::
    "(string \<Rightarrow> string option) \<Rightarrow> (string \<Rightarrow> (string, (string \<times> string list) list) result)
       \<Rightarrow> (resourceItem \<times> moduleFiles option) list \<Rightarrow> (registryErr, openapiRegistry) result" where
  "openapiNewRegistry parseTag yamlPaths resources =
     newRegistryLoop parseTag yamlPaths resources emptyOpenapi"

section \<open>http.go\<close>

definition normalizePath :: "string \<Rightarrow> string \<Rightarrow> string" where
  "normalizePath value fallback =
     (let v = ''/'' @ trim_char (CHR ''/'') value in if v = ''/'' then fallback else v)"

definition documentLocalePath :: "string \<Rightarrow> string" where
  "documentLocalePath loc = (if loc = [] then [] else ''/'' @ loc)"

text \<open>The routes \<open>RegisterHTTP\<close> mounts, in order: the raw document and its Swagger UI.\<close>

datatype openapiRoute = RawRoute string string | SwaggerRoute string string string

definition documentRoutes :: "string \<Rightarrow> string \<Rightarrow> string \<Rightarrow> document \<Rightarrow> openapiRoute list" where
  "documentRoutes documentPath swaggerPath loc d =
     (let raw = documentPath @ ''/'' @ doc_key d @ documentLocalePath loc
      in [RawRoute raw (doc_data d),
          SwaggerRoute (doc_name d) (swaggerPath @ ''/'' @ doc_key d @ documentLocalePath loc @ ''/'') raw])"

fun mountAll ::
    "(openapiRoute \<Rightarrow> 'srv \<Rightarrow> (string, 'srv) result) \<Rightarrow> openapiRoute list \<Rightarrow> 'srv
       \<Rightarrow> (registryErr, 'srv) result" where
  "mountAll mount [] srv = Inr srv"
| "mountAll mount (x # xs) srv =
     (case mount x srv of Inl e \<Rightarrow> Inl (RouteError e) | Inr srv' \<Rightarrow> mountAll mount xs srv')"

definition RegisterHTTP ::
    "(string \<Rightarrow> string option) \<Rightarrow> (openapiRoute \<Rightarrow> 'srv \<Rightarrow> (string, 'srv) result) \<Rightarrow> openapiRegistry
       \<Rightarrow> string \<Rightarrow> string \<Rightarrow> 'srv \<Rightarrow> (registryErr, 'srv) result" where
  "RegisterHTTP parseTag mount r documentPath swaggerPath srv =
     mountAll mount
       (concat (map (\<lambda>loc. concat (map (documentRoutes
            (normalizePath documentPath ''/api/docs/openapi'')
            (normalizePath swaggerPath ''/api/docs/swagger'') loc)
            (DocumentsByLocale parseTag r loc)))
          ([] # registryLocales r))) srv"


section \<open>Registration keeps its promises\<close>

definition docKey :: "document \<Rightarrow> string" where
  "docKey d = newDocumentKey (doc_key d) (doc_locale d)"

definition docAPIs :: "(string \<Rightarrow> (string, (string \<times> string list) list) result) \<Rightarrow> document \<Rightarrow> string set" where
  "docAPIs yamlPaths d = (case documentAPIKeys yamlPaths (doc_data d) of Inl _ \<Rightarrow> {} | Inr ks \<Rightarrow> set ks)"

text \<open>The maps index the document list; every claimed operation has exactly the owners that
  declare it.\<close>

definition registryInv :: "(string \<Rightarrow> (string, (string \<times> string list) list) result) \<Rightarrow> openapiRegistry \<Rightarrow> bool" where
  "registryInv yamlPaths r \<longleftrightarrow>
     distinct (map docKey (rg_documents r))
     \<and> (\<forall>k d. rg_byKey r k = Some d \<longleftrightarrow> d \<in> set (rg_documents r) \<and> docKey d = k)
     \<and> (\<forall>a k. rg_keysByAPI r a = Some k \<longleftrightarrow>
          (\<exists>d \<in> set (rg_documents r). docKey d = k \<and> a \<in> newLocaleAPIKey (doc_locale d) ` docAPIs yamlPaths d))"

lemma claimAPIs_Inr:
  "claimAPIs d k ks owners = Inr owners' \<Longrightarrow>
     (\<forall>a. owners' a = (if a \<in> newLocaleAPIKey (doc_locale d) ` set ks then Some k else owners a))
     \<and> (\<forall>a \<in> newLocaleAPIKey (doc_locale d) ` set ks. owners a = None)"
  by (induction d k ks owners rule: claimAPIs.induct) (auto split: option.splits if_splits)

lemma registerOne_cases:
  assumes "registerOne parseTag yamlPaths x r = Inr r'"
  defines "d \<equiv> normalizeDocument parseTag x"
  shows "(\<exists>e. rg_byKey r (docKey d) = Some e \<and> doc_name e = doc_name d \<and> doc_data e = doc_data d \<and> r' = r)
    \<or> (rg_byKey r (docKey d) = None \<and> (\<exists>ks owners. documentAPIKeys yamlPaths (doc_data d) = Inr ks
         \<and> claimAPIs d (docKey d) ks (rg_keysByAPI r) = Inr owners
         \<and> r' = \<lparr>rg_documents = rg_documents r @ [d], rg_byKey = (rg_byKey r)(docKey d \<mapsto> d),
                 rg_keysByAPI = owners\<rparr>))"
  using assms
  by (auto simp: registerOne_def Let_def bindR_Inr_iff docKey_def
      split: option.splits if_splits sum.splits)

lemma registerOne_inv:
  assumes inv: "registryInv yamlPaths r" and reg: "registerOne parseTag yamlPaths x r = Inr r'"
  shows "registryInv yamlPaths r'"
proof -
  let ?d = "normalizeDocument parseTag x"
  from registerOne_cases [OF reg] consider "r' = r"
    | ks owners where "rg_byKey r (docKey ?d) = None" "documentAPIKeys yamlPaths (doc_data ?d) = Inr ks"
      "claimAPIs ?d (docKey ?d) ks (rg_keysByAPI r) = Inr owners"
      "r' = \<lparr>rg_documents = rg_documents r @ [?d], rg_byKey = (rg_byKey r)(docKey ?d \<mapsto> ?d),
             rg_keysByAPI = owners\<rparr>" by blast
  then show ?thesis
  proof cases
    case 1
    with inv show ?thesis by simp
  next
    case 2
    have apis: "docAPIs yamlPaths ?d = set ks" using 2(2) by (simp add: docAPIs_def)
    from inv 2(1) have new: "\<forall>e \<in> set (rg_documents r). docKey e \<noteq> docKey ?d"
      unfolding registryInv_def by (metis option.distinct(1))
    note claim = claimAPIs_Inr [OF 2(3)]
    have "distinct (map docKey (rg_documents r'))"
      using inv new 2(4) by (auto simp: registryInv_def)
    moreover have "\<forall>k d. rg_byKey r' k = Some d \<longleftrightarrow> d \<in> set (rg_documents r') \<and> docKey d = k"
      using inv new 2(4) by (auto simp: registryInv_def)
    moreover have "rg_keysByAPI r' a = Some k \<longleftrightarrow>
          (\<exists>d \<in> set (rg_documents r'). docKey d = k \<and> a \<in> newLocaleAPIKey (doc_locale d) ` docAPIs yamlPaths d)"
      for a k
    proof (cases "a \<in> newLocaleAPIKey (doc_locale ?d) ` set ks")
      case True
      have none: "rg_keysByAPI r a = None" by (rule bspec [OF claim [THEN conjunct2] True])
      have "\<not> (\<exists>d \<in> set (rg_documents r). docKey d = j \<and> a \<in> newLocaleAPIKey (doc_locale d) ` docAPIs yamlPaths d)" for j
        using inv none unfolding registryInv_def by (metis option.distinct(1))
      with True claim 2(4) apis show ?thesis by auto
    next
      case False
      have "rg_keysByAPI r' a = rg_keysByAPI r a" using False claim 2(4) by simp
      with False inv 2(4) apis show ?thesis unfolding registryInv_def by auto
    qed
    ultimately show ?thesis unfolding registryInv_def by blast
  qed
qed

lemma openapiRegister_inv:
  "registryInv yamlPaths r \<Longrightarrow> openapiRegister parseTag yamlPaths ds r = Inr r' \<Longrightarrow> registryInv yamlPaths r'"
  by (induction ds arbitrary: r) (auto simp: bindR_Inr_iff dest: registerOne_inv)

lemma emptyOpenapi_inv: "registryInv yamlPaths emptyOpenapi"
  by (simp add: registryInv_def emptyOpenapi_def)

text \<open>What the contract sees of the registry: name and content under each document key.\<close>

definition docEntry :: "openapiRegistry \<Rightarrow> string \<Rightarrow> (string \<times> string) option" where
  "docEntry r k = map_option (\<lambda>d. (doc_name d, doc_data d)) (rg_byKey r k)"

definition itemKey :: "(string \<Rightarrow> string option) \<Rightarrow> document \<Rightarrow> string" where
  "itemKey parseTag d = docKey (normalizeDocument parseTag d)"

definition itemEntry :: "document \<Rightarrow> string \<times> string" where
  "itemEntry d = (doc_name d, doc_data d)"

lemma registerOne_entry:
  assumes "registerOne parseTag yamlPaths x r = Inr r'"
  shows "docEntry r' = (docEntry r)(itemKey parseTag x \<mapsto> itemEntry x)
    \<and> (docEntry r (itemKey parseTag x) = None \<or> docEntry r (itemKey parseTag x) = Some (itemEntry x))"
  using registerOne_cases [OF assms]
  by (auto simp: docEntry_def itemKey_def itemEntry_def normalizeDocument_def fun_eq_iff)

lemma openapiRegister_kept:
  "openapiRegister parseTag yamlPaths ds r = Inr r' \<Longrightarrow> docEntry r k = Some v \<Longrightarrow> docEntry r' k = Some v"
proof (induction ds arbitrary: r)
  case (Cons d ds)
  then obtain r1 where r1: "registerOne parseTag yamlPaths d r = Inr r1"
    and rest: "openapiRegister parseTag yamlPaths ds r1 = Inr r'" by (auto simp: bindR_Inr_iff)
  from registerOne_entry [OF r1] Cons.prems(2) have "docEntry r1 k = Some v" by auto
  from Cons.IH [OF rest this] show ?case .
qed simp

lemma openapiRegister_added:
  "openapiRegister parseTag yamlPaths ds r = Inr r' \<Longrightarrow> d \<in> set ds \<Longrightarrow>
     docEntry r' (itemKey parseTag d) = Some (itemEntry d)"
proof (induction ds arbitrary: r)
  case (Cons x ds)
  then obtain r1 where r1: "registerOne parseTag yamlPaths x r = Inr r1"
    and rest: "openapiRegister parseTag yamlPaths ds r1 = Inr r'" by (auto simp: bindR_Inr_iff)
  show ?case
  proof (cases "d = x")
    case True
    with registerOne_entry [OF r1] have "docEntry r1 (itemKey parseTag d) = Some (itemEntry d)" by simp
    with openapiRegister_kept [OF rest] show ?thesis by blast
  next
    case False
    with Cons.IH [OF rest] Cons.prems(2) show ?thesis by simp
  qed
qed simp

lemma openapiRegister_origin:
  "openapiRegister parseTag yamlPaths ds r = Inr r' \<Longrightarrow> docEntry r' k = Some v \<Longrightarrow>
     docEntry r k = Some v \<or> (\<exists>d \<in> set ds. itemKey parseTag d = k \<and> itemEntry d = v)"
proof (induction ds arbitrary: r)
  case (Cons x ds)
  then obtain r1 where r1: "registerOne parseTag yamlPaths x r = Inr r1"
    and rest: "openapiRegister parseTag yamlPaths ds r1 = Inr r'" by (auto simp: bindR_Inr_iff)
  from Cons.IH [OF rest Cons.prems(2)] registerOne_entry [OF r1] show ?case
    by (auto split: if_splits)
qed simp

interpretation openReg: atomic_registry docEntry "openapiRegister parseTag yamlPaths"
    "itemKey parseTag" itemEntry for parseTag yamlPaths
proof (unfold_locales, goal_cases)
  case (1 xs r r' k v)
  then show ?case by (rule openapiRegister_kept)
next
  case (2 xs r r' x)
  then show ?case by (rule openapiRegister_added)
next
  case (3 xs r r' k v)
  then show ?case by (rule openapiRegister_origin)
qed

section \<open>Lookups\<close>

lemma newLocaleAPIKey_cut: "NUL \<notin> set l \<Longrightarrow> cut_char NUL (newLocaleAPIKey l a) = (l, a, True)"
  by (simp add: cut_char_found newLocaleAPIKey_def)

lemma newLocaleAPIKey_inj:
  assumes "NUL \<notin> set l" and "NUL \<notin> set l'"
  shows "newLocaleAPIKey l a = newLocaleAPIKey l' a' \<longleftrightarrow> l = l' \<and> a = a'"
proof
  assume "newLocaleAPIKey l a = newLocaleAPIKey l' a'"
  then have "cut_char NUL (newLocaleAPIKey l a) = cut_char NUL (newLocaleAPIKey l' a')" by (rule arg_cong)
  then have "(l, a, True) = (l', a', True)"
    unfolding newLocaleAPIKey_cut [OF assms(1)] newLocaleAPIKey_cut [OF assms(2)] .
  then show "l = l' \<and> a = a'" by (simp only: prod.inject)
qed (simp only:)

lemma selectLocale_get:
  "selectLocale docs s l k =
     (case s k of Some d \<Rightarrow> Some d | None \<Rightarrow> find (\<lambda>d. doc_locale d = l \<and> doc_key d = k) docs)"
proof (induction docs arbitrary: s)
  case Nil
  then show ?case by (simp add: selectLocale_def split: option.split)
next
  case (Cons d docs)
  let ?s = "if doc_locale d = l \<and> s (doc_key d) = None then s(doc_key d \<mapsto> d) else s"
  have "selectLocale (d # docs) s l k = selectLocale docs ?s l k"
    by (simp add: selectLocale_def)
  with Cons [of ?s] show ?case by (auto split: option.split)
qed

text \<open>The document of the best language for a key.\<close>

definition bestDocument :: "document list \<Rightarrow> string list \<Rightarrow> string \<Rightarrow> document option" where
  "bestDocument docs ls k =
     (case find (\<lambda>l. \<exists>d \<in> set docs. doc_locale d = l \<and> doc_key d = k) ls of
        None \<Rightarrow> None
      | Some l \<Rightarrow> find (\<lambda>d. doc_locale d = l \<and> doc_key d = k) docs)"

lemma find_None_iff_ex: "find P xs = None \<longleftrightarrow> \<not> (\<exists>x \<in> set xs. P x)"
  by (auto simp: find_None_iff)

lemma find_ex: "find P xs = Some x \<Longrightarrow> \<exists>x \<in> set xs. P x"
  using find_None_iff_ex [of P xs] by auto

lemma bestDocument_Nil [simp]: "bestDocument docs [] k = None"
  by (simp add: bestDocument_def)

lemma bestDocument_Cons:
  "bestDocument docs (l # ls) k =
     (case find (\<lambda>d. doc_locale d = l \<and> doc_key d = k) docs of
        Some d \<Rightarrow> Some d | None \<Rightarrow> bestDocument docs ls k)"
proof (cases "\<exists>d \<in> set docs. doc_locale d = l \<and> doc_key d = k")
  case True
  then have "find (\<lambda>l. \<exists>d \<in> set docs. doc_locale d = l \<and> doc_key d = k) (l # ls) = Some l"
    by (simp only: find.simps if_True)
  moreover from True obtain d where "find (\<lambda>d. doc_locale d = l \<and> doc_key d = k) docs = Some d"
    using find_None_iff_ex [of "\<lambda>d. doc_locale d = l \<and> doc_key d = k" docs] by fastforce
  ultimately show ?thesis by (simp only: bestDocument_def option.case)
next
  case False
  then have "find (\<lambda>l. \<exists>d \<in> set docs. doc_locale d = l \<and> doc_key d = k) (l # ls)
      = find (\<lambda>l. \<exists>d \<in> set docs. doc_locale d = l \<and> doc_key d = k) ls"
    by (simp only: find.simps if_False)
  moreover from False have "find (\<lambda>d. doc_locale d = l \<and> doc_key d = k) docs = None"
    unfolding find_None_iff_ex .
  ultimately show ?thesis by (simp only: bestDocument_def option.case)
qed

lemma bestDocument_None:
  "bestDocument docs ls k = None \<longleftrightarrow> \<not> (\<exists>d \<in> set docs. doc_locale d \<in> set ls \<and> doc_key d = k)"
proof (induction ls)
  case Nil
  then show ?case by simp
next
  case (Cons l ls)
  show ?case
  proof (cases "find (\<lambda>d. doc_locale d = l \<and> doc_key d = k) docs")
    case None
    then have "\<not> (\<exists>d \<in> set docs. doc_locale d = l \<and> doc_key d = k)" unfolding find_None_iff_ex .
    moreover from None have "bestDocument docs (l # ls) k = bestDocument docs ls k"
      by (simp only: bestDocument_Cons option.case)
    ultimately show ?thesis using Cons by auto
  next
    case (Some d)
    from find_ex [OF this] Some show ?thesis
      by (auto simp: bestDocument_Cons)
  qed
qed

lemma select_all:
  "foldl (selectLocale docs) s ls k =
     (case s k of Some d \<Rightarrow> Some d | None \<Rightarrow> bestDocument docs ls k)"
proof (induction ls arbitrary: s)
  case Nil
  then show ?case by (simp split: option.split)
next
  case (Cons l ls)
  define s' where "s' = selectLocale docs s l"
  have "foldl (selectLocale docs) s (l # ls) k = foldl (selectLocale docs) s' ls k"
    by (simp only: foldl_Cons s'_def)
  also have "\<dots> = (case s' k of Some d \<Rightarrow> Some d | None \<Rightarrow> bestDocument docs ls k)" by (rule Cons.IH)
  also have "\<dots> = (case s k of Some d \<Rightarrow> Some d | None \<Rightarrow> bestDocument docs (l # ls) k)"
    unfolding s'_def selectLocale_get bestDocument_Cons by (simp split: option.split)
  finally show ?case .
qed

lemma bestDocument_mem:
  "bestDocument docs ls k = Some d \<Longrightarrow> d \<in> set docs \<and> doc_key d = k \<and> doc_locale d \<in> set ls"
  by (auto simp: bestDocument_def find_Some_iff split: option.splits)

lemma DocumentsForLocale_best:
  "DocumentsForLocale r cands =
     filter (\<lambda>d. case bestDocument (rg_documents r) (cands @ [[]]) (doc_key d) of
        None \<Rightarrow> False | Some s \<Rightarrow> doc_locale s = doc_locale d) (rg_documents r)"
proof -
  let ?docs = "rg_documents r"
  define sel where "sel = foldl (selectLocale ?docs) Map.empty (cands @ [[]])"
  have sel: "sel k = bestDocument ?docs (cands @ [[]]) k" for k
    unfolding sel_def select_all by simp
  have "selectLocale ?docs sel [] k = bestDocument ?docs (cands @ [[]]) k" for k
  proof (cases "bestDocument ?docs (cands @ [[]]) k")
    case None
    then have "\<not> (\<exists>d \<in> set ?docs. doc_locale d = [] \<and> doc_key d = k)"
      unfolding bestDocument_None by auto
    then have "find (\<lambda>d. doc_locale d = [] \<and> doc_key d = k) ?docs = None"
      unfolding find_None_iff_ex .
    with None sel [of k] show ?thesis by (simp only: selectLocale_get option.case)
  next
    case (Some d)
    with sel [of k] show ?thesis by (simp only: selectLocale_get option.case)
  qed
  then show ?thesis unfolding DocumentsForLocale_def Let_def sel_def [symmetric] by simp
qed


section \<open>Properties\<close>

lemma docKey_inj: "docKey d = docKey e \<Longrightarrow> registryInv y r \<Longrightarrow> d \<in> set (rg_documents r) \<Longrightarrow>
    e \<in> set (rg_documents r) \<Longrightarrow> d = e"
  unfolding registryInv_def by (metis distinct_map inj_onD)

lemma owner_unique:
  assumes inv: "registryInv y r" and d: "d \<in> set (rg_documents r)" and e: "e \<in> set (rg_documents r)"
    and "doc_locale d = doc_locale e" and a: "a \<in> docAPIs y d" "a \<in> docAPIs y e"
  shows "d = e"
proof -
  have "rg_keysByAPI r (newLocaleAPIKey (doc_locale d) a) = Some (docKey d)"
    using inv d a unfolding registryInv_def by blast
  moreover have "rg_keysByAPI r (newLocaleAPIKey (doc_locale d) a) = Some (docKey e)"
    using inv e a assms(4) unfolding registryInv_def by (metis image_eqI)
  ultimately have "docKey d = docKey e" by simp
  with docKey_inj inv d e show ?thesis by blast
qed

text \<open>C21. A registration that succeeds keeps the indexes of the registry exact: documents are
  found under their (project, language) key and operations under their (language, operation)
  key, and no operation of a language belongs to two documents; and every document it was given
  (a repetition with the same name and content included) stays registered under its key with
  that name and content, whatever is registered, or fails to be registered, later.\<close>

theorem openapiRegister_correct:
  assumes "registryInv yamlPaths r" and "openapiRegister parseTag yamlPaths ds r = Inr r'"
  shows "registryInv yamlPaths r'
    \<and> (\<forall>d \<in> set ds. docEntry (openReg.attempts parseTag yamlPaths later r') (itemKey parseTag d)
          = Some (itemEntry d))
    \<and> (\<forall>d \<in> set (rg_documents r'). \<forall>e \<in> set (rg_documents r').
         doc_locale d = doc_locale e \<longrightarrow> docAPIs yamlPaths d \<inter> docAPIs yamlPaths e \<noteq> {} \<longrightarrow> d = e)"
proof (intro conjI ballI impI)
  show inv: "registryInv yamlPaths r'" using assms by (rule openapiRegister_inv)
  fix d assume "d \<in> set ds"
  then show "docEntry (openReg.attempts parseTag yamlPaths later r') (itemKey parseTag d) = Some (itemEntry d)"
    by (rule openReg.registered_stays [OF assms(2)])
next
  have inv: "registryInv yamlPaths r'" using assms by (rule openapiRegister_inv)
  fix d e assume d: "d \<in> set (rg_documents r')" "e \<in> set (rg_documents r')" "doc_locale d = doc_locale e"
    and "docAPIs yamlPaths d \<inter> docAPIs yamlPaths e \<noteq> {}"
  then obtain a where "a \<in> docAPIs yamlPaths d" "a \<in> docAPIs yamlPaths e" by blast
  with owner_unique [OF inv d] show "d = e" by blast
qed

definition exampleDoc :: "string \<Rightarrow> string \<Rightarrow> document" where
  "exampleDoc k l = \<lparr>doc_key = k, doc_name = ''Core'', doc_locale = l, doc_data = ''x''\<rparr>"

definition exampleYaml :: "string \<Rightarrow> (string, (string \<times> string list) list) result" where
  "exampleYaml s = Inr [(''/v1/users'', [''get'', ''POST'', ''parameters''])]"

lemma exampleRegistered:
  "openapiRegister (\<lambda>t. Some t) exampleYaml [exampleDoc ''core'' [], exampleDoc ''core'' ''zh''] emptyOpenapi
     = Inr \<lparr>rg_documents = [exampleDoc ''core'' [], exampleDoc ''core'' ''zh''],
       rg_byKey = [newDocumentKey ''core'' [] \<mapsto> exampleDoc ''core'' [],
                   newDocumentKey ''core'' ''zh'' \<mapsto> exampleDoc ''core'' ''zh''],
       rg_keysByAPI = [newLocaleAPIKey [] (newAPIKey ''/v1/users'' ''GET'') \<mapsto> newDocumentKey ''core'' [],
         newLocaleAPIKey [] (newAPIKey ''/v1/users'' ''POST'') \<mapsto> newDocumentKey ''core'' [],
         newLocaleAPIKey ''zh'' (newAPIKey ''/v1/users'' ''GET'') \<mapsto> newDocumentKey ''core'' ''zh'',
         newLocaleAPIKey ''zh'' (newAPIKey ''/v1/users'' ''POST'') \<mapsto> newDocumentKey ''core'' ''zh'']\<rparr>"
  (is "?l = _")
proof -
  have n: "localeNormalize (\<lambda>t. Some t) ''zh'' = ''zh''" "localeNormalize (\<lambda>t. Some t) [] = []"
    by code_simp+
  have u: "to_upper ''get'' = ''GET''" "to_upper ''POST'' = ''POST''" "to_upper ''GET'' = ''GET''"
    by code_simp+
  have m: "to_lower ''get'' \<in> set httpMethods" "to_lower ''POST'' \<in> set httpMethods"
    "to_lower ''parameters'' \<notin> set httpMethods" by code_simp+
  have k: "documentKeyOk ''core''" by code_simp
  have apis: "documentAPIKeys exampleYaml ''x'' = Inr [newAPIKey ''/v1/users'' ''GET'', newAPIKey ''/v1/users'' ''POST'']"
    using m by (simp add: documentAPIKeys_def exampleYaml_def newAPIKey_def u)
  show ?thesis
    by (simp add: registerOne_def normalizeDocument_def exampleDoc_def n k validateDocument_def
        emptyOpenapi_def apis newLocaleAPIKey_def newDocumentKey_def newAPIKey_def u NUL_def Let_def)
qed

theorem openapiRegister_correct_witness:
  "\<exists>r'. openapiRegister (\<lambda>t. Some t) exampleYaml [exampleDoc ''core'' [], exampleDoc ''core'' ''zh''] emptyOpenapi = Inr r'
     \<and> registryInv exampleYaml r'"
  using openapiRegister_correct [OF emptyOpenapi_inv exampleRegistered] exampleRegistered by blast

text \<open>Language fallback.  Looking up an operation gives the document that declares it in the
  first language of the candidate list, or else in the default language, and nothing when no such
  document declares it; and the documents listed for a language are one per project that has a
  document in a candidate language or the default one, namely that of its first such language.\<close>

theorem openapi_locale_fallback:
  assumes inv: "registryInv yamlPaths r"
    and nul: "\<forall>l \<in> set cands. NUL \<notin> set l" "\<forall>d \<in> set (rg_documents r). NUL \<notin> set (doc_locale d)"
  shows "DocumentByOperationForLocale r cands p method =
      (case find (\<lambda>l. \<exists>d \<in> set (rg_documents r). doc_locale d = l \<and> newAPIKey p method \<in> docAPIs yamlPaths d)
          (cands @ [[]]) of
        None \<Rightarrow> None
      | Some l \<Rightarrow> Some (THE d. d \<in> set (rg_documents r) \<and> doc_locale d = l
            \<and> newAPIKey p method \<in> docAPIs yamlPaths d))
    \<and> (\<forall>d. d \<in> set (DocumentsForLocale r cands) \<longleftrightarrow>
         d \<in> set (rg_documents r) \<and> (\<exists>s. bestDocument (rg_documents r) (cands @ [[]]) (doc_key d) = Some s
           \<and> doc_locale s = doc_locale d))"
proof
  let ?a = "newAPIKey p method"
  let ?P = "\<lambda>l. \<exists>d \<in> set (rg_documents r). doc_locale d = l \<and> ?a \<in> docAPIs yamlPaths d"
  have owner: "rg_keysByAPI r (newLocaleAPIKey l ?a) = Some k \<longleftrightarrow>
      (\<exists>d \<in> set (rg_documents r). docKey d = k \<and> doc_locale d = l \<and> ?a \<in> docAPIs yamlPaths d)"
    if l: "NUL \<notin> set l" for l k
  proof -
    have im: "newLocaleAPIKey l ?a \<in> newLocaleAPIKey (doc_locale d) ` docAPIs yamlPaths d \<longleftrightarrow>
        doc_locale d = l \<and> ?a \<in> docAPIs yamlPaths d" if "d \<in> set (rg_documents r)" for d
      using newLocaleAPIKey_inj [OF l bspec [OF nul(2) that]] by (auto simp: image_iff)
    have "rg_keysByAPI r (newLocaleAPIKey l ?a) = Some k \<longleftrightarrow> (\<exists>d \<in> set (rg_documents r). docKey d = k
        \<and> newLocaleAPIKey l ?a \<in> newLocaleAPIKey (doc_locale d) ` docAPIs yamlPaths d)"
      using inv by (simp only: registryInv_def)
    with im show ?thesis by auto
  qed
  have find: "findOwner r ?a ls = (case find ?P ls of None \<Rightarrow> None
      | Some l \<Rightarrow> rg_keysByAPI r (newLocaleAPIKey l ?a))" if "\<forall>l \<in> set ls. NUL \<notin> set l" for ls
    using that
  proof (induction ls)
    case Nil
    then show ?case by simp
  next
    case (Cons l ls)
    show ?case
    proof (cases "rg_keysByAPI r (newLocaleAPIKey l ?a)")
      case None
      with owner [of l] Cons.prems have "\<not> ?P l" by auto
      then have "find ?P (l # ls) = find ?P ls" by (simp only: find.simps if_False)
      with None Cons show ?thesis by simp
    next
      case (Some k)
      with owner [of l] Cons.prems have "?P l" by auto
      then have "find ?P (l # ls) = Some l" by (simp only: find.simps if_True)
      with Some show ?thesis by simp
    qed
  qed
  have nulls: "\<forall>l \<in> set (cands @ [[]]). NUL \<notin> set l" using nul(1) by auto
  show "DocumentByOperationForLocale r cands p method =
      (case find ?P (cands @ [[]]) of None \<Rightarrow> None
      | Some l \<Rightarrow> Some (THE d. d \<in> set (rg_documents r) \<and> doc_locale d = l \<and> ?a \<in> docAPIs yamlPaths d))"
  proof (cases "find ?P (cands @ [[]])")
    case None
    with find [OF nulls] show ?thesis by (simp add: DocumentByOperationForLocale_def)
  next
    case (Some l)
    from find_SomeD [OF Some] have l: "l \<in> set (cands @ [[]])" "?P l" by blast+
    then obtain d where d: "d \<in> set (rg_documents r)" "doc_locale d = l" "?a \<in> docAPIs yamlPaths d" by blast
    then have "rg_keysByAPI r (newLocaleAPIKey l ?a) = Some (docKey d)"
      using owner [of l "docKey d"] nulls l(1) by blast
    with Some find [OF nulls] have f: "findOwner r ?a (cands @ [[]]) = Some (docKey d)" by simp
    have "rg_byKey r (docKey d) = Some d" using inv d(1) unfolding registryInv_def by blast
    with f have res: "DocumentByOperationForLocale r cands p method = Some d"
      by (simp add: DocumentByOperationForLocale_def)
    have "(THE d. d \<in> set (rg_documents r) \<and> doc_locale d = l \<and> ?a \<in> docAPIs yamlPaths d) = d"
      using d owner_unique [OF inv] by (intro the_equality) auto
    with res Some show ?thesis by simp
  qed
  show "\<forall>d. d \<in> set (DocumentsForLocale r cands) \<longleftrightarrow>
         d \<in> set (rg_documents r) \<and> (\<exists>s. bestDocument (rg_documents r) (cands @ [[]]) (doc_key d) = Some s
           \<and> doc_locale s = doc_locale d)"
    unfolding DocumentsForLocale_best by (auto split: option.splits)
qed

theorem openapi_locale_fallback_witness:
  "\<exists>r. openapiRegister (\<lambda>t. Some t) exampleYaml [exampleDoc ''core'' [], exampleDoc ''core'' ''zh''] emptyOpenapi = Inr r
     \<and> exampleDoc ''core'' ''zh'' \<in> set (DocumentsForLocale r [''zh-TW'', ''zh''])"
proof -
  let ?r = "\<lparr>rg_documents = [exampleDoc ''core'' [], exampleDoc ''core'' ''zh''],
       rg_byKey = [newDocumentKey ''core'' [] \<mapsto> exampleDoc ''core'' [],
                   newDocumentKey ''core'' ''zh'' \<mapsto> exampleDoc ''core'' ''zh''],
       rg_keysByAPI = [newLocaleAPIKey [] (newAPIKey ''/v1/users'' ''GET'') \<mapsto> newDocumentKey ''core'' [],
         newLocaleAPIKey [] (newAPIKey ''/v1/users'' ''POST'') \<mapsto> newDocumentKey ''core'' [],
         newLocaleAPIKey ''zh'' (newAPIKey ''/v1/users'' ''GET'') \<mapsto> newDocumentKey ''core'' ''zh'',
         newLocaleAPIKey ''zh'' (newAPIKey ''/v1/users'' ''POST'') \<mapsto> newDocumentKey ''core'' ''zh'']\<rparr>"
  have inv: "registryInv exampleYaml ?r" by (rule openapiRegister_inv [OF emptyOpenapi_inv exampleRegistered])
  have n: "\<forall>l \<in> set [''zh-TW'', ''zh'']. NUL \<notin> set l" by (simp add: NUL_def)
  have m: "\<forall>d \<in> set (rg_documents ?r). NUL \<notin> set (doc_locale d)" by (simp add: exampleDoc_def NUL_def)
  have b: "bestDocument (rg_documents ?r) [''zh-TW'', ''zh'', []] ''core'' = Some (exampleDoc ''core'' ''zh'')"
    by (simp add: bestDocument_Cons exampleDoc_def)
  have d: "exampleDoc ''core'' ''zh'' \<in> set (rg_documents ?r)" by simp
  have "exampleDoc ''core'' ''zh'' \<in> set (DocumentsForLocale ?r [''zh-TW'', ''zh''])"
    using openapi_locale_fallback [OF inv n m] d b by (simp add: exampleDoc_def)
  with exampleRegistered show ?thesis by blast
qed

end
