(* ===== verification/OpenApi.thy ===== *)
theory OpenApi
  imports OpenApiRegistry
begin

text \<open>
  Model of \<open>resource/openapi/openapi.go\<close> and \<open>resource/openapi/dto/openapi.go\<close>: the query
  service over the registered documents and the expansion of schemas into field trees.  A Go map
  is the list of its entries in one iteration order, with distinct keys; \<open>parse\<close> stands for the
  YAML decoder of the queried fields.
\<close>

section \<open>Documents\<close>

datatype oaSchema =
  OASchema (os_ref: string) (os_type: string) (os_format: string) (os_description: string)
    (os_enum: "string list") (os_required: "string list") (os_properties: "(string \<times> oaSchema) list")
    (os_items: "oaSchema option")

record oaMedia =
  om_schema :: oaSchema

record oaParameter =
  op_name :: string
  op_in :: string
  op_description :: string
  op_required :: bool
  op_schema :: oaSchema

record oaRequestBody =
  ob_description :: string
  ob_required :: bool
  ob_content :: "(string \<times> oaMedia) list"

record oaResponse =
  or_description :: string
  or_content :: "(string \<times> oaMedia) list"

record oaOperation =
  oo_summary :: string
  oo_description :: string
  oo_operationID :: string
  oo_parameters :: "oaParameter list"
  oo_requestBody :: "oaRequestBody option"
  oo_responses :: "(string \<times> oaResponse) list"

record oaPathItem =
  oi_get :: "oaOperation option"
  oi_post :: "oaOperation option"
  oi_put :: "oaOperation option"
  oi_delete :: "oaOperation option"
  oi_head :: "oaOperation option"
  oi_options :: "oaOperation option"
  oi_patch :: "oaOperation option"
  oi_trace :: "oaOperation option"

record oaDocument =
  od_paths :: "(string \<times> oaPathItem) list"
  od_schemas :: "(string \<times> oaSchema) list"

text \<open>The field tree of the answer (\<open>dto.OpenAPISchema\<close>).\<close>

datatype oaNode =
  OANode (on_name: string) (on_path: string) (on_in: string) (on_type: string) (on_format: string)
    (on_required: bool) (on_description: string) (on_ref: string) (on_enum: "string list")
    (on_children: "oaNode list")

record oaResponseNode =
  rn_status :: string
  rn_description :: string
  rn_body :: "oaNode option"

record oaOperationDocument =
  ad_summary :: string
  ad_description :: string
  ad_parameters :: "oaNode list"
  ad_requestBody :: "oaNode option"
  ad_responses :: "oaResponseNode list"

text \<open>An operation of the answer, ordered by path and then by method as the code sorts it.\<close>

datatype apiOperation = ApiOperation (ao_path: string) (ao_method: string)

instantiation apiOperation :: linorder
begin

definition less_eq_apiOperation :: "apiOperation \<Rightarrow> apiOperation \<Rightarrow> bool" where
  "less_eq_apiOperation a b \<longleftrightarrow>
     (if ao_path a = ao_path b then ao_method a \<le> ao_method b else ao_path a < ao_path b)"

definition less_apiOperation :: "apiOperation \<Rightarrow> apiOperation \<Rightarrow> bool" where
  "less_apiOperation a b \<longleftrightarrow>
     (if ao_path a = ao_path b then ao_method a < ao_method b else ao_path a < ao_path b)"

instance
proof
  fix a b c :: apiOperation
  show "a < b \<longleftrightarrow> a \<le> b \<and> \<not> b \<le> a"
    by (auto simp: less_apiOperation_def less_eq_apiOperation_def)
  show "a \<le> a" by (simp add: less_eq_apiOperation_def)
  show "a \<le> b \<Longrightarrow> b \<le> c \<Longrightarrow> a \<le> c"
    by (auto simp: less_eq_apiOperation_def split: if_splits)
  show "a \<le> b \<Longrightarrow> b \<le> a \<Longrightarrow> a = b"
    by (auto simp: less_eq_apiOperation_def apiOperation.expand split: if_splits)
  show "a \<le> b \<or> b \<le> a"
    by (auto simp: less_eq_apiOperation_def)
qed

end

record oaService =
  sv_key :: string
  sv_name :: string
  sv_operations :: "apiOperation list"

section \<open>Operations\<close>

definition pathOperations :: "oaPathItem \<Rightarrow> (string \<times> oaOperation option) list" where
  "pathOperations item =
     [(''GET'', oi_get item), (''POST'', oi_post item), (''PUT'', oi_put item),
      (''DELETE'', oi_delete item), (''HEAD'', oi_head item), (''OPTIONS'', oi_options item),
      (''PATCH'', oi_patch item), (''TRACE'', oi_trace item)]"

definition oaOperationOf :: "oaDocument option \<Rightarrow> string \<Rightarrow> string \<Rightarrow> oaOperation option" where
  "oaOperationOf d p method =
     (case d of
        None \<Rightarrow> None
      | Some doc \<Rightarrow> (case map_of (od_paths doc) p of
          None \<Rightarrow> None
        | Some item \<Rightarrow> (case find (\<lambda>x. fst x = to_upper method) (pathOperations item) of
            None \<Rightarrow> None
          | Some x \<Rightarrow> snd x)))"

definition itemOperations :: "string \<Rightarrow> oaPathItem \<Rightarrow> apiOperation list" where
  "itemOperations p item =
     map (\<lambda>x. ApiOperation p (fst x)) (filter (\<lambda>x. snd x \<noteq> None) (pathOperations item))"

definition documentOperations :: "oaDocument \<Rightarrow> apiOperation list" where
  "documentOperations d = sort (concat (map (\<lambda>(p, item). itemOperations p item) (od_paths d)))"

section \<open>Schemas\<close>

definition openAPIDocumentMaxDepth :: nat where
  "openAPIDocumentMaxDepth = 8"

definition dereferenceSchema ::
    "(string \<times> oaSchema) list option \<Rightarrow> oaSchema \<Rightarrow> oaSchema \<times> string" where
  "dereferenceSchema schemas s =
     (let refName = trim_prefix (os_ref s) ''#/components/schemas/'' in
      if refName = [] then (s, refName)
      else case schemas of
        None \<Rightarrow> (s, refName)
      | Some m \<Rightarrow> (case map_of m refName of
          None \<Rightarrow> (s, refName)
        | Some r \<Rightarrow>
            (if os_description r = []
             then OASchema (os_ref r) (os_type r) (os_format r) (os_description s) (os_enum r)
                    (os_required r) (os_properties r) (os_items r)
             else r, refName)))"

definition inferSchemaType :: "oaSchema \<Rightarrow> string" where
  "inferSchemaType s =
     (if os_properties s \<noteq> [] \<or> os_ref s \<noteq> [] then ''object''
      else if os_items s \<noteq> None then ''array'' else ''string'')"

definition fieldPath :: "string \<Rightarrow> string \<Rightarrow> string" where
  "fieldPath path field = (if path \<noteq> [] then path @ ''.'' @ field else field)"

text \<open>The children of \<open>Items\<close> are overwritten by those of the properties.\<close>

function buildSchema ::
    "(string \<times> oaSchema) list option \<Rightarrow> string \<Rightarrow> string \<Rightarrow> string \<Rightarrow> bool \<Rightarrow> oaSchema \<Rightarrow> nat \<Rightarrow> oaNode"
where
  "buildSchema schemas name path inn required schema depth =
     (let s = fst (dereferenceSchema schemas schema);
          refName = snd (dereferenceSchema schemas schema)
      in OANode name path inn (if os_type s = [] then inferSchemaType s else os_type s) (os_format s)
           required (os_description s) refName (os_enum s)
           (if openAPIDocumentMaxDepth \<le> depth then []
            else if os_properties s \<noteq> [] then
              map (\<lambda>f. buildSchema schemas f (fieldPath path f) inn (f \<in> set (os_required s))
                     (the (map_of (os_properties s) f)) (Suc depth))
                (sort (map fst (os_properties s)))
            else (case os_items s of
                None \<Rightarrow> []
              | Some i \<Rightarrow> [buildSchema schemas (name @ ''[]'') (path @ ''[]'') inn False i (Suc depth)])))"
  by pat_completeness auto
termination
  by (relation "measure (\<lambda>(schemas, name, path, inn, required, schema, depth).
      openAPIDocumentMaxDepth - depth)") auto

declare buildSchema.simps [simp del]

definition withDescription :: "string \<Rightarrow> oaNode \<Rightarrow> oaNode" where
  "withDescription desc n =
     (if desc \<noteq> [] then OANode (on_name n) (on_path n) (on_in n) (on_type n) (on_format n)
        (on_required n) desc (on_ref n) (on_enum n) (on_children n) else n)"

definition buildParameters :: "(string \<times> oaSchema) list option \<Rightarrow> oaParameter list \<Rightarrow> oaNode list" where
  "buildParameters schemas ps =
     map (\<lambda>p. withDescription (op_description p)
       (buildSchema schemas (op_name p) (op_name p) (op_in p) (op_required p) (op_schema p) 0)) ps"

text \<open>The JSON media type, or any one of the others (here the first of the iteration).\<close>

definition selectContentSchema :: "(string \<times> oaMedia) list \<Rightarrow> oaSchema option" where
  "selectContentSchema content =
     (case content of
        [] \<Rightarrow> None
      | c # cs \<Rightarrow> (case map_of content ''application/json'' of
          Some m \<Rightarrow> Some (om_schema m)
        | None \<Rightarrow> Some (om_schema (snd c))))"

definition buildRequestBody ::
    "(string \<times> oaSchema) list option \<Rightarrow> oaRequestBody option \<Rightarrow> oaNode option" where
  "buildRequestBody schemas body =
     (case body of
        None \<Rightarrow> None
      | Some b \<Rightarrow> map_option (\<lambda>s. withDescription (ob_description b)
          (buildSchema schemas ''body'' ''body'' ''body'' (ob_required b) s 0))
          (selectContentSchema (ob_content b)))"

definition buildResponses ::
    "(string \<times> oaSchema) list option \<Rightarrow> (string \<times> oaResponse) list \<Rightarrow> oaResponseNode list" where
  "buildResponses schemas responses =
     map (\<lambda>status. let r = the (map_of responses status) in
       \<lparr>rn_status = status, rn_description = or_description r,
        rn_body = map_option (\<lambda>s. buildSchema schemas ''body'' ''body'' ''body'' False s 0)
          (selectContentSchema (or_content r))\<rparr>) (sort (map fst responses))"

section \<open>The query service\<close>

datatype openapiErr = ParseFailed string string | NoDocuments | NoDocument string string | NoOperation string string

fun oaServices ::
    "(string \<Rightarrow> (string, oaDocument) result) \<Rightarrow> string \<Rightarrow> document list
       \<Rightarrow> (openapiErr, oaService list) result" where
  "oaServices parse serviceCode [] = Inr []"
| "oaServices parse serviceCode (d # ds) =
     (if serviceCode \<noteq> [] \<and> doc_key d \<noteq> serviceCode then oaServices parse serviceCode ds
      else case parse (doc_data d) of
        Inl e \<Rightarrow> Inl (ParseFailed (doc_key d) e)
      | Inr api \<Rightarrow> bindR (oaServices parse serviceCode ds) (\<lambda>rest.
          Inr (\<lparr>sv_key = doc_key d, sv_name = doc_name d, sv_operations = documentOperations api\<rparr> # rest)))"

definition openapiServices ::
    "(string \<Rightarrow> (string, oaDocument) result) \<Rightarrow> openapiRegistry \<Rightarrow> string list \<Rightarrow> string
       \<Rightarrow> (openapiErr, oaService list) result" where
  "openapiServices parse r cands serviceCode = oaServices parse serviceCode (DocumentsForLocale r cands)"

definition openapiService ::
    "openapiRegistry \<Rightarrow> string list \<Rightarrow> string \<Rightarrow> string \<Rightarrow> (string \<times> string) option" where
  "openapiService r cands p method =
     map_option (\<lambda>d. (doc_key d, doc_name d)) (DocumentByOperationForLocale r cands p method)"

definition openapiGetOperation ::
    "(string \<Rightarrow> (string, oaDocument) result) \<Rightarrow> openapiRegistry \<Rightarrow> string list \<Rightarrow> string \<Rightarrow> string
       \<Rightarrow> (openapiErr, oaOperationDocument) result" where
  "openapiGetOperation parse r cands p method =
     (case parsedDocumentByOperationForLocale parse r cands p method of
        Some (Inl e) \<Rightarrow> Inl (ParseFailed [] e)
      | None \<Rightarrow>
          if \<not> hasDocumentsForLocale r cands then Inl NoDocuments else Inl (NoDocument method p)
      | Some (Inr api) \<Rightarrow> (case oaOperationOf (Some api) p method of
            None \<Rightarrow> Inl (NoOperation method p)
          | Some op \<Rightarrow>
              let schemas = Some (od_schemas api) in
              Inr \<lparr>ad_summary = oo_summary op, ad_description = oo_description op,
                   ad_parameters = buildParameters schemas (oo_parameters op),
                   ad_requestBody = buildRequestBody schemas (oo_requestBody op),
                   ad_responses = buildResponses schemas (oo_responses op)\<rparr>))"

section \<open>Lemmas\<close>

text \<open>A node of at most \<open>n\<close> levels.\<close>

fun levels :: "nat \<Rightarrow> oaNode \<Rightarrow> bool" where
  "levels 0 n = False"
| "levels (Suc k) n = list_all (levels k) (on_children n)"

text \<open>
  What the tree of a schema shows, for \<open>k\<close> further levels.  The schema is the component its reference
  names, if there is one, else itself; the node has its type, format, enumeration and description.
  Below the last level nothing is shown.  Above it, a schema with properties has one child for each of
  them, sorted by name, and each of these shows the schema of its property; otherwise a schema with
  items has one child that shows the element; otherwise there is none.
\<close>

definition headOf :: "oaSchema \<Rightarrow> string \<Rightarrow> oaNode \<Rightarrow> bool" where
  "headOf s refName n \<longleftrightarrow> on_type n = (if os_type s \<noteq> [] then os_type s else inferSchemaType s)
     \<and> on_format n = os_format s \<and> on_description n = os_description s \<and> on_enum n = os_enum s \<and> on_ref n = refName"

fun shows_schema :: "(string \<times> oaSchema) list option \<Rightarrow> nat \<Rightarrow> oaSchema \<Rightarrow> oaNode \<Rightarrow> bool" where
  "shows_schema schemas 0 schema n = (case dereferenceSchema schemas schema of (s, refName) \<Rightarrow>
     headOf s refName n \<and> on_children n = [])"
| "shows_schema schemas (Suc k) schema n = (case dereferenceSchema schemas schema of (s, refName) \<Rightarrow>
     headOf s refName n
     \<and> (if os_properties s \<noteq> [] then
          mset (map on_name (on_children n)) = mset (map fst (os_properties s)) \<and> sorted (map on_name (on_children n))
          \<and> (\<forall>c\<in>set (on_children n). on_in c = on_in n \<and> on_path c = fieldPath (on_path n) (on_name c)
               \<and> (on_required c \<longleftrightarrow> on_name c \<in> set (os_required s))
               \<and> (\<exists>ps. map_of (os_properties s) (on_name c) = Some ps \<and> shows_schema schemas k ps c))
        else case os_items s of
          None \<Rightarrow> on_children n = []
        | Some i \<Rightarrow> (\<exists>c. on_children n = [c] \<and> on_name c = on_name n @ ''[]'' \<and> on_path c = on_path n @ ''[]''
            \<and> on_in c = on_in n \<and> \<not> on_required c \<and> shows_schema schemas k i c)))"

lemma buildSchema_name [simp]: "on_name (buildSchema ss name path inn req s d) = name"
  by (subst buildSchema.simps) (simp add: Let_def)

lemma buildSchema_path [simp]: "on_path (buildSchema ss name path inn req s d) = path"
  by (subst buildSchema.simps) (simp add: Let_def)

lemma buildSchema_levels:
  "d \<le> openAPIDocumentMaxDepth \<Longrightarrow>
     levels (Suc (openAPIDocumentMaxDepth - d)) (buildSchema ss name path inn req s d)"
proof (induction "openAPIDocumentMaxDepth - d" arbitrary: d name path req s)
  case 0
  then show ?case by (subst buildSchema.simps) (simp add: Let_def)
next
  case (Suc n)
  have IH: "levels (Suc n) (buildSchema ss name' path' inn req' s' (Suc d))" for name' path' req' s'
  proof -
    have "n = openAPIDocumentMaxDepth - Suc d" "Suc d \<le> openAPIDocumentMaxDepth" using Suc.hyps(2) by simp_all
    then show ?thesis using Suc.hyps(1) [of "Suc d" name' path' req' s'] by simp
  qed
  have eq: "openAPIDocumentMaxDepth - d = Suc n" using Suc.hyps(2) by simp
  show ?case
    unfolding eq
    by (subst buildSchema.simps, cases "os_items (fst (dereferenceSchema ss s))")
      (use IH in \<open>simp_all add: Let_def list_all_iff del: levels.simps add: levels.simps(2) [of "Suc n"]\<close>)
qed

lemma buildSchema_in [simp]: "on_in (buildSchema ss name path inn req s d) = inn"
  by (subst buildSchema.simps) (simp add: Let_def)

lemma buildSchema_required [simp]: "on_required (buildSchema ss name path inn req s d) = req"
  by (subst buildSchema.simps) (simp add: Let_def)

lemma buildSchema_head:
  "headOf (fst (dereferenceSchema ss s)) (snd (dereferenceSchema ss s)) (buildSchema ss name path inn req s d)"
  by (subst buildSchema.simps) (simp add: Let_def headOf_def)

lemma buildSchema_children:
  "on_children (buildSchema ss name path inn req schema d) = (let s = fst (dereferenceSchema ss schema) in
     if openAPIDocumentMaxDepth \<le> d then []
     else if os_properties s \<noteq> [] then
       map (\<lambda>f. buildSchema ss f (fieldPath path f) inn (f \<in> set (os_required s)) (the (map_of (os_properties s) f)) (Suc d))
         (sort (map fst (os_properties s)))
     else (case os_items s of None \<Rightarrow> [] | Some i \<Rightarrow> [buildSchema ss (name @ ''[]'') (path @ ''[]'') inn False i (Suc d)]))"
  by (subst buildSchema.simps) (simp add: Let_def)

lemma buildSchema_shows:
  "d \<le> openAPIDocumentMaxDepth \<Longrightarrow>
     shows_schema ss (openAPIDocumentMaxDepth - d) schema (buildSchema ss name path inn req schema d)"
proof (induction "openAPIDocumentMaxDepth - d" arbitrary: d name path req schema)
  case 0
  then show ?case using buildSchema_head [of ss schema name path inn req d]
    by (cases "dereferenceSchema ss schema") (simp add: buildSchema_children Let_def)
next
  case (Suc k)
  have below: "\<not> openAPIDocumentMaxDepth \<le> d" and eq: "openAPIDocumentMaxDepth - d = Suc k" using Suc.hyps(2) by simp_all
  have IH: "shows_schema ss k schema' (buildSchema ss name' path' inn req' schema' (Suc d))" for name' path' req' schema'
  proof -
    have k: "k = openAPIDocumentMaxDepth - Suc d" "Suc d \<le> openAPIDocumentMaxDepth" using Suc.hyps(2) by simp_all
    then show ?thesis using Suc.hyps(1) [OF k, of schema' name' path' req'] by simp
  qed
  obtain s refName where s: "dereferenceSchema ss schema = (s, refName)" by fastforce
  have head: "headOf s refName (buildSchema ss name path inn req schema d)"
    using buildSchema_head [of ss schema name path inn req d] s by simp
  have named: "f \<in> set (map fst (os_properties s)) \<Longrightarrow> map_of (os_properties s) f = Some (the (map_of (os_properties s) f))" for f
    by (metis map_of_eq_None_iff option.collapse set_map)
  show ?case
  proof (cases "os_properties s = []")
    case True
    then show ?thesis unfolding eq using head below IH
      by (cases "os_items s") (simp_all add: s buildSchema_children Let_def)
  next
    case False
    have names: "map on_name (on_children (buildSchema ss name path inn req schema d)) = sort (map fst (os_properties s))"
      using False below by (simp add: s buildSchema_children Let_def comp_def)
    have "on_in c = inn \<and> on_path c = fieldPath path (on_name c) \<and> (on_required c \<longleftrightarrow> on_name c \<in> set (os_required s))
        \<and> (\<exists>ps. map_of (os_properties s) (on_name c) = Some ps \<and> shows_schema ss k ps c)"
      if c: "c \<in> set (on_children (buildSchema ss name path inn req schema d))" for c
    proof -
      obtain f where f: "f \<in> set (map fst (os_properties s))" and c':
        "c = buildSchema ss f (fieldPath path f) inn (f \<in> set (os_required s)) (the (map_of (os_properties s) f)) (Suc d)"
        using c False below by (auto simp: s buildSchema_children Let_def)
      have "\<exists>ps. map_of (os_properties s) f = Some ps \<and> shows_schema ss k ps c"
        unfolding c' by (intro exI conjI) (rule named [OF f], rule IH)
      then show ?thesis by (simp add: c')
    qed
    then show ?thesis unfolding eq using head False names by (simp add: s)
  qed
qed

lemma operations_mem:
  "ApiOperation p m \<in> set (documentOperations d) \<longleftrightarrow>
     (\<exists>item x. (p, item) \<in> set (od_paths d) \<and> x \<in> set (pathOperations item) \<and> fst x = m \<and> snd x \<noteq> None)"
proof -
  have item: "ApiOperation p m \<in> set (itemOperations q item) \<longleftrightarrow>
      p = q \<and> (\<exists>x. x \<in> set (pathOperations item) \<and> fst x = m \<and> snd x \<noteq> None)" for q item
    unfolding itemOperations_def set_map set_filter image_iff by auto
  have "set (documentOperations d) = (\<Union>y \<in> set (od_paths d). set (itemOperations (fst y) (snd y)))"
    by (simp add: documentOperations_def split_beta)
  then have "ApiOperation p m \<in> set (documentOperations d) \<longleftrightarrow>
      (\<exists>y \<in> set (od_paths d). ApiOperation p m \<in> set (itemOperations (fst y) (snd y)))" by simp
  also have "\<dots> \<longleftrightarrow> (\<exists>q item. (q, item) \<in> set (od_paths d) \<and> ApiOperation p m \<in> set (itemOperations q item))"
    by (metis prod.collapse fst_conv snd_conv)
  finally show ?thesis unfolding item by blast
qed

lemma pathOperations_distinct: "distinct (map fst (pathOperations item))"
  by (simp add: pathOperations_def)

lemma find_fst:
  "distinct (map fst xs) \<Longrightarrow> (k, v) \<in> set xs \<Longrightarrow> find (\<lambda>x. fst x = k) xs = Some (k, v)"
  by (induction xs) (auto simp: image_iff)

section \<open>Properties\<close>

text \<open>The operations reported for a document are sorted by path and method, and they are
  exactly the operations that can be looked up: (path, method) is listed iff the lookup with that
  upper-case method finds a definition.\<close>

theorem openapi_operations_lookup:
  assumes "distinct (map fst (od_paths d))"
  shows "sorted (documentOperations d)
    \<and> (\<forall>p m. to_upper m = m \<longrightarrow>
        (ApiOperation p m \<in> set (documentOperations d) \<longleftrightarrow> oaOperationOf (Some d) p m \<noteq> None))"
proof (intro conjI allI impI)
  show "sorted (documentOperations d)" by (simp add: documentOperations_def)
  fix p m :: string assume up: "to_upper m = m"
  show "ApiOperation p m \<in> set (documentOperations d) \<longleftrightarrow> oaOperationOf (Some d) p m \<noteq> None"
  proof
    assume "ApiOperation p m \<in> set (documentOperations d)"
    then obtain item x where i: "(p, item) \<in> set (od_paths d)" and x: "x \<in> set (pathOperations item)"
      "fst x = m" "snd x \<noteq> None" unfolding operations_mem by blast
    have "map_of (od_paths d) p = Some item" using assms i by simp
    moreover have "(m, snd x) \<in> set (pathOperations item)" using x by (metis prod.collapse)
    from find_fst [OF pathOperations_distinct this]
    have "find (\<lambda>x. fst x = m) (pathOperations item) = Some (m, snd x)" .
    ultimately show "oaOperationOf (Some d) p m \<noteq> None" using x(3) by (simp add: oaOperationOf_def up)
  next
    assume "oaOperationOf (Some d) p m \<noteq> None"
    then obtain item x where i: "map_of (od_paths d) p = Some item"
      and f: "find (\<lambda>x. fst x = m) (pathOperations item) = Some x" and "snd x \<noteq> None"
      by (auto simp: oaOperationOf_def up split: option.splits)
    from find_SomeD [OF f] have "x \<in> set (pathOperations item)" "fst x = m" by simp_all
    with map_of_SomeD [OF i] \<open>snd x \<noteq> None\<close> show "ApiOperation p m \<in> set (documentOperations d)"
      unfolding operations_mem by blast
  qed
qed

definition exampleOperation :: oaOperation where
  "exampleOperation = \<lparr>oo_summary = ''List'', oo_description = [], oo_operationID = ''list'',
     oo_parameters = [], oo_requestBody = None, oo_responses = []\<rparr>"

definition exampleDocument :: oaDocument where
  "exampleDocument = \<lparr>od_paths = [(''/v1'', \<lparr>oi_get = Some exampleOperation, oi_post = None, oi_put = None,
     oi_delete = None, oi_head = None, oi_options = None, oi_patch = None, oi_trace = None\<rparr>)],
     od_schemas = []\<rparr>"

theorem openapi_operations_lookup_witness:
  "ApiOperation ''/v1'' ''GET'' \<in> set (documentOperations exampleDocument)"
proof -
  have d: "distinct (map fst (od_paths exampleDocument))" by (simp add: exampleDocument_def)
  have u: "to_upper ''GET'' = ''GET''" by code_simp
  have "oaOperationOf (Some exampleDocument) ''/v1'' ''GET'' \<noteq> None"
    by (simp add: oaOperationOf_def exampleDocument_def u pathOperations_def)
  with openapi_operations_lookup [OF d] u show ?thesis by blast
qed

text \<open>C40. Expanding a schema always ends, references that lead back to themselves included, with
  a tree of at most nine levels, and the tree shows the schema down to the last of them: every node has
  the type, format, enumeration and description of the component it refers to (or of its own schema);
  its children are one for each property, sorted by name, with the path below the parent's, required
  exactly when the schema lists the name, and each showing the schema of its property; or the one
  element of an array, which is never required; or none if the schema has neither.\<close>

theorem buildSchema_bounded:
  "levels (Suc openAPIDocumentMaxDepth) (buildSchema schemas name path inn required schema 0)
   \<and> shows_schema schemas openAPIDocumentMaxDepth schema (buildSchema schemas name path inn required schema 0)
   \<and> on_name (buildSchema schemas name path inn required schema 0) = name
   \<and> on_path (buildSchema schemas name path inn required schema 0) = path
   \<and> on_in (buildSchema schemas name path inn required schema 0) = inn
   \<and> (on_required (buildSchema schemas name path inn required schema 0) \<longleftrightarrow> required)"
  using buildSchema_levels [of 0 schemas name path inn required schema]
    buildSchema_shows [of 0 schemas schema name path inn required]
  by simp

end
