(* ===== verification/BaseApi.thy ===== *)
theory BaseApi
  imports Prelude "HOL-Library.Multiset"
begin

text \<open>
  Model of \<open>resource/biz/base_api.go\<close> and \<open>resource/biz/dto/base_api.go\<close>: the interface records
  derived from an OpenAPI document.  A Go map of the decoded document is an association list in the
  order the loop happens to visit it.  YAML decoding, the tool name of kratos-kit and JSON encoding
  are parameters.
\<close>

section \<open>The decoded document\<close>

datatype apiSchema =
  ApiSchema (as_ref: string) (as_type: string) (as_format: string) (as_description: string)
    (as_enum: "string list") (as_required: "string list")
    (as_properties: "(string \<times> apiSchema) list") (as_items: "apiSchema option")

record apiParameter =
  apName :: string
  apIn :: string
  apDescription :: string
  apRequired :: bool
  apSchema :: apiSchema

record apiRequestBody =
  rbDescription :: string
  rbRequired :: bool
  rbContent :: "(string \<times> apiSchema) list"

record apiResponse =
  rsDescription :: string
  rsContent :: "(string \<times> apiSchema) list"

record apiOp =
  opTags :: "string list"
  opSummary :: string
  opDescription :: string
  opOperationID :: string
  opParameters :: "apiParameter list"
  opRequestBody :: "apiRequestBody option"
  opResponses :: "(string \<times> apiResponse) list"

record apiPathItem =
  piGet :: "apiOp option"
  piPost :: "apiOp option"
  piPut :: "apiOp option"
  piDelete :: "apiOp option"

record tagsItem =
  tagName :: string
  tagDescription :: string

record apiDoc =
  docPaths :: "(string \<times> apiPathItem) list"
  docTags :: "tagsItem list"

record apiRecord =
  ToolName :: string
  ToolPrompts :: string
  ServiceName :: string
  ServiceDesc :: string
  Desc :: string
  Operation :: string
  Method :: string
  Path :: string
  McpStatus :: int
  AgentStatus :: int

record apiTranslation =
  trOperation :: string
  trLocale :: string
  trToolPrompts :: string
  trServiceDesc :: string
  trDesc :: string

definition dtoOperation :: "apiDoc option \<Rightarrow> string \<Rightarrow> string \<Rightarrow> apiOp option" where
  "dtoOperation api path method = (case api of None \<Rightarrow> None
    | Some doc \<Rightarrow> (case map_of (docPaths doc) path of None \<Rightarrow> None
      | Some item \<Rightarrow>
          if method = ''GET'' then piGet item
          else if method = ''POST'' then piPost item
          else if method = ''PUT'' then piPut item
          else if method = ''DELETE'' then piDelete item
          else None))"

section \<open>Names\<close>

definition apiNUL :: char where "apiNUL = CHR 0x00"

definition apiPathOperations :: "apiPathItem \<Rightarrow> (string \<times> apiOp option) list" where
  "apiPathOperations item =
     [(''GET'', piGet item), (''POST'', piPost item), (''PUT'', piPut item), (''DELETE'', piDelete item)]"

definition parseOperationID :: "string \<Rightarrow> string \<times> string" where
  "parseOperationID operationID = (case split_n2 (CHR ''_'') operationID of
      [a, b] \<Rightarrow> if a = [] \<or> b = [] then ([], []) else (a, b)
    | _ \<Rightarrow> ([], []))"

definition openAPITerminal :: "string \<Rightarrow> string" where
  "openAPITerminal path = (case split_char (CHR ''/'') (trim_char (CHR ''/'') path) of
      a # b # c # _ \<Rightarrow> if a = ''api'' \<and> b = ''v1'' then c else []
    | _ \<Rightarrow> [])"

definition servicePackageKey :: "string \<Rightarrow> string \<Rightarrow> string" where
  "servicePackageKey path serviceTag = (let terminal = openAPITerminal path in
     if terminal = [] \<or> serviceTag = [] then [] else terminal @ [apiNUL] @ serviceTag)"

definition isProtoPackageVersion :: "string \<Rightarrow> bool" where
  "isProtoPackageVersion v = (case v of a # b # _ \<Rightarrow> a = CHR ''v'' \<and> CHR ''0'' \<le> b \<and> b \<le> CHR ''9'' | _ \<Rightarrow> False)"

definition protoPackageTerminal :: "string \<Rightarrow> string" where
  "protoPackageTerminal packageName = (let parts = split_char (CHR ''.'') packageName in
     if length parts < 2 \<or> \<not> isProtoPackageVersion (last parts) then []
     else parts ! (length parts - 2))"

definition versionIndex :: "string list \<Rightarrow> nat option" where
  "versionIndex parts =
     List.find (\<lambda>i. isProtoPackageVersion (parts ! i) \<and> 0 < i \<and> i < length parts - 1) [0..<length parts]"

definition schemaRefPrefix :: string where "schemaRefPrefix = ''#/components/schemas/''"

definition protoPackageFromSchemaRef :: "string \<Rightarrow> string" where
  "protoPackageFromSchemaRef ref = (let schemaName = trim_prefix ref schemaRefPrefix in
     if schemaName = ref then []
     else let parts = split_char (CHR ''.'') schemaName in
       (case versionIndex parts of None \<Rightarrow> [] | Some i \<Rightarrow> join_str ''.'' (take (i + 1) parts)))"

section \<open>Package candidates\<close>

text \<open>The packages a schema refers to, with its properties and its element.\<close>

fun collectSchemaProtoPackages :: "string \<Rightarrow> apiSchema \<Rightarrow> string list" where
  "collectSchemaProtoPackages path (ApiSchema ref ty fmt desc en req props items) =
     (let packageName = protoPackageFromSchemaRef ref in
      if packageName \<noteq> [] \<and> protoPackageTerminal packageName = openAPITerminal path
      then [packageName] else [])
     @ concat (map (\<lambda>(name, s). collectSchemaProtoPackages path s) props)
     @ (case items of None \<Rightarrow> [] | Some s \<Rightarrow> collectSchemaProtoPackages path s)"

definition operationProtoPackages :: "string \<Rightarrow> apiOp option \<Rightarrow> string list" where
  "operationProtoPackages path operation = (case operation of None \<Rightarrow> []
    | Some oper \<Rightarrow> remdups
        (concat (map (\<lambda>p. collectSchemaProtoPackages path (apSchema p)) (opParameters oper))
         @ (case opRequestBody oper of None \<Rightarrow> []
            | Some body \<Rightarrow> concat (map (\<lambda>(mt, s). collectSchemaProtoPackages path s) (rbContent body)))
         @ concat (map (\<lambda>(code, r). concat (map (\<lambda>(mt, s). collectSchemaProtoPackages path s) (rsContent r)))
             (opResponses oper))))"

text \<open>The two indexes of the first loop: candidates of a service, packages seen under a terminal.\<close>

record packageIndex =
  candidatesByService :: "string \<Rightarrow> string list option"
  packagesByTerminal :: "string \<Rightarrow> string list option"

definition known :: "(string \<Rightarrow> string list option) \<Rightarrow> string \<Rightarrow> string list" where
  "known m k = (case m k of None \<Rightarrow> [] | Some ps \<Rightarrow> ps)"

definition addCandidates :: "string \<times> string \<times> apiOp option \<Rightarrow> packageIndex \<Rightarrow> packageIndex" where
  "addCandidates x idx = (case x of (path, method, None) \<Rightarrow> idx
    | (path, method, Some oper) \<Rightarrow>
       (let key = servicePackageKey path (fst (parseOperationID (opOperationID oper)));
            packages = operationProtoPackages path (Some oper);
            terminal = openAPITerminal path in
        if key = [] then idx
        else idx\<lparr>candidatesByService := (candidatesByService idx)
                   (key \<mapsto> List.union packages (known (candidatesByService idx) key)),
                 packagesByTerminal := (if packages = [] then packagesByTerminal idx
                   else (packagesByTerminal idx)
                     (terminal \<mapsto> List.union packages (known (packagesByTerminal idx) terminal)))\<rparr>))"

definition documentOps :: "(string \<times> apiPathItem) list \<Rightarrow> (string \<times> string \<times> apiOp option) list" where
  "documentOps paths = concat (map (\<lambda>(path, item).
     map (\<lambda>(method, oper). (path, method, oper)) (apiPathOperations item)) paths)"

definition packageIndexOf :: "(string \<times> apiPathItem) list \<Rightarrow> packageIndex" where
  "packageIndexOf paths = fold addCandidates (documentOps paths)
     \<lparr>candidatesByService = (\<lambda>_. None), packagesByTerminal = (\<lambda>_. None)\<rparr>"

text \<open>The map both closing loops fill: a unique candidate, or the unique package of the terminal.\<close>

definition buildServicePackageMap :: "(string \<times> apiPathItem) list \<Rightarrow> string \<Rightarrow> string option" where
  "buildServicePackageMap paths = (let idx = packageIndexOf paths in (\<lambda>serviceKey.
     case candidatesByService idx serviceKey of None \<Rightarrow> None
     | Some [p] \<Rightarrow> Some p
     | Some [] \<Rightarrow> (case cut_char apiNUL serviceKey of (terminal, _, found) \<Rightarrow>
         if \<not> found then None
         else (case packagesByTerminal idx terminal of Some [p] \<Rightarrow> Some p | _ \<Rightarrow> None))
     | Some _ \<Rightarrow> None))"

section \<open>Descriptions and prompts\<close>

definition terminalByTagDescription :: "string \<Rightarrow> string" where
  "terminalByTagDescription description =
     (if has_prefix description ''Admin'' then ''admin''
      else if has_prefix description ''App'' then ''app''
      else if has_prefix description ''Base'' then ''base'' else [])"

text \<open>A missing package is the empty string, as a Go map read gives.\<close>

definition packageOf :: "(string \<Rightarrow> string option) \<Rightarrow> string \<Rightarrow> string" where
  "packageOf servicePackages key = (case servicePackages key of None \<Rightarrow> [] | Some p \<Rightarrow> p)"

definition addTag :: "(string \<Rightarrow> string option) \<Rightarrow> tagsItem \<Rightarrow> (string \<Rightarrow> string option) \<Rightarrow> (string \<Rightarrow> string option)" where
  "addTag servicePackages item tagsMap =
     (let packageName = packageOf servicePackages (terminalByTagDescription (tagDescription item) @ [apiNUL] @ tagName item)
      in if packageName \<noteq> [] then tagsMap(packageName @ ''.'' @ tagName item \<mapsto> tagDescription item) else tagsMap)"

definition buildTagsMap :: "tagsItem list \<Rightarrow> (string \<Rightarrow> string option) \<Rightarrow> string \<Rightarrow> string option" where
  "buildTagsMap tags servicePackages = fold (addTag servicePackages) tags (\<lambda>_. None)"

definition operationDescription :: "apiOp \<Rightarrow> string" where
  "operationDescription oper = (if opDescription oper \<noteq> [] then opDescription oper else opSummary oper)"

text \<open>The Chinese prefixes of the descriptions.\<close>

definition colon :: string where "colon = utf8 [0xEF, 0xBC, 0x9A]"
definition adminPrompt :: string where
  "adminPrompt = utf8 [0xE7,0xAE,0xA1, 0xE7,0x90,0x86, 0xE5,0x90,0x8E, 0xE5,0x8F,0xB0]"
definition appPrompt :: string where
  "appPrompt = utf8 [0xE5,0x95,0x86, 0xE5,0x9F,0x8E, 0xE7,0xA7,0xBB, 0xE5,0x8A,0xA8, 0xE7,0xAB,0xAF]"
definition basePrompt :: string where
  "basePrompt = utf8 [0xE5,0x85,0xAC, 0xE5,0x85,0xB1, 0xE5,0x9F,0xBA, 0xE7,0xA1,0x80]"
definition toolPrompt :: string where
  "toolPrompt = utf8 [0xE5,0xB7,0xA5, 0xE5,0x85,0xB7, 0xE5,0x90,0x8D]"

definition terminalName :: "string \<Rightarrow> string option" where
  "terminalName t = (if t = ''admin'' then Some adminPrompt else if t = ''app'' then Some appPrompt
     else if t = ''base'' then Some basePrompt else None)"

definition terminalToolPrompt :: "string \<Rightarrow> string" where
  "terminalToolPrompt serviceName = (let parts = split_char (CHR ''.'') serviceName in
     case List.find (\<lambda>i. isProtoPackageVersion (parts ! i) \<and> i \<noteq> 0 \<and> i \<noteq> length parts - 1
                        \<and> terminalName (parts ! (i - 1)) \<noteq> None) [0..<length parts] of
       None \<Rightarrow> [] | Some i \<Rightarrow> the (terminalName (parts ! (i - 1))))"

definition uniqueToolPrompts :: "string list \<Rightarrow> string list" where
  "uniqueToolPrompts prompts = first_by (\<lambda>p. p) (filter (\<lambda>p. p \<noteq> []) prompts)"

definition defaultToolPrompts ::
  "string \<Rightarrow> string \<Rightarrow> string \<Rightarrow> string \<Rightarrow> string \<Rightarrow> string \<Rightarrow> string \<Rightarrow> string list" where
  "defaultToolPrompts toolName serviceName serviceDesc desc operation method path =
     (let terminal = terminalToolPrompt serviceName in
      uniqueToolPrompts
       ((if serviceDesc \<noteq> [] \<and> desc \<noteq> [] then [serviceDesc @ colon @ desc] else [])
        @ (if desc \<noteq> [] then [desc] else [])
        @ (if serviceDesc \<noteq> [] \<and> desc = [] then [serviceDesc] else [])
        @ (if terminal \<noteq> [] \<and> desc \<noteq> [] then [terminal @ colon @ desc] else [])
        @ (if toolName \<noteq> [] then [toolPrompt @ colon @ toolName] else [])
        @ (if operation \<noteq> [] then [''RPC'' @ colon @ operation] else [])
        @ (if method \<noteq> [] \<or> path \<noteq> [] then [trim_space (''HTTP'' @ colon @ method @ '' '' @ path)] else [])))"

definition encodeToolPrompts :: "(string list \<Rightarrow> string option) \<Rightarrow> string list \<Rightarrow> string" where
  "encodeToolPrompts marshal prompts = (case marshal prompts of None \<Rightarrow> ''[]'' | Some raw \<Rightarrow> raw)"

section \<open>Records\<close>

definition parseOperation ::
  "(string \<Rightarrow> string) \<Rightarrow> (string list \<Rightarrow> string option) \<Rightarrow> (string \<Rightarrow> string option) \<Rightarrow> (string \<Rightarrow> string option)
    \<Rightarrow> string \<times> string \<times> apiOp option \<Rightarrow> apiRecord option" where
  "parseOperation toolNameOf marshal tagsMap servicePackages x = (case x of (path, method, None) \<Rightarrow> None
    | (path, method, Some oper) \<Rightarrow>
       (case parseOperationID (opOperationID oper) of (serviceTag, methodName) \<Rightarrow>
        if serviceTag = [] \<or> methodName = [] then None
        else let packageName = packageOf servicePackages (servicePackageKey path serviceTag) in
        if packageName = [] then None
        else let serviceName = packageName @ ''.'' @ serviceTag;
                 operation = ''/'' @ serviceName @ ''/'' @ methodName;
                 own = (case tagsMap serviceName of None \<Rightarrow> [] | Some d \<Rightarrow> d);
                 serviceDesc = (case opTags oper of [] \<Rightarrow> own
                   | t # _ \<Rightarrow> (case tagsMap (packageName @ ''.'' @ t) of None \<Rightarrow> own | Some d \<Rightarrow> d));
                 toolName = toolNameOf operation;
                 desc = operationDescription oper in
        Some \<lparr>ToolName = toolName,
              ToolPrompts = encodeToolPrompts marshal
                (defaultToolPrompts toolName serviceName serviceDesc desc operation method path),
              ServiceName = serviceName, ServiceDesc = serviceDesc, Desc = desc, Operation = operation,
              Method = method, Path = path, McpStatus = 1, AgentStatus = 1\<rparr>))"

text \<open>\<open>sort.Slice\<close> is not stable and the paths are visited in any order: the order of records with one and
  the same operation is not determined by the code, here it is the order of the list.\<close>

definition OpenAPIDataToBaseAPI ::
  "(string \<Rightarrow> (string, apiDoc) result) \<Rightarrow> (string \<Rightarrow> string) \<Rightarrow> (string list \<Rightarrow> string option)
    \<Rightarrow> string \<Rightarrow> (string, apiRecord list) result" where
  "OpenAPIDataToBaseAPI parseYaml toolNameOf marshal openAPIData = bindR (parseYaml openAPIData) (\<lambda>api.
     let servicePackages = buildServicePackageMap (docPaths api);
         tagsMap = buildTagsMap (docTags api) servicePackages in
     Inr (sort_key Operation
       (List.map_filter (parseOperation toolNameOf marshal tagsMap servicePackages) (documentOps (docPaths api)))))"

definition OpenAPIDataToBaseAPII18N ::
  "(string \<Rightarrow> (string, apiDoc) result) \<Rightarrow> (string \<Rightarrow> string) \<Rightarrow> (string list \<Rightarrow> string option)
    \<Rightarrow> string \<Rightarrow> string \<Rightarrow> (string, apiTranslation list) result" where
  "OpenAPIDataToBaseAPII18N parseYaml toolNameOf marshal openAPIData locale =
     (if locale = [] then Inr []
      else bindR (OpenAPIDataToBaseAPI parseYaml toolNameOf marshal openAPIData) (\<lambda>items.
        Inr (map (\<lambda>i. \<lparr>trOperation = Operation i, trLocale = locale, trToolPrompts = ToolPrompts i,
                       trServiceDesc = ServiceDesc i, trDesc = Desc i\<rparr>)
               (filter (\<lambda>i. Operation i \<noteq> []) items))))"

section \<open>What the package index holds\<close>

definition keyOf :: "string \<times> string \<times> apiOp option \<Rightarrow> string" where
  "keyOf x = (case x of (path, _, None) \<Rightarrow> []
    | (path, _, Some oper) \<Rightarrow> servicePackageKey path (fst (parseOperationID (opOperationID oper))))"

definition refsOf :: "string \<times> string \<times> apiOp option \<Rightarrow> string list" where
  "refsOf x = operationProtoPackages (fst x) (snd (snd x))"

lemma addCandidates_eq:
  "addCandidates x idx = (if keyOf x = [] then idx
     else idx\<lparr>candidatesByService := (candidatesByService idx)
                (keyOf x \<mapsto> List.union (refsOf x) (known (candidatesByService idx) (keyOf x))),
              packagesByTerminal := (if refsOf x = [] then packagesByTerminal idx
                else (packagesByTerminal idx)
                  (openAPITerminal (fst x) \<mapsto> List.union (refsOf x) (known (packagesByTerminal idx) (openAPITerminal (fst x)))))\<rparr>)"
  by (cases x; cases "snd (snd x)") (auto simp: addCandidates_def keyOf_def refsOf_def Let_def)

definition indexInv :: "(string \<times> string \<times> apiOp option) set \<Rightarrow> packageIndex \<Rightarrow> bool" where
  "indexInv X idx \<longleftrightarrow>
     (\<forall>k. candidatesByService idx k = None \<longleftrightarrow> \<not> (\<exists>x\<in>X. keyOf x = k \<and> k \<noteq> []))
   \<and> (\<forall>k. set (known (candidatesByService idx) k) = (\<Union>x\<in>{x \<in> X. keyOf x = k \<and> k \<noteq> []}. set (refsOf x)))
   \<and> (\<forall>k. distinct (known (candidatesByService idx) k))
   \<and> (\<forall>t. set (known (packagesByTerminal idx) t) = (\<Union>x\<in>{x \<in> X. keyOf x \<noteq> [] \<and> openAPITerminal (fst x) = t}. set (refsOf x)))
   \<and> (\<forall>t. distinct (known (packagesByTerminal idx) t))"

lemma known_upd: "known (m(k \<mapsto> v)) k' = (if k' = k then v else known m k')"
  by (simp add: known_def)

lemma indexInv_candidates:
  assumes "indexInv X idx"
  shows "candidatesByService idx k = None \<longleftrightarrow> \<not> (\<exists>x\<in>X. keyOf x = k \<and> k \<noteq> [])"
    and "set (known (candidatesByService idx) k) = (\<Union>x\<in>{x \<in> X. keyOf x = k \<and> k \<noteq> []}. set (refsOf x))"
    and "distinct (known (candidatesByService idx) k)"
    and "set (known (packagesByTerminal idx) t) = (\<Union>x\<in>{x \<in> X. keyOf x \<noteq> [] \<and> openAPITerminal (fst x) = t}. set (refsOf x))"
    and "distinct (known (packagesByTerminal idx) t)"
  by (rule assms [unfolded indexInv_def, THEN conjunct1, THEN spec],
      rule assms [unfolded indexInv_def, THEN conjunct2, THEN conjunct1, THEN spec],
      rule assms [unfolded indexInv_def, THEN conjunct2, THEN conjunct2, THEN conjunct1, THEN spec],
      rule assms [unfolded indexInv_def, THEN conjunct2, THEN conjunct2, THEN conjunct2, THEN conjunct1, THEN spec],
      rule assms [unfolded indexInv_def, THEN conjunct2, THEN conjunct2, THEN conjunct2, THEN conjunct2, THEN spec])

lemma indexInv_step:
  assumes "indexInv X idx"
  shows "indexInv (insert x X) (addCandidates x idx)"
proof (cases "keyOf x = []")
  case True
  have a: "(\<exists>y\<in>insert x X. keyOf y = k \<and> k \<noteq> []) \<longleftrightarrow> (\<exists>y\<in>X. keyOf y = k \<and> k \<noteq> [])" for k
    using True by (metis insert_iff)
  have b: "{y \<in> insert x X. keyOf y = k \<and> k \<noteq> []} = {y \<in> X. keyOf y = k \<and> k \<noteq> []}" for k
    using True by blast
  have c: "{y \<in> insert x X. keyOf y \<noteq> [] \<and> openAPITerminal (fst y) = t} = {y \<in> X. keyOf y \<noteq> [] \<and> openAPITerminal (fst y) = t}" for t
    using True by blast
  show ?thesis using assms True unfolding indexInv_def a b c by (simp add: addCandidates_eq)
next
  case False
  note I = indexInv_candidates [OF assms]
  have cands: "candidatesByService (addCandidates x idx) = (candidatesByService idx)
      (keyOf x \<mapsto> List.union (refsOf x) (known (candidatesByService idx) (keyOf x)))"
    using False by (simp add: addCandidates_eq)
  have terms: "known (packagesByTerminal (addCandidates x idx)) t =
      (if t = openAPITerminal (fst x) then List.union (refsOf x) (known (packagesByTerminal idx) t)
       else known (packagesByTerminal idx) t)" for t
    using False by (simp add: addCandidates_eq known_upd List.union_def)
  show ?thesis unfolding indexInv_def cands terms
  proof (intro conjI allI)
    fix k
    show "((candidatesByService idx)(keyOf x \<mapsto> List.union (refsOf x) (known (candidatesByService idx) (keyOf x)))) k = None
        \<longleftrightarrow> \<not> (\<exists>x\<in>insert x X. keyOf x = k \<and> k \<noteq> [])"
      using I(1) [of k] False by auto
    show "set (known ((candidatesByService idx)(keyOf x \<mapsto> List.union (refsOf x) (known (candidatesByService idx) (keyOf x)))) k)
        = (\<Union>x\<in>{xa \<in> insert x X. keyOf xa = k \<and> k \<noteq> []}. set (refsOf x))"
      using I(2) [of k] False by (auto simp: known_upd)
    show "distinct (known ((candidatesByService idx)(keyOf x \<mapsto> List.union (refsOf x) (known (candidatesByService idx) (keyOf x)))) k)"
      using I(3) by (simp add: known_upd)
  next
    fix t
    show "set (if t = openAPITerminal (fst x) then List.union (refsOf x) (known (packagesByTerminal idx) t)
        else known (packagesByTerminal idx) t)
        = (\<Union>x\<in>{xa \<in> insert x X. keyOf xa \<noteq> [] \<and> openAPITerminal (fst xa) = t}. set (refsOf x))"
      using I(4) [of t] False by auto
    show "distinct (if t = openAPITerminal (fst x) then List.union (refsOf x) (known (packagesByTerminal idx) t)
        else known (packagesByTerminal idx) t)"
      using I(5) by simp
  qed
qed

lemma indexInv_fold: "indexInv X idx \<Longrightarrow> indexInv (set xs \<union> X) (fold addCandidates xs idx)"
proof (induction xs arbitrary: X idx)
  case (Cons x xs)
  from Cons.IH [OF indexInv_step [OF Cons.prems, of x]]
  show ?case by (simp add: Un_insert_right)
qed simp

lemma packageIndexOf_inv: "indexInv (set (documentOps paths)) (packageIndexOf paths)"
proof -
  have "indexInv {} \<lparr>candidatesByService = (\<lambda>_. None), packagesByTerminal = (\<lambda>_. None)\<rparr>"
    by (simp add: indexInv_def known_def)
  from indexInv_fold [OF this] show ?thesis by (simp add: packageIndexOf_def)
qed

lemma distinct_singleton: "distinct xs \<Longrightarrow> set xs = {p} \<longleftrightarrow> xs = [p]"
  by (cases xs; cases "tl xs") auto

text \<open>The specification of the package of a service.\<close>

definition serviceRefs :: "(string \<times> apiPathItem) list \<Rightarrow> string \<Rightarrow> string set" where
  "serviceRefs paths key = (\<Union>x\<in>{x \<in> set (documentOps paths). keyOf x = key}. set (refsOf x))"

definition terminalRefs :: "(string \<times> apiPathItem) list \<Rightarrow> string \<Rightarrow> string set" where
  "terminalRefs paths t =
     (\<Union>x\<in>{x \<in> set (documentOps paths). keyOf x \<noteq> [] \<and> openAPITerminal (fst x) = t}. set (refsOf x))"

lemma buildServicePackageMap_iff:
  assumes k: "k = t @ [apiNUL] @ s" "apiNUL \<notin> set t"
  shows "buildServicePackageMap paths k = Some p \<longleftrightarrow>
     (\<exists>x\<in>set (documentOps paths). keyOf x = k) \<and>
     (serviceRefs paths k = {p} \<or> serviceRefs paths k = {} \<and> terminalRefs paths t = {p})"
proof -
  let ?idx = "packageIndexOf paths"
  note I = indexInv_candidates [OF packageIndexOf_inv [of paths]]
  have kn: "k \<noteq> []" using k by simp
  have cut: "cut_char apiNUL k = (t, s, True)" using k by (simp add: cut_char_found)
  have refs: "set (known (candidatesByService ?idx) k) = serviceRefs paths k"
    using I(2) [of k] kn by (simp add: serviceRefs_def)
  have terms: "set (known (packagesByTerminal ?idx) t) = terminalRefs paths t"
    using I(4) [of t] by (simp add: terminalRefs_def)
  have tm: "(case packagesByTerminal ?idx t of Some [q] \<Rightarrow> Some q | _ \<Rightarrow> None) = Some p \<longleftrightarrow> terminalRefs paths t = {p}"
    unfolding terms [symmetric] distinct_singleton [OF I(5)]
    by (auto simp: known_def split: option.splits list.splits)
  show ?thesis
  proof (cases "candidatesByService ?idx k")
    case None
    then show ?thesis using I(1) [of k] kn by (auto simp: buildServicePackageMap_def Let_def)
  next
    case (Some qs)
    have ex: "\<exists>x\<in>set (documentOps paths). keyOf x = k" using I(1) [of k] Some by auto
    have qs: "set qs = serviceRefs paths k" "distinct qs" using refs I(3) [of k] Some by (simp_all add: known_def)
    show ?thesis
    proof (cases qs)
      case Nil
      then show ?thesis using Some ex qs tm cut by (simp add: buildServicePackageMap_def Let_def)
    next
      case (Cons q qs')
      have "serviceRefs paths k = {p} \<longleftrightarrow> qs = [p]" "serviceRefs paths k \<noteq> {}"
        using qs distinct_singleton [OF qs(2), of p] Cons by auto
      then show ?thesis using Some ex Cons
        by (auto simp: buildServicePackageMap_def Let_def split: list.splits)
    qed
  qed
qed

section \<open>What the records say\<close>

definition bindsPackage :: "(string \<times> apiPathItem) list \<Rightarrow> string \<Rightarrow> string \<Rightarrow> string \<Rightarrow> bool" where
  "bindsPackage paths path s p \<longleftrightarrow> openAPITerminal path \<noteq> [] \<and>
     (serviceRefs paths (servicePackageKey path s) = {p}
      \<or> serviceRefs paths (servicePackageKey path s) = {} \<and> terminalRefs paths (openAPITerminal path) = {p})"

lemma parseOperationID_iff:
  "s \<noteq> [] \<Longrightarrow> parseOperationID oid = (s, n) \<longleftrightarrow> oid = s @ CHR ''_'' # n \<and> CHR ''_'' \<notin> set s \<and> n \<noteq> []"
proof -
  assume s: "s \<noteq> []"
  obtain a b f where c: "cut_char (CHR ''_'') oid = (a, b, f)" by (cases "cut_char (CHR ''_'') oid") auto
  show ?thesis
  proof (cases f)
    case True
    then have "oid = a @ CHR ''_'' # b \<and> CHR ''_'' \<notin> set a" using c by (simp add: cut_char_found)
    moreover have "oid = s @ CHR ''_'' # n \<and> CHR ''_'' \<notin> set s \<longleftrightarrow> a = s \<and> b = n"
      using c True cut_char_found [of "CHR ''_''" oid s n] by auto
    ultimately show ?thesis using c True s by (auto simp: parseOperationID_def split_n2_def)
  next
    case False
    then have "CHR ''_'' \<notin> set oid" using c by (simp add: cut_char_not_found)
    then show ?thesis using c False s by (auto simp: parseOperationID_def split_n2_def)
  qed
qed

lemma set_split_char: "y \<in> set (split_char c s) \<Longrightarrow> set y \<subseteq> set s"
  by (induction s arbitrary: y) (fastforce split: if_splits list.splits)+

lemma set_trim_char: "set (trim_char c s) \<subseteq> set s"
proof -
  have "set (dropWhile P ys) \<subseteq> set ys" for P and ys :: string by (auto dest: set_dropWhileD)
  then show ?thesis unfolding trim_char_def set_rev by (metis order_trans set_rev)
qed

lemma set_openAPITerminal: "set (openAPITerminal path) \<subseteq> set path"
proof (cases "openAPITerminal path = []")
  case False
  then have "openAPITerminal path \<in> set (split_char (CHR ''/'') (trim_char (CHR ''/'') path))"
    by (auto simp: openAPITerminal_def split: list.splits if_splits)
  then show ?thesis using set_split_char set_trim_char by blast
qed simp

lemma keyOf_Some:
  "keyOf (path, m, Some oper) = servicePackageKey path (fst (parseOperationID (opOperationID oper)))"
  by (simp add: keyOf_def)

lemma servicePackageKey_eq:
  "openAPITerminal path \<noteq> [] \<Longrightarrow> s \<noteq> [] \<Longrightarrow> servicePackageKey path s = openAPITerminal path @ [apiNUL] @ s"
  by (simp add: servicePackageKey_def)

lemma servicePackageKey_Nil: "servicePackageKey path s = [] \<longleftrightarrow> openAPITerminal path = [] \<or> s = []"
  by (auto simp: servicePackageKey_def Let_def)

lemma append_sep_eq:
  fixes a b x y :: string
  assumes "c \<notin> set a" "c \<notin> set b"
  shows "a @ c # x = b @ c # y \<longleftrightarrow> a = b \<and> x = y"
proof
  assume e: "a @ c # x = b @ c # y"
  have "cut_char c (a @ c # x) = (a, x, True)" using assms by (simp add: cut_char_found)
  moreover have "cut_char c (a @ c # x) = (b, y, True)" using assms e by (simp add: cut_char_found)
  ultimately show "a = b \<and> x = y" by simp
qed simp

lemma documentOps_iff:
  "(path, m, oper) \<in> set (documentOps paths) \<longleftrightarrow>
     (\<exists>item. (path, item) \<in> set paths \<and> (m, oper) \<in> set (apiPathOperations item))"
  by (force simp: documentOps_def)

lemma dtoOperation_iff:
  "distinct (map fst (docPaths doc)) \<Longrightarrow>
     (path, m, Some oper) \<in> set (documentOps (docPaths doc)) \<longleftrightarrow> dtoOperation (Some doc) path m = Some oper"
proof -
  assume d: "distinct (map fst (docPaths doc))"
  have "(path, m, Some oper) \<in> set (documentOps (docPaths doc)) \<longleftrightarrow>
      (\<exists>item. map_of (docPaths doc) path = Some item \<and> (m, Some oper) \<in> set (apiPathOperations item))"
    using d by (auto simp: documentOps_iff)
  also have "\<dots> \<longleftrightarrow> dtoOperation (Some doc) path m = Some oper"
    by (auto simp: dtoOperation_def apiPathOperations_def split: option.splits if_splits)
  finally show ?thesis .
qed

lemma collect_terminal:
  "p \<in> set (collectSchemaProtoPackages path s) \<Longrightarrow> p \<noteq> [] \<and> protoPackageTerminal p = openAPITerminal path"
  by (induction path s rule: collectSchemaProtoPackages.induct)
    (auto simp: Let_def split: if_splits option.splits)

lemma refsOf_terminal:
  "p \<in> set (refsOf x) \<Longrightarrow> p \<noteq> [] \<and> protoPackageTerminal p = openAPITerminal (fst x)"
  by (auto simp: refsOf_def operationProtoPackages_def dest!: collect_terminal split: option.splits)

lemma service_package:
  assumes nul: "apiNUL \<notin> set path" and s: "s \<noteq> []" and t: "openAPITerminal path \<noteq> []"
    and x: "(path, m, Some oper) \<in> set (documentOps paths)" "fst (parseOperationID (opOperationID oper)) = s"
  shows "buildServicePackageMap paths (servicePackageKey path s) = Some p \<longleftrightarrow> bindsPackage paths path s p"
proof -
  have n: "apiNUL \<notin> set (openAPITerminal path)" using nul set_openAPITerminal by blast
  have ex: "\<exists>y\<in>set (documentOps paths). keyOf y = servicePackageKey path s"
    using x by (intro bexI [of _ "(path, m, Some oper)"]) (simp_all add: keyOf_Some)
  show ?thesis
    using buildServicePackageMap_iff [OF servicePackageKey_eq [OF t s] n, of paths p] ex t
    by (simp add: bindsPackage_def)
qed

lemma bindsPackage_terminal:
  assumes nul: "\<forall>(q, item)\<in>set paths. apiNUL \<notin> set q" "apiNUL \<notin> set path" and s: "s \<noteq> []"
    and b: "bindsPackage paths path s p"
  shows "p \<noteq> [] \<and> protoPackageTerminal p = openAPITerminal path"
proof -
  have t: "openAPITerminal path \<noteq> []" using b by (simp add: bindsPackage_def)
  from b have "p \<in> serviceRefs paths (servicePackageKey path s) \<or> p \<in> terminalRefs paths (openAPITerminal path)"
    by (auto simp: bindsPackage_def)
  then show ?thesis
  proof
    assume "p \<in> serviceRefs paths (servicePackageKey path s)"
    then obtain x where x: "x \<in> set (documentOps paths)" "keyOf x = servicePackageKey path s" "p \<in> set (refsOf x)"
      by (auto simp: serviceRefs_def)
    obtain q m oper where xq: "x = (q, m, oper)" by (cases x)
    have "servicePackageKey path s \<noteq> []" using s t by (simp add: servicePackageKey_Nil)
    then obtain oper' where o: "oper = Some oper'" using x(2) xq by (cases oper) (auto simp: keyOf_def)
    let ?s' = "fst (parseOperationID (opOperationID oper'))"
    have k: "servicePackageKey q ?s' = servicePackageKey path s" using x(2) xq o by (simp add: keyOf_Some)
    then have t': "openAPITerminal q \<noteq> []" and s': "?s' \<noteq> []"
      using s t by (metis servicePackageKey_Nil)+
    have "apiNUL \<notin> set q" using x(1) xq nul(1) by (auto simp: documentOps_iff)
    then have n: "apiNUL \<notin> set (openAPITerminal q)" "apiNUL \<notin> set (openAPITerminal path)"
      using nul(2) set_openAPITerminal by blast+
    have "openAPITerminal q = openAPITerminal path"
      using k n append_sep_eq [OF n] by (simp add: servicePackageKey_eq s s' t t')
    then show ?thesis using refsOf_terminal [OF x(3)] xq by simp
  next
    assume "p \<in> terminalRefs paths (openAPITerminal path)"
    then show ?thesis using refsOf_terminal by (auto simp: terminalRefs_def)
  qed
qed

definition identity :: "apiRecord \<Rightarrow> string \<times> string \<times> string \<times> string" where
  "identity a = (ServiceName a, Operation a, Method a, Path a)"

definition identityOf :: "string \<Rightarrow> string \<Rightarrow> string \<Rightarrow> string \<Rightarrow> string \<Rightarrow> string \<times> string \<times> string \<times> string" where
  "identityOf p s n m path = (p @ ''.'' @ s, ''/'' @ p @ ''.'' @ s @ ''/'' @ n, m, path)"

lemma parseOperation_identity:
  "(\<exists>a. parseOperation tn js tags sp (path, m, oper) = Some a \<and> identity a = i) \<longleftrightarrow>
   (\<exists>o' s n p. oper = Some o' \<and> parseOperationID (opOperationID o') = (s, n) \<and> s \<noteq> [] \<and> n \<noteq> []
     \<and> packageOf sp (servicePackageKey path s) = p \<and> p \<noteq> [] \<and> i = identityOf p s n m path)"
proof (cases oper)
  case None
  then show ?thesis by (simp add: parseOperation_def)
next
  case (Some o')
  obtain s n where sn: "parseOperationID (opOperationID o') = (s, n)" by fastforce
  show ?thesis using Some sn
    by (auto simp: parseOperation_def Let_def identity_def identityOf_def)
qed

lemma set_map_filter: "set (List.map_filter f xs) = {y. \<exists>x\<in>set xs. f x = Some y}"
  by (force simp: List.map_filter_def)

lemma records_identities:
  "identity ` set (List.map_filter (parseOperation tn js tags sp) xs) =
   {i. \<exists>path m oper s n p. (path, m, Some oper) \<in> set xs \<and> parseOperationID (opOperationID oper) = (s, n)
      \<and> s \<noteq> [] \<and> n \<noteq> [] \<and> packageOf sp (servicePackageKey path s) = p \<and> p \<noteq> [] \<and> i = identityOf p s n m path}"
  (is "?L = ?R")
proof -
  have "i \<in> ?L \<longleftrightarrow> (\<exists>path m oper. (path, m, oper) \<in> set xs \<and>
      (\<exists>a. parseOperation tn js tags sp (path, m, oper) = Some a \<and> identity a = i))" for i
    by (auto simp: set_map_filter image_iff)
  then show ?thesis unfolding parseOperation_identity by blast
qed

lemma packageOf_iff: "p \<noteq> [] \<Longrightarrow> packageOf sp k = p \<longleftrightarrow> sp k = Some p"
  by (auto simp: packageOf_def split: option.splits)

lemma package_bound:
  assumes nul: "\<forall>(q, item)\<in>set paths. apiNUL \<notin> set q" and s: "s \<noteq> []"
    and x: "(path, m, Some oper) \<in> set (documentOps paths)" "parseOperationID (opOperationID oper) = (s, n)"
  shows "(packageOf (buildServicePackageMap paths) (servicePackageKey path s) = p \<and> p \<noteq> []) \<longleftrightarrow> bindsPackage paths path s p"
proof (cases "openAPITerminal path = []")
  case True
  have "servicePackageKey path s = []" using True by (simp add: servicePackageKey_Nil)
  moreover have "candidatesByService (packageIndexOf paths) [] = None"
    using indexInv_candidates(1) [OF packageIndexOf_inv, of paths "[]"] by blast
  ultimately have "packageOf (buildServicePackageMap paths) (servicePackageKey path s) = []"
    by (simp add: buildServicePackageMap_def Let_def packageOf_def)
  then show ?thesis using True by (auto simp: bindsPackage_def)
next
  case False
  have n: "apiNUL \<notin> set path" using nul x(1) by (auto simp: documentOps_iff)
  have e: "buildServicePackageMap paths (servicePackageKey path s) = Some p \<longleftrightarrow> bindsPackage paths path s p"
    using service_package [OF n s False x(1)] x(2) by simp
  show ?thesis
  proof
    assume "packageOf (buildServicePackageMap paths) (servicePackageKey path s) = p \<and> p \<noteq> []"
    then show "bindsPackage paths path s p" using packageOf_iff e by blast
  next
    assume b: "bindsPackage paths path s p"
    then have "p \<noteq> []" using bindsPackage_terminal [OF nul n s] by simp
    then show "packageOf (buildServicePackageMap paths) (servicePackageKey path s) = p \<and> p \<noteq> []"
      using packageOf_iff e b by blast
  qed
qed

lemma bound_records:
  assumes nul: "\<forall>(q, item)\<in>set paths. apiNUL \<notin> set q"
    and x: "(path, m, Some oper) \<in> set (documentOps paths)"
  shows "(parseOperationID (opOperationID oper) = (s, n) \<and> s \<noteq> [] \<and> n \<noteq> []
      \<and> packageOf (buildServicePackageMap paths) (servicePackageKey path s) = p \<and> p \<noteq> []) \<longleftrightarrow>
    (opOperationID oper = s @ CHR ''_'' # n \<and> CHR ''_'' \<notin> set s \<and> s \<noteq> [] \<and> n \<noteq> [] \<and> bindsPackage paths path s p)"
proof (cases "s = []")
  case False
  show ?thesis using parseOperationID_iff [OF False, of "opOperationID oper" n] package_bound [OF nul False x, of n p]
    by blast
qed simp

lemma set_sort_key_ops: "set (sort_key Operation xs) = set xs"
  by simp

lemma names_service: "ServiceName a = p @ ''.'' @ s \<Longrightarrow> Operation a = ''/'' @ p @ ''.'' @ s @ ''/'' @ n \<Longrightarrow>
    Operation a = ''/'' @ ServiceName a @ ''/'' @ n"
  by simp

text \<open>C22.
  The interface records of an OpenAPI document are sorted by operation, and they are exactly these:
  one for every GET, POST, PUT or DELETE operation of a path \<open>/api/v1/<terminal>/...\<close> whose
  operationId is \<open>Service_Method\<close> and whose service is bound to one protobuf package, with the
  operation \<open>/<package>.<Service>/<Method>\<close> the authorization sees at run time.  A service is bound
  to the only package of its terminal its own operations refer to, or, when they refer to none, to
  the only one any operation of the terminal refers to; so a package always ends in the version
  after the terminal of the path.\<close>
theorem OpenAPIDataToBaseAPI_correct:
  assumes "parseYaml data = Inr doc" "distinct (map fst (docPaths doc))"
    and "\<forall>(q, item)\<in>set (docPaths doc). apiNUL \<notin> set q"
  shows "\<exists>apis. OpenAPIDataToBaseAPI parseYaml tn js data = Inr apis \<and> sorted (map Operation apis)
     \<and> identity ` set apis =
       {identityOf p s n m path | p s n m path.
          \<exists>oper. dtoOperation (Some doc) path m = Some oper \<and> opOperationID oper = s @ CHR ''_'' # n
            \<and> CHR ''_'' \<notin> set s \<and> s \<noteq> [] \<and> n \<noteq> [] \<and> bindsPackage (docPaths doc) path s p}
     \<and> (\<forall>p s n m path oper. dtoOperation (Some doc) path m = Some oper \<and> s \<noteq> []
          \<and> bindsPackage (docPaths doc) path s p \<longrightarrow> protoPackageTerminal p = openAPITerminal path)"
proof -
  let ?sp = "buildServicePackageMap (docPaths doc)"
  let ?xs = "List.map_filter (parseOperation tn js (buildTagsMap (docTags doc) ?sp) ?sp) (documentOps (docPaths doc))"
  note ops = dtoOperation_iff [OF assms(2)]
  have run: "OpenAPIDataToBaseAPI parseYaml tn js data = Inr (sort_key Operation ?xs)"
    using assms(1) by (simp add: OpenAPIDataToBaseAPI_def Let_def)
  have ids: "identity ` set ?xs = {identityOf p s n m path | p s n m path.
          \<exists>oper. dtoOperation (Some doc) path m = Some oper \<and> opOperationID oper = s @ CHR ''_'' # n
            \<and> CHR ''_'' \<notin> set s \<and> s \<noteq> [] \<and> n \<noteq> [] \<and> bindsPackage (docPaths doc) path s p}"
    (is "_ = ?R")
  proof -
    let ?A = "\<lambda>path oper s n p. parseOperationID (opOperationID oper) = (s, n) \<and> s \<noteq> [] \<and> n \<noteq> []
      \<and> packageOf ?sp (servicePackageKey path s) = p \<and> p \<noteq> []"
    let ?B = "\<lambda>path oper s n p. opOperationID oper = s @ CHR ''_'' # n \<and> CHR ''_'' \<notin> set s \<and> s \<noteq> [] \<and> n \<noteq> []
      \<and> bindsPackage (docPaths doc) path s p"
    have eq: "(dtoOperation (Some doc) path m = Some oper \<and> ?A path oper s n p) \<longleftrightarrow>
        (dtoOperation (Some doc) path m = Some oper \<and> ?B path oper s n p)" for path m oper s n p
      unfolding ops [symmetric] by (rule conj_cong [OF refl], rule bound_records [OF assms(3)])
    have "i \<in> identity ` set ?xs \<longleftrightarrow> (\<exists>path m oper s n p. (dtoOperation (Some doc) path m = Some oper \<and> ?A path oper s n p)
        \<and> i = identityOf p s n m path)" for i
      unfolding records_identities mem_Collect_eq ops by (simp only: conj_assoc)
    then have "i \<in> identity ` set ?xs \<longleftrightarrow> (\<exists>path m oper s n p. (dtoOperation (Some doc) path m = Some oper \<and> ?B path oper s n p)
        \<and> i = identityOf p s n m path)" for i
      by (simp only: eq)
    then show ?thesis by (intro set_eqI) (simp only: mem_Collect_eq, blast)
  qed
  have term_ok: "protoPackageTerminal p = openAPITerminal path"
    if "dtoOperation (Some doc) path m = Some oper" "s \<noteq> []" "bindsPackage (docPaths doc) path s p" for p s m path oper
  proof -
    have "(path, m, Some oper) \<in> set (documentOps (docPaths doc))" using that(1) ops by blast
    then have "apiNUL \<notin> set path" using assms(3) by (auto simp: documentOps_iff)
    then show ?thesis using bindsPackage_terminal [OF assms(3) _ that(2,3)] by blast
  qed
  show ?thesis
    by (rule exI [of _ "sort_key Operation ?xs"], unfold set_sort_key_ops,
        intro conjI run ids sorted_sort_key allI impI, elim conjE, rule term_ok)
qed

text \<open>A document with one bound service, a service with no reference of its own, and noise.\<close>

definition exampleSchema :: "string \<Rightarrow> apiSchema" where
  "exampleSchema ref = ApiSchema ref [] [] [] [] [] [] None"

definition exampleOp :: "string \<Rightarrow> string \<Rightarrow> apiOp" where
  "exampleOp oid ref = \<lparr>opTags = [], opSummary = ''sum'', opDescription = [], opOperationID = oid,
     opParameters = [\<lparr>apName = ''q'', apIn = ''query'', apDescription = [], apRequired = False, apSchema = exampleSchema ref\<rparr>],
     opRequestBody = None, opResponses = []\<rparr>"

definition exampleApi :: apiDoc where
  "exampleApi = \<lparr>docPaths =
     [(''/api/v1/admin/goods'',
       \<lparr>piGet = Some (exampleOp ''GoodsService_List'' ''#/components/schemas/shop.admin.v1.Goods''),
        piPost = None, piPut = None, piDelete = None\<rparr>),
      (''/api/v1/admin/ping'',
       \<lparr>piGet = Some (exampleOp ''PingService_Ping'' ''#/components/schemas/common.v1.Empty''),
        piPost = None, piPut = None, piDelete = None\<rparr>)],
     docTags = []\<rparr>"

theorem OpenAPIDataToBaseAPI_correct_witness:
  "\<exists>apis. OpenAPIDataToBaseAPI (\<lambda>_. Inr exampleApi) (\<lambda>s. s) (\<lambda>_. None) ''yaml'' = Inr apis \<and> sorted (map Operation apis)
     \<and> identity ` set apis =
       {identityOf p s n m path | p s n m path.
          \<exists>oper. dtoOperation (Some exampleApi) path m = Some oper \<and> opOperationID oper = s @ CHR ''_'' # n
            \<and> CHR ''_'' \<notin> set s \<and> s \<noteq> [] \<and> n \<noteq> [] \<and> bindsPackage (docPaths exampleApi) path s p}"
proof -
  have "(\<lambda>_. Inr exampleApi) ''yaml'' = Inr exampleApi" "distinct (map fst (docPaths exampleApi))"
    "\<forall>(q, item)\<in>set (docPaths exampleApi). apiNUL \<notin> set q"
    by (simp_all add: exampleApi_def apiNUL_def)
  from OpenAPIDataToBaseAPI_correct [OF this, where data = "''yaml''" and tn = "\<lambda>s. s" and js = "\<lambda>_. None"]
  show ?thesis by (elim exE conjE) (intro exI conjI, assumption+)
qed

section \<open>Independence of the order of the paths\<close>

lemma unique_choice:
  "distinct xs \<Longrightarrow> distinct ys \<Longrightarrow> set xs = set ys \<Longrightarrow>
   (case xs of [] \<Rightarrow> z | [p] \<Rightarrow> Some p | _ \<Rightarrow> None) = (case ys of [] \<Rightarrow> z | [p] \<Rightarrow> Some p | _ \<Rightarrow> None)"
proof -
  assume a: "distinct xs" "distinct ys" "set xs = set ys"
  have l: "length xs = length ys" using a by (metis distinct_card)
  show ?thesis
  proof (cases xs)
    case Nil
    then show ?thesis using l by simp
  next
    case (Cons x xs')
    then obtain y ys' where y: "ys = y # ys'" using l by (cases ys) auto
    show ?thesis using a l Cons y by (cases xs'; cases ys') auto
  qed
qed

lemma known_Some: "m k = Some qs \<Longrightarrow> known m k = qs"
  by (simp add: known_def)

lemma choice_known:
  "(case m t of Some [p] \<Rightarrow> Some p | _ \<Rightarrow> None) = (case known m t of [] \<Rightarrow> None | [p] \<Rightarrow> Some p | _ \<Rightarrow> None)"
  by (auto simp: known_def split: option.splits list.splits)

lemma buildServicePackageMap_set:
  assumes "set (documentOps paths) = set (documentOps paths')"
  shows "buildServicePackageMap paths = buildServicePackageMap paths'"
proof
  fix k
  let ?i = "packageIndexOf paths" and ?j = "packageIndexOf paths'"
  note I = indexInv_candidates [OF packageIndexOf_inv [of paths]]
  note J = indexInv_candidates [OF packageIndexOf_inv [of paths'], folded assms]
  have t: "(case packagesByTerminal ?i t of Some [p] \<Rightarrow> Some p | _ \<Rightarrow> None) =
      (case packagesByTerminal ?j t of Some [p] \<Rightarrow> Some p | _ \<Rightarrow> None)" for t
    unfolding choice_known by (rule unique_choice [OF I(5) J(5)]) (simp only: I(4) J(4))
  have n: "candidatesByService ?i k = None \<longleftrightarrow> candidatesByService ?j k = None" using I(1) J(1) by blast
  show "buildServicePackageMap paths k = buildServicePackageMap paths' k"
  proof (cases "candidatesByService ?i k")
    case None
    then show ?thesis using n by (simp add: buildServicePackageMap_def Let_def)
  next
    case (Some qs)
    then obtain rs where rs: "candidatesByService ?j k = Some rs" using n by auto
    have s: "set qs = set rs" "distinct qs" "distinct rs"
      using I(2,3) [of k] J(2,3) [of k] known_Some [where m = "candidatesByService ?i", OF Some] known_Some [where m = "candidatesByService ?j", OF rs] by simp_all
    have shape: "buildServicePackageMap ps k =
        (case us of [] \<Rightarrow> (case cut_char apiNUL k of (terminal, _, found) \<Rightarrow> if \<not> found then None
           else (case packagesByTerminal (packageIndexOf ps) terminal of Some [p] \<Rightarrow> Some p | _ \<Rightarrow> None))
         | [p] \<Rightarrow> Some p | _ \<Rightarrow> None)" if "candidatesByService (packageIndexOf ps) k = Some us" for ps us
      using that by (simp add: buildServicePackageMap_def Let_def split: list.splits)
    show ?thesis unfolding shape [OF Some] shape [OF rs] t by (rule unique_choice [OF s(2,3,1)])
  qed
qed

lemma mset_documentOps: "mset paths = mset paths' \<Longrightarrow> mset (documentOps paths) = mset (documentOps paths')"
  unfolding documentOps_def mset_concat map_map by (simp add: sum_mset_sum_list [symmetric] mset_map)

lemma mset_map_filter: "mset xs = mset ys \<Longrightarrow> mset (List.map_filter f xs) = mset (List.map_filter f ys)"
  by (simp add: List.map_filter_def mset_filter)

lemma sort_key_unique:
  assumes "mset xs = mset ys" "distinct (map f (sort_key f xs))"
  shows "sort_key f xs = sort_key f ys"
proof (rule map_sorted_distinct_set_unique)
  have m: "mset (sort_key f xs) = mset (sort_key f ys)" using assms(1) by simp
  then show "set (sort_key f xs) = set (sort_key f ys)" by (metis set_mset_mset)
  have "mset (map f (sort_key f xs)) = mset (map f (sort_key f ys))" using m by (simp only: mset_map)
  then show "distinct (map f (sort_key f ys))" using assms(2) by (metis mset_eq_imp_distinct_iff)
  show "inj_on f (set (sort_key f xs) \<union> set (sort_key f ys))"
    using assms(2) \<open>set (sort_key f xs) = set (sort_key f ys)\<close> by (simp add: distinct_map)
qed (use assms(2) in simp_all)

text \<open>The result does not depend on the order in which the paths of the document are visited: when
  every operation occurs once, two orders of the same paths give the same list of records (and fail
  together, never, once the document is decoded).\<close>
theorem OpenAPIDataToBaseAPI_deterministic:
  assumes "parseYaml data = Inr doc" "parseYaml' data = Inr (doc\<lparr>docPaths := paths'\<rparr>)"
    and "mset paths' = mset (docPaths doc)"
    and "OpenAPIDataToBaseAPI parseYaml tn js data = Inr apis" "distinct (map Operation apis)"
  shows "OpenAPIDataToBaseAPI parseYaml' tn js data = Inr apis"
proof -
  have ops: "mset (documentOps paths') = mset (documentOps (docPaths doc))"
    using assms(3) by (rule mset_documentOps)
  then have "set (documentOps paths') = set (documentOps (docPaths doc))" by (metis set_mset_mset)
  then have sp: "buildServicePackageMap paths' = buildServicePackageMap (docPaths doc)"
    by (rule buildServicePackageMap_set)
  show ?thesis
    using assms(1,2,4,5) mset_map_filter [OF ops]
    by (auto simp: OpenAPIDataToBaseAPI_def Let_def sp intro!: sort_key_unique [symmetric] mset_map_filter [OF ops [symmetric]])
qed

lemma example_operations:
  "map Operation (List.map_filter
     (parseOperation (\<lambda>s. s) (\<lambda>_. None) (buildTagsMap (docTags exampleApi) (buildServicePackageMap (docPaths exampleApi)))
        (buildServicePackageMap (docPaths exampleApi))) (documentOps (docPaths exampleApi)))
   = [''/shop.admin.v1.GoodsService/List'', ''/shop.admin.v1.PingService/Ping'']"
  by code_simp

lemma distinct_sort_key: "distinct (map f xs) \<Longrightarrow> distinct (map f (sort_key f xs))"
proof -
  have "mset (map f (sort_key f xs)) = mset (map f xs)" by (simp only: mset_map mset_sort)
  then show "distinct (map f xs) \<Longrightarrow> distinct (map f (sort_key f xs))" by (metis mset_eq_imp_distinct_iff)
qed

theorem OpenAPIDataToBaseAPI_deterministic_witness:
  "OpenAPIDataToBaseAPI (\<lambda>_. Inr (exampleApi\<lparr>docPaths := rev (docPaths exampleApi)\<rparr>)) (\<lambda>s. s) (\<lambda>_. None) ''yaml''
   = OpenAPIDataToBaseAPI (\<lambda>_. Inr exampleApi) (\<lambda>s. s) (\<lambda>_. None) ''yaml''"
proof -
  obtain apis where a: "OpenAPIDataToBaseAPI (\<lambda>_. Inr exampleApi) (\<lambda>s. s) (\<lambda>_. None) ''yaml'' = Inr apis"
    and "distinct (map Operation apis)"
    using distinct_sort_key [of Operation, folded example_operations]
    by (simp add: OpenAPIDataToBaseAPI_def Let_def distinct_sort_key example_operations)
  from OpenAPIDataToBaseAPI_deterministic [of "\<lambda>_. Inr exampleApi" "''yaml''" exampleApi
      "\<lambda>_. Inr (exampleApi\<lparr>docPaths := rev (docPaths exampleApi)\<rparr>)", OF refl refl _ a this(2)]
  show ?thesis unfolding a by simp
qed

end
