(* ===== verification/Permission.thy ===== *)
theory Permission
  imports BaseApi OpenApiRegistry Roles
begin

text \<open>
  Model of \<open>resource/resource.go\<close>, \<open>resource/biz/casbin_rule.go\<close>, \<open>resource/biz/base_tenant.go\<close>
  and the interfaces of \<open>data/permission.go\<close> and \<open>data/api.go\<close>: the start-up synchronisation of
  interfaces, role menus and authorization rules.  The host store is a record of operations on an
  abstract state, a transaction is a function on actions; their documented laws are \<open>permLaws\<close>
  and \<open>txLaws\<close>.  The JSON lists kept in the menu columns are read by the parameters \<open>menuIDs\<close>
  and \<open>operations\<close>, and \<open>super\<close> is the default tenant code of kratos-kit.
\<close>

section \<open>Data\<close>

record tenantRecord =
  tnID :: int
  tnCode :: string

record roleRecord =
  rlID :: int
  rlTenantID :: int
  rlCode :: string
  rlMenus :: string

record menuRecord =
  mnID :: int
  mnAPI :: string

record policyRecord =
  Ptype :: string
  V0 :: string
  V1 :: string
  V2 :: string
  V3 :: string
  V4 :: string

record apiPolicy =
  plOperation :: string
  plMethod :: string

datatype permErr = RecordNotFound | StoreError string | InternalError string | Wrapped string permErr

text \<open>\<open>errors.Is(err, gorm.ErrRecordNotFound)\<close>.\<close>

fun isNotFound :: "permErr \<Rightarrow> bool" where
  "isNotFound RecordNotFound = True"
| "isNotFound (Wrapped _ e) = isNotFound e"
| "isNotFound _ = False"

type_synonym 's action = "'s \<Rightarrow> (permErr, unit) result \<times> 's"

record 's permStore =
  FindTenantByCode :: "'s \<Rightarrow> string \<Rightarrow> (permErr, tenantRecord) result"
  ListTenants :: "'s \<Rightarrow> (permErr, tenantRecord list) result"
  FindRoleByTenantIDAndCode :: "'s \<Rightarrow> int \<Rightarrow> string \<Rightarrow> (permErr, roleRecord) result"
  ListRoles :: "'s \<Rightarrow> (permErr, roleRecord list) result"
  ListRolesByCode :: "'s \<Rightarrow> string \<Rightarrow> (permErr, roleRecord list) result"
  UpdateRoleMenus :: "roleRecord \<Rightarrow> 's action"
  ListMenusByIDs :: "'s \<Rightarrow> int list \<Rightarrow> (permErr, menuRecord list) result"
  ListPolicies :: "'s \<Rightarrow> (permErr, policyRecord list) result"
  ReplacePolicies :: "policyRecord list \<Rightarrow> 's action"

record 's apiStore =
  ReplaceAll :: "apiRecord list \<Rightarrow> 's action"
  ReplaceAllTranslations :: "apiTranslation list \<Rightarrow> 's action"
  ListForPolicy :: "'s \<Rightarrow> (permErr, apiPolicy list) result"

section \<open>Actions\<close>

text \<open>Sequencing with early return, reading, and \<open>fmt.Errorf\<close> around an action.\<close>

definition andThen :: "'s action \<Rightarrow> 's action \<Rightarrow> 's action" where
  "andThen a b s = (case a s of (Inl e, s') \<Rightarrow> (Inl e, s') | (Inr _, s') \<Rightarrow> b s')"

definition reading :: "('s \<Rightarrow> (permErr, 'x) result) \<Rightarrow> ('x \<Rightarrow> 's action) \<Rightarrow> 's action" where
  "reading r f s = (case r s of Inl e \<Rightarrow> (Inl e, s) | Inr x \<Rightarrow> f x s)"

definition wrapping :: "string \<Rightarrow> 's action \<Rightarrow> 's action" where
  "wrapping msg a s = (case a s of (Inl e, s') \<Rightarrow> (Inl (Wrapped msg e), s') | (Inr u, s') \<Rightarrow> (Inr u, s'))"

definition skipAction :: "'s action" where
  "skipAction s = (Inr (), s)"

lemma andThen_ok: "andThen a b s = (Inr u, s') \<longleftrightarrow> (\<exists>s1. a s = (Inr (), s1) \<and> b s1 = (Inr u, s'))"
  by (auto simp: andThen_def split: prod.splits sum.splits)

lemma reading_ok: "reading r f s = (Inr u, s') \<longleftrightarrow> (\<exists>x. r s = Inr x \<and> f x s = (Inr u, s'))"
  by (auto simp: reading_def split: sum.splits)

lemma wrapping_ok: "wrapping msg a s = (Inr u, s') \<longleftrightarrow> a s = (Inr u, s')"
  by (auto simp: wrapping_def split: prod.splits sum.splits)

lemmas action_ok = andThen_ok reading_ok wrapping_ok

section \<open>The rules of roles\<close>

definition policy :: "string \<Rightarrow> string \<Rightarrow> string \<Rightarrow> string \<Rightarrow> policyRecord" where
  "policy tenant role operation method =
     \<lparr>Ptype = ''p'', V0 = tenant, V1 = role, V2 = operation, V3 = method, V4 = ''*''\<rparr>"

text \<open>Later tenants and menus with the same id replace earlier ones, the first interface wins.\<close>

definition tenantCodeByID :: "tenantRecord list \<Rightarrow> int \<Rightarrow> string option" where
  "tenantCodeByID tenants = map_of (rev (map (\<lambda>t. (tnID t, tnCode t)) tenants))"

definition menuOperationsByID :: "(string \<Rightarrow> string list) \<Rightarrow> menuRecord list \<Rightarrow> int \<Rightarrow> string list" where
  "menuOperationsByID operations menus menuID =
     (case map_of (rev (map (\<lambda>m. (mnID m, operations (mnAPI m))) menus)) menuID of None \<Rightarrow> [] | Some ops \<Rightarrow> ops)"

definition apiByOperation :: "apiPolicy list \<Rightarrow> string \<Rightarrow> apiPolicy option" where
  "apiByOperation apis = map_of (map (\<lambda>a. (plOperation a, a)) apis)"

definition ruleKey :: "policyRecord \<Rightarrow> string" where
  "ruleKey p = V0 p @ [apiNUL] @ V1 p @ [apiNUL] @ V2 p @ [apiNUL] @ V3 p"

definition roleRules ::
  "(string \<Rightarrow> int list) \<Rightarrow> (int \<Rightarrow> string option) \<Rightarrow> (int \<Rightarrow> string list) \<Rightarrow> (string \<Rightarrow> apiPolicy option)
    \<Rightarrow> roleRecord \<Rightarrow> policyRecord list" where
  "roleRules menuIDs tenantCode menuOperations api role = (case tenantCode (rlTenantID role) of
      None \<Rightarrow> []
    | Some tenant \<Rightarrow> concat (map (\<lambda>menuID.
        List.map_filter (\<lambda>operation. case api operation of None \<Rightarrow> None
            | Some a \<Rightarrow> Some (policy tenant (rlCode role) (plOperation a) (plMethod a)))
          (menuOperations menuID)) (menuIDs (rlMenus role))))"

definition buildCasbinRuleList ::
  "(string \<Rightarrow> int list) \<Rightarrow> (string \<Rightarrow> string list) \<Rightarrow> roleRecord list \<Rightarrow> tenantRecord list \<Rightarrow> menuRecord list
    \<Rightarrow> apiPolicy list \<Rightarrow> policyRecord list" where
  "buildCasbinRuleList menuIDs operations roles tenants menus apis = first_by ruleKey
     (concat (map (roleRules menuIDs (tenantCodeByID tenants) (menuOperationsByID operations menus) (apiByOperation apis)) roles))"

section \<open>Operations\<close>

definition RebuildPolicyData ::
  "'s permStore \<Rightarrow> 's apiStore \<Rightarrow> (string \<Rightarrow> int list) \<Rightarrow> (string \<Rightarrow> string list) \<Rightarrow> 's action" where
  "RebuildPolicyData st api menuIDs operations =
     reading (ListRoles st) (\<lambda>roles.
     reading (ListTenants st) (\<lambda>tenants.
     reading (\<lambda>s. ListMenusByIDs st s (remdups (concat (map (\<lambda>r. menuIDs (rlMenus r)) roles)))) (\<lambda>menus.
     reading (ListForPolicy api) (\<lambda>apis.
       ReplacePolicies st (buildCasbinRuleList menuIDs operations roles tenants menus apis)))))"

definition completePolicy :: "policyRecord \<Rightarrow> bool" where
  "completePolicy p \<longleftrightarrow> \<not> (Ptype p = [] \<or> V0 p = [] \<or> V1 p = [] \<or> V2 p = [] \<or> V3 p = [] \<or> V4 p = [])"

text \<open>The engine writes the policies of memory when it implements \<open>PolicyWriter\<close>.\<close>

definition RefreshPolicy ::
  "'s permStore \<Rightarrow> 's apiStore \<Rightarrow> string \<Rightarrow> (policyRecord list \<Rightarrow> 'g action) option \<Rightarrow> 's \<Rightarrow> 'g action" where
  "RefreshPolicy st api super writer s g = (case ListForPolicy api s of
      Inl e \<Rightarrow> (Inl e, g)
    | Inr apis \<Rightarrow> (case ListPolicies st s of
        Inl e \<Rightarrow> (Inl e, g)
      | Inr rules \<Rightarrow> (case writer of
          None \<Rightarrow> (Inl (InternalError ''policy writer''), g)
        | Some setPolicies \<Rightarrow> setPolicies
            (map (\<lambda>a. policy super BASE_ROLE_CODE_SUPER (plOperation a) (plMethod a)) apis
             @ filter completePolicy rules) g)))"

definition RebuildPolicy ::
  "'s permStore \<Rightarrow> 's apiStore \<Rightarrow> (string \<Rightarrow> int list) \<Rightarrow> (string \<Rightarrow> string list) \<Rightarrow> string
    \<Rightarrow> (policyRecord list \<Rightarrow> 'g action) option \<Rightarrow> 's \<times> 'g \<Rightarrow> (permErr, unit) result \<times> 's \<times> 'g" where
  "RebuildPolicy st api menuIDs operations super writer x = (case x of (s, g) \<Rightarrow>
     (case RebuildPolicyData st api menuIDs operations s of
        (Inl e, s') \<Rightarrow> (Inl e, s', g)
      | (Inr _, s') \<Rightarrow> (case RefreshPolicy st api super writer s' g of (r, g') \<Rightarrow> (r, s', g'))))"

fun updateCopies :: "'s permStore \<Rightarrow> roleRecord \<Rightarrow> roleRecord list \<Rightarrow> 's action" where
  "updateCopies st template [] = skipAction"
| "updateCopies st template (r # rs) =
     (if rlID r = rlID template \<or> rlMenus r = rlMenus template then updateCopies st template rs
      else andThen
        (UpdateRoleMenus st \<lparr>rlID = rlID r, rlTenantID = rlTenantID r, rlCode = [], rlMenus = rlMenus template\<rparr>)
        (updateCopies st template rs))"

definition SyncTenantRoleMenus :: "('s action \<Rightarrow> 's action) \<Rightarrow> 's permStore \<Rightarrow> string \<Rightarrow> 's action" where
  "SyncTenantRoleMenus tx st super s = (case FindTenantByCode st s super of
      Inl e \<Rightarrow> if isNotFound e then (Inr (), s) else (Inl (Wrapped ''default tenant'' e), s)
    | Inr tenant \<Rightarrow> (case FindRoleByTenantIDAndCode st s (tnID tenant) BASE_ROLE_CODE_TENANT of
        Inl e \<Rightarrow> if isNotFound e then (Inr (), s) else (Inl e, s)
      | Inr template \<Rightarrow> tx (reading (\<lambda>s. ListRolesByCode st s BASE_ROLE_CODE_TENANT) (updateCopies st template)) s))"

text \<open>The transaction body and the whole of \<open>synchronizer.sync\<close>.\<close>

definition syncBody ::
  "('s action \<Rightarrow> 's action) \<Rightarrow> 's permStore \<Rightarrow> 's apiStore \<Rightarrow> (string \<Rightarrow> int list) \<Rightarrow> (string \<Rightarrow> string list) \<Rightarrow> string
    \<Rightarrow> apiRecord list \<Rightarrow> apiTranslation list \<Rightarrow> 's action" where
  "syncBody tx st api menuIDs operations super items translations =
     andThen (wrapping ''sync apis'' (ReplaceAll api items))
    (andThen (wrapping ''sync translations'' (ReplaceAllTranslations api translations))
    (andThen (wrapping ''sync role menus'' (SyncTenantRoleMenus tx st super))
             (wrapping ''rebuild rules'' (RebuildPolicyData st api menuIDs operations))))"

definition sync ::
  "(string \<Rightarrow> (string, apiRecord list) result) \<Rightarrow> ('s action \<Rightarrow> 's action) \<Rightarrow> 's permStore \<Rightarrow> 's apiStore
    \<Rightarrow> (string \<Rightarrow> int list) \<Rightarrow> (string \<Rightarrow> string list) \<Rightarrow> string \<Rightarrow> (policyRecord list \<Rightarrow> 'g action) option
    \<Rightarrow> document list \<Rightarrow> apiTranslation list \<Rightarrow> 's \<times> 'g \<Rightarrow> (permErr, nat) result \<times> 's \<times> 'g" where
  "sync toAPIs tx st api menuIDs operations super writer documents translations x = (case x of (s, g) \<Rightarrow>
     (case mapR (\<lambda>d. toAPIs (doc_data d)) documents of
        Inl e \<Rightarrow> (Inl (Wrapped ''parse document'' (StoreError e)), s, g)
      | Inr itemLists \<Rightarrow>
         (case tx (syncBody tx st api menuIDs operations super (concat itemLists) translations) s of
            (Inl e, s') \<Rightarrow> (Inl (Wrapped ''transaction'' e), s', g)
          | (Inr _, s') \<Rightarrow>
             (case RefreshPolicy st api super writer s' g of
                (Inl e, g') \<Rightarrow> (Inl (Wrapped ''refresh'' e), s', g')
              | (Inr _, g') \<Rightarrow> (Inr (length (concat itemLists)), s', g')))))"

record syncResult =
  DocumentCount :: nat
  APICount :: nat

definition documentTranslations ::
  "(string \<Rightarrow> string \<Rightarrow> (string, apiTranslation list) result) \<Rightarrow> (string \<Rightarrow> string option) \<Rightarrow> openapiRegistry
    \<Rightarrow> (permErr, apiTranslation list) result" where
  "documentTranslations toTranslations parseTag registry =
     (case mapR (\<lambda>(loc, d). toTranslations (doc_data d) loc)
        (concat (map (\<lambda>loc. map (Pair loc) (DocumentsByLocale parseTag registry loc)) (registryLocales registry))) of
      Inl e \<Rightarrow> Inl (Wrapped ''parse translation'' (StoreError e)) | Inr ts \<Rightarrow> Inr (concat ts))"

definition NewSyncResult ::
  "bool \<Rightarrow> bool \<Rightarrow> openapiRegistry option \<Rightarrow> (string \<Rightarrow> string option)
    \<Rightarrow> (string \<Rightarrow> string \<Rightarrow> (string, apiTranslation list) result)
    \<Rightarrow> (document list \<Rightarrow> apiTranslation list \<Rightarrow> 's \<times> 'g \<Rightarrow> (permErr, nat) result \<times> 's \<times> 'g)
    \<Rightarrow> 's \<times> 'g \<Rightarrow> (permErr, syncResult) result \<times> 's \<times> 'g" where
  "NewSyncResult migrations ready registry parseTag toTranslations runSync x =
     (if \<not> migrations then (Inl (InternalError ''migrations''), x)
      else if \<not> ready then (Inl (InternalError ''dependencies''), x)
      else (case (case registry of None \<Rightarrow> Inr ([], [])
              | Some r \<Rightarrow> bindR (documentTranslations toTranslations parseTag r)
                  (\<lambda>ts. Inr (DocumentsByLocale parseTag r [], ts))) of
          Inl e \<Rightarrow> (Inl e, x)
        | Inr (documents, translations) \<Rightarrow> (case runSync documents translations x of
            (Inl e, x') \<Rightarrow> (Inl e, x')
          | (Inr n, x') \<Rightarrow> (Inr \<lparr>DocumentCount = length documents, APICount = n\<rparr>, x'))))"

section \<open>The rules are exactly the grants\<close>

lemma apiByOperation_operation: "apiByOperation apis op = Some a \<Longrightarrow> plOperation a = op \<and> a \<in> set apis"
  by (auto simp: apiByOperation_def dest!: map_of_SomeD)

lemma roleRules_iff:
  "p \<in> set (roleRules menuIDs tenantCode menuOperations api role) \<longleftrightarrow>
     (\<exists>t i op a. tenantCode (rlTenantID role) = Some t \<and> i \<in> set (menuIDs (rlMenus role))
        \<and> op \<in> set (menuOperations i) \<and> api op = Some a
        \<and> p = policy t (rlCode role) (plOperation a) (plMethod a))"
proof (cases "tenantCode (rlTenantID role)")
  case None
  then show ?thesis by (simp add: roleRules_def)
next
  case (Some t)
  have "p \<in> set (roleRules menuIDs tenantCode menuOperations api role) \<longleftrightarrow>
      (\<exists>i\<in>set (menuIDs (rlMenus role)). \<exists>op\<in>set (menuOperations i). \<exists>a. api op = Some a
         \<and> p = policy t (rlCode role) (plOperation a) (plMethod a))"
    using Some by (auto simp: roleRules_def set_map_filter split: option.splits) fastforce
  then show ?thesis using Some by auto
qed

definition grant ::
  "(string \<Rightarrow> int list) \<Rightarrow> (string \<Rightarrow> string list) \<Rightarrow> roleRecord list \<Rightarrow> tenantRecord list \<Rightarrow> menuRecord list
    \<Rightarrow> apiPolicy list \<Rightarrow> string \<Rightarrow> string \<Rightarrow> string \<Rightarrow> string \<Rightarrow> bool" where
  "grant menuIDs operations roles tenants menus apis t r op m \<longleftrightarrow>
     (\<exists>role\<in>set roles. rlCode role = r \<and> tenantCodeByID tenants (rlTenantID role) = Some t
       \<and> (\<exists>i\<in>set (menuIDs (rlMenus role)). op \<in> set (menuOperationsByID operations menus i))
       \<and> apiByOperation apis op = Some \<lparr>plOperation = op, plMethod = m\<rparr>)"

definition allRules ::
  "(string \<Rightarrow> int list) \<Rightarrow> (string \<Rightarrow> string list) \<Rightarrow> roleRecord list \<Rightarrow> tenantRecord list \<Rightarrow> menuRecord list
    \<Rightarrow> apiPolicy list \<Rightarrow> policyRecord list" where
  "allRules menuIDs operations roles tenants menus apis =
     concat (map (roleRules menuIDs (tenantCodeByID tenants) (menuOperationsByID operations menus) (apiByOperation apis)) roles)"

lemma set_allRules:
  "set (allRules menuIDs operations roles tenants menus apis) =
     {policy t r op m | t r op m. grant menuIDs operations roles tenants menus apis t r op m}"
proof -
  have eta: "apiByOperation apis op = Some a \<longleftrightarrow>
      apiByOperation apis op = Some \<lparr>plOperation = op, plMethod = plMethod a\<rparr> \<and> plOperation a = op" for op a
    using apiByOperation_operation [of apis op a] by (cases a) auto
  show ?thesis
  proof (intro set_eqI iffI)
    fix p assume "p \<in> set (allRules menuIDs operations roles tenants menus apis)"
    then obtain role t i op a where r: "role \<in> set roles" "tenantCodeByID tenants (rlTenantID role) = Some t"
      "i \<in> set (menuIDs (rlMenus role))" "op \<in> set (menuOperationsByID operations menus i)"
      "apiByOperation apis op = Some a" "p = policy t (rlCode role) (plOperation a) (plMethod a)"
      by (auto simp: allRules_def roleRules_iff)
    have "grant menuIDs operations roles tenants menus apis t (rlCode role) op (plMethod a)"
      unfolding grant_def using r eta by (intro bexI [OF _ r(1)]) blast
    moreover have "plOperation a = op" using r(5) eta by blast
    ultimately show "p \<in> {policy t r op m | t r op m. grant menuIDs operations roles tenants menus apis t r op m}"
      using r(6) by blast
  next
    fix p assume "p \<in> {policy t r op m | t r op m. grant menuIDs operations roles tenants menus apis t r op m}"
    then obtain t r op m where p: "p = policy t r op m"
      and "grant menuIDs operations roles tenants menus apis t r op m" by blast
    then obtain role i where "role \<in> set roles" "rlCode role = r" "tenantCodeByID tenants (rlTenantID role) = Some t"
      "i \<in> set (menuIDs (rlMenus role))" "op \<in> set (menuOperationsByID operations menus i)"
      "apiByOperation apis op = Some \<lparr>plOperation = op, plMethod = m\<rparr>"
      unfolding grant_def by blast
    then show "p \<in> set (allRules menuIDs operations roles tenants menus apis)"
      unfolding allRules_def p by (force simp: roleRules_iff)
  qed
qed

lemma first_by_inj: "inj_on key (set xs) \<Longrightarrow> set (first_by key xs) = set xs"
  using first_by_set [of key xs] first_by_keys [of key xs] by (metis inj_on_image_eq_iff order_refl)

text \<open>Database codes carry no NUL byte, so the joined key determines the rule.\<close>

definition nulFree :: "string \<Rightarrow> bool" where
  "nulFree s \<longleftrightarrow> apiNUL \<notin> set s"

lemma ruleKey_inj:
  "nulFree t \<Longrightarrow> nulFree t' \<Longrightarrow> nulFree r \<Longrightarrow> nulFree r' \<Longrightarrow> nulFree op \<Longrightarrow> nulFree op' \<Longrightarrow>
   ruleKey (policy t r op m) = ruleKey (policy t' r' op' m') \<Longrightarrow> policy t r op m = policy t' r' op' m'"
  by (simp add: ruleKey_def policy_def nulFree_def append_sep_eq)

lemma grant_nulFree:
  assumes "grant menuIDs operations roles tenants menus apis t r op m"
    and "\<forall>x\<in>set tenants. nulFree (tnCode x)" "\<forall>x\<in>set roles. nulFree (rlCode x)" "\<forall>x\<in>set apis. nulFree (plOperation x)"
  shows "nulFree t" "nulFree r" "nulFree op"
proof -
  show "nulFree t" using assms(1,2)
    by (auto simp: grant_def tenantCodeByID_def dest!: map_of_SomeD)
  show "nulFree r" using assms(1,3) by (auto simp: grant_def)
  show "nulFree op" using assms(1,4) by (auto simp: grant_def dest!: apiByOperation_operation)
qed

lemma set_buildCasbinRuleList:
  assumes "\<forall>x\<in>set tenants. nulFree (tnCode x)" "\<forall>x\<in>set roles. nulFree (rlCode x)" "\<forall>x\<in>set apis. nulFree (plOperation x)"
  shows "set (buildCasbinRuleList menuIDs operations roles tenants menus apis) =
     {policy t r op m | t r op m. grant menuIDs operations roles tenants menus apis t r op m}"
proof -
  have "inj_on ruleKey (set (allRules menuIDs operations roles tenants menus apis))"
  proof (rule inj_onI)
    fix p q assume "p \<in> set (allRules menuIDs operations roles tenants menus apis)"
      "q \<in> set (allRules menuIDs operations roles tenants menus apis)" and k: "ruleKey p = ruleKey q"
    then obtain t r op m t' r' op' m' where p: "p = policy t r op m" "grant menuIDs operations roles tenants menus apis t r op m"
      and q: "q = policy t' r' op' m'" "grant menuIDs operations roles tenants menus apis t' r' op' m'"
      unfolding set_allRules by blast
    show "p = q" using ruleKey_inj grant_nulFree [OF p(2) assms] grant_nulFree [OF q(2) assms] k p(1) q(1) by blast
  qed
  then show ?thesis
    unfolding buildCasbinRuleList_def allRules_def [symmetric] by (simp only: first_by_inj set_allRules)
qed

text \<open>C19.
  The rules built for the roles are free of repetitions, and they are exactly the grants: a rule for
  a tenant, a role and an interface exists iff the role belongs to the tenant with that code, one of
  its menus lists the operation, and the operation is a current interface, with the method it was
  first listed with.  Roles of unknown tenants, unknown menus and vanished interfaces give nothing.\<close>
theorem buildCasbinRuleList_exact:
  assumes "\<forall>x\<in>set tenants. nulFree (tnCode x)" "\<forall>x\<in>set roles. nulFree (rlCode x)" "\<forall>x\<in>set apis. nulFree (plOperation x)"
  shows "distinct (buildCasbinRuleList menuIDs operations roles tenants menus apis)
     \<and> set (buildCasbinRuleList menuIDs operations roles tenants menus apis) =
       {policy t r op m | t r op m. grant menuIDs operations roles tenants menus apis t r op m}"
  using set_buildCasbinRuleList [OF assms] first_by_distinct [of ruleKey]
  by (simp add: buildCasbinRuleList_def distinct_map)

theorem buildCasbinRuleList_exact_witness:
  "buildCasbinRuleList (\<lambda>_. [1]) (\<lambda>_. [''/a'', ''/b'']) [\<lparr>rlID = 1, rlTenantID = 1, rlCode = ''r'', rlMenus = []\<rparr>]
     [\<lparr>tnID = 1, tnCode = ''t''\<rparr>] [\<lparr>mnID = 1, mnAPI = []\<rparr>] [\<lparr>plOperation = ''/a'', plMethod = ''GET''\<rparr>]
     = [policy ''t'' ''r'' ''/a'' ''GET'']
   \<and> grant (\<lambda>_. [1]) (\<lambda>_. [''/a'', ''/b'']) [\<lparr>rlID = 1, rlTenantID = 1, rlCode = ''r'', rlMenus = []\<rparr>]
     [\<lparr>tnID = 1, tnCode = ''t''\<rparr>] [\<lparr>mnID = 1, mnAPI = []\<rparr>] [\<lparr>plOperation = ''/a'', plMethod = ''GET''\<rparr>]
     ''t'' ''r'' ''/a'' ''GET''"
proof -
  let ?r = "[\<lparr>rlID = 1, rlTenantID = 1, rlCode = ''r'', rlMenus = []\<rparr>]" and ?t = "[\<lparr>tnID = 1, tnCode = ''t''\<rparr>]"
    and ?m = "[\<lparr>mnID = 1, mnAPI = []\<rparr>]" and ?a = "[\<lparr>plOperation = ''/a'', plMethod = ''GET''\<rparr>]"
  have b: "buildCasbinRuleList (\<lambda>_. [1]) (\<lambda>_. [''/a'', ''/b'']) ?r ?t ?m ?a = [policy ''t'' ''r'' ''/a'' ''GET'']"
    by code_simp
  have "set [policy ''t'' ''r'' ''/a'' ''GET''] =
      {policy t r op m | t r op m. grant (\<lambda>_. [1]) (\<lambda>_. [''/a'', ''/b'']) ?r ?t ?m ?a t r op m}"
    using buildCasbinRuleList_exact [of ?t ?r ?a "\<lambda>_. [1]" "\<lambda>_. [''/a'', ''/b'']" ?m] unfolding b
    by (simp add: nulFree_def apiNUL_def)
  then have "policy ''t'' ''r'' ''/a'' ''GET'' \<in>
      {policy t r op m | t r op m. grant (\<lambda>_. [1]) (\<lambda>_. [''/a'', ''/b'']) ?r ?t ?m ?a t r op m}"
    by (metis list.set_intros(1))
  then obtain t r op m where "policy ''t'' ''r'' ''/a'' ''GET'' = policy t r op m"
    "grant (\<lambda>_. [1]) (\<lambda>_. [''/a'', ''/b'']) ?r ?t ?m ?a t r op m" by blast
  then show ?thesis using b by (simp add: policy_def)
qed

section \<open>The laws of the host store\<close>

text \<open>What the store holds, read off its state.\<close>

record permView =
  tenantsOf :: "tenantRecord list"
  rolesOf :: "roleRecord list"
  menusOf :: "menuRecord list"
  policiesOf :: "policyRecord list"
  apisOf :: "apiPolicy list"
  translationsOf :: "apiTranslation list"

definition reads :: "('s \<Rightarrow> (permErr, 'x) result) \<Rightarrow> ('s \<Rightarrow> 'x) \<Rightarrow> bool" where
  "reads r f \<longleftrightarrow> (\<forall>s x. r s = Inr x \<longrightarrow> x = f s)"

definition writes :: "'s action \<Rightarrow> ('s \<Rightarrow> 'v) \<Rightarrow> ('v \<Rightarrow> 'v) \<Rightarrow> bool" where
  "writes a v f \<longleftrightarrow> (\<forall>s s'. a s = (Inr (), s') \<longrightarrow> v s' = f (v s))"

definition finds :: "('s \<Rightarrow> (permErr, 'x) result) \<Rightarrow> ('s \<Rightarrow> 'x set) \<Rightarrow> bool" where
  "finds r f \<longleftrightarrow> (\<forall>s. case r s of Inr x \<Rightarrow> x \<in> f s | Inl e \<Rightarrow> isNotFound e \<longrightarrow> f s = {})"

definition setMenus :: "roleRecord \<Rightarrow> roleRecord \<Rightarrow> roleRecord" where
  "setMenus r x = (if rlID x = rlID r \<and> rlTenantID x = rlTenantID r then x\<lparr>rlMenus := rlMenus r\<rparr> else x)"

definition apiPolicyOf :: "apiRecord \<Rightarrow> apiPolicy" where
  "apiPolicyOf a = \<lparr>plOperation = Operation a, plMethod = Method a\<rparr>"

definition permLaws :: "'s permStore \<Rightarrow> 's apiStore \<Rightarrow> ('s \<Rightarrow> permView) \<Rightarrow> bool" where
  "permLaws st api v \<longleftrightarrow>
     (\<forall>c. finds (\<lambda>s. FindTenantByCode st s c) (\<lambda>s. {t \<in> set (tenantsOf (v s)). tnCode t = c}))
   \<and> (\<forall>i c. finds (\<lambda>s. FindRoleByTenantIDAndCode st s i c)
               (\<lambda>s. {r \<in> set (rolesOf (v s)). rlTenantID r = i \<and> rlCode r = c}))
   \<and> reads (ListTenants st) (\<lambda>s. tenantsOf (v s))
   \<and> reads (ListRoles st) (\<lambda>s. rolesOf (v s))
   \<and> (\<forall>c. reads (\<lambda>s. ListRolesByCode st s c) (\<lambda>s. filter (\<lambda>r. rlCode r = c) (rolesOf (v s))))
   \<and> (\<forall>ids. reads (\<lambda>s. ListMenusByIDs st s ids) (\<lambda>s. filter (\<lambda>m. mnID m \<in> set ids) (menusOf (v s))))
   \<and> reads (ListPolicies st) (\<lambda>s. policiesOf (v s))
   \<and> reads (ListForPolicy api) (\<lambda>s. apisOf (v s))
   \<and> (\<forall>r. writes (UpdateRoleMenus st r) v (\<lambda>w. w\<lparr>rolesOf := map (setMenus r) (rolesOf w)\<rparr>))
   \<and> (\<forall>ps. writes (ReplacePolicies st ps) v (\<lambda>w. w\<lparr>policiesOf := ps\<rparr>))
   \<and> (\<forall>as. writes (ReplaceAll api as) v (\<lambda>w. w\<lparr>apisOf := map apiPolicyOf as\<rparr>))
   \<and> (\<forall>ts. writes (ReplaceAllTranslations api ts) v (\<lambda>w. w\<lparr>translationsOf := ts\<rparr>))"

lemma permLawsD:
  assumes "permLaws st api v"
  shows "finds (\<lambda>s. FindTenantByCode st s c) (\<lambda>s. {t \<in> set (tenantsOf (v s)). tnCode t = c})"
    and "finds (\<lambda>s. FindRoleByTenantIDAndCode st s i c) (\<lambda>s. {r \<in> set (rolesOf (v s)). rlTenantID r = i \<and> rlCode r = c})"
    and "reads (ListTenants st) (\<lambda>s. tenantsOf (v s))"
    and "reads (ListRoles st) (\<lambda>s. rolesOf (v s))"
    and "reads (\<lambda>s. ListRolesByCode st s c) (\<lambda>s. filter (\<lambda>r. rlCode r = c) (rolesOf (v s)))"
    and "reads (\<lambda>s. ListMenusByIDs st s ids) (\<lambda>s. filter (\<lambda>m. mnID m \<in> set ids) (menusOf (v s)))"
    and "reads (ListPolicies st) (\<lambda>s. policiesOf (v s))"
    and "reads (ListForPolicy api) (\<lambda>s. apisOf (v s))"
    and "writes (UpdateRoleMenus st r) v (\<lambda>w. w\<lparr>rolesOf := map (setMenus r) (rolesOf w)\<rparr>)"
    and "writes (ReplacePolicies st ps) v (\<lambda>w. w\<lparr>policiesOf := ps\<rparr>)"
    and "writes (ReplaceAll api as) v (\<lambda>w. w\<lparr>apisOf := map apiPolicyOf as\<rparr>)"
    and "writes (ReplaceAllTranslations api ts) v (\<lambda>w. w\<lparr>translationsOf := ts\<rparr>)"
  using assms unfolding permLaws_def by simp_all

text \<open>A transaction commits exactly the effect of its body, or leaves the state alone.\<close>

definition txLaws :: "('s action \<Rightarrow> 's action) \<Rightarrow> bool" where
  "txLaws tx \<longleftrightarrow> (\<forall>a s. case tx a s of (Inr _, s') \<Rightarrow> a s = (Inr (), s') | (Inl _, s') \<Rightarrow> s' = s)"

lemma tx_ok: "txLaws tx \<Longrightarrow> tx a s = (Inr u, s') \<Longrightarrow> a s = (Inr (), s')"
  unfolding txLaws_def by (drule spec [of _ a], drule spec [of _ s]) simp

lemma tx_fail: "txLaws tx \<Longrightarrow> tx a s = (Inl e, s') \<Longrightarrow> s' = s"
  unfolding txLaws_def by (drule spec [of _ a], drule spec [of _ s]) simp

lemma readsD: "reads r f \<Longrightarrow> r s = Inr x \<Longrightarrow> x = f s"
  by (simp add: reads_def)

lemma writesD: "writes a v f \<Longrightarrow> a s = (Inr u, s') \<Longrightarrow> v s' = f (v s)"
  by (simp add: writes_def)

lemma findsD: "finds r f \<Longrightarrow> r s = Inr x \<Longrightarrow> x \<in> f s" "finds r f \<Longrightarrow> r s = Inl e \<Longrightarrow> isNotFound e \<Longrightarrow> f s = {}"
  unfolding finds_def by (drule spec [of _ s], simp)+

section \<open>Role menus\<close>

definition copyTo :: "roleRecord \<Rightarrow> roleRecord list \<Rightarrow> roleRecord \<Rightarrow> roleRecord" where
  "copyTo tmpl rs x = (if \<exists>r\<in>set rs. rlID r \<noteq> rlID tmpl \<and> rlMenus r \<noteq> rlMenus tmpl
      \<and> rlID x = rlID r \<and> rlTenantID x = rlTenantID r then x\<lparr>rlMenus := rlMenus tmpl\<rparr> else x)"

lemma copyTo_Nil [simp]: "map (copyTo tmpl []) xs = xs"
  by (induction xs) (simp_all add: copyTo_def)

lemma copyTo_Cons:
  "copyTo tmpl (r # rs) x = copyTo tmpl rs (if rlID r = rlID tmpl \<or> rlMenus r = rlMenus tmpl then x
     else setMenus \<lparr>rlID = rlID r, rlTenantID = rlTenantID r, rlCode = [], rlMenus = rlMenus tmpl\<rparr> x)"
  by (auto simp: copyTo_def setMenus_def)

lemma updateCopies_view:
  assumes "permLaws st api v"
  shows "updateCopies st tmpl rs s = (Inr u, s') \<Longrightarrow> v s' = (v s)\<lparr>rolesOf := map (copyTo tmpl rs) (rolesOf (v s))\<rparr>"
proof (induction rs arbitrary: s)
  case Nil
  then show ?case by (simp add: skipAction_def)
next
  case (Cons r rs)
  let ?r = "\<lparr>rlID = rlID r, rlTenantID = rlTenantID r, rlCode = [], rlMenus = rlMenus tmpl\<rparr>"
  show ?case
  proof (cases "rlID r = rlID tmpl \<or> rlMenus r = rlMenus tmpl")
    case True
    then show ?thesis using Cons by (auto simp: copyTo_Cons cong: map_cong)
  next
    case False
    then obtain s1 where s1: "UpdateRoleMenus st ?r s = (Inr (), s1)" "updateCopies st tmpl rs s1 = (Inr u, s')"
      using Cons.prems by (auto simp: action_ok)
    have "v s1 = (v s)\<lparr>rolesOf := map (setMenus ?r) (rolesOf (v s))\<rparr>"
      using writesD [OF permLawsD(9) [OF assms] s1(1)] .
    then show ?thesis using Cons.IH [OF s1(2)] False by (simp add: copyTo_Cons cong: map_cong)
  qed
qed

definition tenantTemplates :: "string \<Rightarrow> permView \<Rightarrow> roleRecord set" where
  "tenantTemplates super w = {r \<in> set (rolesOf w). rlCode r = BASE_ROLE_CODE_TENANT
     \<and> (\<exists>t\<in>set (tenantsOf w). tnCode t = super \<and> tnID t = rlTenantID r)}"

definition copyMenus :: "roleRecord \<Rightarrow> roleRecord \<Rightarrow> roleRecord" where
  "copyMenus tmpl x = (if rlCode x = BASE_ROLE_CODE_TENANT then x\<lparr>rlMenus := rlMenus tmpl\<rparr> else x)"

lemma copyTo_all:
  assumes d: "distinct (map rlID roles)" and t: "tmpl \<in> set roles" and x: "x \<in> set roles"
  shows "copyTo tmpl (filter (\<lambda>r. rlCode r = BASE_ROLE_CODE_TENANT) roles) x = copyMenus tmpl x"
proof -
  have u: "\<And>y. y \<in> set roles \<Longrightarrow> rlID x = rlID y \<longleftrightarrow> x = y" using d x by (auto simp: distinct_map inj_on_def)
  have same: "x\<lparr>rlMenus := rlMenus x\<rparr> = x" by simp
  have "copyTo tmpl (filter (\<lambda>r. rlCode r = BASE_ROLE_CODE_TENANT) roles) x =
      (if rlCode x = BASE_ROLE_CODE_TENANT \<and> x \<noteq> tmpl \<and> rlMenus x \<noteq> rlMenus tmpl then x\<lparr>rlMenus := rlMenus tmpl\<rparr> else x)"
    unfolding copyTo_def using u x t by (auto intro!: if_cong)
  then show ?thesis using same by (auto simp: copyMenus_def)
qed

lemma no_template:
  assumes "distinct (map tnCode (tenantsOf w))" "t \<in> set (tenantsOf w)" "tnCode t = super"
    and "{r \<in> set (rolesOf w). rlTenantID r = tnID t \<and> rlCode r = BASE_ROLE_CODE_TENANT} = {}"
  shows "tenantTemplates super w = {}"
proof -
  have "x = t" if "x \<in> set (tenantsOf w)" "tnCode x = super" for x
    using assms(1-3) that by (auto simp: distinct_map inj_on_def)
  then show ?thesis using assms(4) by (auto simp: tenantTemplates_def)
qed

lemma SyncTenantRoleMenus_view:
  assumes laws: "permLaws st api v" "txLaws tx" and d: "distinct (map rlID (rolesOf (v s)))"
    and codes: "distinct (map tnCode (tenantsOf (v s)))"
    and run: "SyncTenantRoleMenus tx st super s = (Inr u, s')"
  shows "if tenantTemplates super (v s) = {} then v s' = v s
       else \<exists>tmpl\<in>tenantTemplates super (v s). v s' = (v s)\<lparr>rolesOf := map (copyMenus tmpl) (rolesOf (v s))\<rparr>"
proof (cases "FindTenantByCode st s super")
  case (Inl e)
  then have nf: "isNotFound e" and s': "s' = s" using run by (auto simp: SyncTenantRoleMenus_def split: if_splits)
  have "{t \<in> set (tenantsOf (v s)). tnCode t = super} = {}" using findsD(2) [OF permLawsD(1) [OF laws(1)] Inl nf] .
  then have "tenantTemplates super (v s) = {}" by (auto simp: tenantTemplates_def)
  then show ?thesis using s' by simp
next
  case (Inr tenant)
  have tn: "tenant \<in> set (tenantsOf (v s))" "tnCode tenant = super"
    using findsD(1) [OF permLawsD(1) [OF laws(1)] Inr] by auto
  show ?thesis
  proof (cases "FindRoleByTenantIDAndCode st s (tnID tenant) BASE_ROLE_CODE_TENANT")
    case Inl': (Inl e)
    then have nf: "isNotFound e" and s': "s' = s" using run Inr by (auto simp: SyncTenantRoleMenus_def split: if_splits)
    have "tenantTemplates super (v s) = {}"
      by (rule no_template [OF codes tn]) (rule findsD(2) [OF permLawsD(2) [OF laws(1)] Inl' nf])
    then show ?thesis using s' by simp
  next
    case tmpl: (Inr tmpl)
    have tm: "tmpl \<in> set (rolesOf (v s))" "rlTenantID tmpl = tnID tenant" "rlCode tmpl = BASE_ROLE_CODE_TENANT"
      using findsD(1) [OF permLawsD(2) [OF laws(1)] tmpl] by auto
    have "tx (reading (\<lambda>s. ListRolesByCode st s BASE_ROLE_CODE_TENANT) (updateCopies st tmpl)) s = (Inr u, s')"
      using run Inr tmpl by (simp add: SyncTenantRoleMenus_def)
    from tx_ok [OF laws(2) this] obtain rs where rs: "ListRolesByCode st s BASE_ROLE_CODE_TENANT = Inr rs"
      and up: "updateCopies st tmpl rs s = (Inr (), s')" by (auto simp: reading_ok)
    have "rs = filter (\<lambda>r. rlCode r = BASE_ROLE_CODE_TENANT) (rolesOf (v s))"
      using readsD [OF permLawsD(5) [OF laws(1)] rs] .
    then have "map (copyTo tmpl rs) (rolesOf (v s)) = map (copyMenus tmpl) (rolesOf (v s))"
      using copyTo_all [OF d tm(1)] by simp
    then have "v s' = (v s)\<lparr>rolesOf := map (copyMenus tmpl) (rolesOf (v s))\<rparr>"
      using updateCopies_view [OF laws(1) up] by simp
    moreover have "tmpl \<in> tenantTemplates super (v s)" using tm tn by (auto simp: tenantTemplates_def)
    ultimately show ?thesis by auto
  qed
qed

section \<open>The rule snapshot and the policies of memory\<close>

lemma map_of_filter_key: "P k \<Longrightarrow> map_of (filter (\<lambda>x. P (fst x)) xs) k = map_of xs k"
  by (induction xs) auto

lemma menuOperations_filter:
  assumes "i \<in> set ids"
  shows "menuOperationsByID operations (filter (\<lambda>m. mnID m \<in> set ids) menus) i = menuOperationsByID operations menus i"
proof -
  have "rev (map (\<lambda>m. (mnID m, operations (mnAPI m))) (filter (\<lambda>m. mnID m \<in> set ids) menus)) =
      filter (\<lambda>x. fst x \<in> set ids) (rev (map (\<lambda>m. (mnID m, operations (mnAPI m))) menus))"
    by (induction menus) auto
  then show ?thesis unfolding menuOperationsByID_def by (simp only: map_of_filter_key [of "\<lambda>k. k \<in> set ids", OF assms])
qed

lemma grant_filter:
  assumes "\<And>role i. role \<in> set roles \<Longrightarrow> i \<in> set (menuIDs (rlMenus role)) \<Longrightarrow> i \<in> set ids"
  shows "grant menuIDs operations roles tenants (filter (\<lambda>m. mnID m \<in> set ids) menus) apis t r op m
     = grant menuIDs operations roles tenants menus apis t r op m"
  unfolding grant_def using menuOperations_filter [OF assms] by (intro bex_cong refl conj_cong) auto

definition viewNulFree :: "permView \<Rightarrow> bool" where
  "viewNulFree w \<longleftrightarrow> (\<forall>x\<in>set (tenantsOf w). nulFree (tnCode x)) \<and> (\<forall>x\<in>set (rolesOf w). nulFree (rlCode x))
     \<and> (\<forall>x\<in>set (apisOf w). nulFree (plOperation x))"

definition grants :: "(string \<Rightarrow> int list) \<Rightarrow> (string \<Rightarrow> string list) \<Rightarrow> permView \<Rightarrow> policyRecord set" where
  "grants menuIDs operations w =
     {policy t r op m | t r op m. grant menuIDs operations (rolesOf w) (tenantsOf w) (menusOf w) (apisOf w) t r op m}"

lemma RebuildPolicyData_view:
  assumes laws: "permLaws st api v" and nul: "viewNulFree (v s)"
    and run: "RebuildPolicyData st api menuIDs operations s = (Inr u, s')"
  shows "\<exists>ps. v s' = (v s)\<lparr>policiesOf := ps\<rparr> \<and> set ps = grants menuIDs operations (v s)"
proof -
  obtain roles tenants menus apis where l: "ListRoles st s = Inr roles" "ListTenants st s = Inr tenants"
    "ListMenusByIDs st s (remdups (concat (map (\<lambda>r. menuIDs (rlMenus r)) roles))) = Inr menus" "ListForPolicy api s = Inr apis"
    and w: "ReplacePolicies st (buildCasbinRuleList menuIDs operations roles tenants menus apis) s = (Inr u, s')"
    using run by (auto simp: RebuildPolicyData_def reading_ok)
  note D = permLawsD [OF laws]
  have e: "roles = rolesOf (v s)" "tenants = tenantsOf (v s)" "apis = apisOf (v s)"
    using readsD [OF D(4) l(1)] readsD [OF D(3) l(2)] readsD [OF D(8) l(4)] by simp_all
  have m: "menus = filter (\<lambda>m. mnID m \<in> set (remdups (concat (map (\<lambda>r. menuIDs (rlMenus r)) roles)))) (menusOf (v s))"
    using readsD [OF D(6) l(3)] .
  have "v s' = (v s)\<lparr>policiesOf := buildCasbinRuleList menuIDs operations roles tenants menus apis\<rparr>"
    using writesD [OF D(10) w] .
  moreover have "set (buildCasbinRuleList menuIDs operations roles tenants menus apis) = grants menuIDs operations (v s)"
  proof -
    have ids: "role \<in> set roles \<Longrightarrow> i \<in> set (menuIDs (rlMenus role)) \<Longrightarrow>
        i \<in> set (remdups (concat (map (\<lambda>r. menuIDs (rlMenus r)) roles)))" for role i by auto
    have "set (buildCasbinRuleList menuIDs operations roles tenants menus apis) =
        {policy t r op m | t r op m. grant menuIDs operations roles tenants menus apis t r op m}"
      by (rule set_buildCasbinRuleList) (use nul e in \<open>auto simp: viewNulFree_def\<close>)
    moreover have "grant menuIDs operations roles tenants menus apis t r op m =
        grant menuIDs operations roles tenants (menusOf (v s)) apis t r op m" for t r op m
      unfolding m by (rule grant_filter [OF ids])
    ultimately show ?thesis unfolding grants_def e [symmetric] by simp
  qed
  ultimately show ?thesis by blast
qed

definition superPolicies :: "string \<Rightarrow> permView \<Rightarrow> policyRecord set" where
  "superPolicies super w = (\<lambda>a. policy super BASE_ROLE_CODE_SUPER (plOperation a) (plMethod a)) ` set (apisOf w)"

definition engineLaws :: "(policyRecord list \<Rightarrow> 'g action) \<Rightarrow> ('g \<Rightarrow> policyRecord list) \<Rightarrow> bool" where
  "engineLaws setPolicies mem \<longleftrightarrow> (\<forall>ps. writes (setPolicies ps) mem (\<lambda>_. ps))"

lemma engineD: "engineLaws setPolicies mem \<Longrightarrow> setPolicies ps g = (Inr u, g') \<Longrightarrow> mem g' = ps"
  by (simp add: engineLaws_def writes_def)

lemma RefreshPolicy_memory:
  assumes "permLaws st api v" "engineLaws setPolicies mem"
    and "RefreshPolicy st api super (Some setPolicies) s g = (Inr u, g')"
  shows "set (mem g') = superPolicies super (v s) \<union> {p \<in> set (policiesOf (v s)). completePolicy p}"
proof -
  obtain apis rules where l: "ListForPolicy api s = Inr apis" "ListPolicies st s = Inr rules"
    and w: "setPolicies (map (\<lambda>a. policy super BASE_ROLE_CODE_SUPER (plOperation a) (plMethod a)) apis
             @ filter completePolicy rules) g = (Inr u, g')"
    using assms(3) by (auto simp: RefreshPolicy_def split: sum.splits)
  have "apis = apisOf (v s)" "rules = policiesOf (v s)"
    using readsD [OF permLawsD(8) [OF assms(1)] l(1)] readsD [OF permLawsD(7) [OF assms(1)] l(2)] by simp_all
  moreover have "mem g' = map (\<lambda>a. policy super BASE_ROLE_CODE_SUPER (plOperation a) (plMethod a)) apis @ filter completePolicy rules"
    by (rule engineD [OF assms(2) w])
  ultimately show ?thesis by (auto simp: superPolicies_def)
qed

section \<open>The whole synchronisation\<close>

text \<open>What the body of the transaction makes of the store.\<close>

definition synced ::
  "(string \<Rightarrow> int list) \<Rightarrow> (string \<Rightarrow> string list) \<Rightarrow> string \<Rightarrow> apiRecord list \<Rightarrow> apiTranslation list
    \<Rightarrow> permView \<Rightarrow> permView \<Rightarrow> bool" where
  "synced menuIDs operations super items translations w w' \<longleftrightarrow>
     apisOf w' = map apiPolicyOf items \<and> translationsOf w' = translations
   \<and> tenantsOf w' = tenantsOf w \<and> menusOf w' = menusOf w
   \<and> (if tenantTemplates super w = {} then rolesOf w' = rolesOf w
      else \<exists>tmpl\<in>tenantTemplates super w. rolesOf w' = map (copyMenus tmpl) (rolesOf w))
   \<and> set (policiesOf w') = grants menuIDs operations w'"

lemma syncBody_view:
  assumes laws: "permLaws st api v" "txLaws tx"
    and d: "distinct (map rlID (rolesOf (v s)))" "distinct (map tnCode (tenantsOf (v s)))"
    and nul: "\<forall>x\<in>set (tenantsOf (v s)). nulFree (tnCode x)" "\<forall>x\<in>set (rolesOf (v s)). nulFree (rlCode x)"
      "\<forall>a\<in>set items. nulFree (Operation a)"
    and run: "syncBody tx st api menuIDs operations super items translations s = (Inr u, s')"
  shows "synced menuIDs operations super items translations (v s) (v s')"
proof -
  obtain s1 s2 s3 where r: "ReplaceAll api items s = (Inr (), s1)" "ReplaceAllTranslations api translations s1 = (Inr (), s2)"
    "SyncTenantRoleMenus tx st super s2 = (Inr (), s3)" "RebuildPolicyData st api menuIDs operations s3 = (Inr (), s')"
    using run by (auto simp: syncBody_def action_ok)
  have v2: "v s2 = (v s)\<lparr>apisOf := map apiPolicyOf items, translationsOf := translations\<rparr>"
    using writesD [OF permLawsD(11) [OF laws(1)] r(1)] writesD [OF permLawsD(12) [OF laws(1)] r(2)] by simp
  have "distinct (map rlID (rolesOf (v s2)))" "distinct (map tnCode (tenantsOf (v s2)))" using d v2 by simp_all
  note roles = SyncTenantRoleMenus_view [OF laws this r(3)]
  have v3: "apisOf (v s3) = map apiPolicyOf items" "translationsOf (v s3) = translations"
    "tenantsOf (v s3) = tenantsOf (v s)" "menusOf (v s3) = menusOf (v s)"
    using roles v2 by (auto split: if_splits)
  have t2: "tenantTemplates super (v s2) = tenantTemplates super (v s)" using v2 by (simp add: tenantTemplates_def)
  have r3: "if tenantTemplates super (v s) = {} then rolesOf (v s3) = rolesOf (v s)
      else \<exists>tmpl\<in>tenantTemplates super (v s). rolesOf (v s3) = map (copyMenus tmpl) (rolesOf (v s))"
    using roles v2 t2 by (auto split: if_splits)
  have "\<forall>x\<in>set (rolesOf (v s3)). nulFree (rlCode x)" 
  proof -
    have "rlCode (copyMenus tmpl x) = rlCode x" for tmpl x by (simp add: copyMenus_def)
    then show ?thesis using r3 nul(2) by (auto split: if_splits)
  qed
  then have "viewNulFree (v s3)" using v3 nul by (auto simp: viewNulFree_def apiPolicyOf_def)
  from RebuildPolicyData_view [OF laws(1) this r(4)] obtain ps where
    ps: "v s' = (v s3)\<lparr>policiesOf := ps\<rparr>" "set ps = grants menuIDs operations (v s3)" by blast
  then show ?thesis using v3 r3 by (simp add: synced_def grants_def)
qed

text \<open>C4.
  Start-up synchronisation, end to end.  When it succeeds, the stored interfaces and translations
  are the ones of the documents; every tenant-administrator role has the menus of the default
  tenant's template if there is one, and no role has changed if there is none (role ids and tenant codes
  being unique); the stored rules are exactly the grants of the resulting
  tables, and the authorization engine holds exactly: every interface for the super role of the
  default tenant, and every grant whose parts are all non-empty.  So no policy survives for an
  interface the documents no longer declare.\<close>
theorem sync_policies:
  assumes "permLaws st api v" "txLaws tx" "engineLaws setPolicies mem"
    and "distinct (map rlID (rolesOf (v s)))" "distinct (map tnCode (tenantsOf (v s)))"
    and "\<forall>x\<in>set (tenantsOf (v s)). nulFree (tnCode x)" "\<forall>x\<in>set (rolesOf (v s)). nulFree (rlCode x)"
    and "mapR (\<lambda>d. toAPIs (doc_data d)) documents = Inr itemLists"
    and "\<forall>items\<in>set itemLists. \<forall>a\<in>set items. nulFree (Operation a)"
    and "sync toAPIs tx st api menuIDs operations super (Some setPolicies) documents translations (s, g) = (Inr n, s', g')"
  shows "n = length (concat itemLists)
     \<and> synced menuIDs operations super (concat itemLists) translations (v s) (v s')
     \<and> set (mem g') = superPolicies super (v s') \<union> {p \<in> grants menuIDs operations (v s'). completePolicy p}"
proof -
  let ?body = "syncBody tx st api menuIDs operations super (concat itemLists) translations"
  obtain u where tx: "tx ?body s = (Inr u, s')" and n: "n = length (concat itemLists)"
    and refresh: "RefreshPolicy st api super (Some setPolicies) s' g = (Inr (), g')"
    using assms(8,10) by (auto simp: sync_def split: prod.splits sum.splits)
  have sy: "synced menuIDs operations super (concat itemLists) translations (v s) (v s')"
    by (rule syncBody_view [OF assms(1,2,4-7) _ tx_ok [OF assms(2) tx]]) (use assms(9) in auto)
  show ?thesis using RefreshPolicy_memory [OF assms(1,3) refresh] sy n by (simp add: synced_def)
qed

text \<open>C16.
  A synchronisation that fails leaves the store and the policies of memory as they were (a document
  that does not parse, or any failing step of the transaction, late ones included), unless only the
  final refresh of the memory policies failed, after the transaction had committed its whole body.\<close>
theorem sync_failure:
  assumes "txLaws tx"
    and "sync toAPIs tx st api menuIDs operations super writer documents translations (s, g) = (Inl e, s', g')"
  shows "s' = s \<and> g' = g
     \<or> (\<exists>e' itemLists. e = Wrapped ''refresh'' e' \<and> mapR (\<lambda>d. toAPIs (doc_data d)) documents = Inr itemLists
        \<and> syncBody tx st api menuIDs operations super (concat itemLists) translations s = (Inr (), s'))"
proof (cases "mapR (\<lambda>d. toAPIs (doc_data d)) documents")
  case (Inl x)
  then show ?thesis using assms(2) by (simp add: sync_def)
next
  case (Inr itemLists)
  let ?body = "syncBody tx st api menuIDs operations super (concat itemLists) translations"
  obtain r s1 where tx: "tx ?body s = (r, s1)" by fastforce
  show ?thesis
  proof (cases r)
    case (Inl x)
    then show ?thesis using assms(2) Inr tx tx_fail [OF assms(1), of ?body s] by (auto simp: sync_def)
  next
    case r: (Inr u)
    have "?body s = (Inr (), s1)" using tx_ok [OF assms(1)] tx r by blast
    then show ?thesis using assms(2) Inr tx r
      by (auto simp: sync_def split: prod.splits sum.splits)
  qed
qed

section \<open>A store kept in memory\<close>

text \<open>The laws hold of a store that is its own view, and of transactions that keep the old state.\<close>

definition findFirst :: "('x \<Rightarrow> bool) \<Rightarrow> 'x list \<Rightarrow> (permErr, 'x) result" where
  "findFirst P xs = (case List.find P xs of None \<Rightarrow> Inl RecordNotFound | Some x \<Rightarrow> Inr x)"

definition viewStore :: "permView permStore" where
  "viewStore = \<lparr>
     FindTenantByCode = (\<lambda>w c. findFirst (\<lambda>t. tnCode t = c) (tenantsOf w)),
     ListTenants = (\<lambda>w. Inr (tenantsOf w)),
     FindRoleByTenantIDAndCode = (\<lambda>w i c. findFirst (\<lambda>r. rlTenantID r = i \<and> rlCode r = c) (rolesOf w)),
     ListRoles = (\<lambda>w. Inr (rolesOf w)),
     ListRolesByCode = (\<lambda>w c. Inr (filter (\<lambda>r. rlCode r = c) (rolesOf w))),
     UpdateRoleMenus = (\<lambda>r w. (Inr (), w\<lparr>rolesOf := map (setMenus r) (rolesOf w)\<rparr>)),
     ListMenusByIDs = (\<lambda>w ids. Inr (filter (\<lambda>m. mnID m \<in> set ids) (menusOf w))),
     ListPolicies = (\<lambda>w. Inr (policiesOf w)),
     ReplacePolicies = (\<lambda>ps w. (Inr (), w\<lparr>policiesOf := ps\<rparr>))\<rparr>"

definition viewApis :: "permView apiStore" where
  "viewApis = \<lparr>
     ReplaceAll = (\<lambda>as w. (Inr (), w\<lparr>apisOf := map apiPolicyOf as\<rparr>)),
     ReplaceAllTranslations = (\<lambda>ts w. (Inr (), w\<lparr>translationsOf := ts\<rparr>)),
     ListForPolicy = (\<lambda>w. Inr (apisOf w))\<rparr>"

definition rollbackTx :: "'s action \<Rightarrow> 's action" where
  "rollbackTx a s = (case a s of (Inl e, _) \<Rightarrow> (Inl e, s) | (Inr u, s') \<Rightarrow> (Inr u, s'))"

lemma findFirst_finds: "finds (\<lambda>w. findFirst P (f w)) (\<lambda>w. {x \<in> set (f w). P x})"
  by (auto simp: finds_def findFirst_def find_None_iff dest: find_SomeD split: option.splits)

lemma viewStore_laws: "permLaws viewStore viewApis (\<lambda>w. w)"
  by (simp add: permLaws_def viewStore_def viewApis_def findFirst_finds reads_def writes_def)

lemma rollbackTx_laws: "txLaws rollbackTx"
  by (auto simp: txLaws_def rollbackTx_def split: prod.splits sum.splits)

definition exampleView :: permView where
  "exampleView = \<lparr>
     tenantsOf = [\<lparr>tnID = 1, tnCode = ''default''\<rparr>, \<lparr>tnID = 2, tnCode = ''acme''\<rparr>],
     rolesOf = [\<lparr>rlID = 1, rlTenantID = 1, rlCode = ''tenant'', rlMenus = ''m''\<rparr>,
                \<lparr>rlID = 2, rlTenantID = 2, rlCode = ''tenant'', rlMenus = []\<rparr>],
     menusOf = [\<lparr>mnID = 10, mnAPI = []\<rparr>], policiesOf = [policy ''acme'' ''tenant'' ''/old'' ''GET''],
     apisOf = [\<lparr>plOperation = ''/old'', plMethod = ''GET''\<rparr>], translationsOf = []\<rparr>"

definition exampleRecord :: apiRecord where
  "exampleRecord = \<lparr>ToolName = [], ToolPrompts = [], ServiceName = [], ServiceDesc = [], Desc = [],
     Operation = ''/a'', Method = ''GET'', Path = [], McpStatus = 1, AgentStatus = 1\<rparr>"

definition exampleSync :: "(policyRecord list \<Rightarrow> policyRecord list action) option
    \<Rightarrow> (permErr, nat) result \<times> permView \<times> policyRecord list" where
  "exampleSync writer = sync (\<lambda>_. Inr [exampleRecord]) rollbackTx viewStore viewApis
     (\<lambda>m. if m = [] then [] else [10]) (\<lambda>_. [''/a'', ''/old'']) ''default'' writer
     [\<lparr>doc_key = ''k'', doc_name = ''n'', doc_locale = [], doc_data = ''d''\<rparr>] [] (exampleView, [])"

text \<open>The role of the second tenant gets the template's menus and with them the new interface; the
  rule for the old interface is gone.\<close>

lemma exampleSync_result:
  "exampleSync (Some (\<lambda>ps _. (Inr (), ps))) =
     (Inr 1, exampleView\<lparr>
        rolesOf := [\<lparr>rlID = 1, rlTenantID = 1, rlCode = ''tenant'', rlMenus = ''m''\<rparr>,
                    \<lparr>rlID = 2, rlTenantID = 2, rlCode = ''tenant'', rlMenus = ''m''\<rparr>],
        policiesOf := [policy ''default'' ''tenant'' ''/a'' ''GET'', policy ''acme'' ''tenant'' ''/a'' ''GET''],
        apisOf := [\<lparr>plOperation = ''/a'', plMethod = ''GET''\<rparr>]\<rparr>,
      [policy ''default'' ''super'' ''/a'' ''GET'', policy ''default'' ''tenant'' ''/a'' ''GET'',
       policy ''acme'' ''tenant'' ''/a'' ''GET''])"
  by code_simp

theorem sync_policies_witness:
  "\<exists>n w' g'. exampleSync (Some (\<lambda>ps _. (Inr (), ps))) = (Inr n, w', g') \<and> n = 1
     \<and> set g' = superPolicies ''default'' w' \<union>
        {p \<in> grants (\<lambda>m. if m = [] then [] else [10]) (\<lambda>_. [''/a'', ''/old'']) w'. completePolicy p}"
proof -
  obtain w' g' where run: "exampleSync (Some (\<lambda>ps _. (Inr (), ps))) = (Inr 1, w', g')"
    using exampleSync_result by blast
  have "distinct (map rlID (rolesOf exampleView))" "distinct (map tnCode (tenantsOf exampleView))"
    "\<forall>x\<in>set (tenantsOf exampleView). nulFree (tnCode x)" "\<forall>x\<in>set (rolesOf exampleView). nulFree (rlCode x)"
    "nulFree (Operation exampleRecord)"
    by (simp_all add: exampleView_def exampleRecord_def nulFree_def apiNUL_def)
  note pre = this
  have "engineLaws (\<lambda>ps (_ :: policyRecord list). (Inr (), ps)) (\<lambda>g. g)" by (simp add: engineLaws_def writes_def)
  from sync_policies [OF viewStore_laws rollbackTx_laws this pre(1-4) _ _ run [unfolded exampleSync_def]] pre(5)
  show ?thesis using run by auto
qed

text \<open>A store whose last write fails half way: the transaction undoes it.\<close>

definition failingStore :: "permView permStore" where
  "failingStore = viewStore\<lparr>ReplacePolicies := (\<lambda>ps w. (Inl (StoreError ''disk''), w\<lparr>policiesOf := []\<rparr>))\<rparr>"

definition failingSync :: "(permErr, nat) result \<times> permView \<times> policyRecord list" where
  "failingSync = sync (\<lambda>_. Inr [exampleRecord]) rollbackTx failingStore viewApis
     (\<lambda>m. if m = [] then [] else [10]) (\<lambda>_. [''/a'', ''/old'']) ''default'' (Some (\<lambda>ps _. (Inr (), ps)))
     [\<lparr>doc_key = ''k'', doc_name = ''n'', doc_locale = [], doc_data = ''d''\<rparr>] [] (exampleView, [])"

theorem sync_failure_witness:
  "failingSync = (Inl (Wrapped ''transaction'' (Wrapped ''rebuild rules'' (StoreError ''disk''))), exampleView, [])"
proof -
  have "fst failingSync = Inl (Wrapped ''transaction'' (Wrapped ''rebuild rules'' (StoreError ''disk'')))"
    by code_simp
  then obtain w' g' where run: "failingSync =
      (Inl (Wrapped ''transaction'' (Wrapped ''rebuild rules'' (StoreError ''disk''))), w', g')"
    by (metis prod.collapse)
  from sync_failure [OF rollbackTx_laws run [unfolded failingSync_def]] show ?thesis using run by simp
qed

end
