(* ===== verification/Queue.thy ===== *)
theory Queue
  imports LogPipeline
begin

text \<open>
  Model of \<open>queue\<close>: appending, scheduling and cancelling messages, decoding them, and the server
  that registers the consumers.  The adapter is the record \<open>queueOps\<close> over its state \<open>'s\<close> (its
  optional interfaces for delayed messages are options), JSON is the pair of functions \<open>marshal\<close>
  and \<open>unmarshal\<close>, and \<open>'o\<close> is any Go value that is neither text nor bytes.
\<close>

section \<open>Messages\<close>

datatype 'o queueValue = NilValue | TextValue string | BytesValue string | AnyValue 'o

record 'o queueMsg =
  qg_id :: string
  qg_values :: "string \<rightharpoonup> 'o queueValue"

datatype queueErr =
  MissingData | EmptyData | MarshalFailed string | UnmarshalFailed string | NotInitialised | NotDelayed
| BuildFailed string | ContextEnded string | AdapterError string
| NilAdapter | EmptyStream | NilConsumer string | CreateFailed string | StoreError string

definition Decode ::
  "('o \<Rightarrow> (string, string) result) \<Rightarrow> (string \<Rightarrow> (string, 't) result) \<Rightarrow> 'o queueMsg \<Rightarrow> (queueErr, 't) result" where
  "Decode marshal unmarshal message =
     (case qg_values message ''data'' of
        None \<Rightarrow> Inl MissingData
      | Some NilValue \<Rightarrow> Inl MissingData
      | Some raw \<Rightarrow>
          bindR (case raw of
              TextValue t \<Rightarrow> Inr t
            | BytesValue b \<Rightarrow> Inr b
            | AnyValue v \<Rightarrow> (case marshal v of Inl e \<Rightarrow> Inl (MarshalFailed e) | Inr b \<Rightarrow> Inr b)
            | NilValue \<Rightarrow> Inl MissingData)
          (\<lambda>data. let data = trim_space data in
             if length data = 0 \<or> data = ''null'' then Inl EmptyData
             else (case unmarshal data of Inl e \<Rightarrow> Inl (UnmarshalFailed e) | Inr value \<Rightarrow> Inr value)))"

section \<open>Producing\<close>

record ('o, 's) queueOps =
  qo_append :: "string \<Rightarrow> 'o queueMsg \<Rightarrow> 's \<Rightarrow> string option \<times> 's"
  qo_schedule :: "(string \<Rightarrow> 'o queueMsg \<Rightarrow> int \<Rightarrow> 's \<Rightarrow> string option \<times> 's) option"
  qo_cancel :: "(string \<Rightarrow> string \<Rightarrow> 's \<Rightarrow> string option \<times> 's) option"

definition queueBody :: "string \<Rightarrow> string \<Rightarrow> 'o queueMsg" where
  "queueBody messageID rawBody = \<lparr>qg_id = messageID, qg_values = [''data'' \<mapsto> TextValue rawBody]\<rparr>"

definition adapterResult :: "string option \<times> 's \<Rightarrow> queueErr option \<times> 's" where
  "adapterResult r = (case r of (e, s) \<Rightarrow> (map_option AdapterError e, s))"

definition AddQueue ::
  "('v \<Rightarrow> (string, string) result) \<Rightarrow> ('o, 's) queueOps option \<Rightarrow> string \<Rightarrow> 'v \<Rightarrow> 's \<Rightarrow> bool \<times> 's" where
  "AddQueue marshal queue queueName value s = (case queue of
      None \<Rightarrow> (False, s)
    | Some q \<Rightarrow> (case marshal value of
        Inl _ \<Rightarrow> (False, s)
      | Inr rawBody \<Rightarrow> (case qo_append q queueName (queueBody [] rawBody) s of
          (Some _, s') \<Rightarrow> (False, s')
        | (None, s') \<Rightarrow> (True, s'))))"

text \<open>\<open>ctxErr\<close> is the error of the context when it is done.\<close>

definition ScheduleQueue ::
  "('v \<Rightarrow> (string, string) result) \<Rightarrow> ('o, 's) queueOps option \<Rightarrow> string option \<Rightarrow> string \<Rightarrow> string \<Rightarrow> int \<Rightarrow> 'v \<Rightarrow> 's
    \<Rightarrow> queueErr option \<times> 's" where
  "ScheduleQueue marshal queue ctxErr queueName messageID executeAt value s = (case queue of
      None \<Rightarrow> (Some NotInitialised, s)
    | Some q \<Rightarrow> (case qo_schedule q of
        None \<Rightarrow> (Some NotDelayed, s)
      | Some schedule \<Rightarrow> (case marshal value of
          Inl e \<Rightarrow> (Some (BuildFailed e), s)
        | Inr rawBody \<Rightarrow> (case ctxErr of
            Some e \<Rightarrow> (Some (ContextEnded e), s)
          | None \<Rightarrow> adapterResult (schedule queueName (queueBody messageID rawBody) executeAt s)))))"

definition CancelQueue ::
  "('o, 's) queueOps option \<Rightarrow> string option \<Rightarrow> string \<Rightarrow> string \<Rightarrow> 's \<Rightarrow> queueErr option \<times> 's" where
  "CancelQueue queue ctxErr queueName messageID s = (case queue of
      None \<Rightarrow> (Some NotInitialised, s)
    | Some q \<Rightarrow> (case qo_cancel q of
        None \<Rightarrow> (Some NotDelayed, s)
      | Some cancel \<Rightarrow> (case ctxErr of
          Some e \<Rightarrow> (Some (ContextEnded e), s)
        | None \<Rightarrow> adapterResult (cancel queueName messageID s))))"

section \<open>The server\<close>

definition JOB_LOG :: string where "JOB_LOG = ''job_log_queue''"

record 'h consumer =
  co_stream :: string
  co_handler :: "'h option"

datatype 'h registration = JobLogHandler | LogHandler | HostHandler 'h

fun checkConsumers :: "'h consumer list \<Rightarrow> queueErr option" where
  "checkConsumers [] = None"
| "checkConsumers (c # cs) =
     (if co_stream c = [] then Some EmptyStream
      else if co_handler c = None then Some (NilConsumer (co_stream c))
      else checkConsumers cs)"

text \<open>The server is what the transport's \<open>NewServer\<close> creates, with the handlers in the order in
  which they are registered.\<close>

definition NewServer ::
  "'q option \<Rightarrow> ('q \<Rightarrow> (string, 'srv) result) \<Rightarrow> 'h consumer list
    \<Rightarrow> (queueErr, 'srv \<times> (string \<times> 'h registration) list) result" where
  "NewServer queue create consumers = (case queue of
      None \<Rightarrow> Inl NilAdapter
    | Some q \<Rightarrow> (case checkConsumers consumers of
        Some e \<Rightarrow> Inl e
      | None \<Rightarrow> (case create q of
          Inl e \<Rightarrow> Inl (CreateFailed e)
        | Inr server \<Rightarrow> Inr (server, [(JOB_LOG, JobLogHandler), (LogEventStream, LogHandler)]
            @ map (\<lambda>c. (co_stream c, HostHandler (the (co_handler c)))) consumers))))"

text \<open>\<open>Start\<close> and \<open>Stop\<close> of a missing server do nothing.\<close>

definition serverCall :: "'srv option option \<Rightarrow> ('srv \<Rightarrow> string option) \<Rightarrow> string option" where
  "serverCall s call = (case s of None \<Rightarrow> None | Some None \<Rightarrow> None | Some (Some srv) \<Rightarrow> call srv)"

section \<open>The job log consumer\<close>

text \<open>
  The consumer of job logs assigns the result of \<open>Decode\<close> to the variable \<open>err\<close> of \<open>NewServer\<close>,
  which all its runs share.  A run decodes (one step: its entity, and the shared variable), then
  reads the shared variable, then stores the entity; dereferencing a missing entity panics.
\<close>

datatype ('o, 't) logRun =
  RunStart "'o queueMsg" | RunDecoded "'t option" | RunStore "'t option"
| RunReturned "queueErr option" | RunPanicked

record ('o, 't, 's) logRuns =
  lr_err :: "queueErr option"
  lr_runs :: "('o, 't) logRun list"
  lr_store :: 's

definition runStep ::
  "('o queueMsg \<Rightarrow> (queueErr, 't) result) \<Rightarrow> ('t \<Rightarrow> 's \<Rightarrow> string option \<times> 's) \<Rightarrow> nat
    \<Rightarrow> ('o, 't, 's) logRuns \<Rightarrow> ('o, 't, 's) logRuns" where
  "runStep decode createLog i st =
     (if length (lr_runs st) \<le> i then st
      else (case lr_runs st ! i of
          RunStart message \<Rightarrow> (case decode message of
              Inl e \<Rightarrow> st\<lparr>lr_err := Some e, lr_runs := (lr_runs st)[i := RunDecoded None]\<rparr>
            | Inr entity \<Rightarrow> st\<lparr>lr_err := None, lr_runs := (lr_runs st)[i := RunDecoded (Some entity)]\<rparr>)
        | RunDecoded entity \<Rightarrow> (case lr_err st of
              Some e \<Rightarrow> st\<lparr>lr_runs := (lr_runs st)[i := RunReturned (Some e)]\<rparr>
            | None \<Rightarrow> st\<lparr>lr_runs := (lr_runs st)[i := RunStore entity]\<rparr>)
        | RunStore None \<Rightarrow> st\<lparr>lr_runs := (lr_runs st)[i := RunPanicked]\<rparr>
        | RunStore (Some entity) \<Rightarrow> (case createLog entity (lr_store st) of
              (e, s) \<Rightarrow> st\<lparr>lr_runs := (lr_runs st)[i := RunReturned (map_option StoreError e)], lr_store := s\<rparr>)
        | _ \<Rightarrow> st))"

text \<open>A schedule says which run moves next.\<close>

definition runSchedule ::
  "('o queueMsg \<Rightarrow> (queueErr, 't) result) \<Rightarrow> ('t \<Rightarrow> 's \<Rightarrow> string option \<times> 's) \<Rightarrow> nat list
    \<Rightarrow> ('o, 't, 's) logRuns \<Rightarrow> ('o, 't, 's) logRuns" where
  "runSchedule decode createLog schedule st = fold (runStep decode createLog) schedule st"

section \<open>Round trip\<close>

text \<open>The text \<open>json.Marshal\<close> returns is one JSON value, with no white space around it.  That it is read
  back as the value it was made from is not promised (a string that is no UTF-8 is changed, a field that
  is not exported is dropped), and not assumed.\<close>

definition compactJson :: "('v \<Rightarrow> (string, string) result) \<Rightarrow> bool" where
  "compactJson marshal \<longleftrightarrow> (\<forall>v b. marshal v = Inr b \<longrightarrow> trim_space b = b \<and> b \<noteq> [])"

text \<open>Adapters may hand a message on with its text as text, as bytes, or both.\<close>

definition carries :: "'o queueMsg \<Rightarrow> string \<Rightarrow> bool" where
  "carries message body \<longleftrightarrow> qg_values message ''data'' = Some (TextValue body) \<or> qg_values message ''data'' = Some (BytesValue body)"

lemma queueBody_carries: "carries (queueBody messageID body) body"
  by (simp add: carries_def queueBody_def)

lemma Decode_carried:
  assumes "compactJson marshal" "marshal v = Inr body" "carries message body"
  shows "Decode anyMarshal unmarshal message = (if body = ''null'' then Inl EmptyData
              else case unmarshal body of Inl e \<Rightarrow> Inl (UnmarshalFailed e) | Inr w \<Rightarrow> Inr w)"
proof -
  have "trim_space body = body" "body \<noteq> []" using assms(1,2) unfolding compactJson_def by blast+
  then show ?thesis using assms(3) by (auto simp: Decode_def carries_def Let_def)
qed

text \<open>C15.
  Messages reach the consumer as they were encoded.  When \<open>AddQueue\<close> reports success, or
  \<open>ScheduleQueue\<close> no error, the adapter accepted exactly one message for that stream, with the JSON text
  of the value; and \<open>Decode\<close> turns any message that carries this text, as text or as bytes, into what
  \<open>encoding/json\<close> reads from the text: the value that was sent if the value round-trips, the error of
  \<open>encoding/json\<close> if the text does not fit the consumer's type; except that \<open>null\<close> is refused as empty.\<close>
theorem queue_roundtrip:
  fixes q :: "('o, 's) queueOps"
  assumes "compactJson marshal"
  shows "(AddQueue marshal (Some q) stream v s = (True, s') \<longrightarrow>
      (\<exists>body. marshal v = Inr body \<and> qo_append q stream (queueBody [] body) s = (None, s')
        \<and> carries (queueBody [] body :: 'o queueMsg) body
        \<and> (\<forall>message :: 'o queueMsg. carries message body \<longrightarrow>
            Decode anyMarshal unmarshal message = (if body = ''null'' then Inl EmptyData
              else case unmarshal body of Inl e \<Rightarrow> Inl (UnmarshalFailed e) | Inr w \<Rightarrow> Inr w))))
    \<and> (ScheduleQueue marshal (Some q) ctxErr stream messageID executeAt v s = (None, s') \<longrightarrow>
      (\<exists>schedule body. qo_schedule q = Some schedule \<and> marshal v = Inr body \<and> ctxErr = None
        \<and> schedule stream (queueBody messageID body) executeAt s = (None, s')
        \<and> carries (queueBody messageID body :: 'o queueMsg) body
        \<and> (\<forall>message :: 'o queueMsg. carries message body \<longrightarrow>
            Decode anyMarshal unmarshal message = (if body = ''null'' then Inl EmptyData
              else case unmarshal body of Inl e \<Rightarrow> Inl (UnmarshalFailed e) | Inr w \<Rightarrow> Inr w))))"
proof (intro conjI impI)
  assume "AddQueue marshal (Some q) stream v s = (True, s')"
  then obtain body where "marshal v = Inr body" "qo_append q stream (queueBody [] body) s = (None, s')"
    by (auto simp: AddQueue_def split: sum.splits prod.splits option.splits)
  then show "\<exists>body. marshal v = Inr body \<and> qo_append q stream (queueBody [] body) s = (None, s')
        \<and> carries (queueBody [] body :: 'o queueMsg) body
        \<and> (\<forall>message :: 'o queueMsg. carries message body \<longrightarrow>
            Decode anyMarshal unmarshal message = (if body = ''null'' then Inl EmptyData
              else case unmarshal body of Inl e \<Rightarrow> Inl (UnmarshalFailed e) | Inr w \<Rightarrow> Inr w))"
    using Decode_carried [OF assms] queueBody_carries by (intro exI [of _ body]) blast
next
  assume "ScheduleQueue marshal (Some q) ctxErr stream messageID executeAt v s = (None, s')"
  then obtain schedule body where "qo_schedule q = Some schedule" "marshal v = Inr body" "ctxErr = None"
      "schedule stream (queueBody messageID body) executeAt s = (None, s')"
    by (auto simp: ScheduleQueue_def adapterResult_def split: sum.splits prod.splits option.splits)
  then show "\<exists>schedule body. qo_schedule q = Some schedule \<and> marshal v = Inr body \<and> ctxErr = None
        \<and> schedule stream (queueBody messageID body) executeAt s = (None, s')
        \<and> carries (queueBody messageID body :: 'o queueMsg) body
        \<and> (\<forall>message :: 'o queueMsg. carries message body \<longrightarrow>
            Decode anyMarshal unmarshal message = (if body = ''null'' then Inl EmptyData
              else case unmarshal body of Inl e \<Rightarrow> Inl (UnmarshalFailed e) | Inr w \<Rightarrow> Inr w))"
    using Decode_carried [OF assms] queueBody_carries by (intro exI [of _ schedule] exI [of _ body]) blast
qed

text \<open>A queue that keeps its messages, and numbers encoded in decimal.\<close>

definition exampleQueue :: "(unit, (string \<times> unit queueMsg) list) queueOps" where
  "exampleQueue = \<lparr>qo_append = (\<lambda>stream m s. (None, s @ [(stream, m)])), qo_schedule = None, qo_cancel = None\<rparr>"

definition exampleDecode :: "string \<Rightarrow> (string, nat) result" where
  "exampleDecode b = Inr (digits_val b)"

lemma trim_space_word:
  assumes "s \<noteq> []" "\<And>c. c \<in> set s \<Longrightarrow> \<not> is_space c"
  shows "trim_space s = s"
proof -
  have "dropWhile is_space s = s" "dropWhile is_space (rev s) = rev s"
    using assms hd_in_set [of s] hd_in_set [of "rev s"] by (auto simp: dropWhile_eq_self_iff)
  then show ?thesis by (simp add: trim_space_def)
qed

lemma exampleJson: "compactJson (\<lambda>n. Inr (dec n))"
proof -
  have "\<not> is_space c" if "is_digit c" for c
    using that by (auto simp: is_space_def is_digit_def)
  then have "\<not> is_space c" if "c \<in> set (dec n)" for n c
    using that dec_digits [of n] by (auto simp: list_all_iff)
  then have "trim_space (dec n) = dec n" for n by (intro trim_space_word) auto
  then show ?thesis by (simp add: compactJson_def)
qed

theorem queue_roundtrip_witness:
  "\<exists>s' body. AddQueue (\<lambda>n. Inr (dec n)) (Some exampleQueue) ''jobs'' 42 [] = (True, s')
     \<and> s' = [(''jobs'', queueBody [] body)] \<and> Decode (\<lambda>_. Inl []) exampleDecode (queueBody [] body :: unit queueMsg) = Inr (42 :: nat)"
proof -
  let ?s = "[(''jobs'', queueBody [] (dec 42) :: unit queueMsg)]"
  have add: "AddQueue (\<lambda>n. Inr (dec n)) (Some exampleQueue) ''jobs'' 42 [] = (True, ?s)"
    by (simp add: AddQueue_def exampleQueue_def)
  have "dec 42 \<noteq> ''null''" by code_simp
  moreover have "\<exists>body. (Inr (dec 42) :: (string, string) result) = Inr body
      \<and> (\<forall>message :: unit queueMsg. carries message body \<longrightarrow>
            Decode (\<lambda>_. Inl []) exampleDecode message = (if body = ''null'' then Inl EmptyData
              else case exampleDecode body of Inl e \<Rightarrow> Inl (UnmarshalFailed e) | Inr w \<Rightarrow> Inr w))"
    using queue_roundtrip [OF exampleJson, of exampleQueue "''jobs''" 42 "[]" ?s] add by blast
  ultimately have "Decode (\<lambda>_. Inl []) exampleDecode (queueBody [] (dec 42) :: unit queueMsg) = Inr 42"
    by (auto simp: queueBody_carries exampleDecode_def digits_val_dec)
  with add show ?thesis by blast
qed

section \<open>The shared error variable\<close>

lemma run_alone:
  assumes "i < length (lr_runs st)" "lr_runs st ! i = RunStart message"
  shows "lr_runs (runSchedule decode createLog [i, i, i] st) = (lr_runs st)[i := RunReturned (case decode message of
      Inl e \<Rightarrow> Some e | Inr entity \<Rightarrow> map_option StoreError (fst (createLog entity (lr_store st))))]
    \<and> lr_store (runSchedule decode createLog [i, i, i] st) = (case decode message of
      Inl e \<Rightarrow> lr_store st | Inr entity \<Rightarrow> snd (createLog entity (lr_store st)))"
  using assms by (cases "decode message") (auto simp: runSchedule_def runStep_def split: prod.splits)

text \<open>C35.
  The consumer of job logs is not safe to run twice at a time.  Run one after the other, a message
  that cannot be decoded returns its error and stores nothing, and a good one is stored.  But the
  runs share the variable \<open>err\<close>: if the good message is decoded between the decoding of the bad one
  and its check, the bad run sees no error and dereferences the entity it does not have.\<close>
theorem jobLog_shared_error:
  assumes "decode bad = Inl e" "decode good = Inr entity" "createLog entity s = (None, s')"
  shows "runSchedule decode createLog [0, 0, 0, 1, 1, 1] \<lparr>lr_err = None, lr_runs = [RunStart bad, RunStart good], lr_store = s\<rparr>
      = \<lparr>lr_err = None, lr_runs = [RunReturned (Some e), RunReturned None], lr_store = s'\<rparr>
    \<and> runSchedule decode createLog [0, 1, 0, 0] \<lparr>lr_err = None, lr_runs = [RunStart bad, RunStart good], lr_store = s\<rparr>
      = \<lparr>lr_err = None, lr_runs = [RunPanicked, RunDecoded (Some entity)], lr_store = s\<rparr>"
  using assms by (simp add: runSchedule_def runStep_def)

theorem jobLog_shared_error_witness:
  "lr_runs (runSchedule (Decode (\<lambda>_. Inl []) exampleDecode) (\<lambda>n s. (None, s @ [n])) [0, 1, 0, 0]
     \<lparr>lr_err = None, lr_runs = [RunStart (queueBody [] '' '' :: unit queueMsg), RunStart (queueBody [] ''7'')], lr_store = []\<rparr>)
   = [RunPanicked, RunDecoded (Some 7)]"
proof -
  have "Decode (\<lambda>_. Inl []) exampleDecode (queueBody [] '' '' :: unit queueMsg) = Inl EmptyData" by code_simp
  moreover have "Decode (\<lambda>_. Inl []) exampleDecode (queueBody [] ''7'' :: unit queueMsg) = Inr 7" by code_simp
  ultimately show ?thesis using jobLog_shared_error [where createLog = "\<lambda>n s. (None, s @ [n])" and s = "[]"] by fastforce
qed

end
