(* ===== verification/Resources.thy ===== *)
theory Resources
  imports Prelude
begin

text \<open>
  Model of \<open>module/module.go\<close>, \<open>module/resources.go\<close>, \<open>config/config.go\<close> and \<open>data/client.go\<close>: what the
  host's modules and resources contribute, the parts of the start-up configuration, and the creation of
  the database clients.  A Go map that the code ranges over is the list of its entries in the order of
  one iteration, with distinct keys.
\<close>

section \<open>Modules\<close>

record ('g, 'h, 'm) hostModule =
  hm_registerGRPC :: "'g \<Rightarrow> 'g"
  hm_registerHTTP :: "'h \<Rightarrow> 'h"
  hm_registerMCP :: "'m \<Rightarrow> 'm"

text \<open>A nil module is skipped.\<close>

definition onModules :: "(('g, 'h, 'm) hostModule \<Rightarrow> 's \<Rightarrow> 's) \<Rightarrow> ('g, 'h, 'm) hostModule option list \<Rightarrow> 's \<Rightarrow> 's" where
  "onModules register modules s = fold (\<lambda>m s. case m of None \<Rightarrow> s | Some x \<Rightarrow> register x s) modules s"

definition RegisterGRPC :: "('g, 'h, 'm) hostModule option list \<Rightarrow> 'g \<Rightarrow> 'g" where
  "RegisterGRPC modules registrar = onModules hm_registerGRPC modules registrar"

definition RegisterHTTP :: "('g, 'h, 'm) hostModule option list \<Rightarrow> 'h \<Rightarrow> 'h" where
  "RegisterHTTP modules server = onModules hm_registerHTTP modules server"

definition RegisterMCP :: "('g, 'h, 'm) hostModule option list \<Rightarrow> 'm \<Rightarrow> 'm" where
  "RegisterMCP modules server = onModules hm_registerMCP modules server"

section \<open>Resources\<close>

record ('v, 'f, 'n) hostResource =
  hr_projectKey :: string
  hr_projectName :: string
  hr_models :: "(string \<times> 'v list) list"
  hr_i18n :: "'f option"
  hr_openAPI :: "'f option"
  hr_migrations :: "'n list"

record 'f resourcesItem =
  ri_fs :: 'f
  ri_projectKey :: string
  ri_projectName :: string

definition valuesOf :: "(string \<rightharpoonup> 'v list) \<Rightarrow> string \<Rightarrow> 'v list" where
  "valuesOf m name = (case m name of None \<Rightarrow> [] | Some vs \<Rightarrow> vs)"

lemma valuesOf_upd [simp]: "valuesOf (m(n \<mapsto> vs)) k = (if k = n then vs else valuesOf m k)"
  by (simp add: valuesOf_def)

definition addModels :: "(string \<times> 'v list) list \<Rightarrow> (string \<rightharpoonup> 'v list) \<Rightarrow> (string \<rightharpoonup> 'v list)" where
  "addModels entries models = fold (\<lambda>(name, values) m.
     m(name \<mapsto> valuesOf m name @ values)) entries models"

definition NewModels :: "('v, 'f, 'n) hostResource option list \<Rightarrow> (string \<rightharpoonup> 'v list)" where
  "NewModels resources = fold (\<lambda>r models. case r of None \<Rightarrow> models | Some x \<Rightarrow> addModels (hr_models x) models) resources Map.empty"

definition itemOf :: "'f option \<Rightarrow> ('v, 'f, 'n) hostResource \<Rightarrow> 'f resourcesItem list" where
  "itemOf files r = (case files of None \<Rightarrow> []
     | Some f \<Rightarrow> [\<lparr>ri_fs = f, ri_projectKey = hr_projectKey r, ri_projectName = hr_projectName r\<rparr>])"

definition NewOpenAPIFromResources :: "('v, 'f, 'n) hostResource option list \<Rightarrow> 'f resourcesItem list" where
  "NewOpenAPIFromResources resources = concat (map (\<lambda>r. case r of None \<Rightarrow> [] | Some x \<Rightarrow> itemOf (hr_openAPI x) x) resources)"

definition NewI18nFromResources :: "('v, 'f, 'n) hostResource option list \<Rightarrow> 'f resourcesItem list" where
  "NewI18nFromResources resources = concat (map (\<lambda>r. case r of None \<Rightarrow> [] | Some x \<Rightarrow> itemOf (hr_i18n x) x) resources)"

definition NewMigrations :: "('v, 'f, 'n) hostResource option list \<Rightarrow> 'n list" where
  "NewMigrations resources = concat (map (\<lambda>r. case r of None \<Rightarrow> [] | Some x \<Rightarrow> hr_migrations x) resources)"

text \<open>The models of a data source are those of all resources, in their order.\<close>

definition modelsFor :: "string \<Rightarrow> ('v, 'f, 'n) hostResource option list \<Rightarrow> 'v list" where
  "modelsFor name resources = concat (map (\<lambda>r. case r of None \<Rightarrow> [] | Some x \<Rightarrow> valuesOf (map_of (hr_models x)) name) resources)"

lemma addModels_values:
  "distinct (map fst entries) \<Longrightarrow> valuesOf (addModels entries models) name = valuesOf models name @ valuesOf (map_of entries) name"
proof (induction entries arbitrary: models)
  case Nil
  then show ?case by (simp add: addModels_def valuesOf_def)
next
  case (Cons e entries)
  obtain n vs where e: "e = (n, vs)" by (cases e)
  have "map_of entries n = None" using Cons.prems by (auto simp: e map_of_eq_None_iff)
  then have none: "valuesOf (map_of entries) n = []" by (simp add: valuesOf_def)
  have "valuesOf (addModels (e # entries) models) name = valuesOf (addModels entries (models(n \<mapsto> valuesOf models n @ vs))) name"
    by (simp add: addModels_def e)
  also have "\<dots> = valuesOf (models(n \<mapsto> valuesOf models n @ vs)) name @ valuesOf (map_of entries) name"
    using Cons by (simp add: e)
  finally show ?case using none by (cases "name = n") (simp_all add: e valuesOf_def)
qed

lemma NewModels_values:
  assumes "\<forall>x. Some x \<in> set resources \<longrightarrow> distinct (map fst (hr_models x))"
  shows "valuesOf (NewModels resources) name = modelsFor name resources"
proof -
  let ?add = "\<lambda>r models. case r of None \<Rightarrow> models | Some x \<Rightarrow> addModels (hr_models x) models"
  have "valuesOf (fold ?add resources m) name = valuesOf m name @ modelsFor name resources" for m
    using assms
  proof (induction resources arbitrary: m)
    case Nil
    then show ?case by (simp add: modelsFor_def)
  next
    case (Cons r resources)
    then have "valuesOf (fold ?add (r # resources) m) name = valuesOf (?add r m) name @ modelsFor name resources" by simp
    moreover have "valuesOf (?add r m) name = valuesOf m name @ (case r of None \<Rightarrow> [] | Some x \<Rightarrow> valuesOf (map_of (hr_models x)) name)"
      using Cons.prems by (cases r) (simp_all add: addModels_values)
    ultimately show ?case by (simp add: modelsFor_def)
  qed
  from this [of Map.empty] show ?thesis by (simp add: NewModels_def) (simp add: valuesOf_def)
qed

section \<open>Configuration\<close>

text \<open>The parts of the start-up configuration; every part may be missing.  \<open>bc_databases\<close> is a map
  whose values may be nil.\<close>

record 'd dataConfig =
  dc_database :: "'d option"
  dc_databases :: "(string \<times> 'd option) list"
  dc_queue :: "'d option"
  dc_redis :: "'d option"

record ('d, 'p) bootstrapConfig =
  bs_pprof :: "'p option"
  bs_oss :: "'p option"
  bs_jwt :: "'p option"
  bs_translator :: "'p option"
  bs_data :: "'d dataConfig option"

datatype configErr = ConfigMissing | PartMissing string | DataMissing | DatabasesEmpty

definition ParseBootstrap :: "'c option option \<Rightarrow> (configErr, 'c) result" where
  "ParseBootstrap ctx = (case ctx of Some (Some c) \<Rightarrow> Inr c | _ \<Rightarrow> Inl ConfigMissing)"

definition ParseAppInfo :: "'i option option \<Rightarrow> (configErr, 'i) result" where
  "ParseAppInfo ctx = (case ctx of Some (Some i) \<Rightarrow> Inr i | _ \<Rightarrow> Inl (PartMissing ''app info''))"

definition parsePart :: "string \<Rightarrow> (('d, 'p) bootstrapConfig \<Rightarrow> 'p option) \<Rightarrow> ('d, 'p) bootstrapConfig option \<Rightarrow> (configErr, 'p) result" where
  "parsePart name get cfg = (case cfg of None \<Rightarrow> Inl (PartMissing name)
     | Some c \<Rightarrow> (case get c of None \<Rightarrow> Inl (PartMissing name) | Some p \<Rightarrow> Inr p))"

definition ParsePprof :: "('d, 'p) bootstrapConfig option \<Rightarrow> (configErr, 'p) result" where
  "ParsePprof cfg = parsePart ''pprof'' bs_pprof cfg"

definition ParseOSS :: "('d, 'p) bootstrapConfig option \<Rightarrow> (configErr, 'p) result" where
  "ParseOSS cfg = parsePart ''oss'' bs_oss cfg"

definition ParseAuthnJWT :: "('d, 'p) bootstrapConfig option \<Rightarrow> (configErr, 'p) result" where
  "ParseAuthnJWT cfg = parsePart ''jwt'' bs_jwt cfg"

definition ParseTranslator :: "('d, 'p) bootstrapConfig option \<Rightarrow> (configErr, 'p) result" where
  "ParseTranslator cfg = parsePart ''translator'' bs_translator cfg"

text \<open>Queue and Redis are optional: a missing part is nil, not an error.\<close>

definition ParseQueue :: "('d, 'p) bootstrapConfig option \<Rightarrow> (configErr, 'd option) result" where
  "ParseQueue cfg = (case cfg of None \<Rightarrow> Inl ConfigMissing
     | Some c \<Rightarrow> Inr (case bs_data c of None \<Rightarrow> None | Some d \<Rightarrow> dc_queue d))"

definition ParseRedis :: "('d, 'p) bootstrapConfig option \<Rightarrow> (configErr, 'd option) result" where
  "ParseRedis cfg = (case cfg of None \<Rightarrow> Inl ConfigMissing
     | Some c \<Rightarrow> Inr (case bs_data c of None \<Rightarrow> None | Some d \<Rightarrow> dc_redis d))"

text \<open>The named databases that are not nil, and the single one under the default name.\<close>

definition ParseDatabase :: "string \<Rightarrow> ('d, 'p) bootstrapConfig option \<Rightarrow> (configErr, string \<rightharpoonup> 'd) result" where
  "ParseDatabase defaultName config = (case config of
      None \<Rightarrow> Inl ConfigMissing
    | Some c \<Rightarrow> (case bs_data c of
        None \<Rightarrow> Inl DataMissing
      | Some d \<Rightarrow>
          (let named = concat (map (\<lambda>(name, db). case db of None \<Rightarrow> [] | Some x \<Rightarrow> [(name, x)]) (dc_databases d));
               databases = map_of named;
               databases = (case dc_database d of None \<Rightarrow> databases | Some x \<Rightarrow> databases(defaultName \<mapsto> x))
           in if named = [] \<and> dc_database d = None then Inl DatabasesEmpty else Inr databases)))"

section \<open>Database clients\<close>

datatype clientsErr = DefaultMissing | EmptyName | ClientFailed string string

text \<open>Creating a client may fail and gives a clean-up function or nil either way; \<open>'w\<close> is the outside
  world it changes, \<open>'k\<close> a clean-up and \<open>runCleanup\<close> what calling it does.\<close>

record ('c, 'v, 'cl, 'k, 'w) clientLib =
  cb_newClient :: "'c \<Rightarrow> string \<Rightarrow> 'v list \<Rightarrow> 'w \<Rightarrow> ((string, 'cl) result \<times> 'k option) \<times> 'w"
  cb_runCleanup :: "'k \<Rightarrow> 'w \<Rightarrow> 'w"

definition runCleanups :: "('c, 'v, 'cl, 'k, 'w) clientLib \<Rightarrow> 'k option list \<Rightarrow> 'w \<Rightarrow> 'w" where
  "runCleanups lib ks w = fold (\<lambda>k w. case k of None \<Rightarrow> w | Some x \<Rightarrow> cb_runCleanup lib x w) ks w"

text \<open>The loop over the names: \<open>made\<close> holds the clients and clean-ups made so far, in that order.\<close>

fun makeClients ::
  "('c, 'v, 'cl, 'k, 'w) clientLib \<Rightarrow> (string \<Rightarrow> 'c) \<Rightarrow> (string \<Rightarrow> 'v list) \<Rightarrow> string list \<Rightarrow> (string \<times> 'cl \<times> 'k option) list \<Rightarrow> 'w
    \<Rightarrow> (clientsErr, (string \<times> 'cl \<times> 'k option) list) result \<times> 'w" where
  "makeClients lib config models [] made w = (Inr made, w)"
| "makeClients lib config models (name # names) made w =
     (case cb_newClient lib (config name) name (models name) w of
        ((Inl e, cleanupClient), w') \<Rightarrow>
          (Inl (ClientFailed name e), runCleanups lib (cleanupClient # rev (map (snd \<circ> snd) made)) w')
      | ((Inr client, cleanupClient), w') \<Rightarrow>
          makeClients lib config models names (made @ [(name, client, cleanupClient)]) w')"

text \<open>The result: the clients by name with the clean-ups of the returned function, in the order it runs
  them.  The warning for a data source that falls back to the default one is left out.\<close>

definition NewClients ::
  "('c, 'v, 'cl, 'k, 'w) clientLib \<Rightarrow> string \<Rightarrow> (string \<times> 'c option) list \<Rightarrow> (string \<times> 'v list) list \<Rightarrow> 'w
    \<Rightarrow> (clientsErr, (string \<rightharpoonup> 'cl) \<times> 'k option list) result \<times> 'w" where
  "NewClients lib defaultName configs moduleModels w =
     (if length configs = 0 then (Inr (Map.empty, []), w)
      else (case map_of configs defaultName of
          Some (Some dflt) \<Rightarrow>
            if \<exists>(name, _) \<in> set configs. name = [] then (Inl EmptyName, w)
            else if \<exists>(name, _) \<in> set moduleModels. name = [] then (Inl EmptyName, w)
            else
              (let names = sorted_list_of_set ({name \<in> set (map fst configs). map_of configs name \<noteq> Some None} \<union> set (map fst moduleModels));
                   config = (\<lambda>name. case map_of configs name of Some (Some c) \<Rightarrow> c | _ \<Rightarrow> dflt);
                   models = valuesOf (map_of moduleModels)
               in case makeClients lib config models names [] w of
                    (Inl e, w') \<Rightarrow> (Inl e, w')
                  | (Inr made, w') \<Rightarrow> (Inr (map_of (map (\<lambda>(n, c, _). (n, c)) made), rev (map (snd \<circ> snd) made)), w'))
        | _ \<Rightarrow> (Inl DefaultMissing, w)))"

section \<open>No client leaks\<close>

text \<open>The calls that are made to create clients for a list of names, with the clean-up each handed out,
  up to the first failure.\<close>

fun clientCalls ::
  "('c, 'v, 'cl, 'k, 'w) clientLib \<Rightarrow> (string \<Rightarrow> 'c) \<Rightarrow> (string \<Rightarrow> 'v list) \<Rightarrow> string list \<Rightarrow> 'w
    \<Rightarrow> (string \<times> 'k option) list \<times> clientsErr option \<times> 'w" where
  "clientCalls lib config models [] w = ([], None, w)"
| "clientCalls lib config models (name # names) w =
     (case cb_newClient lib (config name) name (models name) w of
        ((Inl e, k), w') \<Rightarrow> ([(name, k)], Some (ClientFailed name e), w')
      | ((Inr client, k), w') \<Rightarrow> (case clientCalls lib config models names w' of (cs, e, w'') \<Rightarrow> ((name, k) # cs, e, w'')))"

lemma makeClients_calls:
  assumes "clientCalls lib config models names w = (cs, e, w1)"
  shows "case e of
      Some err \<Rightarrow> makeClients lib config models names made w = (Inl err, runCleanups lib (rev (map (snd \<circ> snd) made @ map snd cs)) w1)
    | None \<Rightarrow> (\<exists>new. makeClients lib config models names made w = (Inr (made @ new), w1) \<and> map (\<lambda>(n, _, k). (n, k)) new = cs \<and> map fst new = names)"
  using assms
proof (induction names arbitrary: w cs made)
  case Nil
  then show ?case by auto
next
  case (Cons name names)
  obtain r k w' where c: "cb_newClient lib (config name) name (models name) w = ((r, k), w')"
    by (metis prod.collapse)
  show ?case
  proof (cases r)
    case (Inl x)
    with Cons.prems c show ?thesis by auto
  next
    case (Inr client)
    with Cons.prems c obtain cs1 where cs1: "clientCalls lib config models names w' = (cs1, e, w1)" "cs = (name, k) # cs1"
      by (auto split: prod.splits)
    from Cons.IH [OF cs1(1), of "made @ [(name, client, k)]"] show ?thesis
    proof (cases e)
      case None
      with Cons.IH [OF cs1(1), of "made @ [(name, client, k)]"] obtain new where
        "makeClients lib config models names (made @ [(name, client, k)]) w' = (Inr ((made @ [(name, client, k)]) @ new), w1)"
        "map (\<lambda>(n, _, k). (n, k)) new = cs1" "map fst new = names" by auto
      with c Inr None cs1(2) show ?thesis by (intro exI [of _ "(name, client, k) # new"] | simp)+
    qed (use c Inr cs1 in simp)
  qed
qed

text \<open>C30.
  No database client leaks.  With a default data source and no empty name, one client is created for
  every configured and every declared name, in the order of the names; a name without a configuration
  uses that of the default.  If one creation fails, the clean-ups handed out so far, that of the failed
  call included, have all been run, the latest first, when the error is returned.  If none fails, the
  clients are exactly those of the names and the returned function runs every clean-up, the latest first.\<close>
theorem NewClients_no_leak:
  assumes "map_of configs defaultName = Some (Some dflt)"
    and "\<forall>(name, _) \<in> set configs. name \<noteq> []" "\<forall>(name, _) \<in> set moduleModels. name \<noteq> []"
    and "names = sorted_list_of_set ({name \<in> set (map fst configs). map_of configs name \<noteq> Some None} \<union> set (map fst moduleModels))"
    and "config = (\<lambda>name. case map_of configs name of Some (Some c) \<Rightarrow> c | _ \<Rightarrow> dflt)"
    and "clientCalls lib config (valuesOf (map_of moduleModels)) names w = (cs, e, w1)"
  shows "case e of
      Some err \<Rightarrow> NewClients lib defaultName configs moduleModels w = (Inl err, runCleanups lib (rev (map snd cs)) w1)
    | None \<Rightarrow> map fst cs = names
        \<and> (\<exists>clients. NewClients lib defaultName configs moduleModels w = (Inr (clients, rev (map snd cs)), w1) \<and> dom clients = set names)"
proof -
  have ne: "length configs \<noteq> 0" using assms(1) by auto
  have names: "\<not> (\<exists>(name, _) \<in> set configs. name = [])" "\<not> (\<exists>(name, _) \<in> set moduleModels. name = [])"
    using assms(2,3) by fastforce+
  have run: "NewClients lib defaultName configs moduleModels w =
      (case makeClients lib config (valuesOf (map_of moduleModels)) names [] w of
         (Inl e, w') \<Rightarrow> (Inl e, w')
       | (Inr made, w') \<Rightarrow> (Inr (map_of (map (\<lambda>(n, c, _). (n, c)) made), rev (map (snd \<circ> snd) made)), w'))"
    using ne names by (simp only: NewClients_def assms(1,4,5) option.case if_False Let_def)
  show ?thesis
  proof (cases e)
    case (Some err)
    with makeClients_calls [OF assms(6), of "[]"] show ?thesis by (simp add: run)
  next
    case None
    with makeClients_calls [OF assms(6), of "[]"] obtain new where
      new: "makeClients lib config (valuesOf (map_of moduleModels)) names [] w = (Inr new, w1)"
        "map (\<lambda>(n, _, k). (n, k)) new = cs" "map fst new = names" by auto
    have "map fst cs = names" "map snd cs = map (snd \<circ> snd) new"
      unfolding new(2) [symmetric] new(3) [symmetric] by (auto simp: case_prod_beta)
    moreover have "dom (map_of (map (\<lambda>(n, c, _). (n, c)) new)) = set names"
      unfolding new(3) [symmetric] by (force simp: dom_map_of_conv_image_fst image_iff)
    ultimately show ?thesis using None new(1) by (simp add: run)
  qed
qed

text \<open>Clients that are text, a world that is the log of what was done; the data source "b" is down.\<close>

definition exampleClientLib :: "(string, string, string, string, string list) clientLib" where
  "exampleClientLib = \<lparr>cb_newClient = (\<lambda>c name models w.
       ((if name = ''b'' then Inl ''down'' else Inr c, Some name), w @ [''open '' @ name])),
     cb_runCleanup = (\<lambda>k w. w @ [''close '' @ k])\<rparr>"

theorem NewClients_no_leak_witness:
  "NewClients exampleClientLib ''a'' [(''a'', Some ''dsn'')] [(''b'', [])] []
     = (Inl (ClientFailed ''b'' ''down''), [''open a'', ''open b'', ''close b'', ''close a''])"
proof -
  have n: "[''a'', ''b''] = sorted_list_of_set ({name \<in> set (map fst [(''a'', Some ''dsn'')]).
      map_of [(''a'', Some ''dsn'')] name \<noteq> Some None} \<union> set (map fst [(''b'', [] :: string list)]))" by code_simp
  have c: "clientCalls exampleClientLib (\<lambda>name. case map_of [(''a'', Some ''dsn'')] name of Some (Some c) \<Rightarrow> c | _ \<Rightarrow> ''dsn'')
      (valuesOf (map_of [(''b'', [])])) [''a'', ''b''] []
    = ([(''a'', Some ''a''), (''b'', Some ''b'')], Some (ClientFailed ''b'' ''down''), [''open a'', ''open b''])"
    by (simp add: exampleClientLib_def)
  from NewClients_no_leak [OF _ _ _ n refl c, of "''a''"]
  show ?thesis by (simp add: runCleanups_def exampleClientLib_def)
qed

end
