(* ===== verification/ClientCalls.thy ===== *)
theory ClientCalls
  imports Prelude
begin

text \<open>
  Model of the client interceptors \<open>client/middleware/retry\<close> and \<open>client/middleware/ratelimit\<close>.  An
  invoker takes a context, a method and a request and may change the state \<open>'s\<close> (the reply, the
  connection, the network); connection and call options are handed through unchanged and left out.
  The retrier and the limiter of kratos-kit are parameters, and so is \<open>status.Code\<close>.
\<close>

section \<open>Retry\<close>

type_synonym ('c, 'q, 's, 'e) invoker = "'c \<Rightarrow> string \<Rightarrow> 'q \<Rightarrow> 's \<Rightarrow> 'e option \<times> 's"

record retryOptions =
  rt_idempotentPrefixes :: "string list"
  rt_retryCodes :: "nat set"
  rt_skipMethods :: "string set"

datatype retryOption = WithIdempotentPrefixes "string list" | WithRetryCodes "nat list" | WithSkipMethods "string list"

definition applyRetryOption :: "retryOption \<Rightarrow> retryOptions \<Rightarrow> retryOptions" where
  "applyRetryOption opt c = (case opt of
      WithIdempotentPrefixes ps \<Rightarrow> c\<lparr>rt_idempotentPrefixes := ps\<rparr>
    | WithRetryCodes codes \<Rightarrow> c\<lparr>rt_retryCodes := set codes\<rparr>
    | WithSkipMethods methods \<Rightarrow> c\<lparr>rt_skipMethods := rt_skipMethods c \<union> set methods\<rparr>)"

text \<open>The number of \<open>codes.Unavailable\<close>.\<close>

definition codeUnavailable :: nat where "codeUnavailable = 14"

definition defaultRetryOptions :: retryOptions where
  "defaultRetryOptions = \<lparr>rt_idempotentPrefixes = [''Get'', ''List'', ''Search''], rt_retryCodes = {codeUnavailable}, rt_skipMethods = {}\<rparr>"

definition isIdempotent :: "string \<Rightarrow> string list \<Rightarrow> bool" where
  "isIdempotent fullMethod ps =
     (let methodName = (case cut_last (CHR 0x2F) fullMethod of (_, method, found) \<Rightarrow> if found then method else fullMethod)
      in list_ex (has_prefix methodName) ps)"

text \<open>One attempt: the invoker, the assignment of \<open>lastErr\<close>, and what the retrier is told.\<close>

definition attempt ::
  "('e \<Rightarrow> nat) \<Rightarrow> retryOptions \<Rightarrow> ('c, 'q, 's, 'e) invoker \<Rightarrow> string \<Rightarrow> 'q \<Rightarrow> 'c
    \<Rightarrow> 'e option \<times> 's \<Rightarrow> 'e option \<times> 'e option \<times> 's" where
  "attempt code config invoker method request attemptCtx = (\<lambda>(lastErr, s).
     (case invoker attemptCtx method request s of
        (None, s') \<Rightarrow> (None, None, s')
      | (Some e, s') \<Rightarrow> (if code e \<in> rt_retryCodes config then Some e else None, Some e, s')))"

type_synonym ('c, 's, 'e) retrierDo =
  "'c \<Rightarrow> ('c \<Rightarrow> 'e option \<times> 's \<Rightarrow> 'e option \<times> 'e option \<times> 's) \<Rightarrow> 'e option \<times> 's \<Rightarrow> 'e option \<times> 'e option \<times> 's"

definition retryInterceptor ::
  "('e \<Rightarrow> nat) \<Rightarrow> ('c, 's, 'e) retrierDo \<Rightarrow> retryOption list \<Rightarrow> ('c, 'q, 's, 'e) invoker
    \<Rightarrow> ('c, 'q, 's, 'e) invoker" where
  "retryInterceptor code retrierDo opts invoker ctx method request s =
     (let config = fold applyRetryOption opts defaultRetryOptions in
      if method \<in> rt_skipMethods config \<or> \<not> isIdempotent method (rt_idempotentPrefixes config)
      then invoker ctx method request s
      else (case retrierDo ctx (attempt code config invoker method request) (None, s) of
          (retryErr, lastErr, s') \<Rightarrow> (if lastErr = None then retryErr else lastErr, s')))"

section \<open>Rate limit\<close>

record limitOptions =
  lo_waitMode :: bool
  lo_skipMethods :: "string set"

datatype limitOption = WithWait | WithLimitSkipMethods "string list"

definition applyLimitOption :: "limitOption \<Rightarrow> limitOptions \<Rightarrow> limitOptions" where
  "applyLimitOption opt c = (case opt of
      WithWait \<Rightarrow> c\<lparr>lo_waitMode := True\<rparr>
    | WithLimitSkipMethods methods \<Rightarrow> c\<lparr>lo_skipMethods := lo_skipMethods c \<union> set methods\<rparr>)"

record ('c, 's, 'e) limiter =
  lm_wait :: "'c \<Rightarrow> 's \<Rightarrow> 'e option \<times> 's"
  lm_allow :: "'s \<Rightarrow> (bool \<times> 'e option) \<times> 's"

text \<open>\<open>exhausted\<close> is the status error ResourceExhausted.\<close>

definition acquire :: "'e \<Rightarrow> ('c, 's, 'e) limiter \<Rightarrow> bool \<Rightarrow> 'c \<Rightarrow> 's \<Rightarrow> 'e option \<times> 's" where
  "acquire exhausted limiter waitMode ctx s =
     (if waitMode then (case lm_wait limiter ctx s of (e, s') \<Rightarrow> (if e \<noteq> None then Some exhausted else None, s'))
      else (case lm_allow limiter s of ((allowed, e), s') \<Rightarrow> (if \<not> allowed \<or> e \<noteq> None then Some exhausted else None, s')))"

definition limitUnaryInterceptor ::
  "'e \<Rightarrow> ('c, 's, 'e) limiter \<Rightarrow> limitOption list \<Rightarrow> ('c, 'q, 's, 'e) invoker \<Rightarrow> ('c, 'q, 's, 'e) invoker" where
  "limitUnaryInterceptor exhausted limiter opts invoker ctx method request s =
     (let config = fold applyLimitOption opts \<lparr>lo_waitMode = False, lo_skipMethods = {}\<rparr> in
      if method \<in> lo_skipMethods config then invoker ctx method request s
      else (case acquire exhausted limiter (lo_waitMode config) ctx s of
          (Some e, s') \<Rightarrow> (Some e, s')
        | (None, s') \<Rightarrow> invoker ctx method request s'))"

definition limitStreamInterceptor ::
  "'e \<Rightarrow> ('c, 's, 'e) limiter \<Rightarrow> limitOption list \<Rightarrow> ('c \<Rightarrow> string \<Rightarrow> 's \<Rightarrow> ('e, 'st) result \<times> 's)
    \<Rightarrow> 'c \<Rightarrow> string \<Rightarrow> 's \<Rightarrow> ('e, 'st) result \<times> 's" where
  "limitStreamInterceptor exhausted limiter opts streamer ctx method s =
     (let config = fold applyLimitOption opts \<lparr>lo_waitMode = False, lo_skipMethods = {}\<rparr> in
      if method \<in> lo_skipMethods config then streamer ctx method s
      else (case acquire exhausted limiter (lo_waitMode config) ctx s of
          (Some e, s') \<Rightarrow> (Inl e, s')
        | (None, s') \<Rightarrow> streamer ctx method s'))"

section \<open>What a retried call returns\<close>

text \<open>The results of calling a function with one context after the other.\<close>

fun callAll :: "('c \<Rightarrow> 't \<Rightarrow> 'e option \<times> 't) \<Rightarrow> 'c list \<Rightarrow> 't \<Rightarrow> 'e option list \<times> 't" where
  "callAll f [] t = ([], t)"
| "callAll f (c # cs) t = (case f c t of (r, t') \<Rightarrow> (case callAll f cs t' of (rs, t'') \<Rightarrow> (r # rs, t'')))"

text \<open>The retrier calls the function again only after an error; it returns no error exactly when the
  last call returned none, and an error of its own when it made no call.\<close>

definition retrierLaws :: "('c, 's, 'e) retrierDo \<Rightarrow> bool" where
  "retrierLaws retrierDo \<longleftrightarrow> (\<forall>ctx f t. \<exists>cs rs. callAll f cs t = (rs, snd (retrierDo ctx f t))
     \<and> (\<forall>r \<in> set (butlast rs). r \<noteq> None)
     \<and> (fst (retrierDo ctx f t) = None \<longleftrightarrow> rs \<noteq> [] \<and> last rs = None))"

lemma callAll_length: "callAll f cs t = (rs, t') \<Longrightarrow> length rs = length cs"
  by (induction f cs t arbitrary: rs t' rule: callAll.induct) (auto split: prod.splits)

lemma attempts_are_calls:
  assumes "callAll (attempt code config invoker method request) cs (lastErr, s) = (rs, last', s')"
  shows "\<exists>es. callAll (\<lambda>c. invoker c method request) cs s = (es, s')
    \<and> rs = map (\<lambda>e. case e of None \<Rightarrow> None | Some x \<Rightarrow> if code x \<in> rt_retryCodes config then Some x else None) es
    \<and> last' = (if es = [] then lastErr else last es)"
  using assms
proof (induction cs arbitrary: lastErr s rs)
  case Nil
  then show ?case by simp
next
  case (Cons c cs)
  obtain e s1 where i: "invoker c method request s = (e, s1)" by (cases "invoker c method request s")
  let ?r = "case e of None \<Rightarrow> None | Some x \<Rightarrow> if code x \<in> rt_retryCodes config then Some x else None"
  have a: "attempt code config invoker method request c (lastErr, s) = (?r, e, s1)"
    by (simp add: attempt_def i split: option.splits)
  with Cons.prems obtain rs1 where rest: "callAll (attempt code config invoker method request) cs (e, s1) = (rs1, last', s')"
    and rs: "rs = ?r # rs1" by (auto split: prod.splits)
  from Cons.IH [OF rest] obtain es where "callAll (\<lambda>c. invoker c method request) cs s1 = (es, s')"
    "rs1 = map (\<lambda>e. case e of None \<Rightarrow> None | Some x \<Rightarrow> if code x \<in> rt_retryCodes config then Some x else None) es"
    "last' = (if es = [] then e else last es)" by blast
  then show ?case by (intro exI [of _ "e # es"]) (simp add: i rs)
qed

text \<open>A retried call returns the outcome of its last attempt.  A method that is skipped or whose name has
  none of the ps for idempotent methods is called exactly once.  Any other is called some number
  of times, every call but the last having failed with a code that may be retried; if there was a
  call, the result is exactly that of the last one, also when the retrier gave up on its own or
  stopped because the error may not be retried; without any call the error of the retrier is returned.\<close>
theorem retry_returns_last:
  assumes "retrierLaws retrierDo" "config = fold applyRetryOption opts defaultRetryOptions"
    and "retryInterceptor code retrierDo opts invoker ctx method request s = (r, s')"
  shows "if method \<in> rt_skipMethods config \<or> \<not> isIdempotent method (rt_idempotentPrefixes config)
    then (r, s') = invoker ctx method request s
    else (\<exists>cs es. callAll (\<lambda>c. invoker c method request) cs s = (es, s')
      \<and> (\<forall>e \<in> set (butlast es). \<exists>x. e = Some x \<and> code x \<in> rt_retryCodes config)
      \<and> (if es = [] then r \<noteq> None else r = last es))"
proof (cases "method \<in> rt_skipMethods config \<or> \<not> isIdempotent method (rt_idempotentPrefixes config)")
  case True
  with assms(2,3) show ?thesis by (simp add: retryInterceptor_def Let_def)
next
  case False
  let ?f = "attempt code config invoker method request"
  let ?g = "\<lambda>e. case e of None \<Rightarrow> None | Some x \<Rightarrow> if code x \<in> rt_retryCodes config then Some x else None"
  obtain retryErr lastErr where d: "retrierDo ctx ?f (None, s) = (retryErr, lastErr, s')"
    and r: "r = (if lastErr = None then retryErr else lastErr)"
    using assms(2,3) False by (auto simp: retryInterceptor_def Let_def split: prod.splits)
  from assms(1) obtain cs rs where c: "callAll ?f cs (None, s) = (rs, lastErr, s')"
    and but: "\<forall>x \<in> set (butlast rs). x \<noteq> None" and none: "retryErr = None \<longleftrightarrow> rs \<noteq> [] \<and> last rs = None"
    unfolding retrierLaws_def using d by (metis fst_conv snd_conv)
  from attempts_are_calls [OF c] obtain es where es: "callAll (\<lambda>c. invoker c method request) cs s = (es, s')"
    and rs: "rs = map ?g es" and l: "lastErr = (if es = [] then None else last es)" by blast
  have "\<exists>x. e = Some x \<and> code x \<in> rt_retryCodes config" if "e \<in> set (butlast es)" for e
  proof -
    have "?g e \<in> set (butlast rs)" using that by (simp add: rs map_butlast [symmetric])
    with but have "?g e \<noteq> None" by blast
    then show ?thesis by (auto split: option.splits if_splits)
  qed
  moreover have "if es = [] then r \<noteq> None else r = last es"
  proof (cases "es = []")
    case True
    then show ?thesis using none l r by (simp add: rs)
  next
    case False
    then have "last rs = ?g (last es)" by (simp add: rs last_map)
    with False none l r show ?thesis by (auto simp: rs)
  qed
  ultimately have "\<exists>cs es. callAll (\<lambda>c. invoker c method request) cs s = (es, s')
      \<and> (\<forall>e \<in> set (butlast es). \<exists>x. e = Some x \<and> code x \<in> rt_retryCodes config)
      \<and> (if es = [] then r \<noteq> None else r = last es)"
    using es by (intro exI [of _ cs] exI [of _ es]) blast
  with False show ?thesis by (simp only: if_False simp_thms)
qed

text \<open>A retrier that tries three times.\<close>

definition tryThrice :: "('c, 's, 'e) retrierDo" where
  "tryThrice ctx f t = (case f ctx t of
      (None, t1) \<Rightarrow> (None, t1)
    | (Some _, t1) \<Rightarrow> (case f ctx t1 of
        (None, t2) \<Rightarrow> (None, t2)
      | (Some _, t2) \<Rightarrow> f ctx t2))"

lemma tryThrice_laws: "retrierLaws (tryThrice :: ('c, 's, 'e) retrierDo)"
proof -
  have *: "\<exists>cs rs. callAll f cs t = (rs, snd (tryThrice ctx f t)) \<and> (\<forall>r \<in> set (butlast rs). r \<noteq> None)
     \<and> (fst (tryThrice ctx f t) = None \<longleftrightarrow> rs \<noteq> [] \<and> last rs = None)"
    for ctx :: 'c and f :: "'c \<Rightarrow> 'e option \<times> 's \<Rightarrow> 'e option \<times> 'e option \<times> 's" and t
  proof -
    obtain r1 t1 where 1: "f ctx t = (r1, t1)" by (cases "f ctx t")
    obtain r2 t2 where 2: "f ctx t1 = (r2, t2)" by (cases "f ctx t1")
    obtain r3 t3 where 3: "f ctx t2 = (r3, t3)" by (cases "f ctx t2")
    consider "r1 = None" | "r1 \<noteq> None" "r2 = None" | "r1 \<noteq> None" "r2 \<noteq> None" by blast
    then show ?thesis
    proof cases
      case 1
      then show ?thesis using \<open>f ctx t = (r1, t1)\<close> by (intro exI [of _ "[ctx]"] exI [of _ "[r1]"]) (simp add: tryThrice_def)
    next
      case 2
      then show ?thesis using \<open>f ctx t = (r1, t1)\<close> \<open>f ctx t1 = (r2, t2)\<close>
        by (intro exI [of _ "[ctx, ctx]"] exI [of _ "[r1, r2]"]) (auto simp: tryThrice_def)
    next
      case 3
      then show ?thesis using \<open>f ctx t = (r1, t1)\<close> \<open>f ctx t1 = (r2, t2)\<close> \<open>f ctx t2 = (r3, t3)\<close>
        by (intro exI [of _ "[ctx, ctx, ctx]"] exI [of _ "[r1, r2, r3]"]) (auto simp: tryThrice_def)
    qed
  qed
  show ?thesis unfolding retrierLaws_def by (intro allI *)
qed

text \<open>A server that is unavailable once.\<close>

definition flaky :: "(unit, unit, nat, nat) invoker" where
  "flaky ctx method request s = (if s = 0 then Some 14 else if method = ''/s/GetUser'' then None else Some 13, s + 1)"

theorem retry_returns_last_witness:
  "retryInterceptor (\<lambda>e. e) tryThrice [] flaky () ''/s/GetUser'' () 0 = (None, 2)
   \<and> (\<exists>cs es. callAll (\<lambda>c. flaky c ''/s/GetUser'' ()) cs 0 = (es, 2) \<and> None = last es)
   \<and> retryInterceptor (\<lambda>e. e) tryThrice [] flaky () ''/s/DropUser'' () 0 = (Some 14, 1)"
proof -
  have a: "retryInterceptor (\<lambda>e. e) tryThrice [] flaky () ''/s/GetUser'' () 0 = (None, 2)" by code_simp
  have b: "retryInterceptor (\<lambda>e. e) tryThrice [] flaky () ''/s/DropUser'' () 0 = (Some 14, 1)" by code_simp
  have c: "fold applyRetryOption [] defaultRetryOptions = defaultRetryOptions" by simp
  have d: "\<not> (''/s/GetUser'' \<in> rt_skipMethods defaultRetryOptions \<or> \<not> isIdempotent ''/s/GetUser'' (rt_idempotentPrefixes defaultRetryOptions))"
    by code_simp
  from retry_returns_last [OF tryThrice_laws c [symmetric] a] d
  have "\<exists>cs es. callAll (\<lambda>c. flaky c ''/s/GetUser'' ()) cs 0 = (es, 2) \<and> None = last es"
    by (auto split: if_splits)
  with a b show ?thesis by blast
qed

end
