(* ===== verification/ClientMetrics.thy ===== *)
theory ClientMetrics
  imports Prelude
begin

text \<open>
  Model of \<open>client/middleware/metrics/metrics.go\<close>: what the metric interceptors tell the recorder for
  a unary call and over the life of a stream.  The recorder is the list of the events it was given;
  the duration of a call is an argument, \<open>codeName\<close> is \<open>status.Code(err).String()\<close>.  A call may
  panic, which runs the deferred calls only.
\<close>

section \<open>Model\<close>

record metricLabels =
  mb_method :: string
  mb_service :: string
  mb_code :: string

datatype metricEvent =
  Gauge string int metricLabels | Counter string int metricLabels | Histogram string int metricLabels

record metricOptions =
  mo_requestCounter :: string
  mo_latencyHistogram :: string
  mo_inFlightGauge :: string
  mo_skipFunc :: "(string \<Rightarrow> bool) option"

datatype metricOption =
  WithRequestCounterName string | WithLatencyHistogramName string | WithInFlightGaugeName string
| WithSkipFunc "(string \<Rightarrow> bool) option"

definition applyMetricOption :: "metricOption \<Rightarrow> metricOptions \<Rightarrow> metricOptions" where
  "applyMetricOption opt c = (case opt of
      WithRequestCounterName name \<Rightarrow> c\<lparr>mo_requestCounter := name\<rparr>
    | WithLatencyHistogramName name \<Rightarrow> c\<lparr>mo_latencyHistogram := name\<rparr>
    | WithInFlightGaugeName name \<Rightarrow> c\<lparr>mo_inFlightGauge := name\<rparr>
    | WithSkipFunc skip \<Rightarrow> c\<lparr>mo_skipFunc := skip\<rparr>)"

definition newMetricOptions :: "metricOption list \<Rightarrow> metricOptions" where
  "newMetricOptions opts = fold applyMetricOption opts
     \<lparr>mo_requestCounter = ''grpc_requests_total'', mo_latencyHistogram = ''grpc_request_duration_seconds'',
      mo_inFlightGauge = ''grpc_requests_in_flight'', mo_skipFunc = None\<rparr>"

definition serviceFromMethod :: "string \<Rightarrow> string" where
  "serviceFromMethod fullMethod =
     (let parts = split_char (CHR 0x2F) fullMethod in
      if 2 \<le> length parts then parts ! (length parts - 2) else fullMethod)"

definition labelsOf :: "('e \<Rightarrow> string) \<Rightarrow> string \<Rightarrow> 'e option \<Rightarrow> metricLabels" where
  "labelsOf codeName method err =
     \<lparr>mb_method = method, mb_service = serviceFromMethod method,
      mb_code = (case err of None \<Rightarrow> ''OK'' | Some e \<Rightarrow> codeName e)\<rparr>"

definition metricFinish :: "('e \<Rightarrow> string) \<Rightarrow> metricOptions \<Rightarrow> string \<Rightarrow> int \<Rightarrow> 'e option \<Rightarrow> metricEvent list" where
  "metricFinish codeName config method duration err =
     [Counter (mo_requestCounter config) 1 (labelsOf codeName method err),
      Histogram (mo_latencyHistogram config) duration (labelsOf codeName method err)]"

definition skipped :: "metricOptions \<Rightarrow> string \<Rightarrow> bool" where
  "skipped config method \<longleftrightarrow> (case mo_skipFunc config of None \<Rightarrow> False | Some skip \<Rightarrow> skip method)"

datatype 'e callOutcome = CallReturned "'e option" | CallPanicked

text \<open>The events of a unary call with that outcome: the gauge is reset by a deferred call.\<close>

definition metricsUnary ::
  "('e \<Rightarrow> string) \<Rightarrow> metricOption list \<Rightarrow> string \<Rightarrow> int \<Rightarrow> 'e callOutcome \<Rightarrow> metricEvent list" where
  "metricsUnary codeName opts method duration outcome =
     (let config = newMetricOptions opts; gaugeLabels = labelsOf codeName method None in
      if skipped config method then []
      else Gauge (mo_inFlightGauge config) 1 gaugeLabels
        # (case outcome of CallReturned err \<Rightarrow> metricFinish codeName config method duration err | CallPanicked \<Rightarrow> [])
        @ [Gauge (mo_inFlightGauge config) 0 gaugeLabels])"

text \<open>A stream in use: whether its result has been recorded (the \<open>sync.Once\<close>), and the events.\<close>

record trackedStream =
  tk_config :: metricOptions
  tk_method :: string
  tk_finished :: bool
  tk_events :: "metricEvent list"

definition finishStream :: "('e \<Rightarrow> string) \<Rightarrow> metricOptions \<Rightarrow> string \<Rightarrow> int \<Rightarrow> 'e option \<Rightarrow> metricEvent list" where
  "finishStream codeName config method duration err =
     metricFinish codeName config method duration err @ [Gauge (mo_inFlightGauge config) 0 (labelsOf codeName method None)]"

text \<open>A new stream: \<open>Inl\<close> the events when the streamer failed, which are final.\<close>

definition metricsStream ::
  "('e \<Rightarrow> string) \<Rightarrow> metricOption list \<Rightarrow> string \<Rightarrow> int \<Rightarrow> 'e option \<Rightarrow> (metricEvent list, trackedStream option) result" where
  "metricsStream codeName opts method duration err =
     (let config = newMetricOptions opts; open = Gauge (mo_inFlightGauge config) 1 (labelsOf codeName method None) in
      if skipped config method then Inr None
      else (case err of
          Some e \<Rightarrow> Inl (open # finishStream codeName config method duration (Some e))
        | None \<Rightarrow> Inr (Some \<lparr>tk_config = config, tk_method = method, tk_finished = False, tk_events = [open]\<rparr>)))"

definition streamFinish :: "('e \<Rightarrow> string) \<Rightarrow> int \<Rightarrow> 'e option \<Rightarrow> trackedStream \<Rightarrow> trackedStream" where
  "streamFinish codeName duration err st =
     (if tk_finished st then st
      else st\<lparr>tk_finished := True, tk_events := tk_events st @ finishStream codeName (tk_config st) (tk_method st) duration err\<rparr>)"

text \<open>One call of a stream method by the user of the stream, with what the underlying stream gave:
  for \<open>RecvMsg\<close> a message, \<open>io.EOF\<close> or another error.\<close>

datatype 'e recvResult = RecvMessage | RecvEOF | RecvFailed 'e
datatype 'e streamCall = CallHeader "'e option" | CallRecv "'e recvResult" | CallSend "'e option"

definition streamCall :: "('e \<Rightarrow> string) \<Rightarrow> 'e streamCall \<times> int \<Rightarrow> trackedStream \<Rightarrow> trackedStream" where
  "streamCall codeName = (\<lambda>(call, duration) st. (case call of
      CallHeader (Some e) \<Rightarrow> streamFinish codeName duration (Some e) st
    | CallHeader None \<Rightarrow> st
    | CallRecv RecvEOF \<Rightarrow> streamFinish codeName duration None st
    | CallRecv (RecvFailed e) \<Rightarrow> streamFinish codeName duration (Some e) st
    | CallRecv RecvMessage \<Rightarrow> st
    | CallSend (Some e) \<Rightarrow> streamFinish codeName duration (Some e) st
    | CallSend None \<Rightarrow> st))"

definition streamCalls :: "('e \<Rightarrow> string) \<Rightarrow> ('e streamCall \<times> int) list \<Rightarrow> trackedStream \<Rightarrow> trackedStream" where
  "streamCalls codeName calls st = fold (streamCall codeName) calls st"

section \<open>Every stream is recorded once\<close>

text \<open>The result of the first call that ends the stream, with the duration it saw.\<close>

definition callEnds :: "'e streamCall \<Rightarrow> 'e option option" where
  "callEnds call = (case call of
      CallHeader e \<Rightarrow> (case e of None \<Rightarrow> None | Some x \<Rightarrow> Some (Some x))
    | CallRecv r \<Rightarrow> (case r of RecvMessage \<Rightarrow> None | RecvEOF \<Rightarrow> Some None | RecvFailed e \<Rightarrow> Some (Some e))
    | CallSend e \<Rightarrow> (case e of None \<Rightarrow> None | Some x \<Rightarrow> Some (Some x)))"

fun firstEnd :: "('e streamCall \<times> int) list \<Rightarrow> ('e option \<times> int) option" where
  "firstEnd [] = None"
| "firstEnd ((call, duration) # cs) = (case callEnds call of Some err \<Rightarrow> Some (err, duration) | None \<Rightarrow> firstEnd cs)"

lemma streamCall_eq:
  "streamCall codeName (call, duration) st =
     (case callEnds call of None \<Rightarrow> st | Some err \<Rightarrow> streamFinish codeName duration err st)"
  by (auto simp: streamCall_def callEnds_def split: streamCall.splits recvResult.splits option.splits)

lemma streamCalls_finished: "tk_finished st \<Longrightarrow> streamCalls codeName calls st = st"
proof (induction calls)
  case Nil
  then show ?case by (simp add: streamCalls_def)
next
  case (Cons c calls)
  have "streamCall codeName c st = st"
    using Cons.prems by (cases c) (simp add: streamCall_eq streamFinish_def split: option.splits)
  with Cons show ?case by (simp add: streamCalls_def)
qed

lemma streamCalls_first:
  "\<not> tk_finished st \<Longrightarrow> streamCalls codeName calls st =
     (case firstEnd calls of None \<Rightarrow> st | Some (err, duration) \<Rightarrow> streamFinish codeName duration err st)"
proof (induction calls)
  case Nil
  then show ?case by (simp add: streamCalls_def)
next
  case (Cons c calls)
  obtain call duration where c: "c = (call, duration)" by (cases c)
  show ?case
  proof (cases "callEnds call")
    case None
    with Cons show ?thesis by (simp add: streamCalls_def c streamCall_eq)
  next
    case (Some err)
    have "tk_finished (streamFinish codeName duration err st)" by (simp add: streamFinish_def)
    from streamCalls_finished [OF this] Some show ?thesis by (simp add: streamCalls_def c streamCall_eq)
  qed
qed

text \<open>C33.
  Every stream is recorded exactly once, by the first call that shows its end.  Whatever calls are made
  on a stream, in any order and however often, the recorder has been told: a gauge of one when the
  stream was opened; then, once a header or send error, a receive error or the end of the stream was
  seen, one counter and one duration with the code of the first of these, and a gauge of zero; nothing
  after that.  As long as none was seen the gauge stays at one: in particular after any number of sent
  messages and the one successful receive that ends a client-streaming call.\<close>
theorem stream_recorded_once:
  assumes "metricsStream codeName opts method duration0 None = Inr (Some st)" "config = newMetricOptions opts"
  shows "tk_events (streamCalls codeName calls st) = Gauge (mo_inFlightGauge config) 1 (labelsOf codeName method None) #
      (case firstEnd calls of
         None \<Rightarrow> []
       | Some (err, duration) \<Rightarrow>
           [Counter (mo_requestCounter config) 1 (labelsOf codeName method err),
            Histogram (mo_latencyHistogram config) duration (labelsOf codeName method err),
            Gauge (mo_inFlightGauge config) 0 (labelsOf codeName method None)])
    \<and> firstEnd (replicate n (CallSend None, d1) @ [(CallRecv RecvMessage, d2)]) = (None :: ('e option \<times> int) option)"
proof -
  have st: "\<not> tk_finished st" "tk_events st = [Gauge (mo_inFlightGauge config) 1 (labelsOf codeName method None)]"
    "tk_config st = config" "tk_method st = method"
    using assms by (auto simp: metricsStream_def Let_def split: if_splits)
  have n: "firstEnd (replicate n (CallSend None, d1) @ [(CallRecv RecvMessage, d2)]) = (None :: ('e option \<times> int) option)"
    by (induction n) (simp_all add: callEnds_def)
  show ?thesis
    using n by (simp add: streamCalls_first [OF st(1)] st(2,3,4) streamFinish_def st(1) finishStream_def metricFinish_def
      split: option.splits prod.splits)
qed

theorem stream_recorded_once_witness:
  "\<exists>st. metricsStream (\<lambda>_ :: unit. ''Unknown'') [] ''/s.S/M'' 0 None = Inr (Some st)
     \<and> tk_events (streamCalls (\<lambda>_. ''Unknown'') [(CallRecv RecvMessage, 1), (CallRecv RecvEOF, 2), (CallSend (Some ()), 3)] st)
       = [Gauge ''grpc_requests_in_flight'' 1 \<lparr>mb_method = ''/s.S/M'', mb_service = ''s.S'', mb_code = ''OK''\<rparr>,
          Counter ''grpc_requests_total'' 1 \<lparr>mb_method = ''/s.S/M'', mb_service = ''s.S'', mb_code = ''OK''\<rparr>,
          Histogram ''grpc_request_duration_seconds'' 2 \<lparr>mb_method = ''/s.S/M'', mb_service = ''s.S'', mb_code = ''OK''\<rparr>,
          Gauge ''grpc_requests_in_flight'' 0 \<lparr>mb_method = ''/s.S/M'', mb_service = ''s.S'', mb_code = ''OK''\<rparr>]"
proof -
  have service: "serviceFromMethod ''/s.S/M'' = ''s.S''" by code_simp
  have c: "newMetricOptions [] = \<lparr>mo_requestCounter = ''grpc_requests_total'', mo_latencyHistogram = ''grpc_request_duration_seconds'',
      mo_inFlightGauge = ''grpc_requests_in_flight'', mo_skipFunc = None\<rparr>" by (simp add: newMetricOptions_def)
  obtain st where st: "metricsStream (\<lambda>_ :: unit. ''Unknown'') [] ''/s.S/M'' 0 None = Inr (Some st)"
    by (simp add: metricsStream_def skipped_def c Let_def)
  from stream_recorded_once [OF st refl, of "[(CallRecv RecvMessage, 1), (CallRecv RecvEOF, 2), (CallSend (Some ()), 3)]"] st
  show ?thesis by (auto simp: callEnds_def labelsOf_def service c)
qed

text \<open>The unary interceptor resets the gauge on every path, also when the call panics.\<close>

lemma metricsUnary_resets:
  assumes "\<not> skipped (newMetricOptions opts) method"
  shows "last (metricsUnary codeName opts method duration outcome)
    = Gauge (mo_inFlightGauge (newMetricOptions opts)) 0 (labelsOf codeName method None)"
  using assms by (simp add: metricsUnary_def Let_def)

end
