(* ===== verification/Metadata.thy ===== *)
theory Metadata
  imports Prelude
begin

text \<open>
  Metadata and headers as the client code sees them: \<open>metadata.MD\<close> of gRPC is a Go map from keys to
  lists of values, which the code copies, indexes and deletes from directly; its methods are the
  record \<open>mdLib\<close> with the laws \<open>mdLaws\<close> of their documentation.  \<open>localHeader\<close> of
  \<open>client/local_transport.go\<close> is the header type over it, with the transport built from it.  The
  interface \<open>transport.Header\<close> of kratos is the locale \<open>header_api\<close>.
\<close>

section \<open>Metadata\<close>

type_synonym md = "string \<rightharpoonup> string list"

definition mdValues :: "md \<Rightarrow> string \<Rightarrow> string list" where
  "mdValues m key = (case m key of None \<Rightarrow> [] | Some vs \<Rightarrow> vs)"

text \<open>\<open>ml_appendOutgoing\<close> is the metadata of the context after \<open>AppendToOutgoingContext\<close>.\<close>

record mdLib =
  ml_get :: "md \<Rightarrow> string \<Rightarrow> string list"
  ml_set :: "md \<Rightarrow> string \<Rightarrow> string list \<Rightarrow> md"
  ml_append :: "md \<Rightarrow> string \<Rightarrow> string list \<Rightarrow> md"
  ml_join :: "md \<Rightarrow> md \<Rightarrow> md"
  ml_appendOutgoing :: "md option \<Rightarrow> (string \<times> string) list \<Rightarrow> md"

definition mdLaws :: "mdLib \<Rightarrow> bool" where
  "mdLaws lib \<longleftrightarrow>
     (\<forall>m k. ml_get lib m k = mdValues m (to_lower k))
   \<and> (\<forall>m k vs. vs \<noteq> [] \<longrightarrow> ml_set lib m k vs = m(to_lower k \<mapsto> vs))
   \<and> (\<forall>m k vs. vs \<noteq> [] \<longrightarrow> ml_append lib m k vs = m(to_lower k \<mapsto> mdValues m (to_lower k) @ vs))
   \<and> (\<forall>a b k. mdValues (ml_join lib a b) k = mdValues a k @ mdValues b k)
   \<and> (\<forall>m kvs k. mdValues (ml_appendOutgoing lib m kvs) k
        = (case m of None \<Rightarrow> [] | Some a \<Rightarrow> mdValues a k) @ map snd (filter (\<lambda>(k', _). to_lower k' = k) kvs))"

lemma mdLaws_simps:
  assumes "mdLaws lib"
  shows "ml_get lib m k = mdValues m (to_lower k)"
    and "vs \<noteq> [] \<Longrightarrow> ml_set lib m k vs = m(to_lower k \<mapsto> vs)"
    and "vs \<noteq> [] \<Longrightarrow> ml_append lib m k vs = m(to_lower k \<mapsto> mdValues m (to_lower k) @ vs)"
    and "mdValues (ml_join lib a b) k = mdValues a k @ mdValues b k"
    and "mdValues (ml_appendOutgoing lib out kvs) k
      = (case out of None \<Rightarrow> [] | Some a \<Rightarrow> mdValues a k) @ map snd (filter (\<lambda>(k', _). to_lower k' = k) kvs)"
  using assms by (simp_all add: mdLaws_def)

lemma mdValues_upd [simp]: "mdValues (m(k \<mapsto> vs)) k' = (if k' = k then vs else mdValues m k')"
  by (simp add: mdValues_def)

section \<open>Headers of a transport\<close>

text \<open>\<open>localHeader\<close>: the first value of a key, or the empty string; \<open>Set\<close> and \<open>Add\<close> write the key in
  lower case.  \<open>Keys\<close> lists the keys in the order \<open>keyOrder\<close> of one iteration.\<close>

definition localGet :: "mdLib \<Rightarrow> md \<Rightarrow> string \<Rightarrow> string" where
  "localGet lib h key = (let values = ml_get lib h key in if length values = 0 then [] else values ! 0)"

definition localSet :: "mdLib \<Rightarrow> md \<Rightarrow> string \<Rightarrow> string \<Rightarrow> md" where
  "localSet lib h key value = ml_set lib h (to_lower key) [value]"

definition localAdd :: "mdLib \<Rightarrow> md \<Rightarrow> string \<Rightarrow> string \<Rightarrow> md" where
  "localAdd lib h key value = ml_append lib h (to_lower key) [value]"

definition localKeys :: "(md \<Rightarrow> string list) \<Rightarrow> md \<Rightarrow> string list" where
  "localKeys keyOrder h = keyOrder h"

definition localValues :: "mdLib \<Rightarrow> md \<Rightarrow> string \<Rightarrow> string list" where
  "localValues lib h key = ml_get lib h key"

text \<open>The interface the middlewares rely on: what was set is read, and other keys keep their value.
  Keys are compared without case.\<close>

locale header_api =
  fixes get :: "'h \<Rightarrow> string \<Rightarrow> string" and set' :: "'h \<Rightarrow> string \<Rightarrow> string \<Rightarrow> 'h"
  assumes get_set_same: "to_lower k = to_lower k' \<Longrightarrow> get (set' h k v) k' = v"
    and get_set_other: "to_lower k \<noteq> to_lower k' \<Longrightarrow> get (set' h k v) k' = get h k'"
begin

lemma get_set: "get (set' h k v) k' = (if to_lower k = to_lower k' then v else get h k')"
  by (simp add: get_set_same get_set_other)

text \<open>Setting a list of keys, the last one winning.\<close>

lemma get_fold_set:
  "get (fold (\<lambda>(k, v) h. set' h k v) kvs h) k'
     = (case find (\<lambda>(k, _). to_lower k = to_lower k') (rev kvs) of None \<Rightarrow> get h k' | Some (_, v) \<Rightarrow> v)"
proof (induction kvs arbitrary: h)
  case Nil
  then show ?case by simp
next
  case (Cons kv kvs)
  obtain k v where kv: "kv = (k, v)" by (cases kv)
  have "find P (xs @ [x]) = (case find P xs of None \<Rightarrow> if P x then Some x else None | Some y \<Rightarrow> Some y)" for P xs and x :: "string \<times> string"
    by (induction xs) auto
  with Cons show ?case by (simp add: kv get_set split: option.splits)
qed

end

lemma local_header_api:
  assumes "mdLaws lib"
  shows "header_api (localGet lib) (localSet lib)"
  by unfold_locales (simp_all add: localGet_def localSet_def mdLaws_simps [OF assms])

locale md_lib =
  fixes lib :: mdLib
  assumes laws: "mdLaws lib"

sublocale md_lib \<subseteq> local_header: header_api "localGet lib" "localSet lib"
  by (rule local_header_api [OF laws])

text \<open>The functions of the metadata package on finite maps of values.\<close>

definition stdMd :: mdLib where
  "stdMd = \<lparr>ml_get = (\<lambda>m k. mdValues m (to_lower k)), ml_set = (\<lambda>m k vs. if vs = [] then m else m(to_lower k \<mapsto> vs)),
     ml_append = (\<lambda>m k vs. if vs = [] then m else m(to_lower k \<mapsto> mdValues m (to_lower k) @ vs)),
     ml_join = (\<lambda>a b k. case (a k, b k) of (None, None) \<Rightarrow> None | _ \<Rightarrow> Some (mdValues a k @ mdValues b k)),
     ml_appendOutgoing = (\<lambda>out kvs k.
        case (case out of None \<Rightarrow> [] | Some a \<Rightarrow> mdValues a k) @ map snd (filter (\<lambda>(k', _). to_lower k' = k) kvs) of
          [] \<Rightarrow> None | vs \<Rightarrow> Some vs)\<rparr>"

lemma stdMd_laws: "mdLaws stdMd"
  by (auto simp: mdLaws_def stdMd_def mdValues_def split: option.splits list.splits)

interpretation std: md_lib stdMd
  by unfold_locales (rule stdMd_laws)

section \<open>The transport of a local call\<close>

record localTransport =
  lt_operation :: string
  lt_requestHeader :: md
  lt_initialRequestHeader :: md
  lt_replyHeader :: md
  lt_replyTrailer :: md

definition newLocalTransport :: "string \<Rightarrow> md \<Rightarrow> localTransport" where
  "newLocalTransport operation requestHeader =
     \<lparr>lt_operation = operation, lt_requestHeader = requestHeader, lt_initialRequestHeader = requestHeader,
      lt_replyHeader = Map.empty, lt_replyTrailer = Map.empty\<rparr>"

definition ltSetHeader :: "mdLib \<Rightarrow> md \<Rightarrow> localTransport \<Rightarrow> localTransport" where
  "ltSetHeader lib m t = t\<lparr>lt_replyHeader := ml_join lib (lt_replyHeader t) m\<rparr>"

definition ltSendHeader :: "mdLib \<Rightarrow> md \<Rightarrow> localTransport \<Rightarrow> localTransport" where
  "ltSendHeader lib m t = ltSetHeader lib m t"

definition ltSetTrailer :: "mdLib \<Rightarrow> md \<Rightarrow> localTransport \<Rightarrow> localTransport" where
  "ltSetTrailer lib m t = t\<lparr>lt_replyTrailer := ml_join lib (lt_replyTrailer t) m\<rparr>"

end
