(* ===== verification/RequestIds.thy ===== *)
theory RequestIds
  imports Metadata
begin

text \<open>
  Model of \<open>client/middleware/requestid/requestid.go\<close>: the request identifier of a context, and the
  server middleware, client middleware and interceptors that read it, generate it and pass it on.
  The headers of a transport are values of the type \<open>'h\<close> with the operations \<open>headerOps\<close>; a transport
  is shared, so a header that was set is seen in the context passed on.  \<open>generated\<close> is what the
  default generator returns if it is called.
\<close>

section \<open>Model\<close>

record 'h headerOps =
  ho_get :: "'h \<Rightarrow> string \<Rightarrow> string"
  ho_set :: "'h \<Rightarrow> string \<Rightarrow> string \<Rightarrow> 'h"

text \<open>The server transport has a request and a reply header, the client one a request header.\<close>

record 'h callCtx =
  cc_requestID :: "string option"
  cc_server :: "('h \<times> 'h) option"
  cc_client :: "'h option"
  cc_outgoing :: "md option"

record requestIDOptions =
  ro_headerName :: string
  ro_generated :: string

datatype requestIDOption = WithRequestIDHeader string | WithRequestIDGenerator "string option"

definition DefaultRequestIDHeader :: string where "DefaultRequestIDHeader = ''X-Request-Id''"

definition applyRequestIDOption :: "requestIDOption option \<Rightarrow> requestIDOptions \<Rightarrow> requestIDOptions" where
  "applyRequestIDOption opt c = (case opt of
      None \<Rightarrow> c
    | Some (WithRequestIDHeader name) \<Rightarrow> if name \<noteq> [] then c\<lparr>ro_headerName := name\<rparr> else c
    | Some (WithRequestIDGenerator generator) \<Rightarrow> (case generator of None \<Rightarrow> c | Some g \<Rightarrow> c\<lparr>ro_generated := g\<rparr>))"

definition newRequestIDOptions :: "string \<Rightarrow> requestIDOption option list \<Rightarrow> requestIDOptions" where
  "newRequestIDOptions generated opts = fold applyRequestIDOption opts
     \<lparr>ro_headerName = DefaultRequestIDHeader, ro_generated = generated\<rparr>"

definition WithRequestID :: "'h callCtx \<Rightarrow> string \<Rightarrow> 'h callCtx" where
  "WithRequestID ctx requestID = ctx\<lparr>cc_requestID := Some requestID\<rparr>"

definition FromContext :: "'h callCtx option \<Rightarrow> string" where
  "FromContext ctx = (case ctx of None \<Rightarrow> [] | Some c \<Rightarrow> (case cc_requestID c of None \<Rightarrow> [] | Some i \<Rightarrow> i))"

definition GetRequestID :: "'h callCtx option \<Rightarrow> string" where
  "GetRequestID ctx = FromContext ctx"

definition ServerID ::
  "'h headerOps \<Rightarrow> string \<Rightarrow> requestIDOption option list \<Rightarrow> ('h callCtx \<Rightarrow> 'q \<Rightarrow> 'r) \<Rightarrow> 'h callCtx \<Rightarrow> 'q \<Rightarrow> 'r" where
  "ServerID ops generated opts handler ctx req =
     (let options = newRequestIDOptions generated opts;
          requestID = FromContext (Some ctx);
          requestID = (case cc_server ctx of
              Some (request, _) \<Rightarrow> if requestID = [] then ho_get ops request (ro_headerName options) else requestID
            | None \<Rightarrow> requestID);
          requestID = (if requestID = [] then ro_generated options else requestID);
          ctx = (case cc_server ctx of
              Some (request, reply) \<Rightarrow> ctx\<lparr>cc_server := Some (request, ho_set ops reply (ro_headerName options) requestID)\<rparr>
            | None \<Rightarrow> ctx)
      in handler (WithRequestID ctx requestID) req)"

definition ClientID ::
  "'h headerOps \<Rightarrow> string \<Rightarrow> requestIDOption option list \<Rightarrow> ('h callCtx \<Rightarrow> 'q \<Rightarrow> 'r) \<Rightarrow> 'h callCtx \<Rightarrow> 'q \<Rightarrow> 'r" where
  "ClientID ops generated opts handler ctx req =
     (let options = newRequestIDOptions generated opts;
          requestID = FromContext (Some ctx);
          (requestID, ctx) = (if requestID = [] then (ro_generated options, WithRequestID ctx (ro_generated options)) else (requestID, ctx));
          ctx = (case cc_client ctx of
              Some header \<Rightarrow> ctx\<lparr>cc_client := Some (ho_set ops header (ro_headerName options) requestID)\<rparr>
            | None \<Rightarrow> ctx)
      in handler ctx req)"

definition unaryClientID ::
  "mdLib \<Rightarrow> string \<Rightarrow> requestIDOption option list \<Rightarrow> ('h callCtx \<Rightarrow> 'm \<Rightarrow> 'r) \<Rightarrow> 'h callCtx \<Rightarrow> 'm \<Rightarrow> 'r" where
  "unaryClientID lib generated opts invoker ctx method =
     (let options = newRequestIDOptions generated opts;
          requestID = FromContext (Some ctx);
          (requestID, ctx) = (if requestID = [] then (ro_generated options, WithRequestID ctx (ro_generated options)) else (requestID, ctx))
      in if (case cc_outgoing ctx of None \<Rightarrow> False | Some outgoing \<Rightarrow> 0 < length (ml_get lib outgoing (ro_headerName options)))
         then invoker ctx method
         else invoker (ctx\<lparr>cc_outgoing := Some (ml_appendOutgoing lib (cc_outgoing ctx) [(ro_headerName options, requestID)])\<rparr>) method)"

text \<open>The stream interceptor takes the same steps before it calls the streamer.\<close>

definition streamClientID ::
  "mdLib \<Rightarrow> string \<Rightarrow> requestIDOption option list \<Rightarrow> ('h callCtx \<Rightarrow> 'm \<Rightarrow> 'r) \<Rightarrow> 'h callCtx \<Rightarrow> 'm \<Rightarrow> 'r" where
  "streamClientID lib generated opts streamer ctx method =
     (let options = newRequestIDOptions generated opts;
          requestID = FromContext (Some ctx);
          (requestID, ctx) = (if requestID = [] then (ro_generated options, WithRequestID ctx (ro_generated options)) else (requestID, ctx))
      in if (case cc_outgoing ctx of None \<Rightarrow> False | Some outgoing \<Rightarrow> 0 < length (ml_get lib outgoing (ro_headerName options)))
         then streamer ctx method
         else streamer (ctx\<lparr>cc_outgoing := Some (ml_appendOutgoing lib (cc_outgoing ctx) [(ro_headerName options, requestID)])\<rparr>) method)"

definition NewRequestIDMiddleware ::
  "'h headerOps \<Rightarrow> string \<Rightarrow> requestIDOption option list \<Rightarrow> ('h callCtx \<Rightarrow> 'q \<Rightarrow> 'r) \<Rightarrow> 'h callCtx \<Rightarrow> 'q \<Rightarrow> 'r" where
  "NewRequestIDMiddleware = ServerID"

section \<open>One identifier from hop to hop\<close>

context header_api
begin

text \<open>The context a client middleware passes on has one identifier, which its transport announces.\<close>

lemma client_announces:
  assumes "options = newRequestIDOptions generated opts" "cc_client ctx = Some h"
  shows "\<exists>ctx' h' i. (\<forall>handler :: 'h callCtx \<Rightarrow> 'q \<Rightarrow> 'r. \<forall>req.
        ClientID \<lparr>ho_get = get, ho_set = set'\<rparr> generated opts handler ctx req = handler ctx' req)
    \<and> i = (if FromContext (Some ctx) = [] then ro_generated options else FromContext (Some ctx))
    \<and> FromContext (Some ctx') = i \<and> cc_client ctx' = Some h' \<and> get h' (ro_headerName options) = i
    \<and> cc_outgoing ctx' = cc_outgoing ctx"
proof (cases "FromContext (Some ctx) = []")
  case True
  let ?i = "ro_generated options" and ?h = "set' h (ro_headerName options) (ro_generated options)"
  show ?thesis using True assms
    by (intro exI [of _ "ctx\<lparr>cc_requestID := Some ?i, cc_client := Some ?h\<rparr>"] exI [of _ ?h] exI [of _ ?i])
      (simp add: ClientID_def Let_def WithRequestID_def FromContext_def get_set)
next
  case False
  let ?i = "FromContext (Some ctx)"
  let ?h = "set' h (ro_headerName options) ?i"
  show ?thesis using False assms
    by (intro exI [of _ "ctx\<lparr>cc_client := Some ?h\<rparr>"] exI [of _ ?h] exI [of _ ?i])
      (simp add: ClientID_def Let_def get_set, simp add: FromContext_def)
qed

end

lemma unary_announces:
  assumes "mdLaws lib" "options = newRequestIDOptions generated opts"
    and "case cc_outgoing ctx of None \<Rightarrow> True | Some outgoing \<Rightarrow> ml_get lib outgoing (ro_headerName options) = []"
  shows "\<exists>ctx' out i. (\<forall>invoker :: 'h callCtx \<Rightarrow> 'm \<Rightarrow> 'r. \<forall>method. unaryClientID lib generated opts invoker ctx method = invoker ctx' method)
    \<and> i = (if FromContext (Some ctx) = [] then ro_generated options else FromContext (Some ctx))
    \<and> FromContext (Some ctx') = i \<and> cc_outgoing ctx' = Some out \<and> ml_get lib out (ro_headerName options) = [i]"
proof -
  let ?i = "if FromContext (Some ctx) = [] then ro_generated options else FromContext (Some ctx)"
  let ?out = "ml_appendOutgoing lib (cc_outgoing ctx) [(ro_headerName options, ?i)]"
  have "ml_get lib ?out (ro_headerName options) = [?i]"
    using assms(3) by (simp add: mdLaws_simps [OF assms(1)] split: option.splits)
  then show ?thesis using assms(2,3)
    by (intro exI [of _ "(if FromContext (Some ctx) = [] then WithRequestID ctx (ro_generated options) else ctx)\<lparr>cc_outgoing := Some ?out\<rparr>"]
        exI [of _ ?out] exI [of _ ?i])
      (auto simp: unaryClientID_def Let_def WithRequestID_def FromContext_def split: option.splits)
qed

text \<open>C31.
  One identifier follows a request through the hops.  The handler behind the server middleware gets a
  context whose identifier is, in this order, the one the context had, the one of the request header,
  or a generated one; the reply header announces the same.  When that handler calls another service on
  its context, the client middleware sets exactly this identifier in the header of the client
  transport, and the interceptor makes it the only outgoing value of the key (if the caller had not
  put one there): the generators of the client are not used.\<close>
theorem request_id_propagates:
  assumes "mdLaws lib" "ops = \<lparr>ho_get = localGet lib, ho_set = localSet lib\<rparr>"
    and "server = newRequestIDOptions generated opts" "client = newRequestIDOptions generated' opts'"
    and "cc_server ctx = Some (request, reply)" "ro_generated server \<noteq> []"
    and "i = (if FromContext (Some ctx) \<noteq> [] then FromContext (Some ctx)
              else if localGet lib request (ro_headerName server) \<noteq> [] then localGet lib request (ro_headerName server)
              else ro_generated server)"
  shows "\<exists>ctx' reply'. (\<forall>handler :: md callCtx \<Rightarrow> 'q \<Rightarrow> 'r. \<forall>req. ServerID ops generated opts handler ctx req = handler ctx' req)
    \<and> FromContext (Some ctx') = i \<and> i \<noteq> []
    \<and> cc_server ctx' = Some (request, reply') \<and> localGet lib reply' (ro_headerName server) = i
    \<and> (\<forall>h. \<exists>ctx2 h'. (\<forall>handler :: md callCtx \<Rightarrow> 'q \<Rightarrow> 'r. \<forall>req.
           ClientID ops generated' opts' handler (ctx'\<lparr>cc_client := Some h\<rparr>) req = handler ctx2 req)
         \<and> FromContext (Some ctx2) = i \<and> cc_client ctx2 = Some h' \<and> localGet lib h' (ro_headerName client) = i)
    \<and> ((case cc_outgoing ctx of None \<Rightarrow> True | Some outgoing \<Rightarrow> ml_get lib outgoing (ro_headerName client) = [])
       \<longrightarrow> (\<exists>ctx3 out. (\<forall>invoker :: md callCtx \<Rightarrow> 'm \<Rightarrow> 'r. \<forall>method. unaryClientID lib generated' opts' invoker ctx' method = invoker ctx3 method)
         \<and> cc_outgoing ctx3 = Some out \<and> ml_get lib out (ro_headerName client) = [i]))"
proof -
  note hdr = local_header_api [OF assms(1)]
  define reply' where "reply' = localSet lib reply (ro_headerName server) i"
  define ctx' where "ctx' = ctx\<lparr>cc_server := Some (request, reply'), cc_requestID := Some i\<rparr>"
  have ne: "i \<noteq> []" using assms(6,7) by simp
  have server: "ServerID ops generated opts handler ctx req = handler ctx' req" for handler :: "md callCtx \<Rightarrow> 'q \<Rightarrow> 'r" and req
    using assms(5,7) by (simp add: ServerID_def Let_def assms(2,3) ctx'_def reply'_def WithRequestID_def)
  have id: "FromContext (Some ctx') = i" by (simp add: FromContext_def ctx'_def)
  have reply: "localGet lib reply' (ro_headerName server) = i"
    using header_api.get_set [OF hdr] by (simp add: reply'_def)
  have client: "\<exists>ctx2 h'. (\<forall>handler :: md callCtx \<Rightarrow> 'q \<Rightarrow> 'r. \<forall>req.
           ClientID ops generated' opts' handler (ctx'\<lparr>cc_client := Some h\<rparr>) req = handler ctx2 req)
         \<and> FromContext (Some ctx2) = i \<and> cc_client ctx2 = Some h' \<and> localGet lib h' (ro_headerName client) = i" for h
  proof -
    let ?c = "ctx'\<lparr>cc_client := Some h\<rparr>"
    have "FromContext (Some ?c) = i" by (simp add: FromContext_def ctx'_def)
    then show ?thesis
      using header_api.client_announces [OF hdr assms(4), of ?c h] ne by (auto simp: assms(2))
  qed
  have unary: "\<exists>ctx3 out. (\<forall>invoker :: md callCtx \<Rightarrow> 'm \<Rightarrow> 'r. \<forall>method. unaryClientID lib generated' opts' invoker ctx' method = invoker ctx3 method)
         \<and> cc_outgoing ctx3 = Some out \<and> ml_get lib out (ro_headerName client) = [i]"
    if "case cc_outgoing ctx of None \<Rightarrow> True | Some outgoing \<Rightarrow> ml_get lib outgoing (ro_headerName client) = []"
    using unary_announces [OF assms(1,4), of ctx'] that id ne by (auto simp: ctx'_def)
  have cs: "cc_server ctx' = Some (request, reply')" by (simp add: ctx'_def)
  show ?thesis
    by (intro exI [of _ ctx'] exI [of _ reply'] conjI) (rule allI allI server id ne cs reply client impI unary | assumption)+
qed

theorem request_id_propagates_witness:
  "\<exists>ctx'. (\<forall>handler :: md callCtx \<Rightarrow> unit \<Rightarrow> nat. \<forall>req.
       ServerID \<lparr>ho_get = localGet stdMd, ho_set = localSet stdMd\<rparr> ''fresh'' []  handler
         \<lparr>cc_requestID = None, cc_server = Some ([''x-request-id'' \<mapsto> [''abc'']], Map.empty), cc_client = None, cc_outgoing = None\<rparr> req
       = handler ctx' req)
     \<and> FromContext (Some ctx') = ''abc''"
proof -
  let ?ctx = "\<lparr>cc_requestID = None, cc_server = Some ([''x-request-id'' \<mapsto> [''abc'']], Map.empty), cc_client = None, cc_outgoing = None\<rparr>"
  have i: "''abc'' = (if FromContext (Some ?ctx) \<noteq> [] then FromContext (Some ?ctx)
      else if localGet stdMd [''x-request-id'' \<mapsto> [''abc'']] (ro_headerName (newRequestIDOptions ''fresh'' [])) \<noteq> []
           then localGet stdMd [''x-request-id'' \<mapsto> [''abc'']] (ro_headerName (newRequestIDOptions ''fresh'' []))
      else ro_generated (newRequestIDOptions ''fresh'' []))" by code_simp
  have g: "ro_generated (newRequestIDOptions ''fresh'' []) \<noteq> []" by code_simp
  have s: "cc_server ?ctx = Some ([''x-request-id'' \<mapsto> [''abc'']], Map.empty)" by simp
  from request_id_propagates [OF stdMd_laws refl refl refl s g i, of "''other''" "[]"] show ?thesis by blast
qed

end
