(* ===== verification/ClientConfig.thy ===== *)
theory ClientConfig
  imports ClientCalls ClientMetrics RequestIds Complex_Main
begin

text \<open>
  Model of \<open>client/interceptor.go\<close>, \<open>client/middleware.go\<close> and \<open>client/grpc.go\<close>: how a client
  configuration becomes interceptors, middlewares and connection options.  What the libraries build
  from these (providers, retriers, limiters, authenticators, connections) is opaque; creating it may
  fail and is a parameter.  A floating-point number is not a number, an infinity or a rational; a
  protobuf duration is what its methods \<open>CheckValid\<close> and \<open>AsDuration\<close> return, in nanoseconds.
\<close>

section \<open>Configuration\<close>

datatype f64 = NaN | Infinite bool | Finite rat

definition f64_isNaN :: "f64 \<Rightarrow> bool" where
  "f64_isNaN x \<longleftrightarrow> (case x of NaN \<Rightarrow> True | _ \<Rightarrow> False)"

definition f64_isInf :: "f64 \<Rightarrow> bool" where
  "f64_isInf x \<longleftrightarrow> (case x of Infinite _ \<Rightarrow> True | _ \<Rightarrow> False)"

text \<open>Comparison with zero; an infinity carries whether it is negative.\<close>

definition f64_neg :: "f64 \<Rightarrow> bool" where
  "f64_neg x \<longleftrightarrow> (case x of NaN \<Rightarrow> False | Infinite negative \<Rightarrow> negative | Finite q \<Rightarrow> q < 0)"

definition f64_pos :: "f64 \<Rightarrow> bool" where
  "f64_pos x \<longleftrightarrow> (case x of NaN \<Rightarrow> False | Infinite negative \<Rightarrow> \<not> negative | Finite q \<Rightarrow> 0 < q)"

record pbDuration =
  pd_check :: "string option"
  pd_duration :: int

record metricsConfig =
  mc_namespace :: string
  mc_subsystem :: string
  mc_requestCounterName :: string
  mc_latencyHistogramName :: string
  mc_inFlightGaugeName :: string
  mc_skipMethods :: "string list"

record retryConfig =
  yc_initialBackoff :: "pbDuration option"
  yc_maxBackoff :: "pbDuration option"
  yc_backoffFactor :: f64
  yc_maxAttempts :: nat
  yc_maxTotalWait :: "pbDuration option"
  yc_idempotentPrefixes :: "string list"
  yc_retryCodes :: "string list"
  yc_skipMethods :: "string list"

record limiterConfig =
  bc_tokensPerSecond :: f64
  bc_burst :: nat
  bc_wait :: bool
  bc_skipMethods :: "string list"

record selectorFilterConfig =
  sf_filterVersion :: string
  sf_balancer :: string

record clientAuthConfig =
  ca_secret :: string
  ca_method :: string

record clientMiddlewareConfig =
  cm_enableRecovery :: bool
  cm_enableTracing :: bool
  cm_enableMetadata :: bool
  cm_enableLogging :: bool
  cm_enableCircuitBreaker :: bool
  cm_auth :: "clientAuthConfig option"
  cm_metrics :: "metricsConfig option"
  cm_retry :: "retryConfig option"
  cm_rateLimiter :: "limiterConfig option"
  cm_selectorFilter :: "selectorFilterConfig option"

datatype clientErr =
  ProviderFailed string | DurationInvalid string string | DurationNotPositive string | FactorInvalid
| UnknownCode string | TokensInvalid | BurstInvalid | LimiterFailed string
| KeyMissing | DeriveFailed string | AuthenticatorFailed string
| NoEndpoint | NoDiscovery string | SelectorFixed string string | TlsFailed string | DialFailed string string
| InitFailed clientErr | NilContext | LocalMiddlewareFailed clientErr | LocalInterceptorFailed clientErr
| ConnectionFailed clientErr | NotConnected

section \<open>Interceptors from the configuration\<close>

text \<open>What is built: for retries the back-off and the limits of the retrier.\<close>

record retrierSpec =
  rs_initial :: int
  rs_factor :: f64
  rs_max :: int
  rs_maxAttempts :: "int option"
  rs_maxTotalWait :: "int option"

datatype ('p, 'l) interceptor =
  MetricsInterceptor 'p "metricOption list"
| RetryInterceptor retrierSpec "retryOption list"
| LimitInterceptor 'l "limitOption list"

record ('p, 'l) configuredInterceptors =
  ci_unary :: "('p, 'l) interceptor list"
  ci_stream :: "('p, 'l) interceptor list"

definition noInterceptors :: "('p, 'l) configuredInterceptors" where
  "noInterceptors = \<lparr>ci_unary = [], ci_stream = []\<rparr>"

definition defaultClientMetricsSubsystem :: string where
  "defaultClientMetricsSubsystem = ''grpc_client''"

text \<open>\<open>newProvider\<close> takes the namespace, if there is one, and the subsystem.\<close>

definition appendMetrics ::
  "(string option \<Rightarrow> string \<Rightarrow> (string, 'p) result) \<Rightarrow> metricsConfig \<Rightarrow> ('p, 'l) configuredInterceptors
    \<Rightarrow> (clientErr, ('p, 'l) configuredInterceptors) result" where
  "appendMetrics newProvider config is =
     (let namespace = (if mc_namespace config \<noteq> [] then Some (mc_namespace config) else None);
          subsystem = (if mc_subsystem config = [] then defaultClientMetricsSubsystem else mc_subsystem config)
      in case newProvider namespace subsystem of
           Inl e \<Rightarrow> Inl (ProviderFailed e)
         | Inr provider \<Rightarrow>
             (let opts = (if mc_requestCounterName config \<noteq> [] then [WithRequestCounterName (mc_requestCounterName config)] else [])
                @ (if mc_latencyHistogramName config \<noteq> [] then [WithLatencyHistogramName (mc_latencyHistogramName config)] else [])
                @ (if mc_inFlightGaugeName config \<noteq> [] then [WithInFlightGaugeName (mc_inFlightGaugeName config)] else [])
                @ (if 0 < length (mc_skipMethods config) then [WithSkipFunc (Some (\<lambda>m. m \<in> set (mc_skipMethods config)))] else [])
              in Inr \<lparr>ci_unary = ci_unary is @ [MetricsInterceptor provider opts],
                      ci_stream = ci_stream is @ [MetricsInterceptor provider opts]\<rparr>))"

definition positiveDuration :: "pbDuration \<Rightarrow> string \<Rightarrow> (clientErr, int) result" where
  "positiveDuration value field = (case pd_check value of
      Some e \<Rightarrow> Inl (DurationInvalid field e)
    | None \<Rightarrow> if pd_duration value \<le> 0 then Inl (DurationNotPositive field) else Inr (pd_duration value))"

text \<open>A field that may be missing keeps its default.\<close>

definition durationOr :: "int \<Rightarrow> pbDuration option \<Rightarrow> string \<Rightarrow> (clientErr, int) result" where
  "durationOr dflt value field = (case value of None \<Rightarrow> Inr dflt | Some d \<Rightarrow> positiveDuration d field)"

definition codesByName :: "(string \<times> nat) list" where
  "codesByName = [(''CANCELED'', 1), (''UNKNOWN'', 2), (''INVALID_ARGUMENT'', 3), (''DEADLINE_EXCEEDED'', 4), (''NOT_FOUND'', 5),
     (''ALREADY_EXISTS'', 6), (''PERMISSION_DENIED'', 7), (''RESOURCE_EXHAUSTED'', 8), (''FAILED_PRECONDITION'', 9),
     (''ABORTED'', 10), (''OUT_OF_RANGE'', 11), (''UNIMPLEMENTED'', 12), (''INTERNAL'', 13), (''UNAVAILABLE'', 14),
     (''DATA_LOSS'', 15), (''UNAUTHENTICATED'', 16)]"

definition parseRetryCodes :: "string list \<Rightarrow> (clientErr, nat list) result" where
  "parseRetryCodes names = mapR (\<lambda>name. case map_of codesByName name of
      None \<Rightarrow> Inl (UnknownCode name) | Some code \<Rightarrow> Inr code) names"

definition appendRetry ::
  "retryConfig \<Rightarrow> ('p, 'l) configuredInterceptors \<Rightarrow> (clientErr, ('p, 'l) configuredInterceptors) result" where
  "appendRetry config is =
     bindR (durationOr 200000000 (yc_initialBackoff config) ''retry.initial_backoff'') (\<lambda>initial.
     bindR (durationOr 10000000000 (yc_maxBackoff config) ''retry.max_backoff'') (\<lambda>max.
       if f64_isNaN (yc_backoffFactor config) \<or> f64_isInf (yc_backoffFactor config) \<or> f64_neg (yc_backoffFactor config)
       then Inl FactorInvalid
       else
         (let factor = (if f64_pos (yc_backoffFactor config) then yc_backoffFactor config else Finite 2);
              attempts = (if 0 < yc_maxAttempts config then Some (int (yc_maxAttempts config)) else None)
          in bindR (case yc_maxTotalWait config of
                None \<Rightarrow> Inr None
              | Some d \<Rightarrow> bindR (positiveDuration d ''retry.max_total_wait'') (\<lambda>w. Inr (Some w))) (\<lambda>totalWait.
             bindR (if 0 < length (yc_retryCodes config)
                then bindR (parseRetryCodes (yc_retryCodes config)) (\<lambda>codes. Inr [WithRetryCodes codes]) else Inr []) (\<lambda>codeOptions.
             let opts = (if 0 < length (yc_idempotentPrefixes config) then [WithIdempotentPrefixes (yc_idempotentPrefixes config)] else [])
               @ codeOptions
               @ (if 0 < length (yc_skipMethods config) then [WithSkipMethods (yc_skipMethods config)] else [])
             in Inr (is\<lparr>ci_unary := ci_unary is @ [RetryInterceptor
                  \<lparr>rs_initial = initial, rs_factor = factor, rs_max = max, rs_maxAttempts = attempts, rs_maxTotalWait = totalWait\<rparr>
                  opts]\<rparr>))))))"

definition appendRateLimiter ::
  "(f64 \<Rightarrow> int \<Rightarrow> (string, 'l) result) \<Rightarrow> limiterConfig \<Rightarrow> ('p, 'l) configuredInterceptors
    \<Rightarrow> (clientErr, ('p, 'l) configuredInterceptors) result" where
  "appendRateLimiter newLimiter config is =
     (if f64_isNaN (bc_tokensPerSecond config) \<or> f64_isInf (bc_tokensPerSecond config) \<or> \<not> f64_pos (bc_tokensPerSecond config)
      then Inl TokensInvalid
      else if bc_burst config = 0 then Inl BurstInvalid
      else (case newLimiter (bc_tokensPerSecond config) (int (bc_burst config)) of
          Inl e \<Rightarrow> Inl (LimiterFailed e)
        | Inr limiter \<Rightarrow>
            (let opts = (if bc_wait config then [WithWait] else [])
               @ (if 0 < length (bc_skipMethods config) then [WithLimitSkipMethods (bc_skipMethods config)] else [])
             in Inr \<lparr>ci_unary = ci_unary is @ [LimitInterceptor limiter opts],
                     ci_stream = ci_stream is @ [LimitInterceptor limiter opts]\<rparr>)))"

text \<open>A part of the configuration that is missing appends nothing.\<close>

definition appendPart :: "'c option \<Rightarrow> ('c \<Rightarrow> 'a \<Rightarrow> ('e, 'a) result) \<Rightarrow> 'a \<Rightarrow> ('e, 'a) result" where
  "appendPart config add is = (case config of None \<Rightarrow> Inr is | Some c \<Rightarrow> add c is)"

definition buildConfiguredClientInterceptors ::
  "(string option \<Rightarrow> string \<Rightarrow> (string, 'p) result) \<Rightarrow> (f64 \<Rightarrow> int \<Rightarrow> (string, 'l) result) \<Rightarrow> clientMiddlewareConfig option
    \<Rightarrow> (clientErr, ('p, 'l) configuredInterceptors) result" where
  "buildConfiguredClientInterceptors newProvider newLimiter config = (case config of
      None \<Rightarrow> Inr noInterceptors
    | Some c \<Rightarrow>
        bindR (appendPart (cm_metrics c) (appendMetrics newProvider) noInterceptors) (\<lambda>is.
        bindR (appendPart (cm_retry c) appendRetry is) (\<lambda>is.
        appendPart (cm_rateLimiter c) (appendRateLimiter newLimiter) is)))"

section \<open>Middlewares from the configuration\<close>

datatype ('a, 'm) clientMiddleware =
  RequestIDClient | Recovery | TracingClient | MetadataClient | StaticMetadata "(string \<times> string) list"
| ClientLogging | CircuitBreaker | AuthClient 'a | CustomMiddleware 'm

definition jwtKeyName :: string where "jwtKeyName = ''kratos-kit:authn/jwt''"

text \<open>\<open>runtimeKey\<close> is the \<open>Derive\<close> of the key of the runtime, if there is one.\<close>

definition appendClientMiddlewaresWithMetadata ::
  "(string \<Rightarrow> (string, string) result) option \<Rightarrow> (string \<Rightarrow> string \<Rightarrow> (string, 'a) result)
    \<Rightarrow> clientMiddlewareConfig option \<Rightarrow> (string \<times> string) list \<Rightarrow> 'm list
    \<Rightarrow> (clientErr, ('a, 'm) clientMiddleware list) result" where
  "appendClientMiddlewaresWithMetadata runtimeKey newAuthenticator config staticMetadata custom =
     (let static = (if 0 < length staticMetadata then [StaticMetadata staticMetadata] else []);
          customs = map CustomMiddleware custom
      in case config of
        None \<Rightarrow> Inr (static @ customs)
      | Some c \<Rightarrow>
          (let result = [RequestIDClient]
             @ (if cm_enableRecovery c then [Recovery] else [])
             @ (if cm_enableTracing c then [TracingClient] else [])
             @ (if cm_enableMetadata c then [MetadataClient] else [])
             @ static
             @ (if cm_enableLogging c then [ClientLogging] else [])
             @ (if cm_enableCircuitBreaker c then [CircuitBreaker] else [])
           in case cm_auth c of
                None \<Rightarrow> Inr (result @ customs)
              | Some auth \<Rightarrow>
                  bindR (if ca_secret auth = [] then
                       (case runtimeKey of
                          None \<Rightarrow> Inl KeyMissing
                        | Some derive \<Rightarrow> (case derive jwtKeyName of Inl e \<Rightarrow> Inl (DeriveFailed e) | Inr derived \<Rightarrow> Inr derived))
                     else Inr (ca_secret auth)) (\<lambda>secret.
                  case newAuthenticator secret (ca_method auth) of
                    Inl e \<Rightarrow> Inl (AuthenticatorFailed e)
                  | Inr authenticator \<Rightarrow> Inr (result @ [AuthClient authenticator] @ customs))))"

definition appendClientMiddlewares ::
  "(string \<Rightarrow> (string, string) result) option \<Rightarrow> (string \<Rightarrow> string \<Rightarrow> (string, 'a) result)
    \<Rightarrow> clientMiddlewareConfig option \<Rightarrow> 'm list \<Rightarrow> (clientErr, ('a, 'm) clientMiddleware list) result" where
  "appendClientMiddlewares runtimeKey newAuthenticator config middlewares =
     appendClientMiddlewaresWithMetadata runtimeKey newAuthenticator config [] middlewares"

text \<open>The middleware of static metadata, with the entries in the order of one iteration.\<close>

definition clientMetadata ::
  "'h headerOps \<Rightarrow> (string \<times> string) list \<Rightarrow> ('h callCtx \<Rightarrow> 'q \<Rightarrow> 'r) \<Rightarrow> 'h callCtx \<Rightarrow> 'q \<Rightarrow> 'r" where
  "clientMetadata ops values handler ctx req =
     handler (case cc_client ctx of
         None \<Rightarrow> ctx
       | Some header \<Rightarrow> ctx\<lparr>cc_client := Some (fold (\<lambda>(key, value) h. ho_set ops h key value) values header)\<rparr>) req"

text \<open>The log line of a client call: codes from INTERNAL on are errors, from NOT_FOUND on warnings.\<close>

datatype logLevel = LevelInfo | LevelWarn | LevelError

definition clientLogLevel :: "nat option \<Rightarrow> logLevel" where
  "clientLogLevel code = (case code of
      None \<Rightarrow> LevelInfo
    | Some c \<Rightarrow> if 13 \<le> c then LevelError else if 5 \<le> c then LevelWarn else LevelInfo)"

record clientLogLine =
  cl_level :: logLevel
  cl_method :: string
  cl_target :: string
  cl_latency :: int
  cl_code :: nat
  cl_error :: "string option"

text \<open>The response, and the line if the logger is enabled for its level; \<open>peer\<close> gives operation and
  endpoint of the client transport.\<close>

definition clientLogging ::
  "(logLevel \<Rightarrow> bool) \<Rightarrow> ('e \<Rightarrow> nat) \<Rightarrow> ('e \<Rightarrow> string) \<Rightarrow> ('c \<Rightarrow> (string \<times> string) option) \<Rightarrow> int
    \<Rightarrow> ('c \<Rightarrow> 'q \<Rightarrow> ('e, 'r) result) \<Rightarrow> 'c \<Rightarrow> 'q \<Rightarrow> ('e, 'r) result \<times> clientLogLine option" where
  "clientLogging enabled code text peer latency handler ctx req =
     (let response = handler ctx req;
          err = (case response of Inl e \<Rightarrow> Some e | Inr _ \<Rightarrow> None);
          level = clientLogLevel (map_option code err)
      in (response,
          if enabled level then
            (let (operation, endpoint) = (case peer ctx of None \<Rightarrow> ([], []) | Some p \<Rightarrow> p) in
             Some \<lparr>cl_level = level, cl_method = operation, cl_target = endpoint, cl_latency = latency,
                   cl_code = (case err of None \<Rightarrow> 0 | Some e \<Rightarrow> code e), cl_error = map_option text err\<rparr>)
          else None))"

section \<open>Limits of a valid configuration\<close>

text \<open>What the interceptors may be built with.\<close>

definition retrierOk :: "retrierSpec \<Rightarrow> bool" where
  "retrierOk r \<longleftrightarrow> 0 < rs_initial r \<and> 0 < rs_max r \<and> (\<exists>q > 0. rs_factor r = Finite q)
     \<and> (\<forall>n. rs_maxAttempts r = Some n \<longrightarrow> 0 < n) \<and> (\<forall>w. rs_maxTotalWait r = Some w \<longrightarrow> 0 < w)"

definition retryOptionsOk :: "retryOption list \<Rightarrow> bool" where
  "retryOptionsOk opts \<longleftrightarrow> (\<forall>codes. WithRetryCodes codes \<in> set opts \<longrightarrow> codes \<noteq> [] \<and> set codes \<subseteq> {1..16})"

lemma positiveDuration_pos: "positiveDuration d field = Inr n \<Longrightarrow> 0 < n"
  by (auto simp: positiveDuration_def split: option.splits if_splits)

lemma durationOr_pos: "durationOr dflt d field = Inr n \<Longrightarrow> 0 < dflt \<Longrightarrow> 0 < n"
  by (auto simp: durationOr_def dest: positiveDuration_pos split: option.splits)

lemma codesByName_range: "map_of codesByName name = Some c \<Longrightarrow> c \<in> {1..16}"
  by (auto simp: codesByName_def split: if_splits)

lemma parseRetryCodes_ok:
  assumes "parseRetryCodes names = Inr codes"
  shows "length codes = length names \<and> set codes \<subseteq> {1..16}"
proof -
  have "list_all2 (\<lambda>n c. map_of codesByName n = Some c) names codes"
    using assms by (auto simp: parseRetryCodes_def mapR_Inr_iff elim!: list_all2_mono split: option.splits)
  then have "length names = length codes" "\<And>i. i < length codes \<Longrightarrow> codes ! i \<in> {1..16}"
    using codesByName_range by (auto simp: list_all2_conv_all_nth simp del: atLeastAtMost_iff)
  then show ?thesis by (metis in_set_conv_nth subsetI)
qed

lemma factor_ok:
  assumes "\<not> (f64_isNaN f \<or> f64_isInf f \<or> f64_neg f)"
  shows "\<exists>q > 0. (if f64_pos f then f else Finite 2) = Finite q"
  using assms by (cases f) (auto simp: f64_isNaN_def f64_isInf_def f64_neg_def f64_pos_def)

lemma appendRetry_ok:
  assumes "appendRetry config is = Inr is'"
  shows "\<exists>r opts. is' = is\<lparr>ci_unary := ci_unary is @ [RetryInterceptor r opts]\<rparr> \<and> retrierOk r \<and> retryOptionsOk opts"
proof -
  let ?bad = "f64_isNaN (yc_backoffFactor config) \<or> f64_isInf (yc_backoffFactor config) \<or> f64_neg (yc_backoffFactor config)"
  from assms obtain initial max where
    d: "durationOr 200000000 (yc_initialBackoff config) ''retry.initial_backoff'' = Inr initial"
       "durationOr 10000000000 (yc_maxBackoff config) ''retry.max_backoff'' = Inr max"
    and rest: "(if ?bad then Inl FactorInvalid else
         (let factor = (if f64_pos (yc_backoffFactor config) then yc_backoffFactor config else Finite 2);
              attempts = (if 0 < yc_maxAttempts config then Some (int (yc_maxAttempts config)) else None)
          in bindR (case yc_maxTotalWait config of
                None \<Rightarrow> Inr None
              | Some d \<Rightarrow> bindR (positiveDuration d ''retry.max_total_wait'') (\<lambda>w. Inr (Some w))) (\<lambda>totalWait.
             bindR (if 0 < length (yc_retryCodes config)
                then bindR (parseRetryCodes (yc_retryCodes config)) (\<lambda>codes. Inr [WithRetryCodes codes]) else Inr []) (\<lambda>codeOptions.
             let opts = (if 0 < length (yc_idempotentPrefixes config) then [WithIdempotentPrefixes (yc_idempotentPrefixes config)] else [])
               @ codeOptions
               @ (if 0 < length (yc_skipMethods config) then [WithSkipMethods (yc_skipMethods config)] else [])
             in Inr (is\<lparr>ci_unary := ci_unary is @ [RetryInterceptor
                  \<lparr>rs_initial = initial, rs_factor = factor, rs_max = max, rs_maxAttempts = attempts, rs_maxTotalWait = totalWait\<rparr>
                  opts]\<rparr>))))) = Inr is'"
    unfolding appendRetry_def bindR_Inr_iff by blast
  have f: "\<not> ?bad"
  proof
    assume ?bad
    with rest show False by simp
  qed
  obtain totalWait codeOptions where
    w: "(case yc_maxTotalWait config of None \<Rightarrow> Inr None
              | Some d \<Rightarrow> bindR (positiveDuration d ''retry.max_total_wait'') (\<lambda>w. Inr (Some w))) = Inr totalWait"
    and c: "(if 0 < length (yc_retryCodes config)
                then bindR (parseRetryCodes (yc_retryCodes config)) (\<lambda>codes. Inr [WithRetryCodes codes]) else Inr []) = Inr codeOptions"
    and r: "is' = is\<lparr>ci_unary := ci_unary is @ [RetryInterceptor
        \<lparr>rs_initial = initial, rs_factor = (if f64_pos (yc_backoffFactor config) then yc_backoffFactor config else Finite 2), rs_max = max,
         rs_maxAttempts = (if 0 < yc_maxAttempts config then Some (int (yc_maxAttempts config)) else None), rs_maxTotalWait = totalWait\<rparr>
        ((if 0 < length (yc_idempotentPrefixes config) then [WithIdempotentPrefixes (yc_idempotentPrefixes config)] else [])
               @ codeOptions
               @ (if 0 < length (yc_skipMethods config) then [WithSkipMethods (yc_skipMethods config)] else []))]\<rparr>"
    using rest [unfolded if_not_P [OF f] Let_def bindR_Inr_iff [of _ _ is']] by (elim exE conjE) (simp only: sum.inject)
  let ?r = "\<lparr>rs_initial = initial, rs_factor = (if f64_pos (yc_backoffFactor config) then yc_backoffFactor config else Finite 2), rs_max = max,
         rs_maxAttempts = (if 0 < yc_maxAttempts config then Some (int (yc_maxAttempts config)) else None), rs_maxTotalWait = totalWait\<rparr>"
  let ?opts = "(if 0 < length (yc_idempotentPrefixes config) then [WithIdempotentPrefixes (yc_idempotentPrefixes config)] else [])
               @ codeOptions
               @ (if 0 < length (yc_skipMethods config) then [WithSkipMethods (yc_skipMethods config)] else [])"
  have "\<forall>n. totalWait = Some n \<longrightarrow> 0 < n"
    using w by (auto simp: bindR_Inr_iff dest: positiveDuration_pos split: option.splits)
  with durationOr_pos [OF d(1)] durationOr_pos [OF d(2)] factor_ok [OF f] have "retrierOk ?r"
    by (simp add: retrierOk_def)
  moreover have "\<forall>codes. WithRetryCodes codes \<in> set codeOptions \<longrightarrow> codes \<noteq> [] \<and> set codes \<subseteq> {1..16}"
    using c parseRetryCodes_ok by (fastforce simp: bindR_Inr_iff split: if_splits)
  then have "retryOptionsOk ?opts" by (auto simp: retryOptionsOk_def)
  ultimately show ?thesis using r by (intro exI [of _ ?r] exI [of _ ?opts]) blast
qed

lemma appendMetrics_ok:
  "appendMetrics newProvider config is = Inr is' \<Longrightarrow> \<exists>p opts. newProvider (if mc_namespace config \<noteq> [] then Some (mc_namespace config) else None)
        (if mc_subsystem config = [] then defaultClientMetricsSubsystem else mc_subsystem config) = Inr p
    \<and> is' = \<lparr>ci_unary = ci_unary is @ [MetricsInterceptor p opts], ci_stream = ci_stream is @ [MetricsInterceptor p opts]\<rparr>"
  by (auto simp: appendMetrics_def Let_def split: sum.splits)

lemma appendRateLimiter_ok:
  assumes "appendRateLimiter newLimiter config is = Inr is'"
  shows "\<exists>l opts q n. newLimiter (Finite q) n = Inr l \<and> 0 < q \<and> 0 < n
    \<and> is' = \<lparr>ci_unary = ci_unary is @ [LimitInterceptor l opts], ci_stream = ci_stream is @ [LimitInterceptor l opts]\<rparr>"
proof -
  from assms obtain l opts where *: "\<not> (f64_isNaN (bc_tokensPerSecond config) \<or> f64_isInf (bc_tokensPerSecond config) \<or> \<not> f64_pos (bc_tokensPerSecond config))"
    "bc_burst config \<noteq> 0" "newLimiter (bc_tokensPerSecond config) (int (bc_burst config)) = Inr l"
    "is' = \<lparr>ci_unary = ci_unary is @ [LimitInterceptor l opts], ci_stream = ci_stream is @ [LimitInterceptor l opts]\<rparr>"
    by (auto simp: appendRateLimiter_def Let_def split: if_splits sum.splits)
  from *(1) obtain q where "bc_tokensPerSecond config = Finite q" "0 < q"
    by (cases "bc_tokensPerSecond config") (auto simp: f64_isNaN_def f64_isInf_def f64_pos_def)
  with * show ?thesis by (intro exI [of _ l] exI [of _ opts] exI [of _ q] exI [of _ "int (bc_burst config)"]) simp
qed

text \<open>A part that is not configured leaves the chains as they are; one that is appends one interceptor.\<close>

lemma metrics_part:
  assumes "appendPart mc (appendMetrics newProvider) noInterceptors = Inr is1"
  shows "\<exists>metrics. is1 = \<lparr>ci_unary = metrics, ci_stream = metrics\<rparr>
    \<and> (if mc = None then metrics = [] else (\<exists>n s p opts. newProvider n s = Inr p \<and> s \<noteq> [] \<and> metrics = [MetricsInterceptor p opts]))"
proof (cases mc)
  case None
  with assms show ?thesis by (simp add: appendPart_def noInterceptors_def)
next
  case (Some config)
  with assms have "appendMetrics newProvider config noInterceptors = Inr is1" by (simp add: appendPart_def)
  from appendMetrics_ok [OF this] obtain p opts where
    p: "newProvider (if mc_namespace config \<noteq> [] then Some (mc_namespace config) else None)
      (if mc_subsystem config = [] then defaultClientMetricsSubsystem else mc_subsystem config) = Inr p"
    and i: "is1 = \<lparr>ci_unary = [MetricsInterceptor p opts], ci_stream = [MetricsInterceptor p opts]\<rparr>"
    by (auto simp: noInterceptors_def)
  have "(if mc_subsystem config = [] then defaultClientMetricsSubsystem else mc_subsystem config) \<noteq> []"
    by (simp add: defaultClientMetricsSubsystem_def)
  with p i Some show ?thesis by (intro exI [of _ "[MetricsInterceptor p opts]"]) auto
qed

lemma retry_part:
  assumes "appendPart rc appendRetry is1 = Inr is2"
  shows "\<exists>retry. is2 = is1\<lparr>ci_unary := ci_unary is1 @ retry\<rparr>
    \<and> (if rc = None then retry = [] else (\<exists>r opts. retry = [RetryInterceptor r opts] \<and> retrierOk r \<and> retryOptionsOk opts))"
proof (cases rc)
  case None
  with assms show ?thesis by (simp add: appendPart_def)
next
  case (Some config)
  with assms have "appendRetry config is1 = Inr is2" by (simp add: appendPart_def)
  from appendRetry_ok [OF this] Some show ?thesis by auto
qed

lemma limit_part:
  assumes "appendPart lc (appendRateLimiter newLimiter) is2 = Inr is3"
  shows "\<exists>limit. is3 = \<lparr>ci_unary = ci_unary is2 @ limit, ci_stream = ci_stream is2 @ limit\<rparr>
    \<and> (if lc = None then limit = []
       else (\<exists>l opts q n. newLimiter (Finite q) n = Inr l \<and> 0 < q \<and> 0 < n \<and> limit = [LimitInterceptor l opts]))"
proof (cases lc)
  case None
  with assms show ?thesis by (simp add: appendPart_def)
next
  case (Some config)
  with assms have "appendRateLimiter newLimiter config is2 = Inr is3" by (simp add: appendPart_def)
  from appendRateLimiter_ok [OF this] Some show ?thesis by (auto 4 6)
qed

text \<open>C29.
  A configuration that is accepted is within its limits.  If interceptors are built, the unary chain is
  metrics, retry and rate limit and the stream chain metrics and rate limit, in this order and each only
  if it is configured; a retrier has positive delays, attempts and total wait and a finite positive
  factor, and only retries on codes from 1 to 16; a limiter has a finite positive rate and a positive
  burst.  Durations of zero or less, NaN, infinities and unknown code names never get that far.\<close>
theorem client_config_valid:
  assumes "buildConfiguredClientInterceptors newProvider newLimiter (Some c) = Inr is"
  shows "\<exists>metrics retry limit. is = \<lparr>ci_unary = metrics @ retry @ limit, ci_stream = metrics @ limit\<rparr>
    \<and> (if cm_metrics c = None then metrics = [] else (\<exists>n s p opts. newProvider n s = Inr p \<and> s \<noteq> [] \<and> metrics = [MetricsInterceptor p opts]))
    \<and> (if cm_retry c = None then retry = [] else (\<exists>r opts. retry = [RetryInterceptor r opts] \<and> retrierOk r \<and> retryOptionsOk opts))
    \<and> (if cm_rateLimiter c = None then limit = []
       else (\<exists>l opts q n. newLimiter (Finite q) n = Inr l \<and> 0 < q \<and> 0 < n \<and> limit = [LimitInterceptor l opts]))"
proof -
  from assms obtain is1 is2 where m: "appendPart (cm_metrics c) (appendMetrics newProvider) noInterceptors = Inr is1"
    and r: "appendPart (cm_retry c) appendRetry is1 = Inr is2"
    and l: "appendPart (cm_rateLimiter c) (appendRateLimiter newLimiter) is2 = Inr is"
    by (auto simp: buildConfiguredClientInterceptors_def bindR_Inr_iff)
  from metrics_part [OF m] obtain metrics where M: "is1 = \<lparr>ci_unary = metrics, ci_stream = metrics\<rparr>"
    "if cm_metrics c = None then metrics = [] else (\<exists>n s p opts. newProvider n s = Inr p \<and> s \<noteq> [] \<and> metrics = [MetricsInterceptor p opts])"
    by blast
  from retry_part [OF r] obtain retry where R: "is2 = is1\<lparr>ci_unary := ci_unary is1 @ retry\<rparr>"
    "if cm_retry c = None then retry = [] else (\<exists>r opts. retry = [RetryInterceptor r opts] \<and> retrierOk r \<and> retryOptionsOk opts)"
    by blast
  from limit_part [OF l] obtain limit where L: "is = \<lparr>ci_unary = ci_unary is2 @ limit, ci_stream = ci_stream is2 @ limit\<rparr>"
    "if cm_rateLimiter c = None then limit = []
     else (\<exists>l opts q n. newLimiter (Finite q) n = Inr l \<and> 0 < q \<and> 0 < n \<and> limit = [LimitInterceptor l opts])" by blast
  have "is = \<lparr>ci_unary = metrics @ retry @ limit, ci_stream = metrics @ limit\<rparr>" by (simp add: M(1) R(1) L(1))
  with M(2) R(2) L(2) show ?thesis by blast
qed

text \<open>A configuration with a retry part.\<close>

definition exampleRetry :: retryConfig where
  "exampleRetry = \<lparr>yc_initialBackoff = None, yc_maxBackoff = Some \<lparr>pd_check = None, pd_duration = 5\<rparr>, yc_backoffFactor = Finite 0,
     yc_maxAttempts = 3, yc_maxTotalWait = None, yc_idempotentPrefixes = [], yc_retryCodes = [''UNAVAILABLE''], yc_skipMethods = []\<rparr>"

definition exampleClientConfig :: clientMiddlewareConfig where
  "exampleClientConfig = \<lparr>cm_enableRecovery = False, cm_enableTracing = False, cm_enableMetadata = False, cm_enableLogging = False,
     cm_enableCircuitBreaker = False, cm_auth = None, cm_metrics = None, cm_retry = Some exampleRetry, cm_rateLimiter = None,
     cm_selectorFilter = None\<rparr>"

theorem client_config_valid_witness:
  "\<exists>is r opts. buildConfiguredClientInterceptors (\<lambda>_ _. Inr ()) (\<lambda>_ _. Inr ()) (Some exampleClientConfig) = Inr is
     \<and> ci_unary is = [RetryInterceptor r opts] \<and> retrierOk r \<and> retryOptionsOk opts \<and> ci_stream is = []"
proof -
  obtain "is" where i: "buildConfiguredClientInterceptors (\<lambda>_ _. Inr ()) (\<lambda>_ _. Inr ()) (Some exampleClientConfig) = Inr is"
    by (simp add: buildConfiguredClientInterceptors_def exampleClientConfig_def appendPart_def appendRetry_def exampleRetry_def
      durationOr_def positiveDuration_def f64_isNaN_def f64_isInf_def f64_neg_def f64_pos_def parseRetryCodes_def codesByName_def Let_def)
  from client_config_valid [OF i] show ?thesis using i by (auto simp: exampleClientConfig_def)
qed

end
