(* ===== verification/Connection.thy ===== *)
theory Connection
  imports ClientConfig
begin

text \<open>
  Model of \<open>client/grpc.go\<close> and \<open>client/connection.go\<close>: the options of a gRPC client, the process-wide
  selector, the choice between a local and a remote connection, and the adapters that run client
  middlewares around a local call.  A gRPC context is the record \<open>callCtx\<close>; a local transport is shared
  by reference, so its request header travels in the context and its reply metadata in the result.
\<close>

section \<open>The options of a client\<close>

record 'tl grpcConfig =
  gc_endpoint :: string
  gc_timeout :: "int option"
  gc_metadata :: "(string \<times> string) list"
  gc_middleware :: "clientMiddlewareConfig option"
  gc_tls :: "'tl option"

datatype ('p, 'l, 'u) unaryChain = UnaryRequestID | UnaryConfigured "('p, 'l) interceptor" | UnaryCustom 'u
datatype ('p, 'l, 'u, 'a, 'm) streamChain =
  StreamConfigured "('p, 'l) interceptor" | StreamCustom 'u | StreamMiddlewares "('a, 'm) clientMiddleware list" | StreamRequestID

datatype ('p, 'l, 'u, 'a, 'm, 't, 'd) clientOption =
  OptDiscovery 'd | OptEndpoint string | OptTimeout int | OptNodeFilter string
| OptMiddleware "('a, 'm) clientMiddleware list"
| OptUnary "('p, 'l, 'u) unaryChain list" | OptStream "('p, 'l, 'u, 'a, 'm) streamChain list"
| OptTls 't

record ('p, 'l, 'a, 'tl, 't) clientEnv =
  ce_newProvider :: "string option \<Rightarrow> string \<Rightarrow> (string, 'p) result"
  ce_newLimiter :: "f64 \<Rightarrow> int \<Rightarrow> (string, 'l) result"
  ce_runtimeKey :: "(string \<Rightarrow> (string, string) result) option"
  ce_newAuthenticator :: "string \<Rightarrow> string \<Rightarrow> (string, 'a) result"
  ce_loadTls :: "'tl \<Rightarrow> (string, 't option) result"

definition defaultTimeout :: int where "defaultTimeout = 5 * 1000000000"

text \<open>The bootstrap configuration is missing or incomplete, or holds a gRPC part.\<close>

definition resolveGrpcClientEndpoint :: "string \<Rightarrow> 'tl grpcConfig option \<Rightarrow> (clientErr, string) result" where
  "resolveGrpcClientEndpoint serviceName config =
     (if serviceName \<noteq> [] then
        (if str_contains serviceName ''://'' then Inr serviceName else Inr (''discovery:///'' @ serviceName))
      else (case config of
          None \<Rightarrow> Inl NoEndpoint
        | Some c \<Rightarrow>
            if gc_endpoint c = [] then Inl NoEndpoint
            else if str_contains (gc_endpoint c) ''://'' then Inr (gc_endpoint c)
            else Inr (''direct:///'' @ gc_endpoint c)))"

definition clientUnaryInterceptors :: "('p, 'l) configuredInterceptors \<Rightarrow> 'u list \<Rightarrow> ('p, 'l, 'u) unaryChain list" where
  "clientUnaryInterceptors configured custom = [UnaryRequestID] @ map UnaryConfigured (ci_unary configured) @ map UnaryCustom custom"

definition clientStreamInterceptors ::
  "('p, 'l) configuredInterceptors \<Rightarrow> 'u list \<Rightarrow> ('p, 'l, 'u, 'a, 'm) streamChain list" where
  "clientStreamInterceptors configured custom = map StreamConfigured (ci_stream configured) @ map StreamCustom custom"

definition appendClientInterceptors ::
  "('p, 'l, 'u, 'a, 'm, 't, 'd) clientOption list \<Rightarrow> ('a, 'm) clientMiddleware list \<Rightarrow> ('p, 'l) configuredInterceptors
    \<Rightarrow> 'u list \<Rightarrow> 'u list \<Rightarrow> ('p, 'l, 'u, 'a, 'm, 't, 'd) clientOption list" where
  "appendClientInterceptors options middlewares configured unary stream =
     options @ [OptUnary (clientUnaryInterceptors configured unary),
       OptStream (clientStreamInterceptors configured stream @ [StreamMiddlewares middlewares] @ [StreamRequestID])]"

text \<open>The process-wide selector: \<open>None\<close> until the first configuration.\<close>

definition configureGlobalSelector :: "string \<Rightarrow> string option \<Rightarrow> clientErr option \<times> string option" where
  "configureGlobalSelector name state = (case state of
      Some configured \<Rightarrow> (if configured \<noteq> name then Some (SelectorFixed configured name) else None, state)
    | None \<Rightarrow> (None, Some (if name = ''p2c'' then ''p2c'' else if name = ''random'' then ''random'' else ''wrr'')))"

definition balancerName :: "clientMiddlewareConfig option \<Rightarrow> string" where
  "balancerName config = (case config of None \<Rightarrow> ''wrr'' | Some c \<Rightarrow> (case cm_selectorFilter c of None \<Rightarrow> ''wrr''
     | Some f \<Rightarrow> if sf_balancer f = ''p2c'' then ''p2c'' else if sf_balancer f = ''random'' then ''random'' else ''wrr''))"

definition nodeFilterOption :: "clientMiddlewareConfig option \<Rightarrow> ('p, 'l, 'u, 'a, 'm, 't, 'd) clientOption list" where
  "nodeFilterOption config = (case config of None \<Rightarrow> [] | Some c \<Rightarrow> (case cm_selectorFilter c of None \<Rightarrow> []
     | Some f \<Rightarrow> if sf_filterVersion f \<noteq> [] then [OptNodeFilter (sf_filterVersion f)] else []))"

definition initGrpcClientConfigWithInterceptors ::
  "('p, 'l, 'a, 'tl, 't) clientEnv \<Rightarrow> 'tl grpcConfig option \<Rightarrow> ('p, 'l, 'u, 'a, 'm, 't, 'd) clientOption list
    \<Rightarrow> 'u list \<Rightarrow> 'u list \<Rightarrow> 'm list \<Rightarrow> string option
    \<Rightarrow> (clientErr, ('p, 'l, 'u, 'a, 'm, 't, 'd) clientOption list) result \<times> string option" where
  "initGrpcClientConfigWithInterceptors env config options unary stream middlewares state = (case config of
      None \<Rightarrow> (case configureGlobalSelector ''wrr'' state of
          (Some e, state') \<Rightarrow> (Inl e, state')
        | (None, state') \<Rightarrow>
            (let customs = map CustomMiddleware middlewares;
                 options = (if 0 < length middlewares then options @ [OptMiddleware customs] else options)
             in (Inr (appendClientInterceptors options customs noInterceptors unary stream), state')))
    | Some c \<Rightarrow>
        (let timeout = (case gc_timeout c of None \<Rightarrow> defaultTimeout | Some t \<Rightarrow> t);
             options = options @ [OptTimeout timeout]
         in case appendClientMiddlewaresWithMetadata (ce_runtimeKey env) (ce_newAuthenticator env) (gc_middleware c) (gc_metadata c) middlewares of
              Inl e \<Rightarrow> (Inl e, state)
            | Inr mws \<Rightarrow> (case buildConfiguredClientInterceptors (ce_newProvider env) (ce_newLimiter env) (gc_middleware c) of
                Inl e \<Rightarrow> (Inl e, state)
              | Inr configured \<Rightarrow>
                  (let options = options @ nodeFilterOption (gc_middleware c) in
                   case configureGlobalSelector (balancerName (gc_middleware c)) state of
                     (Some e, state') \<Rightarrow> (Inl e, state')
                   | (None, state') \<Rightarrow>
                       (let options = appendClientInterceptors (options @ [OptMiddleware mws]) mws configured unary stream in
                        case gc_tls c of
                          None \<Rightarrow> (Inr options, state')
                        | Some tls \<Rightarrow> (case ce_loadTls env tls of
                            Inl e \<Rightarrow> (Inl (TlsFailed e), state')
                          | Inr None \<Rightarrow> (Inr options, state')
                          | Inr (Some tlsConfig) \<Rightarrow> (Inr (options @ [OptTls tlsConfig]), state')))))))"

definition createGrpcClient ::
  "('p, 'l, 'a, 'tl, 't) clientEnv \<Rightarrow> (('p, 'l, 'u, 'a, 'm, 't, 'd) clientOption list \<Rightarrow> (string, 'conn) result)
    \<Rightarrow> 'd option \<Rightarrow> string \<Rightarrow> 'tl grpcConfig option \<Rightarrow> 'u list \<Rightarrow> 'u list \<Rightarrow> 'm list \<Rightarrow> string option
    \<Rightarrow> (clientErr, 'conn) result \<times> string option" where
  "createGrpcClient env dial discovery serviceName config unary stream middlewares state =
     (case resolveGrpcClientEndpoint serviceName config of
        Inl e \<Rightarrow> (Inl e, state)
      | Inr endpoint \<Rightarrow>
          if has_prefix endpoint ''discovery:///'' \<and> discovery = None then (Inl (NoDiscovery endpoint), state)
          else
            (let options = (if has_prefix endpoint ''discovery:///'' then [OptDiscovery (the discovery)] else []) @ [OptEndpoint endpoint]
             in case initGrpcClientConfigWithInterceptors env config options unary stream middlewares state of
                  (Inl e, state') \<Rightarrow> (Inl (InitFailed e), state')
                | (Inr options, state') \<Rightarrow> (case dial options of
                    Inl e \<Rightarrow> (Inl (DialFailed endpoint e), state')
                  | Inr conn \<Rightarrow> (Inr conn, state'))))"

definition CreateGrpcClient ::
  "('p, 'l, 'a, 'tl, 't) clientEnv \<Rightarrow> (('p, 'l, 'u, 'a, 'm, 't, 'd) clientOption list \<Rightarrow> (string, 'conn) result)
    \<Rightarrow> 'd option \<Rightarrow> string \<Rightarrow> 'tl grpcConfig option \<Rightarrow> 'm list \<Rightarrow> string option
    \<Rightarrow> (clientErr, 'conn) result \<times> string option" where
  "CreateGrpcClient env dial discovery serviceName config middlewares state =
     createGrpcClient env dial discovery serviceName config [] [] middlewares state"

text \<open>A stream is created inside the chain of client middlewares; the first value of every header of
  the client transport, if there is one, is appended to the outgoing metadata.  A result of another
  type than a stream cannot arise here: the types forbid it.\<close>

definition streamMiddlewareInterceptor ::
  "mdLib \<Rightarrow> ('h \<Rightarrow> string list) \<Rightarrow> ('h \<Rightarrow> string \<Rightarrow> string) \<Rightarrow> (('h callCtx \<Rightarrow> 'r) \<Rightarrow> 'h callCtx \<Rightarrow> 'r) option
    \<Rightarrow> ('h callCtx \<Rightarrow> 'r) \<Rightarrow> 'h callCtx \<Rightarrow> 'r" where
  "streamMiddlewareInterceptor lib keys get chain streamer ctx =
     (let handler = (\<lambda>nextCtx. streamer (case cc_client nextCtx of
            None \<Rightarrow> nextCtx
          | Some header \<Rightarrow>
              (let values = map (\<lambda>key. (key, get header key)) (keys header) in
               if 0 < length values then nextCtx\<lparr>cc_outgoing := Some (ml_appendOutgoing lib (cc_outgoing nextCtx) values)\<rparr>
               else nextCtx)))
      in case chain of None \<Rightarrow> handler ctx | Some c \<Rightarrow> c handler ctx)"

section \<open>Connections\<close>

record ('u, 'm, 'd, 'reg) connectionOptions =
  co_discovery :: "'d option"
  co_localServices :: "'reg option list"
  co_middlewares :: "'m list"
  co_unaryInterceptors :: "'u list"
  co_streamInterceptors :: "'u list"

datatype ('u, 'm, 'd, 'reg) connectionOption =
  WithDiscovery "'d option" | WithLocalServices "'reg option list" | WithMiddleware "'m list"
| WithUnaryInterceptors "'u list" | WithStreamInterceptors "'u list"

definition applyConnectionOption ::
  "('u, 'm, 'd, 'reg) connectionOption option \<Rightarrow> ('u, 'm, 'd, 'reg) connectionOptions \<Rightarrow> ('u, 'm, 'd, 'reg) connectionOptions" where
  "applyConnectionOption opt o' = (case opt of
      None \<Rightarrow> o'
    | Some (WithDiscovery d) \<Rightarrow> o'\<lparr>co_discovery := d\<rparr>
    | Some (WithLocalServices rs) \<Rightarrow> o'\<lparr>co_localServices := co_localServices o' @ rs\<rparr>
    | Some (WithMiddleware ms) \<Rightarrow> o'\<lparr>co_middlewares := co_middlewares o' @ ms\<rparr>
    | Some (WithUnaryInterceptors us) \<Rightarrow> o'\<lparr>co_unaryInterceptors := co_unaryInterceptors o' @ us\<rparr>
    | Some (WithStreamInterceptors us) \<Rightarrow> o'\<lparr>co_streamInterceptors := co_streamInterceptors o' @ us\<rparr>)"

text \<open>What a local connection is built from: the middlewares of the two adapters and the chains.\<close>

record ('p, 'l, 'u, 'a, 'm) localSpec =
  ls_middlewares :: "('a, 'm) clientMiddleware list"
  ls_unary :: "('p, 'l, 'u) unaryChain list"
  ls_stream :: "('p, 'l, 'u, 'a, 'm) streamChain list"

datatype ('c, 'conn) connectionKind = LocalConnection 'c | RemoteConnection 'conn

definition localSpecOf ::
  "('p, 'l, 'a, 'tl, 't) clientEnv \<Rightarrow> 'tl grpcConfig option \<Rightarrow> ('u, 'm, 'd, 'reg) connectionOptions
    \<Rightarrow> (clientErr, ('p, 'l, 'u, 'a, 'm) localSpec) result" where
  "localSpecOf env config o' =
     bindR (case config of
          None \<Rightarrow> Inr (map CustomMiddleware (co_middlewares o'), noInterceptors)
        | Some c \<Rightarrow>
            (case appendClientMiddlewaresWithMetadata (ce_runtimeKey env) (ce_newAuthenticator env) (gc_middleware c) (gc_metadata c) (co_middlewares o') of
               Inl e \<Rightarrow> Inl (LocalMiddlewareFailed e)
             | Inr mws \<Rightarrow> (case buildConfiguredClientInterceptors (ce_newProvider env) (ce_newLimiter env) (gc_middleware c) of
                 Inl e \<Rightarrow> Inl (LocalInterceptorFailed e)
               | Inr configured \<Rightarrow> Inr (mws, configured))))
      (\<lambda>(mws, configured). Inr \<lparr>ls_middlewares = mws,
         ls_unary = map UnaryConfigured (ci_unary configured) @ map UnaryCustom (co_unaryInterceptors o'),
         ls_stream = map StreamConfigured (ci_stream configured) @ map StreamCustom (co_streamInterceptors o')\<rparr>)"

text \<open>\<open>newConn\<close> builds the local connection, \<open>register\<close> runs a registrar on it; the configuration is
  the gRPC part, if there is one.\<close>

definition NewConnection ::
  "('p, 'l, 'a, 'tl, 't) clientEnv \<Rightarrow> (('p, 'l, 'u, 'a, 'm, 't, 'd) clientOption list \<Rightarrow> (string, 'conn) result)
    \<Rightarrow> (('p, 'l, 'u, 'a, 'm) localSpec \<Rightarrow> 'c) \<Rightarrow> ('reg \<Rightarrow> 'c \<Rightarrow> 'c) \<Rightarrow> bool \<Rightarrow> 'tl grpcConfig option
    \<Rightarrow> ('u, 'm, 'd, 'reg) connectionOption option list \<Rightarrow> string option
    \<Rightarrow> (clientErr, ('c, 'conn) connectionKind) result \<times> string option" where
  "NewConnection env dial newConn register hasCtx config opts state =
     (if \<not> hasCtx then (Inl NilContext, state)
      else
        (let o' = fold applyConnectionOption opts
           \<lparr>co_discovery = None, co_localServices = [], co_middlewares = [], co_unaryInterceptors = [], co_streamInterceptors = []\<rparr>
         in if (case config of None \<Rightarrow> True | Some c \<Rightarrow> gc_endpoint c = [])
            then (case localSpecOf env config o' of
                Inl e \<Rightarrow> (Inl e, state)
              | Inr spec \<Rightarrow> (Inr (LocalConnection (fold (\<lambda>r conn. case r of None \<Rightarrow> conn | Some f \<Rightarrow> register f conn)
                    (co_localServices o') (newConn spec))), state))
            else (case createGrpcClient env dial (co_discovery o') [] config (co_unaryInterceptors o') (co_streamInterceptors o') (co_middlewares o') state of
                (Inl e, state') \<Rightarrow> (Inl (ConnectionFailed e), state')
              | (Inr conn, state') \<Rightarrow> (Inr (RemoteConnection conn), state'))))"

text \<open>Calls are forwarded to the connection, if there is one.\<close>

definition current :: "'conn option option \<Rightarrow> (clientErr, 'conn) result" where
  "current c = (case c of None \<Rightarrow> Inl NotConnected | Some None \<Rightarrow> Inl NotConnected | Some (Some conn) \<Rightarrow> Inr conn)"

definition Invoke :: "('conn \<Rightarrow> (clientErr, 'r) result) \<Rightarrow> 'conn option option \<Rightarrow> (clientErr, 'r) result" where
  "Invoke call c = bindR (current c) call"

definition NewStream :: "('conn \<Rightarrow> (clientErr, 'st) result) \<Rightarrow> 'conn option option \<Rightarrow> (clientErr, 'st) result" where
  "NewStream call c = bindR (current c) call"

definition ClientConn :: "'conn option option \<Rightarrow> 'conn option" where
  "ClientConn c = (case current c of Inl _ \<Rightarrow> None | Inr conn \<Rightarrow> Some conn)"

text \<open>The error that is logged when a connection that can be closed is closed.\<close>

definition closeConnection :: "('conn \<Rightarrow> (string option) option) \<Rightarrow> 'conn \<Rightarrow> string option" where
  "closeConnection close conn = (case close conn of None \<Rightarrow> None | Some e \<Rightarrow> e)"

section \<open>Local calls\<close>

text \<open>The metadata the local server sees: the header of the transport, without the keys the call
  started with when there is outgoing metadata, and with that metadata.\<close>

definition localIncomingMetadata :: "md option \<Rightarrow> localTransport \<Rightarrow> md" where
  "localIncomingMetadata out t = (case out of
      None \<Rightarrow> lt_requestHeader t
    | Some o' \<Rightarrow> (\<lambda>key. case o' key of
          Some values \<Rightarrow> Some values
        | None \<Rightarrow> if lt_initialRequestHeader t key \<noteq> None then None else lt_requestHeader t key))"

text \<open>A handler gets its incoming metadata, the context and the transport, and returns the transport
  with the reply metadata it has set.  The second result is what the response metadata of the
  context receives.\<close>

definition newLocalUnaryInterceptor ::
  "((md callCtx \<Rightarrow> 'q \<Rightarrow> ('e, 'r) result \<times> localTransport) \<Rightarrow> md callCtx \<Rightarrow> 'q \<Rightarrow> ('e, 'r) result \<times> localTransport)
    \<Rightarrow> string option \<Rightarrow> (md \<Rightarrow> md callCtx \<Rightarrow> localTransport \<Rightarrow> 'q \<Rightarrow> ('e, 'r) result \<times> localTransport)
    \<Rightarrow> md callCtx \<Rightarrow> 'q \<Rightarrow> ('e, 'r) result \<times> md \<times> md" where
  "newLocalUnaryInterceptor chain info handler ctx req =
     (let requestHeader = (case cc_outgoing ctx of None \<Rightarrow> Map.empty | Some outgoing \<Rightarrow> outgoing);
          operation = (case info of None \<Rightarrow> [] | Some fullMethod \<Rightarrow> fullMethod);
          t = newLocalTransport operation requestHeader;
          inner = (\<lambda>c q. let t = t\<lparr>lt_requestHeader := (case cc_client c of None \<Rightarrow> Map.empty | Some h \<Rightarrow> h)\<rparr> in
             handler (localIncomingMetadata (cc_outgoing c) t) (c\<lparr>cc_server := Some (lt_requestHeader t, Map.empty)\<rparr>) t q)
      in case chain inner (ctx\<lparr>cc_client := Some requestHeader\<rparr>) req of
           (response, t') \<Rightarrow> (response, lt_replyHeader t', lt_replyTrailer t'))"

text \<open>The adapter for streams; \<open>setContext\<close> gives the stream its server context, if it can take one.\<close>

definition newLocalStreamInterceptor ::
  "((md callCtx \<Rightarrow> 'e option) \<Rightarrow> md callCtx \<Rightarrow> 'e option)
    \<Rightarrow> string option \<Rightarrow> (md \<Rightarrow> md callCtx \<Rightarrow> 'e option) \<Rightarrow> md callCtx \<Rightarrow> 'e option" where
  "newLocalStreamInterceptor chain info handler ctx =
     (let requestHeader = (case cc_outgoing ctx of None \<Rightarrow> Map.empty | Some outgoing \<Rightarrow> outgoing);
          operation = (case info of None \<Rightarrow> [] | Some fullMethod \<Rightarrow> fullMethod);
          t = newLocalTransport operation requestHeader;
          inner = (\<lambda>c. let t = t\<lparr>lt_requestHeader := (case cc_client c of None \<Rightarrow> Map.empty | Some h \<Rightarrow> h)\<rparr> in
             handler (localIncomingMetadata (cc_outgoing c) t) (c\<lparr>cc_server := Some (lt_requestHeader t, Map.empty)\<rparr>))
      in chain inner (ctx\<lparr>cc_client := Some requestHeader\<rparr>))"

section \<open>The selector is chosen once\<close>

text \<open>The clients of a process are created one after the other: the errors of the selector, in order.\<close>

fun configureAll :: "clientMiddlewareConfig option list \<Rightarrow> string option \<Rightarrow> clientErr option list \<times> string option" where
  "configureAll [] state = ([], state)"
| "configureAll (c # cs) state = (case configureGlobalSelector (balancerName c) state of
      (e, state') \<Rightarrow> (case configureAll cs state' of (es, state'') \<Rightarrow> (e # es, state'')))"

lemma balancerName_known: "balancerName c \<in> {''p2c'', ''random'', ''wrr''}"
  by (auto simp: balancerName_def split: option.splits)

lemma configureGlobalSelector_first: "configureGlobalSelector (balancerName c) None = (None, Some (balancerName c))"
  using balancerName_known [of c] by (auto simp: configureGlobalSelector_def)

lemma configureAll_fixed:
  "configureAll cs (Some n) = (map (\<lambda>c. if balancerName c = n then None else Some (SelectorFixed n (balancerName c))) cs, Some n)"
  by (induction cs) (auto simp: configureGlobalSelector_def)

text \<open>The load balancer of a process never changes.  However many clients are created, in any order, the
  balancer of the first configuration is used from then on; a later configuration succeeds exactly when
  it asks for the same one (a missing, unknown or empty name counts as "wrr"), and is refused otherwise
  without an effect.\<close>
theorem selector_first_wins:
  shows "configureAll (c # cs) None =
    (None # map (\<lambda>c'. if balancerName c' = balancerName c then None else Some (SelectorFixed (balancerName c) (balancerName c'))) cs,
     Some (balancerName c))"
  by (simp add: configureGlobalSelector_first configureAll_fixed)

section \<open>Metadata of local calls\<close>

lemma fold_set_header:
  assumes "mdLaws lib"
  shows "fold (\<lambda>(key, value) h. localSet lib h key value) kvs hdr k
    = (case find (\<lambda>(k', _). to_lower k' = k) (rev kvs) of None \<Rightarrow> hdr k | Some (_, v) \<Rightarrow> Some [v])"
proof (induction kvs arbitrary: hdr)
  case Nil
  then show ?case by simp
next
  case (Cons kv kvs)
  obtain k' v where kv: "kv = (k', v)" by (cases kv)
  have snoc: "find P (xs @ [x]) = (case find P xs of None \<Rightarrow> if P x then Some x else None | Some y \<Rightarrow> Some y)" for P xs and x :: "string \<times> string"
    by (induction xs) auto
  show ?case using Cons
    by (auto simp: kv snoc localSet_def mdLaws_simps [OF assms] split: option.splits)
qed

text \<open>The call of a local server and the metadata it gets.\<close>
lemma local_unary_runs:
  assumes "mdLaws lib" "ops = \<lparr>ho_get = localGet lib, ho_set = localSet lib\<rparr>"
    and "out = (case cc_outgoing ctx of None \<Rightarrow> Map.empty | Some o' \<Rightarrow> o')"
  shows "\<exists>incoming c t. newLocalUnaryInterceptor (clientMetadata ops static) (Some method) handler ctx req
      = (case handler incoming c t req of (response, t') \<Rightarrow> (response, lt_replyHeader t', lt_replyTrailer t'))
    \<and> cc_outgoing c = cc_outgoing ctx \<and> lt_operation t = method \<and> lt_replyHeader t = Map.empty \<and> lt_replyTrailer t = Map.empty
    \<and> (\<forall>key. incoming key = (case out key of
         Some values \<Rightarrow> Some values
       | None \<Rightarrow> map_option (\<lambda>(_, v). [v]) (find (\<lambda>(k, _). to_lower k = key) (rev static))))"
proof -
  let ?header = "fold (\<lambda>(key, value) h. localSet lib h key value) static out"
  define t where "t = (newLocalTransport method out)\<lparr>lt_requestHeader := ?header\<rparr>"
  define c where "c = ctx\<lparr>cc_client := Some ?header, cc_server := Some (?header, Map.empty)\<rparr>"
  define incoming where "incoming = localIncomingMetadata (cc_outgoing ctx) t"
  have "newLocalUnaryInterceptor (clientMetadata ops static) (Some method) handler ctx req
      = (case handler incoming c t req of (response, t') \<Rightarrow> (response, lt_replyHeader t', lt_replyTrailer t'))"
    by (simp add: newLocalUnaryInterceptor_def clientMetadata_def assms(2,3) t_def c_def incoming_def Let_def newLocalTransport_def)
  moreover have "incoming key = (case out key of Some values \<Rightarrow> Some values
       | None \<Rightarrow> map_option (\<lambda>(_, v). [v]) (find (\<lambda>(k, _). to_lower k = key) (rev static)))" for key
    by (auto simp: incoming_def localIncomingMetadata_def t_def newLocalTransport_def assms(3) fold_set_header [OF assms(1)]
      split: option.splits)
  ultimately show ?thesis
    by (intro exI [of _ incoming] exI [of _ c] exI [of _ t]) (simp add: c_def t_def newLocalTransport_def)
qed

text \<open>The metadata a local server sees.  A local call through the middleware of static metadata gives the
  server, for every key, the values of the caller if it had any; otherwise the last static value
  configured for the key in any case; and nothing for any other key.  So without middlewares the server
  sees exactly the metadata of the caller, and a static value never replaces one of the caller.\<close>
theorem local_call_metadata:
  assumes "mdLaws lib" "ops = \<lparr>ho_get = localGet lib, ho_set = localSet lib\<rparr>"
    and "out = (case cc_outgoing ctx of None \<Rightarrow> Map.empty | Some o' \<Rightarrow> o')"
  shows "\<exists>incoming c t. newLocalUnaryInterceptor (clientMetadata ops static) (Some method) handler ctx req
      = (case handler incoming c t req of (response, t') \<Rightarrow> (response, lt_replyHeader t', lt_replyTrailer t'))
    \<and> cc_outgoing c = cc_outgoing ctx \<and> lt_operation t = method
    \<and> (\<forall>key. incoming key = (case out key of
         Some values \<Rightarrow> Some values
       | None \<Rightarrow> map_option (\<lambda>(_, v). [v]) (find (\<lambda>(k, _). to_lower k = key) (rev static))))"
  using local_unary_runs [OF assms, of static "method" handler req] by blast

theorem local_call_metadata_witness:
  "fst (newLocalUnaryInterceptor (clientMetadata \<lparr>ho_get = localGet stdMd, ho_set = localSet stdMd\<rparr> [(''X-Env'', ''dev''), (''X-App'', ''a'')])
       (Some ''/s/m'') (\<lambda>m _ t _. (Inr (mdValues m ''x-env'', mdValues m ''x-app'') :: (unit, _) result, t))
       \<lparr>cc_requestID = None, cc_server = None, cc_client = None, cc_outgoing = Some [''x-env'' \<mapsto> [''prod'']]\<rparr> ())
     = Inr ([''prod''], [''a''])"
proof -
  let ?ctx = "\<lparr>cc_requestID = None, cc_server = None, cc_client = None, cc_outgoing = Some [''x-env'' \<mapsto> [''prod'']]\<rparr> :: md callCtx"
  let ?static = "[(''X-Env'', ''dev''), (''X-App'', ''a'')]"
  let ?handler = "\<lambda>(m :: md) (_ :: md callCtx) (t :: localTransport) (_ :: unit). (Inr (mdValues m ''x-env'', mdValues m ''x-app'') :: (unit, _) result, t)"
  have out: "[''x-env'' \<mapsto> [''prod'']] = (case cc_outgoing ?ctx of None \<Rightarrow> Map.empty | Some o' \<Rightarrow> o')" by simp
  obtain incoming c t where
    eq: "newLocalUnaryInterceptor (clientMetadata \<lparr>ho_get = localGet stdMd, ho_set = localSet stdMd\<rparr> ?static) (Some ''/s/m'') ?handler ?ctx ()
      = (case ?handler incoming c t () of (response, t') \<Rightarrow> (response, lt_replyHeader t', lt_replyTrailer t'))"
    and inc: "\<And>key. incoming key = (case [''x-env'' \<mapsto> [''prod'']] key of
         Some values \<Rightarrow> Some values
       | None \<Rightarrow> map_option (\<lambda>(_, v). [v]) (find (\<lambda>(k, _). to_lower k = key) (rev ?static)))"
    using local_call_metadata [OF stdMd_laws refl out, of ?static "''/s/m''" ?handler "()"] by blast
  have "find (\<lambda>(k, _). to_lower k = ''x-app'') (rev ?static) = Some (''X-App'', ''a'')" by code_simp
  then have "mdValues incoming ''x-env'' = [''prod'']" "mdValues incoming ''x-app'' = [''a'']"
    by (simp_all add: mdValues_def inc)
  then show ?thesis by (simp only: eq prod.case fst_conv)
qed

end
