(* ===== verification/Errors.thy ===== *)
theory Errors
  imports GoNum
begin

text \<open>
  Model of \<open>errorsx\<close>: the constructors of structured errors, their message keys, the conflict
  errors and the classification of errors on the way out.  A Go error is a value of the open type
  \<open>'x\<close>; the structured error of kratos is the record \<open>kratosErr\<close>, whose fields the code reads
  and assigns.  The functions of the kratos, gorm and MySQL packages are the record \<open>errOps\<close> with
  the laws \<open>errLaws\<close>; SHA-256 and the JSON text of the message arguments are parameters as well.
\<close>

section \<open>Errors of the libraries\<close>

record 'x kratosErr =
  ke_code :: int
  ke_reason :: string
  ke_message :: string
  ke_metadata :: "string \<rightharpoonup> string"
  ke_cause :: "'x option"

text \<open>\<open>eo_error\<close> is the conversion of \<open>*errors.Error\<close> to \<open>error\<close>, \<open>eo_as\<close> is \<open>errors.As\<close> to
  that type and \<open>eo_mysqlNumber\<close> to the MySQL one.\<close>

record 'x errOps =
  eo_new :: "int \<Rightarrow> string \<Rightarrow> string \<Rightarrow> 'x kratosErr"
  eo_withMetadata :: "'x kratosErr \<Rightarrow> (string \<rightharpoonup> string) \<Rightarrow> 'x kratosErr"
  eo_withCause :: "'x kratosErr \<Rightarrow> 'x \<Rightarrow> 'x kratosErr"
  eo_clone :: "'x kratosErr \<Rightarrow> 'x kratosErr"
  eo_fromError :: "'x \<Rightarrow> 'x kratosErr"
  eo_error :: "'x kratosErr \<Rightarrow> 'x"
  eo_as :: "'x \<Rightarrow> 'x kratosErr option"
  eo_isNotFound :: "'x \<Rightarrow> bool"
  eo_mysqlNumber :: "'x \<Rightarrow> nat option"
  eo_sha :: "string \<Rightarrow> string"
  eo_marshalArgs :: "(string \<times> string) list \<Rightarrow> string option"

text \<open>What their documentation promises: a new error has the given fields and no metadata,
  \<open>WithMetadata\<close> and \<open>WithCause\<close> replace one field of a copy, \<open>Clone\<close> keeps the fields, and a
  structured error converted to \<open>error\<close> is found again by \<open>errors.As\<close> and \<open>FromError\<close>.\<close>

definition errLaws :: "'x errOps \<Rightarrow> bool" where
  "errLaws ops \<longleftrightarrow>
     (\<forall>code reason message. eo_new ops code reason message
        = \<lparr>ke_code = code, ke_reason = reason, ke_message = message, ke_metadata = Map.empty, ke_cause = None\<rparr>)
   \<and> (\<forall>e md. eo_withMetadata ops e md = e\<lparr>ke_metadata := md\<rparr>)
   \<and> (\<forall>e cause. eo_withCause ops e cause = e\<lparr>ke_cause := Some cause\<rparr>)
   \<and> (\<forall>e. eo_clone ops e = e)
   \<and> (\<forall>e. eo_as ops (eo_error ops e) = Some e)
   \<and> (\<forall>x e. eo_as ops x = Some e \<longrightarrow> eo_fromError ops x = e)"

lemma errLaws_simps:
  assumes "errLaws ops"
  shows "eo_new ops code reason message
      = \<lparr>ke_code = code, ke_reason = reason, ke_message = message, ke_metadata = Map.empty, ke_cause = None\<rparr>"
    and "eo_withMetadata ops e md = e\<lparr>ke_metadata := md\<rparr>"
    and "eo_withCause ops e cause = e\<lparr>ke_cause := Some cause\<rparr>"
    and "eo_clone ops e = e"
    and "eo_as ops (eo_error ops e) = Some e"
    and "eo_fromError ops (eo_error ops e) = e"
  using assms by (simp_all add: errLaws_def)

lemma errLaws_as: "errLaws ops \<Longrightarrow> eo_as ops x = Some e \<Longrightarrow> eo_fromError ops x = e"
  by (simp add: errLaws_def)

text \<open>Reading a missing key of a Go map of strings gives the empty string.\<close>

definition mdGet :: "(string \<rightharpoonup> string) \<Rightarrow> string \<Rightarrow> string" where
  "mdGet md key = (case md key of None \<Rightarrow> [] | Some v \<Rightarrow> v)"

section \<open>Reasons and message keys\<close>

definition ReasonInvalidArgument :: string where "ReasonInvalidArgument = ''INVALID_ARGUMENT''"
definition ReasonUnauthenticated :: string where "ReasonUnauthenticated = ''UNAUTHENTICATED''"
definition ReasonPermissionDenied :: string where "ReasonPermissionDenied = ''PERMISSION_DENIED''"
definition ReasonResourceNotFound :: string where "ReasonResourceNotFound = ''RESOURCE_NOT_FOUND''"
definition ReasonConflict :: string where "ReasonConflict = ''CONFLICT''"
definition ReasonRateLimited :: string where "ReasonRateLimited = ''RATE_LIMITED''"
definition ReasonInternalError :: string where "ReasonInternalError = ''INTERNAL_ERROR''"

lemmas reason_defs = ReasonInvalidArgument_def ReasonUnauthenticated_def ReasonPermissionDenied_def
  ReasonResourceNotFound_def ReasonConflict_def ReasonRateLimited_def ReasonInternalError_def

definition METADATA_KEY_MESSAGE_KEY :: string where "METADATA_KEY_MESSAGE_KEY = ''message_key''"
definition METADATA_KEY_MESSAGE_ARGS :: string where "METADATA_KEY_MESSAGE_ARGS = ''message_args''"

definition MessageKey :: "'x errOps \<Rightarrow> string \<Rightarrow> string" where
  "MessageKey ops message = ''legacy.error.'' @ hexEncode (take 8 (eo_sha ops message))"

text \<open>A nil error stays nil; the copied metadata gets the key, and the arguments as JSON when there
  are any and they can be encoded.\<close>

definition WithMessageKey ::
  "'x errOps \<Rightarrow> 'x kratosErr option \<Rightarrow> string \<Rightarrow> (string \<times> string) list \<Rightarrow> 'x kratosErr option" where
  "WithMessageKey ops structuredErr messageKey messageArgs = (case structuredErr of
      None \<Rightarrow> None
    | Some e \<Rightarrow>
        (let md = (ke_metadata e)(METADATA_KEY_MESSAGE_KEY \<mapsto> messageKey, METADATA_KEY_MESSAGE_ARGS \<mapsto> ''{}'');
             md = (if 0 < length messageArgs then
                     (case eo_marshalArgs ops messageArgs of None \<Rightarrow> md | Some data \<Rightarrow> md(METADATA_KEY_MESSAGE_ARGS \<mapsto> data))
                   else md)
         in Some (eo_withMetadata ops e md)))"

definition newStructuredError :: "'x errOps \<Rightarrow> int \<Rightarrow> string \<Rightarrow> string \<Rightarrow> 'x kratosErr option" where
  "newStructuredError ops code reason message =
     (let structuredErr = eo_new ops code reason message in
      if message = [] then Some structuredErr
      else WithMessageKey ops (Some structuredErr) (MessageKey ops message) [])"

definition InvalidArgument :: "'x errOps \<Rightarrow> string \<Rightarrow> 'x kratosErr option" where
  "InvalidArgument ops message = newStructuredError ops 400 ReasonInvalidArgument message"

definition Unauthenticated :: "'x errOps \<Rightarrow> string \<Rightarrow> 'x kratosErr option" where
  "Unauthenticated ops message = newStructuredError ops 401 ReasonUnauthenticated message"

definition PermissionDenied :: "'x errOps \<Rightarrow> string \<Rightarrow> 'x kratosErr option" where
  "PermissionDenied ops message = newStructuredError ops 403 ReasonPermissionDenied message"

definition ResourceNotFound :: "'x errOps \<Rightarrow> string \<Rightarrow> 'x kratosErr option" where
  "ResourceNotFound ops message = newStructuredError ops 404 ReasonResourceNotFound message"

definition Conflict :: "'x errOps \<Rightarrow> string \<Rightarrow> 'x kratosErr option" where
  "Conflict ops message = newStructuredError ops 409 ReasonConflict message"

definition RateLimited :: "'x errOps \<Rightarrow> string \<Rightarrow> 'x kratosErr option" where
  "RateLimited ops message = newStructuredError ops 429 ReasonRateLimited message"

definition Internal :: "'x errOps \<Rightarrow> string \<Rightarrow> 'x kratosErr option" where
  "Internal ops message = newStructuredError ops 500 ReasonInternalError message"

section \<open>Conflicts\<close>

definition METADATA_KEY_CONFLICT_TYPE :: string where "METADATA_KEY_CONFLICT_TYPE = ''conflict_type''"
definition METADATA_KEY_RESOURCE :: string where "METADATA_KEY_RESOURCE = ''resource''"
definition METADATA_KEY_FIELD :: string where "METADATA_KEY_FIELD = ''field''"
definition METADATA_KEY_CONSTRAINT :: string where "METADATA_KEY_CONSTRAINT = ''constraint''"
definition METADATA_KEY_CHILD_RESOURCE :: string where "METADATA_KEY_CHILD_RESOURCE = ''child_resource''"
definition METADATA_KEY_CURRENT_STATE :: string where "METADATA_KEY_CURRENT_STATE = ''current_state''"
definition METADATA_KEY_EXPECTED_STATE :: string where "METADATA_KEY_EXPECTED_STATE = ''expected_state''"

text \<open>The methods of a nil structured error are never reached: \<open>Conflict\<close> does not return nil.\<close>

definition withMetadata :: "'x errOps \<Rightarrow> 'x kratosErr option \<Rightarrow> (string \<rightharpoonup> string) \<Rightarrow> 'x kratosErr option" where
  "withMetadata ops e md = map_option (\<lambda>e. eo_withMetadata ops e md) e"

definition putNonEmpty :: "string \<Rightarrow> string \<Rightarrow> (string \<rightharpoonup> string) \<Rightarrow> (string \<rightharpoonup> string)" where
  "putNonEmpty key value md = (if value \<noteq> [] then md(key \<mapsto> value) else md)"

definition UniqueConflict :: "'x errOps \<Rightarrow> string \<Rightarrow> string \<Rightarrow> string \<Rightarrow> string \<Rightarrow> 'x kratosErr option" where
  "UniqueConflict ops message resource field constraint = withMetadata ops (Conflict ops message)
     (putNonEmpty METADATA_KEY_CONSTRAINT constraint
       [METADATA_KEY_CONFLICT_TYPE \<mapsto> ''unique_violation'', METADATA_KEY_RESOURCE \<mapsto> resource, METADATA_KEY_FIELD \<mapsto> field])"

definition HasChildrenConflict :: "'x errOps \<Rightarrow> string \<Rightarrow> string \<Rightarrow> string \<Rightarrow> 'x kratosErr option" where
  "HasChildrenConflict ops message resource childResource = withMetadata ops (Conflict ops message)
     (putNonEmpty METADATA_KEY_CHILD_RESOURCE childResource
       [METADATA_KEY_CONFLICT_TYPE \<mapsto> ''has_children'', METADATA_KEY_RESOURCE \<mapsto> resource])"

definition StateConflict :: "'x errOps \<Rightarrow> string \<Rightarrow> string \<Rightarrow> string \<Rightarrow> string \<Rightarrow> 'x kratosErr option" where
  "StateConflict ops message resource currentState expectedState = withMetadata ops (Conflict ops message)
     (putNonEmpty METADATA_KEY_EXPECTED_STATE expectedState (putNonEmpty METADATA_KEY_CURRENT_STATE currentState
       [METADATA_KEY_CONFLICT_TYPE \<mapsto> ''state_conflict'', METADATA_KEY_RESOURCE \<mapsto> resource]))"

definition ProtectedResourceConflict :: "'x errOps \<Rightarrow> string \<Rightarrow> string \<Rightarrow> 'x kratosErr option" where
  "ProtectedResourceConflict ops message resource = withMetadata ops (Conflict ops message)
     (putNonEmpty METADATA_KEY_RESOURCE resource [METADATA_KEY_CONFLICT_TYPE \<mapsto> ''protected_resource''])"

section \<open>Classification\<close>

definition IsDuplicateKey :: "'x errOps \<Rightarrow> 'x \<Rightarrow> bool" where
  "IsDuplicateKey ops err \<longleftrightarrow> (case eo_mysqlNumber ops err of None \<Rightarrow> False | Some number \<Rightarrow> number = 1062)"

definition IsStructuredError :: "'x errOps \<Rightarrow> 'x \<Rightarrow> bool" where
  "IsStructuredError ops err \<longleftrightarrow> (case eo_as ops err of None \<Rightarrow> False | Some e \<Rightarrow> ke_reason e \<noteq> [])"

definition WrapIfNeeded :: "'x errOps \<Rightarrow> 'x option \<Rightarrow> 'x kratosErr option \<Rightarrow> 'x option" where
  "WrapIfNeeded ops err fallback = (case err of
      None \<Rightarrow> None
    | Some x \<Rightarrow>
        if IsStructuredError ops x then Some x
        else (case fallback of None \<Rightarrow> Some x | Some f \<Rightarrow> Some (eo_error ops (eo_withCause ops f x))))"

definition WrapInternal :: "'x errOps \<Rightarrow> 'x option \<Rightarrow> string \<Rightarrow> 'x option" where
  "WrapInternal ops err message =
     (case err of
        Some x \<Rightarrow>
          if eo_isNotFound ops x
          then map_option (\<lambda>e. eo_error ops (eo_withCause ops e x)) (ResourceNotFound ops message)
          else WrapIfNeeded ops err (Internal ops message)
      | None \<Rightarrow> WrapIfNeeded ops err (Internal ops message))"

lemmas constructor_defs = InvalidArgument_def Unauthenticated_def PermissionDenied_def ResourceNotFound_def
  Conflict_def RateLimited_def Internal_def

section \<open>Lemmas\<close>

lemma newStructuredError_fields:
  assumes "errLaws ops"
  shows "\<exists>e. newStructuredError ops code reason message = Some e
    \<and> ke_code e = code \<and> ke_reason e = reason \<and> ke_message e = message \<and> ke_cause e = None
    \<and> ke_metadata e = (if message = [] then Map.empty
        else [METADATA_KEY_MESSAGE_KEY \<mapsto> MessageKey ops message, METADATA_KEY_MESSAGE_ARGS \<mapsto> ''{}''])"
  by (simp add: newStructuredError_def WithMessageKey_def errLaws_simps [OF assms] Let_def)

text \<open>A conflict error keeps nothing of the message key that \<open>Conflict\<close> gave it: \<open>WithMetadata\<close>
  replaces the metadata.\<close>

lemma conflict_drops_message_key:
  assumes "errLaws ops" "UniqueConflict ops message resource field constraint = Some e"
  shows "mdGet (ke_metadata e) METADATA_KEY_MESSAGE_KEY = []"
proof -
  obtain c where c: "Conflict ops message = Some c"
    using newStructuredError_fields [OF assms(1)] unfolding Conflict_def by blast
  have "e = c\<lparr>ke_metadata := putNonEmpty METADATA_KEY_CONSTRAINT constraint
       [METADATA_KEY_CONFLICT_TYPE \<mapsto> ''unique_violation'', METADATA_KEY_RESOURCE \<mapsto> resource, METADATA_KEY_FIELD \<mapsto> field]\<rparr>"
    using assms(2) by (simp add: UniqueConflict_def withMetadata_def c errLaws_simps [OF assms(1)])
  then show ?thesis
    by (simp add: mdGet_def putNonEmpty_def METADATA_KEY_CONSTRAINT_def METADATA_KEY_CONFLICT_TYPE_def
      METADATA_KEY_RESOURCE_def METADATA_KEY_FIELD_def METADATA_KEY_MESSAGE_KEY_def)
qed

section \<open>An instance\<close>

text \<open>Errors that are a text or a structured error, for the witnesses: a plain error reads as an
  error 500 without a reason.\<close>

datatype demoErr = Text string | Structured int string string "string \<Rightarrow> string option" "demoErr option"

definition demoAs :: "demoErr \<Rightarrow> demoErr kratosErr option" where
  "demoAs x = (case x of Text _ \<Rightarrow> None | Structured code reason message md cause \<Rightarrow>
     Some \<lparr>ke_code = code, ke_reason = reason, ke_message = message, ke_metadata = md, ke_cause = cause\<rparr>)"

definition demoOps :: "demoErr errOps" where
  "demoOps = \<lparr>eo_new = (\<lambda>code reason message.
       \<lparr>ke_code = code, ke_reason = reason, ke_message = message, ke_metadata = Map.empty, ke_cause = None\<rparr>),
     eo_withMetadata = (\<lambda>e md. e\<lparr>ke_metadata := md\<rparr>), eo_withCause = (\<lambda>e x. e\<lparr>ke_cause := Some x\<rparr>), eo_clone = (\<lambda>e. e),
     eo_fromError = (\<lambda>x. case x of
         Text t \<Rightarrow> \<lparr>ke_code = 500, ke_reason = [], ke_message = t, ke_metadata = Map.empty, ke_cause = None\<rparr>
       | Structured code reason message md cause \<Rightarrow>
           \<lparr>ke_code = code, ke_reason = reason, ke_message = message, ke_metadata = md, ke_cause = cause\<rparr>),
     eo_error = (\<lambda>e. Structured (ke_code e) (ke_reason e) (ke_message e) (ke_metadata e) (ke_cause e)),
     eo_as = demoAs,
     eo_isNotFound = (\<lambda>x. case x of Text t \<Rightarrow> t = ''record not found'' | _ \<Rightarrow> False),
     eo_mysqlNumber = (\<lambda>_. None), eo_sha = (\<lambda>m. m), eo_marshalArgs = (\<lambda>_. Some ''{}'')\<rparr>"

lemma demoOps_laws: "errLaws demoOps"
  by (auto simp: errLaws_def demoOps_def demoAs_def split: demoErr.splits)

end
