(* ===== verification/RequestMeta.thy ===== *)
theory RequestMeta
  imports LogEvents
begin

text \<open>
  What a server middleware reads off its context: the transport of the request, the claims of
  authentication and authorization, and the request and trace identifiers of
  \<open>server/requestmeta/requestmeta.go\<close>.  A header is a function from names to values, the empty
  string standing for a missing one; \<open>rc_httpRequestID\<close>, \<open>rc_grpcRequestID\<close>, \<open>rc_span\<close> and
  \<open>rc_peer\<close> are what the context accessors of kratos-kit, OpenTelemetry and gRPC return;
  \<open>rc_locale\<close> is the value that \<open>biz.WithLocale\<close> stores.
\<close>

record httpRequest =
  hr_method :: string
  hr_path :: string
  hr_remoteAddr :: string
  hr_userAgent :: string
  hr_header :: "string \<Rightarrow> string"

record transportInfo =
  tp_operation :: string
  tp_request :: "httpRequest option"
  tp_method :: "string option"
  tp_header :: "string \<Rightarrow> string"
  tp_pathTemplate :: string

text \<open>Every claim may be missing, which its getter reports as an error.\<close>

record tokenClaims =
  tk_userID :: "int64 option"
  tk_subject :: "string option"
  tk_tenantID :: "int64 option"
  tk_tenantCode :: "string option"
  tk_roleID :: "int64 option"
  tk_roleCode :: "string option"

record authzClaims =
  az_tenant :: "string option"
  az_subject :: string
  az_action :: string
  az_resource :: string

record reqCtx =
  rc_httpRequestID :: string
  rc_grpcRequestID :: string
  rc_span :: "string option"
  rc_transport :: "transportInfo option"
  rc_claims :: "tokenClaims option"
  rc_authz :: "authzClaims option"
  rc_peer :: "string option"
  rc_locale :: "string option"

text \<open>The context of a call that no transport and no middleware has touched.\<close>

definition emptyCtx :: reqCtx where
  "emptyCtx = \<lparr>rc_httpRequestID = [], rc_grpcRequestID = [], rc_span = None, rc_transport = None,
     rc_claims = None, rc_authz = None, rc_peer = None, rc_locale = None\<rparr>"

text \<open>The first non-empty string of a list, which the chains of early returns compute.\<close>

definition firstNonEmpty :: "string list \<Rightarrow> string" where
  "firstNonEmpty xs = (case List.find (\<lambda>x. x \<noteq> []) xs of None \<Rightarrow> [] | Some x \<Rightarrow> x)"

lemma firstNonEmpty_Nil [simp]: "firstNonEmpty [] = []"
  by (simp add: firstNonEmpty_def)

lemma firstNonEmpty_Cons [simp]: "firstNonEmpty (x # xs) = (if x \<noteq> [] then x else firstNonEmpty xs)"
  by (simp add: firstNonEmpty_def)

definition RequestID :: "reqCtx \<Rightarrow> string" where
  "RequestID ctx = firstNonEmpty ([rc_httpRequestID ctx, rc_grpcRequestID ctx]
     @ (case rc_transport ctx of None \<Rightarrow> []
        | Some t \<Rightarrow> map (tp_header t) [''X-Request-ID'', ''X-Correlation-ID'', ''X-Fc-Request-Id'']))"

definition TraceID :: "reqCtx \<Rightarrow> string" where
  "TraceID ctx = (case rc_span ctx of
      Some traceID \<Rightarrow> traceID
    | None \<Rightarrow> (case rc_transport ctx of
        None \<Rightarrow> []
      | Some t \<Rightarrow> (let traceparent = tp_header t ''traceparent''; parts = split_char (CHR ''-'') traceparent in
          if length parts = 4 \<and> length (parts ! 1) = 32 then parts ! 1 else traceparent)))"

text \<open>A missing claim reads as the zero value where the error is dropped.\<close>

definition int64Of :: "int64 option \<Rightarrow> int64" where
  "int64Of c = (case c of None \<Rightarrow> 0 | Some i \<Rightarrow> i)"

definition stringOf :: "string option \<Rightarrow> string" where
  "stringOf c = (case c of None \<Rightarrow> [] | Some s \<Rightarrow> s)"

end
