(* ===== verification/I18n.thy ===== *)
theory I18n
  imports Errors RequestMeta GoPath "HOL-Library.AList"
begin

text \<open>
  Model of \<open>resource/i18n\<close>, \<open>server/middleware/i18n.go\<close> and \<open>biz/locale.go\<close>: the catalog of
  messages, its assembly from module resources, the localization of structured errors and the
  middleware that applies it.  The go-i18n bundle (type \<open>'b\<close>), \<open>language.Parse\<close>, the JSON
  functions and the file systems are parameters.  A JSON object is the list of its members with
  their raw texts, in the order one run iterates the decoded map.
\<close>

section \<open>The catalog\<close>

record ('b, 'a) i18nLib =
  il_parseTag :: "string \<Rightarrow> bool"
  il_unmarshal :: "string \<Rightarrow> (string \<times> string) list option"
  il_marshal :: "(string \<times> string) list \<Rightarrow> string option"
  il_other :: "string \<Rightarrow> string option"
  il_newBundle :: 'b
  il_parseFile :: "'b \<Rightarrow> string \<Rightarrow> string \<Rightarrow> 'b option"
  il_render :: "'b \<Rightarrow> string \<Rightarrow> string \<Rightarrow> 'a option \<Rightarrow> string option"
  il_unmarshalArgs :: "string \<Rightarrow> 'a option"

text \<open>\<open>fs.ReadDir\<close> of the root gives names and whether they are directories.\<close>

record i18nFs =
  if_readDir :: "(string, (string \<times> bool) list) result"
  if_readFile :: "string \<Rightarrow> (string, string) result"

record 'b i18n =
  in_bundle :: "'b option"
  in_sourceKeys :: "string \<rightharpoonup> string"
  in_messageKeys :: "string set"

datatype i18nErr =
  NoFileSystem string | ReadDirFailed string string | BadLanguage string | ReadFailed string string string
| ParseMessagesFailed string string | LoadFailed string | SourceFailed string | DuplicateMessage string string
| PlainErr string | DecodeFailed | EncodeFailed

definition localeNames :: "(string \<times> bool) list \<Rightarrow> string list" where
  "localeNames entries = sort (map (\<lambda>(name, _). trim_suffix name (path_ext name))
     (filter (\<lambda>(name, isDir). \<not> (isDir \<or> \<not> has_suffix (to_lower name) ''.json'')) entries))"

text \<open>One member of a language file: its key is known, and it becomes the key of its source text
  unless a smaller one is.\<close>

fun addMessages ::
  "('b, 'a) i18nLib \<Rightarrow> (string \<times> string) list \<Rightarrow> (string \<rightharpoonup> string) \<times> string set
    \<Rightarrow> (i18nErr, (string \<rightharpoonup> string) \<times> string set) result" where
  "addMessages lib [] st = Inr st"
| "addMessages lib ((messageKey, raw) # ms) (sourceKeys, messageKeys) =
     (case il_other lib raw of
        None \<Rightarrow> Inl (SourceFailed messageKey)
      | Some source \<Rightarrow>
          addMessages lib ms
            ((if source = [] then sourceKeys
              else (case sourceKeys source of
                  None \<Rightarrow> sourceKeys(source \<mapsto> messageKey)
                | Some currentKey \<Rightarrow> if messageKey < currentKey then sourceKeys(source \<mapsto> messageKey) else sourceKeys)),
             insert messageKey messageKeys))"

text \<open>The loop over the languages; the bundle collects every file that is not blank.\<close>

fun loadLocales ::
  "('b, 'a) i18nLib \<Rightarrow> string \<Rightarrow> i18nFs \<Rightarrow> string list \<Rightarrow> 'b \<Rightarrow> (string \<rightharpoonup> string) \<times> string set
    \<Rightarrow> (i18nErr, 'b \<times> (string \<rightharpoonup> string) \<times> string set) result" where
  "loadLocales lib resourceName files [] bundle st = Inr (bundle, st)"
| "loadLocales lib resourceName files (loc # locs) bundle st =
     (if \<not> il_parseTag lib loc then Inl (BadLanguage loc)
      else (case if_readFile files (loc @ ''.json'') of
          Inl e \<Rightarrow> Inl (ReadFailed resourceName loc e)
        | Inr data \<Rightarrow>
            if trim_space data = [] then loadLocales lib resourceName files locs bundle st
            else (case il_unmarshal lib data of
                None \<Rightarrow> Inl (ParseMessagesFailed resourceName loc)
              | Some messages \<Rightarrow> (case il_parseFile lib bundle data (loc @ ''.json'') of
                  None \<Rightarrow> Inl (LoadFailed loc)
                | Some bundle' \<Rightarrow> bindR (addMessages lib messages st)
                    (loadLocales lib resourceName files locs bundle')))))"

definition NewI18n :: "('b, 'a) i18nLib \<Rightarrow> string \<Rightarrow> i18nFs option \<Rightarrow> (i18nErr, 'b i18n) result" where
  "NewI18n lib name files =
     (let resourceName = (if name = [] then ''resource'' else name) in
      case files of
        None \<Rightarrow> Inl (NoFileSystem resourceName)
      | Some f \<Rightarrow> (case if_readDir f of
          Inl e \<Rightarrow> Inl (ReadDirFailed resourceName e)
        | Inr entries \<Rightarrow>
            (let locs = localeNames entries in
             if length locs = 0 then Inr \<lparr>in_bundle = None, in_sourceKeys = Map.empty, in_messageKeys = {}\<rparr>
             else bindR (loadLocales lib resourceName f locs (il_newBundle lib) (Map.empty, {}))
               (\<lambda>(bundle, sourceKeys, messageKeys). Inr
                 \<lparr>in_bundle = Some bundle, in_sourceKeys = sourceKeys, in_messageKeys = messageKeys\<rparr>))))"

text \<open>The methods accept a nil catalog.\<close>

definition catalogEmpty :: "'b i18n option \<Rightarrow> bool" where
  "catalogEmpty c \<longleftrightarrow> (case c of None \<Rightarrow> True
     | Some i \<Rightarrow> (case in_bundle i of None \<Rightarrow> True | Some _ \<Rightarrow> in_messageKeys i = {}))"

definition KeyForSource :: "'b i18n option \<Rightarrow> string \<Rightarrow> string option" where
  "KeyForSource c source = (case c of None \<Rightarrow> None
     | Some i \<Rightarrow> if source = [] then None else in_sourceKeys i source)"

definition HasMessage :: "'b i18n option \<Rightarrow> string \<Rightarrow> bool" where
  "HasMessage c messageKey \<longleftrightarrow> (case c of None \<Rightarrow> False
     | Some i \<Rightarrow> if messageKey = [] then False else messageKey \<in> in_messageKeys i)"

text \<open>The UTF-8 text of the built-in message.\<close>

definition systemError :: string where
  "systemError = [CHR 0xE7, CHR 0xB3, CHR 0xBB, CHR 0xE7, CHR 0xBB, CHR 0x9F, CHR 0xE5, CHR 0x86, CHR 0x85, CHR 0xE9, CHR 0x83, CHR 0xA8, CHR 0xE9, CHR 0x94, CHR 0x99, CHR 0xE8, CHR 0xAF, CHR 0xAF]"

definition fallbackMessage :: "string \<Rightarrow> string" where
  "fallbackMessage fallback = (if fallback \<noteq> [] then fallback else systemError)"

definition rendered :: "string option \<Rightarrow> string option" where
  "rendered r = (case r of None \<Rightarrow> None | Some m \<Rightarrow> if m \<noteq> [] then Some m else None)"

definition Localize ::
  "('b, 'a) i18nLib \<Rightarrow> 'b i18n option \<Rightarrow> string \<Rightarrow> string \<Rightarrow> string \<Rightarrow> 'a option \<Rightarrow> string \<Rightarrow> string" where
  "Localize lib c localeValue fallbackLocale messageKey messageArgs fallback =
     (case (case c of None \<Rightarrow> None | Some i \<Rightarrow> in_bundle i) of
        None \<Rightarrow> fallbackMessage fallback
      | Some bundle \<Rightarrow>
          if messageKey = [] then fallbackMessage fallback
          else (case rendered (il_render lib bundle localeValue messageKey messageArgs) of
              Some message \<Rightarrow> message
            | None \<Rightarrow>
                if fallbackLocale \<noteq> [] \<and> fallbackLocale \<noteq> localeValue then
                  (case rendered (il_render lib bundle fallbackLocale messageKey messageArgs) of
                     Some message \<Rightarrow> message
                   | None \<Rightarrow> fallbackMessage fallback)
                else fallbackMessage fallback))"

section \<open>Localized errors\<close>

definition knownReasons :: "string list" where
  "knownReasons = [ReasonInvalidArgument, ReasonUnauthenticated, ReasonPermissionDenied,
     ReasonResourceNotFound, ReasonConflict, ReasonRateLimited, ReasonInternalError]"

definition normalizeStructuredError :: "'x errOps \<Rightarrow> 'x kratosErr \<Rightarrow> 'x kratosErr" where
  "normalizeStructuredError ops err =
     (let result = eo_clone ops err in
      if ke_reason result \<in> set knownReasons then result
      else if ke_code result = 400 then result\<lparr>ke_reason := ReasonInvalidArgument\<rparr>
      else if ke_code result = 401 then result\<lparr>ke_reason := ReasonUnauthenticated\<rparr>
      else if ke_code result = 403 then result\<lparr>ke_reason := ReasonPermissionDenied\<rparr>
      else if ke_code result = 404 then result\<lparr>ke_reason := ReasonResourceNotFound\<rparr>
      else if ke_code result = 409 then result\<lparr>ke_reason := ReasonConflict\<rparr>
      else if ke_code result = 429 then result\<lparr>ke_reason := ReasonRateLimited\<rparr>
      else result\<lparr>ke_code := 500, ke_reason := ReasonInternalError\<rparr>)"

definition defaultMessageKey :: "string \<Rightarrow> string" where
  "defaultMessageKey reason =
     (if reason = ReasonInvalidArgument then ''common.error.invalid_argument''
      else if reason = ReasonUnauthenticated then ''common.error.unauthenticated''
      else if reason = ReasonPermissionDenied then ''common.error.permission_denied''
      else if reason = ReasonResourceNotFound then ''common.error.resource_not_found''
      else if reason = ReasonConflict then ''common.error.conflict''
      else if reason = ReasonRateLimited then ''common.error.rate_limited''
      else ''common.error.internal'')"

definition decodeMessageArgs :: "('b, 'a) i18nLib \<Rightarrow> string \<Rightarrow> 'a option" where
  "decodeMessageArgs lib value = (if value = [] then None else il_unmarshalArgs lib value)"

text \<open>The key an error is rendered with: its own; the default one of its reason when it has none;
  for a key generated from an unknown source text the key of that text, if any.\<close>

definition localizedKey :: "'b i18n option \<Rightarrow> 'x kratosErr \<Rightarrow> string" where
  "localizedKey catalog structured =
     (let messageKey = mdGet (ke_metadata structured) METADATA_KEY_MESSAGE_KEY in
      if messageKey = [] then defaultMessageKey (ke_reason structured)
      else if has_prefix messageKey ''legacy.error.'' \<and> \<not> HasMessage catalog messageKey then
        (case KeyForSource catalog (ke_message structured) of
           Some sourceKey \<Rightarrow> sourceKey
         | None \<Rightarrow> if ke_reason structured \<noteq> ReasonInternalError then []
             else defaultMessageKey (ke_reason structured))
      else messageKey)"

definition LocalizeError ::
  "'x errOps \<Rightarrow> ('b, 'a) i18nLib \<Rightarrow> 'b i18n option \<Rightarrow> string \<Rightarrow> string \<Rightarrow> 'x option \<Rightarrow> 'x option" where
  "LocalizeError ops lib catalog localeValue fallbackLocale err = (case err of
      None \<Rightarrow> None
    | Some x \<Rightarrow>
        (let structured = normalizeStructuredError ops (eo_fromError ops x);
             messageKey = localizedKey catalog structured;
             messageArgs = decodeMessageArgs lib (mdGet (ke_metadata structured) METADATA_KEY_MESSAGE_ARGS);
             localized = Localize lib catalog localeValue fallbackLocale messageKey messageArgs (ke_message structured);
             result = (eo_clone ops structured)\<lparr>ke_message := localized\<rparr>;
             md = ke_metadata result;
             md = (if messageKey = [] then md(METADATA_KEY_MESSAGE_KEY := None) else md(METADATA_KEY_MESSAGE_KEY \<mapsto> messageKey));
             md = (if mdGet md METADATA_KEY_MESSAGE_ARGS = [] then md(METADATA_KEY_MESSAGE_ARGS \<mapsto> ''{}'') else md)
         in Some (eo_error ops (eo_withCause ops (eo_withMetadata ops result md) x))))"

section \<open>The middleware\<close>

definition WithLocale :: "reqCtx \<Rightarrow> string \<Rightarrow> reqCtx" where
  "WithLocale ctx value = ctx\<lparr>rc_locale := Some value\<rparr>"

definition LocaleFromContext :: "reqCtx \<Rightarrow> string" where
  "LocaleFromContext ctx = (case rc_locale ctx of None \<Rightarrow> [] | Some value \<Rightarrow> trim_space value)"

definition I18nDefaultLanguage :: string where "I18nDefaultLanguage = ''i18n:default:language''"

text \<open>No middleware for an empty catalog; \<open>cacheGet\<close> is the \<open>Get\<close> of the cache.\<close>

definition NewI18nCatalogMiddleware ::
  "'x errOps \<Rightarrow> ('b, 'a) i18nLib \<Rightarrow> 'b i18n option \<Rightarrow> (string \<Rightarrow> (string, string) result)
    \<Rightarrow> ((reqCtx \<Rightarrow> 'q \<Rightarrow> ('x, 'r) result) \<Rightarrow> reqCtx \<Rightarrow> 'q \<Rightarrow> ('x, 'r) result) option" where
  "NewI18nCatalogMiddleware ops lib catalog cacheGet =
     (if catalogEmpty catalog then None
      else Some (\<lambda>handler ctx req.
        (let localeValue = (case rc_transport ctx of None \<Rightarrow> [] | Some t \<Rightarrow> tp_header t ''Accept-Language'');
             fallbackLocale = (case cacheGet I18nDefaultLanguage of Inl _ \<Rightarrow> ''zh-CN'' | Inr v \<Rightarrow> v)
         in case handler (WithLocale ctx localeValue) req of
              Inl e \<Rightarrow> (case LocalizeError ops lib catalog localeValue fallbackLocale (Some e) of
                  Some e' \<Rightarrow> Inl e' | None \<Rightarrow> Inl e)
            | Inr reply \<Rightarrow> Inr reply)))"

section \<open>Merging the resources of modules\<close>

text \<open>The members of a file join those of the files of the same name read before; a member with
  another raw text is an error.\<close>

fun mergeMessages ::
  "string \<Rightarrow> (string \<times> string) list \<Rightarrow> (string \<times> string) list \<Rightarrow> (i18nErr, (string \<times> string) list) result" where
  "mergeMessages path [] current = Inr current"
| "mergeMessages path ((key, value) # ms) current =
     (case map_of current key of
        Some previous \<Rightarrow> if previous \<noteq> value then Inl (DuplicateMessage path key)
          else mergeMessages path ms (AList.update key value current)
      | None \<Rightarrow> mergeMessages path ms (AList.update key value current))"

definition addFile ::
  "('b, 'a) i18nLib \<Rightarrow> string \<Rightarrow> string \<Rightarrow> (string \<times> string) list \<Rightarrow> (i18nErr, (string \<times> string) list) result" where
  "addFile lib path data files =
     (if trim_space data = [] then Inr files
      else (case il_unmarshal lib data of
          None \<Rightarrow> Inl (ParseMessagesFailed [] path)
        | Some messages \<Rightarrow> (case map_of files path of
            None \<Rightarrow> Inr (AList.update path data files)
          | Some existing \<Rightarrow> (case il_unmarshal lib existing of
              None \<Rightarrow> Inl DecodeFailed
            | Some current \<Rightarrow> bindR (mergeMessages path messages current) (\<lambda>merged.
                (case il_marshal lib merged of None \<Rightarrow> Inl EncodeFailed
                 | Some data' \<Rightarrow> Inr (AList.update path data' files)))))))"

fun addEntries ::
  "('b, 'a) i18nLib \<Rightarrow> i18nFs \<Rightarrow> (string \<times> bool) list \<Rightarrow> (string \<times> string) list \<Rightarrow> (i18nErr, (string \<times> string) list) result" where
  "addEntries lib f [] files = Inr files"
| "addEntries lib f ((name, isDir) # es) files =
     (if isDir then addEntries lib f es files
      else (case if_readFile f name of
          Inl e \<Rightarrow> Inl (PlainErr e)
        | Inr data \<Rightarrow> bindR (addFile lib name data files) (addEntries lib f es)))"

fun addResources ::
  "('b, 'a) i18nLib \<Rightarrow> i18nFs list \<Rightarrow> (string \<times> string) list \<Rightarrow> (i18nErr, (string \<times> string) list) result" where
  "addResources lib [] files = Inr files"
| "addResources lib (f # fs) files = (case if_readDir f of
      Inl e \<Rightarrow> Inl (PlainErr e)
    | Inr entries \<Rightarrow> bindR (addEntries lib f entries files) (addResources lib fs))"

text \<open>The \<open>fstest.MapFS\<close> of the merged files.\<close>

definition mapFS :: "(string \<times> string) list \<Rightarrow> i18nFs" where
  "mapFS files = \<lparr>if_readDir = Inr (map (\<lambda>(name, _). (name, False)) files),
     if_readFile = (\<lambda>name. case map_of files name of None \<Rightarrow> Inl name | Some data \<Rightarrow> Inr data)\<rparr>"

definition NewCatalog :: "('b, 'a) i18nLib \<Rightarrow> i18nFs \<Rightarrow> i18nFs list \<Rightarrow> (i18nErr, 'b i18n) result" where
  "NewCatalog lib core resources =
     bindR (addResources lib (resources @ [core]) []) (\<lambda>files. NewI18n lib ''modules'' (Some (mapFS files)))"

section \<open>Localized errors are well formed\<close>

lemma mdGet_upd [simp]:
  "mdGet (md(k \<mapsto> v)) k' = (if k = k' then v else mdGet md k')"
  "mdGet (md(k := None)) k' = (if k = k' then [] else mdGet md k')"
  "mdGet Map.empty k = []"
  by (auto simp: mdGet_def)

lemma message_keys_differ [simp]:
  "METADATA_KEY_MESSAGE_KEY \<noteq> METADATA_KEY_MESSAGE_ARGS" "METADATA_KEY_MESSAGE_ARGS \<noteq> METADATA_KEY_MESSAGE_KEY"
  by (simp_all add: METADATA_KEY_MESSAGE_KEY_def METADATA_KEY_MESSAGE_ARGS_def)

text \<open>The HTTP codes that determine a reason.\<close>

definition codeReason :: "int \<Rightarrow> string option" where
  "codeReason = map_of [(400, ReasonInvalidArgument), (401, ReasonUnauthenticated), (403, ReasonPermissionDenied),
     (404, ReasonResourceNotFound), (409, ReasonConflict), (429, ReasonRateLimited)]"

lemma normalize_cases:
  assumes "errLaws ops"
  shows "normalizeStructuredError ops e =
     (if ke_reason e \<in> set knownReasons then e
      else case codeReason (ke_code e) of
          Some r \<Rightarrow> e\<lparr>ke_reason := r\<rparr>
        | None \<Rightarrow> e\<lparr>ke_code := 500, ke_reason := ReasonInternalError\<rparr>)"
  by (simp add: normalizeStructuredError_def errLaws_simps [OF assms] codeReason_def Let_def)

lemma codeReason_known: "codeReason c = Some r \<Longrightarrow> r \<in> set knownReasons"
  by (auto simp: codeReason_def knownReasons_def split: if_splits)

lemma normalize_known: "errLaws ops \<Longrightarrow> ke_reason (normalizeStructuredError ops e) \<in> set knownReasons"
  by (auto simp: normalize_cases codeReason_known split: option.splits) (simp add: knownReasons_def)

lemma normalize_other_fields:
  assumes "errLaws ops"
  shows "ke_message (normalizeStructuredError ops e) = ke_message e"
    and "ke_metadata (normalizeStructuredError ops e) = ke_metadata e"
  by (simp_all add: normalize_cases [OF assms] split: option.splits)

lemma Localize_nonempty: "Localize lib c loc fb key args msg \<noteq> []"
  by (auto simp: Localize_def fallbackMessage_def rendered_def systemError_def split: option.splits if_splits)

lemma LocalizeError_structured:
  assumes "errLaws ops" "LocalizeError ops lib catalog loc fb (Some x) = Some x'"
  shows "\<exists>s n. eo_as ops x' = Some s \<and> n = normalizeStructuredError ops (eo_fromError ops x)
     \<and> ke_code s = ke_code n \<and> ke_reason s = ke_reason n \<and> ke_cause s = Some x
     \<and> ke_message s = Localize lib catalog loc fb (localizedKey catalog n)
          (decodeMessageArgs lib (mdGet (ke_metadata n) METADATA_KEY_MESSAGE_ARGS)) (ke_message n)
     \<and> mdGet (ke_metadata s) METADATA_KEY_MESSAGE_KEY = localizedKey catalog n
     \<and> mdGet (ke_metadata s) METADATA_KEY_MESSAGE_ARGS \<noteq> []"
proof -
  let ?n = "normalizeStructuredError ops (eo_fromError ops x)" and ?K = METADATA_KEY_MESSAGE_KEY and ?A = METADATA_KEY_MESSAGE_ARGS
  let ?key = "localizedKey catalog ?n"
  let ?text = "Localize lib catalog loc fb ?key (decodeMessageArgs lib (mdGet (ke_metadata ?n) ?A)) (ke_message ?n)"
  define md where "md = (if ?key = [] then (ke_metadata ?n)(?K := None) else (ke_metadata ?n)(?K \<mapsto> ?key))"
  define md' where "md' = (if mdGet md ?A = [] then md(?A \<mapsto> ''{}'') else md)"
  define s where "s = ?n\<lparr>ke_message := ?text, ke_metadata := md', ke_cause := Some x\<rparr>"
  have "x' = eo_error ops s"
    using assms(2) by (simp add: LocalizeError_def Let_def errLaws_simps [OF assms(1)] s_def md'_def md_def cong: if_cong)
  then have "eo_as ops x' = Some s" by (simp add: errLaws_simps [OF assms(1)])
  moreover have "mdGet md' ?K = ?key" "mdGet md' ?A \<noteq> []" by (simp_all add: md'_def md_def)
  ultimately show ?thesis by (intro exI [of _ s] exI [of _ ?n]) (simp add: s_def)
qed

text \<open>C28.
  Every error the client sees is classified.  Localization turns any error into a structured one
  that wraps it, has one of the seven known reasons, a text and encoded message arguments.  A known
  reason is kept with its code; an unknown one is read off the HTTP code, and any other code becomes
  an internal error 500.  The result is stable: it is already classified for a second pass.\<close>
theorem LocalizeError_classified:
  assumes "errLaws ops" "LocalizeError ops lib catalog loc fb (Some x) = Some x'" "e = eo_fromError ops x"
  shows "\<exists>s. eo_as ops x' = Some s \<and> ke_cause s = Some x \<and> ke_reason s \<in> set knownReasons
    \<and> ke_message s \<noteq> [] \<and> mdGet (ke_metadata s) METADATA_KEY_MESSAGE_ARGS \<noteq> []
    \<and> (if ke_reason e \<in> set knownReasons then ke_reason s = ke_reason e \<and> ke_code s = ke_code e
       else (case codeReason (ke_code e) of
           Some r \<Rightarrow> ke_reason s = r \<and> ke_code s = ke_code e
         | None \<Rightarrow> ke_reason s = ReasonInternalError \<and> ke_code s = 500))
    \<and> normalizeStructuredError ops s = s"
proof -
  obtain s n where sn: "eo_as ops x' = Some s" "n = normalizeStructuredError ops e" "ke_code s = ke_code n"
      "ke_reason s = ke_reason n" "ke_cause s = Some x" "mdGet (ke_metadata s) METADATA_KEY_MESSAGE_ARGS \<noteq> []"
    and m: "ke_message s = Localize lib catalog loc fb (localizedKey catalog n)
          (decodeMessageArgs lib (mdGet (ke_metadata n) METADATA_KEY_MESSAGE_ARGS)) (ke_message n)"
    using LocalizeError_structured [OF assms(1,2)] assms(3) by blast
  have "ke_reason s \<in> set knownReasons" using normalize_known [OF assms(1)] sn(2,4) by simp
  moreover from this have "normalizeStructuredError ops s = s" by (simp add: normalize_cases [OF assms(1)])
  ultimately show ?thesis using sn m
    by (intro exI [of _ s]) (simp add: Localize_nonempty normalize_cases [OF assms(1)] split: option.splits)
qed

definition demoLib :: "(nat, nat) i18nLib" where
  "demoLib = \<lparr>il_parseTag = (\<lambda>_. True), il_unmarshal = (\<lambda>_. Some []), il_marshal = (\<lambda>_. Some []), il_other = (\<lambda>_. None),
     il_newBundle = 0, il_parseFile = (\<lambda>b _ _. Some b),
     il_render = (\<lambda>_ loc key _. if key = ''common.error.internal'' then Some ''internal error'' else None), il_unmarshalArgs = (\<lambda>_. None)\<rparr>"

theorem LocalizeError_classified_witness:
  "\<exists>s. demoAs (the (LocalizeError demoOps demoLib None ''en'' ''zh'' (Some (Structured 403 ''NO'' ''no'' Map.empty None)))) = Some s
    \<and> ke_reason s = ReasonPermissionDenied \<and> ke_code s = 403"
proof -
  let ?x = "Structured 403 ''NO'' ''no'' Map.empty None"
  obtain x' where x': "LocalizeError demoOps demoLib None ''en'' ''zh'' (Some ?x) = Some x'"
    by (simp add: LocalizeError_def Let_def)
  have e: "eo_fromError demoOps ?x = \<lparr>ke_code = 403, ke_reason = ''NO'', ke_message = ''no'', ke_metadata = Map.empty, ke_cause = None\<rparr>"
    by (simp add: demoOps_def)
  have "''NO'' \<notin> set knownReasons" "codeReason 403 = Some ReasonPermissionDenied"
    by (simp_all add: knownReasons_def reason_defs codeReason_def)
  moreover have "eo_as demoOps = demoAs" by (simp add: demoOps_def)
  ultimately show ?thesis using LocalizeError_classified [OF demoOps_laws x' e [symmetric]] by (auto simp: x')
qed

section \<open>Internal errors are hidden\<close>

text \<open>An error without a stable message of its own: it has no key, or one generated from a text that
  no language file contains.\<close>

definition noStableMessage :: "'b i18n \<Rightarrow> 'x kratosErr \<Rightarrow> bool" where
  "noStableMessage c e \<longleftrightarrow>
     (let key = mdGet (ke_metadata e) METADATA_KEY_MESSAGE_KEY in
      key = [] \<or> has_prefix key ''legacy.error.'' \<and> \<not> HasMessage (Some c) key \<and> KeyForSource (Some c) (ke_message e) = None)"

definition isInternal :: "'x kratosErr \<Rightarrow> bool" where
  "isInternal e \<longleftrightarrow> ke_reason e = ReasonInternalError \<or> ke_reason e \<notin> set knownReasons \<and> codeReason (ke_code e) = None"

lemma normalize_internal: "errLaws ops \<Longrightarrow> isInternal e \<Longrightarrow> ke_reason (normalizeStructuredError ops e) = ReasonInternalError"
  by (auto simp: normalize_cases isInternal_def knownReasons_def split: option.splits)

lemma localizedKey_internal:
  assumes "errLaws ops" "isInternal e" "noStableMessage c e"
  shows "localizedKey (Some c) (normalizeStructuredError ops e) = ''common.error.internal''"
proof -
  have d: "defaultMessageKey ReasonInternalError = ''common.error.internal''" by (simp add: defaultMessageKey_def reason_defs)
  show ?thesis
    using assms(3) by (auto simp: localizedKey_def noStableMessage_def normalize_internal [OF assms(1,2)]
      normalize_other_fields [OF assms(1)] d Let_def)
qed

text \<open>C14.
  Internal errors do not leak.  When the middleware is mounted and a handler fails with an internal
  error (an internal reason, or an unknown reason and code) that has no stable message of its own,
  the client gets the reason INTERNAL_ERROR and, if the catalog has a text for internal errors in
  the language of the request, exactly that text: nothing of the message of the error shows.\<close>
theorem internal_errors_hidden:
  fixes handler :: "reqCtx \<Rightarrow> 'q \<Rightarrow> ('x, 'r) result"
  assumes "errLaws ops" "NewI18nCatalogMiddleware ops lib (Some c) cacheGet = Some middleware"
    and "loc = (case rc_transport ctx of None \<Rightarrow> [] | Some t \<Rightarrow> tp_header t ''Accept-Language'')"
    and "handler (WithLocale ctx loc) req = Inl x" "isInternal (eo_fromError ops x)" "noStableMessage c (eo_fromError ops x)"
    and "in_bundle c = Some bnd" "shown \<noteq> []" "\<And>args. il_render lib bnd loc ''common.error.internal'' args = Some shown"
  shows "\<exists>x' s. middleware handler ctx req = Inl x' \<and> eo_as ops x' = Some s
    \<and> ke_reason s = ReasonInternalError \<and> ke_message s = shown"
proof -
  obtain fb where mw: "middleware handler ctx req = (case LocalizeError ops lib (Some c) loc fb (Some x) of
      Some e' \<Rightarrow> Inl e' | None \<Rightarrow> Inl x)"
    using assms(2-4) by (auto simp: NewI18nCatalogMiddleware_def Let_def split: if_splits)
  obtain x' where x': "LocalizeError ops lib (Some c) loc fb (Some x) = Some x'"
    by (simp add: LocalizeError_def Let_def)
  obtain s n where s: "eo_as ops x' = Some s" "n = normalizeStructuredError ops (eo_fromError ops x)" "ke_reason s = ke_reason n"
    and m: "ke_message s = Localize lib (Some c) loc fb (localizedKey (Some c) n)
          (decodeMessageArgs lib (mdGet (ke_metadata n) METADATA_KEY_MESSAGE_ARGS)) (ke_message n)"
    using LocalizeError_structured [OF assms(1) x'] by blast
  have "ke_message s = shown" using localizedKey_internal [OF assms(1,5,6)] s(2) assms(7-9)
    by (simp add: m Localize_def rendered_def)
  with s x' mw normalize_internal [OF assms(1,5)] show ?thesis by auto
qed

definition demoCatalog :: "nat i18n" where
  "demoCatalog = \<lparr>in_bundle = Some 0, in_sourceKeys = Map.empty, in_messageKeys = {''common.error.internal''}\<rparr>"

theorem internal_errors_hidden_witness:
  "\<exists>middleware x' s. NewI18nCatalogMiddleware demoOps demoLib (Some demoCatalog) (\<lambda>_. Inl ''miss'') = Some middleware
     \<and> middleware (\<lambda>_ _. Inl (Text ''password=hunter2'')) emptyCtx () = (Inl x' :: (demoErr, nat) result)
     \<and> eo_as demoOps x' = Some s \<and> ke_reason s = ReasonInternalError \<and> ke_message s = ''internal error''"
proof -
  obtain middleware :: "(reqCtx \<Rightarrow> unit \<Rightarrow> (demoErr, nat) result) \<Rightarrow> reqCtx \<Rightarrow> unit \<Rightarrow> (demoErr, nat) result"
    where m: "NewI18nCatalogMiddleware demoOps demoLib (Some demoCatalog) (\<lambda>_. Inl ''miss'') = Some middleware"
    by (simp add: NewI18nCatalogMiddleware_def catalogEmpty_def demoCatalog_def)
  have "\<exists>x' s. middleware (\<lambda>_ _. Inl (Text ''password=hunter2'')) emptyCtx () = Inl x'
     \<and> eo_as demoOps x' = Some s \<and> ke_reason s = ReasonInternalError \<and> ke_message s = ''internal error''"
    by (rule internal_errors_hidden [where x = "Text ''password=hunter2''" and bnd = 0, OF demoOps_laws m refl])
      (simp_all add: emptyCtx_def demoOps_def isInternal_def noStableMessage_def codeReason_def knownReasons_def
        reason_defs demoCatalog_def demoLib_def)
  with m show ?thesis by blast
qed

section \<open>Conflict errors lose their text\<close>

text \<open>A conflict error built with details is shown as the generic conflict.  \<open>Conflict\<close> gives an error a
  generated message key, and a text that no language file contains is kept; \<open>UniqueConflict\<close> replaces
  the metadata, message key included, so the same text is replaced by the generic one of the catalog.\<close>
theorem conflict_text_lost:
  assumes "errLaws ops" "Conflict ops message = Some plain" "UniqueConflict ops message resource field constraint = Some detailed"
    and "message \<noteq> []" "\<not> HasMessage (Some c) (MessageKey ops message)" "KeyForSource (Some c) message = None"
    and "in_bundle c = Some bnd" "shown \<noteq> []" "\<And>args. il_render lib bnd loc ''common.error.conflict'' args = Some shown"
  shows "(\<exists>x s. LocalizeError ops lib (Some c) loc fb (Some (eo_error ops plain)) = Some x \<and> eo_as ops x = Some s \<and> ke_message s = message)
    \<and> (\<exists>x s. LocalizeError ops lib (Some c) loc fb (Some (eo_error ops detailed)) = Some x \<and> eo_as ops x = Some s \<and> ke_message s = shown)"
proof -
  let ?legacy = "MessageKey ops message"
  have p: "ke_reason plain = ReasonConflict" "ke_message plain = message" "mdGet (ke_metadata plain) METADATA_KEY_MESSAGE_KEY = ?legacy"
    using newStructuredError_fields [OF assms(1), of 409 ReasonConflict message] assms(2,4) by (auto simp: Conflict_def)
  have d: "ke_reason detailed = ReasonConflict" "ke_message detailed = message"
    using p assms(2,3) by (auto simp: UniqueConflict_def withMetadata_def errLaws_simps [OF assms(1)])
  have nokey: "mdGet (ke_metadata detailed) METADATA_KEY_MESSAGE_KEY = []"
    by (rule conflict_drops_message_key [OF assms(1,3)])
  have norm: "normalizeStructuredError ops e = e" if "ke_reason e = ReasonConflict" for e
    using that by (simp add: normalize_cases [OF assms(1)] knownReasons_def)
  have key: "localizedKey (Some c) plain = []" "localizedKey (Some c) detailed = ''common.error.conflict''"
    using assms(5,6) p d nokey by (auto simp: localizedKey_def MessageKey_def defaultMessageKey_def reason_defs)
  have *: "\<exists>x s. LocalizeError ops lib (Some c) loc fb (Some (eo_error ops e)) = Some x \<and> eo_as ops x = Some s
      \<and> ke_message s = Localize lib (Some c) loc fb (localizedKey (Some c) e)
          (decodeMessageArgs lib (mdGet (ke_metadata e) METADATA_KEY_MESSAGE_ARGS)) (ke_message e)"
    if r: "ke_reason e = ReasonConflict" for e
  proof -
    obtain x where x: "LocalizeError ops lib (Some c) loc fb (Some (eo_error ops e)) = Some x"
      by (simp add: LocalizeError_def Let_def)
    from LocalizeError_structured [OF assms(1) x] show ?thesis
      using x by (auto simp: errLaws_simps [OF assms(1)] norm [OF r])
  qed
  show ?thesis using * [OF p(1)] * [OF d(1)] assms(4,7-9) by (simp add: key p d Localize_def fallbackMessage_def rendered_def)
qed

definition conflictLib :: "(nat, nat) i18nLib" where
  "conflictLib = demoLib\<lparr>il_render := (\<lambda>_ loc key _. if key = ''common.error.conflict'' then Some ''conflict'' else None)\<rparr>"

theorem conflict_text_lost_witness:
  "(\<exists>plain x s. Conflict demoOps ''name taken'' = Some plain
       \<and> LocalizeError demoOps conflictLib (Some demoCatalog) ''en'' ''zh'' (Some (eo_error demoOps plain)) = Some x
       \<and> eo_as demoOps x = Some s \<and> ke_message s = ''name taken'')
   \<and> (\<exists>detailed x s. UniqueConflict demoOps ''name taken'' ''user'' ''name'' [] = Some detailed
       \<and> LocalizeError demoOps conflictLib (Some demoCatalog) ''en'' ''zh'' (Some (eo_error demoOps detailed)) = Some x
       \<and> eo_as demoOps x = Some s \<and> ke_message s = ''conflict'')"
proof -
  obtain plain where p: "Conflict demoOps ''name taken'' = Some plain"
    using newStructuredError_fields [OF demoOps_laws] unfolding Conflict_def by blast
  then obtain detailed where d: "UniqueConflict demoOps ''name taken'' ''user'' ''name'' [] = Some detailed"
    by (simp add: UniqueConflict_def withMetadata_def)
  have key: "\<not> HasMessage (Some demoCatalog) (MessageKey demoOps ''name taken'')" "KeyForSource (Some demoCatalog) ''name taken'' = None"
    "in_bundle demoCatalog = Some 0"
    by (simp_all add: HasMessage_def KeyForSource_def demoCatalog_def MessageKey_def)
  from conflict_text_lost [where ops = demoOps and lib = conflictLib and c = demoCatalog and bnd = 0 and shown = "''conflict''"
      and loc = "''en''" and fb = "''zh''", OF demoOps_laws p d _ key]
  show ?thesis using p d by (simp add: conflictLib_def)
qed

section \<open>The tables of a catalog\<close>

text \<open>The messages of one language: the members of its file with their source texts.\<close>

definition localeMessages :: "('b, 'a) i18nLib \<Rightarrow> i18nFs \<Rightarrow> string \<Rightarrow> (string \<times> string) list" where
  "localeMessages lib files loc = (case if_readFile files (loc @ ''.json'') of
      Inl _ \<Rightarrow> []
    | Inr data \<Rightarrow> if trim_space data = [] then [] else (case il_unmarshal lib data of None \<Rightarrow> [] | Some ms \<Rightarrow> ms))"

definition sourcePairs :: "('b, 'a) i18nLib \<Rightarrow> (string \<times> string) list \<Rightarrow> (string \<times> string) set" where
  "sourcePairs lib ms = {(source, key). \<exists>raw. (key, raw) \<in> set ms \<and> il_other lib raw = Some source \<and> source \<noteq> []}"

text \<open>A table of source texts is right for a set of pairs when it gives every text its least key.\<close>

definition leastKey :: "(string \<times> string) set \<Rightarrow> string \<Rightarrow> string option \<Rightarrow> bool" where
  "leastKey P source key \<longleftrightarrow> (case key of
      None \<Rightarrow> (\<forall>k. (source, k) \<notin> P)
    | Some k \<Rightarrow> (source, k) \<in> P \<and> (\<forall>k'. (source, k') \<in> P \<longrightarrow> k \<le> k'))"

definition leastKeys :: "(string \<rightharpoonup> string) \<Rightarrow> (string \<times> string) set \<Rightarrow> bool" where
  "leastKeys sourceKeys P \<longleftrightarrow> (\<forall>source. leastKey P source (sourceKeys source))"

lemma leastKeys_insert:
  assumes "leastKeys sk P"
  shows "leastKeys (case sk source of None \<Rightarrow> sk(source \<mapsto> k)
      | Some k' \<Rightarrow> if k < k' then sk(source \<mapsto> k) else sk) (insert (source, k) P)"
    (is "leastKeys ?sk ?P")
proof -
  have other: "leastKey ?P s (sk s)" if "s \<noteq> source" for s
  proof -
    have "leastKey P s (sk s)" using assms by (simp add: leastKeys_def)
    with that show ?thesis by (cases "sk s") (simp_all add: leastKey_def)
  qed
  have self: "leastKey P source (sk source)" using assms by (simp add: leastKeys_def)
  have same: "leastKey ?P source (?sk source)"
    using self by (cases "sk source") (auto simp: leastKey_def intro: order.trans less_imp_le)
  have "leastKey ?P s (?sk s)" for s
    using other [of s] same by (cases "s = source") (auto split: option.splits)
  then show ?thesis by (simp add: leastKeys_def)
qed

lemma addMessages_least:
  assumes "addMessages lib ms (sk, mk) = Inr (sk', mk')" "leastKeys sk P"
  shows "leastKeys sk' (P \<union> sourcePairs lib ms) \<and> mk' = mk \<union> fst ` set ms"
  using assms
proof (induction ms arbitrary: sk mk P)
  case Nil
  then show ?case by (simp add: sourcePairs_def)
next
  case (Cons m ms)
  obtain key raw where m: "m = (key, raw)" by (cases m)
  from Cons.prems(1) m obtain source where o: "il_other lib raw = Some source" by (auto split: option.splits)
  let ?sk = "if source = [] then sk else (case sk source of None \<Rightarrow> sk(source \<mapsto> key)
      | Some k' \<Rightarrow> if key < k' then sk(source \<mapsto> key) else sk)"
  have run: "addMessages lib ms (?sk, insert key mk) = Inr (sk', mk')" using Cons.prems(1) m o by simp
  show ?case
  proof (cases "source = []")
    case True
    have "sourcePairs lib (m # ms) = sourcePairs lib ms" using True o by (auto simp: sourcePairs_def m)
    with Cons.IH [OF run, of P] Cons.prems(2) True show ?thesis by (auto simp: m)
  next
    case False
    have "sourcePairs lib (m # ms) = insert (source, key) (sourcePairs lib ms)" using False o by (auto simp: sourcePairs_def m)
    with Cons.IH [OF run, of "insert (source, key) P"] leastKeys_insert [OF Cons.prems(2), of source key] False
    show ?thesis by (auto simp: m)
  qed
qed

lemma loadLocales_tables:
  assumes "loadLocales lib rn files locs b (sk, mk) = Inr (b', sk', mk')" "leastKeys sk P"
  shows "leastKeys sk' (P \<union> (\<Union>loc \<in> set locs. sourcePairs lib (localeMessages lib files loc)))
    \<and> mk' = mk \<union> (\<Union>loc \<in> set locs. fst ` set (localeMessages lib files loc))"
  using assms
proof (induction locs arbitrary: b sk mk P)
  case Nil
  then show ?case by simp
next
  case (Cons loc locs)
  from Cons.prems(1) obtain data where d: "if_readFile files (loc @ ''.json'') = Inr data"
    by (auto split: if_splits sum.splits)
  show ?case
  proof (cases "trim_space data = []")
    case True
    have "localeMessages lib files loc = []" by (simp add: localeMessages_def d True)
    moreover have "loadLocales lib rn files locs b (sk, mk) = Inr (b', sk', mk')"
      using Cons.prems(1) d True by (simp split: if_splits)
    ultimately show ?thesis using Cons.IH Cons.prems(2) by (simp add: sourcePairs_def)
  next
    case False
    from Cons.prems(1) d False obtain ms b1 where u: "il_unmarshal lib data = Some ms"
      and run: "bindR (addMessages lib ms (sk, mk)) (loadLocales lib rn files locs b1) = Inr (b', sk', mk')"
      by (auto split: if_splits option.splits)
    from run obtain sk1 mk1 where a: "addMessages lib ms (sk, mk) = Inr (sk1, mk1)"
      and l: "loadLocales lib rn files locs b1 (sk1, mk1) = Inr (b', sk', mk')"
      by (auto simp: bindR_Inr_iff)
    have lm: "localeMessages lib files loc = ms" by (simp add: localeMessages_def d False u)
    from addMessages_least [OF a Cons.prems(2)] Cons.IH [OF l, of "P \<union> sourcePairs lib ms"]
    show ?thesis by (simp add: lm Un_assoc image_Un)
  qed
qed

text \<open>The tables of a catalog do not depend on the iteration order of Go maps.  When a catalog is built,
  the message keys it knows are exactly the members of its language files, and the key it gives for
  a source text is the least of all keys that have this text in any language; it gives none exactly
  when no message has the text.\<close>
theorem NewI18n_tables:
  assumes "NewI18n lib name (Some files) = Inr c" "if_readDir files = Inr entries"
    and "M = (\<Union>loc \<in> set (localeNames entries). sourcePairs lib (localeMessages lib files loc))"
  shows "in_messageKeys c = (\<Union>loc \<in> set (localeNames entries). fst ` set (localeMessages lib files loc))
    \<and> (KeyForSource (Some c) source = Some k \<longleftrightarrow> (source, k) \<in> M \<and> (\<forall>k'. (source, k') \<in> M \<longrightarrow> k \<le> k'))
    \<and> (KeyForSource (Some c) source = None \<longleftrightarrow> (\<forall>k. (source, k) \<notin> M))"
proof -
  have ne: "(source, k) \<in> M \<Longrightarrow> source \<noteq> []" for source k by (auto simp: assms(3) sourcePairs_def)
  have tables: "leastKeys (in_sourceKeys c) M
     \<and> in_messageKeys c = (\<Union>loc \<in> set (localeNames entries). fst ` set (localeMessages lib files loc))"
  proof (cases "localeNames entries")
    case Nil
    with assms(1,2) show ?thesis by (auto simp: NewI18n_def Let_def assms(3) leastKeys_def leastKey_def)
  next
    case (Cons l ls)
    with assms(1,2) obtain rn b sk mk where
      run: "loadLocales lib rn files (localeNames entries) (il_newBundle lib) (Map.empty, {}) = Inr (b, sk, mk)"
      and c: "c = \<lparr>in_bundle = Some b, in_sourceKeys = sk, in_messageKeys = mk\<rparr>"
      by (auto simp: NewI18n_def Let_def bindR_Inr_iff)
    have "leastKeys Map.empty {}" by (simp add: leastKeys_def leastKey_def)
    from loadLocales_tables [OF run this] show ?thesis by (simp add: c assms(3))
  qed
  then have L: "leastKey M source (in_sourceKeys c source)" by (simp add: leastKeys_def)
  show ?thesis
  proof (cases "source = []")
    case True
    then have "KeyForSource (Some c) source = None" "\<And>k. (source, k) \<notin> M" using ne by (auto simp: KeyForSource_def)
    with tables show ?thesis by simp
  next
    case False
    then have "KeyForSource (Some c) source = in_sourceKeys c source" by (simp add: KeyForSource_def)
    moreover have "k = k'" if "leastKey M source (Some k)" "leastKey M source (Some k')" for k k'
      using that by (simp add: leastKey_def order_antisym)
    ultimately show ?thesis using L tables
      by (cases "in_sourceKeys c source") (simp_all add: leastKey_def, blast)
  qed
qed

definition tableFiles :: i18nFs where
  "tableFiles = \<lparr>if_readDir = Inr [(''en.json'', False), (''sub'', True)], if_readFile = (\<lambda>n. if n = ''en.json'' then Inr ''x'' else Inl n)\<rparr>"

definition tableLib :: "(nat, nat) i18nLib" where
  "tableLib = demoLib\<lparr>il_unmarshal := (\<lambda>_. Some [(''b'', ''Hi''), (''a'', ''Hi''), (''c'', [])]), il_other := (\<lambda>raw. Some raw)\<rparr>"

theorem NewI18n_tables_witness:
  "\<exists>c. NewI18n tableLib [] (Some tableFiles) = Inr c \<and> KeyForSource (Some c) ''Hi'' = Some ''a''
     \<and> in_messageKeys c = {''a'', ''b'', ''c''}"
proof -
  have r: "if_readDir tableFiles = Inr [(''en.json'', False), (''sub'', True)]" by (simp add: tableFiles_def)
  have names: "localeNames [(''en.json'', False), (''sub'', True)] = [''en'']" by code_simp
  obtain c where c: "NewI18n tableLib [] (Some tableFiles) = Inr c"
  proof -
    have "(case NewI18n tableLib [] (Some tableFiles) of Inl _ \<Rightarrow> False | Inr _ \<Rightarrow> True)" by code_simp
    then show ?thesis using that by (auto split: sum.splits)
  qed
  have ms: "localeMessages tableLib tableFiles ''en'' = [(''b'', ''Hi''), (''a'', ''Hi''), (''c'', [])]" by code_simp
  have pairs: "sourcePairs tableLib [(''b'', ''Hi''), (''a'', ''Hi''), (''c'', [])] = {(''Hi'', ''b''), (''Hi'', ''a'')}"
    by (auto simp: sourcePairs_def tableLib_def)
  have le: "(''a'' :: string) \<le> ''b''" by code_simp
  have "KeyForSource (Some c) ''Hi'' = Some ''a''" "in_messageKeys c = {''a'', ''b'', ''c''}"
    using NewI18n_tables [OF c r refl, of "''Hi''" "''a''"] le by (auto simp: names ms pairs)
  with c show ?thesis by blast
qed

section \<open>Merged resources\<close>

text \<open>What \<open>encoding/json\<close> promises for a map of raw messages: encoding succeeds on decoded members,
  gives a text that is not blank, and decoding it gives the members back, every raw text in its
  compact form \<open>canon\<close>.\<close>

definition jsonLaws :: "('b, 'a) i18nLib \<Rightarrow> (string \<Rightarrow> string) \<Rightarrow> bool" where
  "jsonLaws lib canon \<longleftrightarrow> (\<forall>xs. \<exists>t ys. il_marshal lib xs = Some t \<and> trim_space t \<noteq> [] \<and> il_unmarshal lib t = Some ys
      \<and> map_of ys = map_option canon \<circ> map_of xs)"

lemma jsonLawsD:
  assumes "jsonLaws lib canon" "il_marshal lib xs = Some t"
  shows "trim_space t \<noteq> [] \<and> (\<exists>ys. il_unmarshal lib t = Some ys \<and> map_of ys = map_option canon \<circ> map_of xs)"
  using assms unfolding jsonLaws_def by (metis option.inject)

lemma dom_map_of: "dom (map_of xs) = fst ` set xs"
  by (auto simp: dom_map_of_conv_image_fst)

lemma map_of_keys: "map_of ys = map_option f \<circ> map_of xs \<Longrightarrow> fst ` set ys = fst ` set xs"
  by (metis dom_map_of dom_map_option_comp)

lemma mergeMessages_keys:
  "mergeMessages path ms current = Inr merged \<Longrightarrow> fst ` set merged = fst ` set current \<union> fst ` set ms"
proof (induction ms arbitrary: current)
  case Nil
  then show ?case by simp
next
  case (Cons m ms)
  obtain key v where m: "m = (key, v)" by (cases m)
  have "mergeMessages path ms (AList.update key v current) = Inr merged"
    using Cons.prems by (simp add: m split: option.splits if_splits)
  from Cons.IH [OF this] show ?case by (auto simp: m AList.dom_update)
qed

text \<open>The keys a table of files holds for a path.\<close>

definition fileKeys :: "('b, 'a) i18nLib \<Rightarrow> (string \<times> string) list \<Rightarrow> string \<Rightarrow> string set" where
  "fileKeys lib files path = (case map_of files path of
      None \<Rightarrow> {}
    | Some data \<Rightarrow> if trim_space data = [] then {} else (case il_unmarshal lib data of None \<Rightarrow> {} | Some ms \<Rightarrow> fst ` set ms))"

definition dataKeys :: "('b, 'a) i18nLib \<Rightarrow> string \<Rightarrow> string set" where
  "dataKeys lib data = (if trim_space data = [] then {} else (case il_unmarshal lib data of None \<Rightarrow> {} | Some ms \<Rightarrow> fst ` set ms))"

lemma addFile_keys:
  assumes "jsonLaws lib canon" "addFile lib path data files = Inr files'"
  shows "dataKeys lib data \<subseteq> fileKeys lib files' path \<and> (\<forall>q. fileKeys lib files q \<subseteq> fileKeys lib files' q)"
proof (cases "trim_space data = []")
  case True
  with assms(2) show ?thesis by (simp add: addFile_def dataKeys_def)
next
  case False
  with assms(2) obtain messages where u: "il_unmarshal lib data = Some messages"
    by (auto simp: addFile_def split: option.splits)
  show ?thesis
  proof (cases "map_of files path")
    case None
    with assms(2) False u have "files' = AList.update path data files" by (simp add: addFile_def)
    with None False u show ?thesis by (auto simp: fileKeys_def dataKeys_def AList.update_conv')
  next
    case (Some existing)
    with assms(2) False u obtain current merged data' where c: "il_unmarshal lib existing = Some current"
      and m: "mergeMessages path messages current = Inr merged" and e: "il_marshal lib merged = Some data'"
      and f: "files' = AList.update path data' files"
      by (auto simp: addFile_def bindR_Inr_iff split: option.splits)
    from jsonLawsD [OF assms(1) e] obtain ys where ys: "trim_space data' \<noteq> []" "il_unmarshal lib data' = Some ys"
      "fst ` set ys = fst ` set merged" using map_of_keys by blast
    have "fileKeys lib files' path = fst ` set current \<union> fst ` set messages"
      by (simp add: fileKeys_def f AList.update_conv' ys mergeMessages_keys [OF m])
    moreover have "fileKeys lib files' q = fileKeys lib files q" if "q \<noteq> path" for q
      using that by (simp add: fileKeys_def f AList.update_conv')
    moreover have "fileKeys lib files path \<subseteq> fst ` set current" by (simp add: fileKeys_def Some c)
    moreover have "dataKeys lib data = fst ` set messages" using False u by (simp add: dataKeys_def)
    ultimately show ?thesis by (metis Un_upper1 Un_upper2 order.trans order_refl)
  qed
qed

lemma addEntries_keys:
  assumes "jsonLaws lib canon" "addEntries lib f entries files = Inr files'"
  shows "(\<forall>q. fileKeys lib files q \<subseteq> fileKeys lib files' q)
    \<and> (\<forall>path. (path, False) \<in> set entries \<longrightarrow> (\<exists>data. if_readFile f path = Inr data \<and> dataKeys lib data \<subseteq> fileKeys lib files' path))"
  using assms(2)
proof (induction entries arbitrary: files)
  case Nil
  then show ?case by simp
next
  case (Cons e entries)
  obtain path isDir where e: "e = (path, isDir)" by (cases e)
  show ?case
  proof (cases isDir)
    case True
    with Cons e show ?thesis by auto
  next
    case False
    with Cons.prems e obtain data files1 where r: "if_readFile f path = Inr data" "addFile lib path data files = Inr files1"
      and run: "addEntries lib f entries files1 = Inr files'"
      by (auto simp: bindR_Inr_iff split: sum.splits)
    from addFile_keys [OF assms(1) r(2)] Cons.IH [OF run] r(1) show ?thesis
      by (auto simp: e) (metis subsetD)+
  qed
qed

lemma addResources_keys:
  assumes "jsonLaws lib canon" "addResources lib fs files = Inr files'"
  shows "(\<forall>q. fileKeys lib files q \<subseteq> fileKeys lib files' q)
    \<and> (\<forall>f \<in> set fs. \<exists>entries. if_readDir f = Inr entries \<and> (\<forall>path. (path, False) \<in> set entries
         \<longrightarrow> (\<exists>data. if_readFile f path = Inr data \<and> dataKeys lib data \<subseteq> fileKeys lib files' path)))"
  using assms(2)
proof (induction fs arbitrary: files)
  case Nil
  then show ?case by simp
next
  case (Cons f fs)
  from Cons.prems obtain entries files1 where r: "if_readDir f = Inr entries" "addEntries lib f entries files = Inr files1"
    and run: "addResources lib fs files1 = Inr files'"
    by (auto simp: bindR_Inr_iff split: sum.splits)
  note a = addEntries_keys [OF assms(1) r(2)] and b = Cons.IH [OF run]
  have "\<forall>q. fileKeys lib files q \<subseteq> fileKeys lib files' q" using a b by blast
  moreover have "\<exists>data. if_readFile f path = Inr data \<and> dataKeys lib data \<subseteq> fileKeys lib files' path"
    if "(path, False) \<in> set entries" for path using a b that by (meson order.trans)
  ultimately show ?case using b r(1) by auto
qed

lemma path_ext_suffix:
  assumes "CHR ''.'' \<notin> set e" "CHR 0x2F \<notin> set e"
  shows "path_ext (x @ CHR ''.'' # e) = CHR ''.'' # e"
proof -
  have dot: "cut_last DOT (y @ CHR ''.'' # e) = (y, e, True)" for y
    using assms(1) by (simp add: cut_last_found DOT_def)
  obtain a b found where c: "cut_last SLASHC (x @ CHR ''.'' # e) = (a, b, found)" by (cases "cut_last SLASHC (x @ CHR ''.'' # e)") auto
  show ?thesis
  proof (cases found)
    case False
    then have "path_ext (x @ CHR ''.'' # e) = DOT # e" by (simp add: path_ext_def c dot)
    then show ?thesis by (simp add: DOT_def)
  next
    case True
    with c have eq: "x @ CHR ''.'' # e = a @ SLASHC # b" and b: "SLASHC \<notin> set b" by (auto simp: cut_last_found)
    have "\<exists>y. b = y @ CHR ''.'' # e"
    proof -
      from eq consider us where "x = a @ us" "us @ CHR ''.'' # e = SLASHC # b" | us where "CHR ''.'' # e = us @ SLASHC # b"
        by (auto simp: append_eq_append_conv2)
      then show ?thesis
      proof cases
        case 1
        then show ?thesis by (cases us) (auto simp: SLASHC_def)
      next
        case 2
        then have "SLASHC \<in> set (CHR ''.'' # e)" by simp
        with assms(2) show ?thesis by (simp add: SLASHC_def)
      qed
    qed
    then have "path_ext (x @ CHR ''.'' # e) = DOT # e" using True by (auto simp: path_ext_def c dot)
    then show ?thesis by (simp add: DOT_def)
  qed
qed

lemma localeNames_json:
  assumes "(x @ ''.json'', False) \<in> set entries"
  shows "x \<in> set (localeNames entries)"
proof -
  have "path_ext (x @ ''.json'') = ''.json''" using path_ext_suffix [of "''json''" x] by simp
  moreover have "has_suffix (to_lower (x @ ''.json'')) ''.json''"
    by (simp add: has_suffix_def to_lower_def lower_char_def byte_val_def)
  moreover have "trim_suffix (x @ ''.json'') ''.json'' = x"
    by (simp add: trim_suffix_def has_suffix_def)
  ultimately show ?thesis using assms
    by (force simp: localeNames_def image_iff)
qed

text \<open>A catalog loses no message.  When the catalog of all modules and of Core is built, every key of
  every JSON language file of every one of them (files whose name ends in ".json") is known to it.\<close>
theorem NewCatalog_complete:
  assumes "jsonLaws lib canon" "NewCatalog lib core resources = Inr c"
    and "f \<in> set (resources @ [core])" "if_readDir f = Inr entries" "(loc @ ''.json'', False) \<in> set entries"
    and "if_readFile f (loc @ ''.json'') = Inr data" "key \<in> dataKeys lib data" "key \<noteq> []"
  shows "HasMessage (Some c) key"
proof -
  from assms(2) obtain files where add: "addResources lib (resources @ [core]) [] = Inr files"
    and new: "NewI18n lib ''modules'' (Some (mapFS files)) = Inr c"
    by (auto simp: NewCatalog_def bindR_Inr_iff)
  obtain entries' where e: "if_readDir f = Inr entries'" "\<And>path. (path, False) \<in> set entries' \<Longrightarrow>
      \<exists>data. if_readFile f path = Inr data \<and> dataKeys lib data \<subseteq> fileKeys lib files path"
    using addResources_keys [OF assms(1) add] assms(3) by auto
  from e(1) assms(4) have "entries' = entries" by simp
  with e(2) [of "loc @ ''.json''"] assms(5,6,7) have k: "key \<in> fileKeys lib files (loc @ ''.json'')" by auto
  then obtain d ms where d: "map_of files (loc @ ''.json'') = Some d" "trim_space d \<noteq> []" "il_unmarshal lib d = Some ms" "key \<in> fst ` set ms"
    by (auto simp: fileKeys_def split: option.splits if_splits)
  have r: "if_readDir (mapFS files) = Inr (map (\<lambda>(name, _). (name, False)) files)" by (simp add: mapFS_def)
  have "(loc @ ''.json'', False) \<in> set (map (\<lambda>(name, _). (name, False)) files)"
    using map_of_SomeD [OF d(1)] by force
  then have "loc \<in> set (localeNames (map (\<lambda>(name, _). (name, False)) files))" by (rule localeNames_json)
  moreover have "localeMessages lib (mapFS files) loc = ms" by (simp add: localeMessages_def mapFS_def d(1,2,3))
  ultimately have "key \<in> in_messageKeys c"
    using NewI18n_tables [OF new r refl] d(4) by blast
  with assms(8) show ?thesis by (simp add: HasMessage_def)
qed

text \<open>A file system with one file.\<close>

definition singleFile :: "string \<Rightarrow> string \<Rightarrow> i18nFs" where
  "singleFile path data = \<lparr>if_readDir = Inr [(path, False)], if_readFile = (\<lambda>n. if n = path then Inr data else Inl n)\<rparr>"

text \<open>An encoding of members for the witnesses: every byte is escaped, and encoding drops the
  spaces of the raw texts.\<close>

definition escaped :: "string \<Rightarrow> string" where
  "escaped s = concat (map (\<lambda>c. [CHR ''x'', c]) s)"

definition dropSpaces :: "string \<Rightarrow> string" where
  "dropSpaces s = filter (\<lambda>c. c \<noteq> CHR '' '') s"

definition encodeMembers :: "(string \<times> string) list \<Rightarrow> string" where
  "encodeMembers xs = CHR ''{'' # concat (map (\<lambda>(k, v). escaped k @ CHR '':'' # escaped v @ [CHR '';'']) xs)"

fun decodeKey :: "string \<Rightarrow> string \<Rightarrow> (string \<times> string) list"
  and decodeVal :: "string \<Rightarrow> string \<Rightarrow> string \<Rightarrow> (string \<times> string) list" where
  "decodeKey acc [] = []"
| "decodeKey acc (c # r) = (if c = CHR '':'' then decodeVal acc [] r
     else (case r of [] \<Rightarrow> [] | d # r' \<Rightarrow> decodeKey (acc @ [d]) r'))"
| "decodeVal k acc [] = []"
| "decodeVal k acc (c # r) = (if c = CHR '';'' then (k, acc) # decodeKey [] r
     else (case r of [] \<Rightarrow> [] | d # r' \<Rightarrow> decodeVal k (acc @ [d]) r'))"

lemma decodeKey_escaped: "decodeKey acc (escaped k @ CHR '':'' # r) = decodeVal (acc @ k) [] r"
  by (induction k arbitrary: acc) (simp_all add: escaped_def)

lemma decodeVal_escaped: "decodeVal k acc (escaped v @ CHR '';'' # r) = (k, acc @ v) # decodeKey [] r"
  by (induction v arbitrary: acc) (simp_all add: escaped_def)

lemma decode_encode: "decodeKey [] (tl (encodeMembers xs)) = xs"
  by (induction xs) (auto simp: encodeMembers_def decodeKey_escaped decodeVal_escaped)

lemma encodeMembers_not_blank: "trim_space (encodeMembers xs) \<noteq> []"
proof -
  have "\<not> is_space (CHR ''{'')" by (simp add: is_space_def byte_val_def)
  then show ?thesis by (simp add: trim_space_def encodeMembers_def)
qed

definition mergeLib :: "(nat, nat) i18nLib" where
  "mergeLib = demoLib\<lparr>il_unmarshal := (\<lambda>t. Some (decodeKey [] (tl t))),
     il_marshal := (\<lambda>xs. Some (encodeMembers (map (\<lambda>(k, v). (k, dropSpaces v)) xs))), il_other := (\<lambda>raw. Some raw)\<rparr>"

lemma mergeLib_laws: "jsonLaws mergeLib dropSpaces"
proof -
  have "map_of (map (\<lambda>(k, v). (k, dropSpaces v)) xs) = map_option dropSpaces \<circ> map_of xs" for xs
    by (simp add: map_of_map fun_eq_iff)
  then show ?thesis by (auto simp: jsonLaws_def mergeLib_def encodeMembers_not_blank decode_encode)
qed

theorem NewCatalog_complete_witness:
  "\<exists>c. NewCatalog mergeLib (singleFile ''en.json'' (encodeMembers [(''a'', ''A'')])) [singleFile ''en.json'' (encodeMembers [(''b'', ''B'')])] = Inr c
     \<and> HasMessage (Some c) ''a'' \<and> HasMessage (Some c) ''b''"
proof -
  let ?core = "singleFile ''en.json'' (encodeMembers [(''a'', ''A'')])" and ?m = "singleFile ''en.json'' (encodeMembers [(''b'', ''B'')])"
  have "(case NewCatalog mergeLib ?core [?m] of Inl _ \<Rightarrow> False | Inr _ \<Rightarrow> True)" by code_simp
  then obtain c where c: "NewCatalog mergeLib ?core [?m] = Inr c" by (auto split: sum.splits)
  have keys: "dataKeys mergeLib (encodeMembers xs) = fst ` set xs" for xs
    by (simp add: dataKeys_def encodeMembers_not_blank mergeLib_def decode_encode)
  have "HasMessage (Some c) ''a''"
    by (rule NewCatalog_complete [OF mergeLib_laws c, of ?core "[(''en.json'', False)]" "''en''" "encodeMembers [(''a'', ''A'')]"]) (simp_all add: singleFile_def keys)
  moreover have "HasMessage (Some c) ''b''"
    by (rule NewCatalog_complete [OF mergeLib_laws c, of ?m "[(''en.json'', False)]" "''en''" "encodeMembers [(''b'', ''B'')]"]) (simp_all add: singleFile_def keys)
  ultimately show ?thesis using c by blast
qed

text \<open>A third copy of a message is refused.  Two modules may repeat a message of the same raw text, but
  merging them re-encodes the file, which compacts the raw texts; a third module (or Core, which comes
  last) with the very same file then differs from the compacted text, and the catalog is refused as
  having a duplicate key.\<close>
theorem NewCatalog_false_duplicate:
  assumes "jsonLaws lib canon" "il_unmarshal lib data = Some [(key, raw)]" "trim_space data \<noteq> []" "canon raw \<noteq> raw"
  shows "(\<exists>files. addResources lib [singleFile path data, singleFile path data] [] = Inr files)
    \<and> NewCatalog lib (singleFile path data) [singleFile path data, singleFile path data] = Inl (DuplicateMessage path key)"
proof -
  let ?f = "singleFile path data"
  obtain t ys where t: "il_marshal lib [(key, raw)] = Some t" "il_unmarshal lib t = Some ys"
      "map_of ys = map_option canon \<circ> map_of [(key, raw)]"
    using assms(1) unfolding jsonLaws_def by blast
  have one: "addResources lib (?f # fs) files = bindR (addFile lib path data files) (addResources lib fs)" for fs files
    by (cases "addFile lib path data files") (simp_all add: singleFile_def)
  have first: "addFile lib path data [] = Inr [(path, data)]" using assms(2,3) by (simp add: addFile_def)
  have second: "addFile lib path data [(path, data)] = Inr [(path, t)]" using assms(2,3) t(1) by (simp add: addFile_def)
  have third: "addFile lib path data [(path, t)] = Inl (DuplicateMessage path key)"
    using assms(2,3,4) t(2,3) by (simp add: addFile_def)
  show ?thesis by (simp add: NewCatalog_def one first second third del: addResources.simps(2))
qed

theorem NewCatalog_false_duplicate_witness:
  "NewCatalog mergeLib (singleFile ''en.json'' (encodeMembers [(''a'', '' A'')]))
     [singleFile ''en.json'' (encodeMembers [(''a'', '' A'')]), singleFile ''en.json'' (encodeMembers [(''a'', '' A'')])]
   = Inl (DuplicateMessage ''en.json'' ''a'')"
proof -
  have "il_unmarshal mergeLib (encodeMembers [(''a'', '' A'')]) = Some [(''a'', '' A'')]" by (simp add: mergeLib_def decode_encode)
  moreover have "dropSpaces '' A'' \<noteq> '' A''" by code_simp
  ultimately show ?thesis
    using NewCatalog_false_duplicate [OF mergeLib_laws _ encodeMembers_not_blank] by blast
qed

end
