(* ===== verification/Redact.thy ===== *)
theory Redact
  imports Prelude
begin

text \<open>
  Model of \<open>server/middleware/logging/redact.go\<close>: which keys and strings are sensitive, and the
  recursive masking of a JSON value.  A decoded object is an association list; decoding and
  encoding JSON are parameters.  Case folding is that of ASCII.
\<close>

section \<open>Sensitive keys and strings\<close>

definition logRedactedValue :: string where
  "logRedactedValue = ''***REDACTED***''"

definition sensitiveLogKeyExactSet :: "string list" where
  "sensitiveLogKeyExactSet = [''authorization'', ''proxyauthorization'', ''cookie'', ''setcookie'', ''password'', ''passwd'',
     ''pwd'', ''secret'', ''apikey'', ''privatekey'', ''accesskey'', ''datastore'', ''cachestore'', ''dsn'', ''connectionstring'',
     ''code'', ''recoverycode'', ''captchacode'', ''webauthnresponsejson'', ''webauthnoptionsjson'', ''challengeid'',
     ''setupticket'', ''oldpwd'', ''newpwd'', ''clientsecret'', ''cryptokey'', ''encryptedkey'', ''ciphertext'', ''otpauthuri'']"

definition normalizeSensitiveLogKey :: "string \<Rightarrow> string" where
  "normalizeSensitiveLogKey key = to_lower (filter (\<lambda>c. c \<notin> set ''-_. '') key)"

definition isSensitiveLogKey :: "string \<Rightarrow> bool" where
  "isSensitiveLogKey key = (let k = normalizeSensitiveLogKey key in
     if k = [] then False
     else if k \<in> set sensitiveLogKeyExactSet then True
     else list_ex (has_suffix k) [''password'', ''passwd'', ''secret'', ''apikey'', ''privatekey'', ''accesskey'', ''token''])"

definition isSensitiveLogString :: "string \<Rightarrow> bool" where
  "isSensitiveLogString value = (let v = to_lower value in
     if v = [] then False
     else list_ex (has_prefix v) [''bearer '', ''basic '', ''sk-'']
        \<or> list_ex (str_contains v) [''mysql://'', ''postgres://'', ''@tcp('']) "

section \<open>Masking\<close>

datatype jsonVal =
  JNull | JBool bool | JNum string | JStr string | JArr "jsonVal list" | JObj "(string \<times> jsonVal) list"

fun redactLogValue :: "string \<Rightarrow> jsonVal \<Rightarrow> jsonVal" where
  "redactLogValue key (JObj members) = (if isSensitiveLogKey key then JStr logRedactedValue
     else JObj (map (\<lambda>(k, v). (k, redactLogValue k v)) members))"
| "redactLogValue key (JArr items) = (if isSensitiveLogKey key then JStr logRedactedValue
     else JArr (map (redactLogValue []) items))"
| "redactLogValue key (JStr s) = (if isSensitiveLogKey key \<or> isSensitiveLogString s then JStr logRedactedValue else JStr s)"
| "redactLogValue key v = (if isSensitiveLogKey key then JStr logRedactedValue else v)"

text \<open>A body that is not JSON, or cannot be encoded again, is logged as it is.\<close>

definition redactLogJSON :: "(string \<Rightarrow> jsonVal option) \<Rightarrow> (jsonVal \<Rightarrow> string option) \<Rightarrow> string \<Rightarrow> string" where
  "redactLogJSON decode encode body = (case decode body of None \<Rightarrow> body
    | Some payload \<Rightarrow> (case encode (redactLogValue [] payload) of None \<Rightarrow> body | Some redacted \<Rightarrow> redacted))"

definition redactLogHeaderMap :: "(string \<times> string) list \<Rightarrow> (string \<times> string) list" where
  "redactLogHeaderMap headers =
     map (\<lambda>(k, v). (k, if isSensitiveLogKey k \<or> isSensitiveLogString v then logRedactedValue else v)) headers"

section \<open>Nothing sensitive is left\<close>

text \<open>A value that shows nothing sensitive.\<close>

fun clean :: "jsonVal \<Rightarrow> bool" where
  "clean (JObj members) = list_all (\<lambda>(k, v). (isSensitiveLogKey k \<longrightarrow> v = JStr logRedactedValue) \<and> clean v) members"
| "clean (JArr items) = list_all clean items"
| "clean (JStr s) = (\<not> isSensitiveLogString s)"
| "clean _ = True"

text \<open>The value at a path of member names and indexes.\<close>

datatype jsonStep = Member string | Item nat

fun valueAt :: "jsonStep list \<Rightarrow> jsonVal \<Rightarrow> jsonVal option" where
  "valueAt [] v = Some v"
| "valueAt (Member k # p) (JObj members) = (case map_of members k of None \<Rightarrow> None | Some v \<Rightarrow> valueAt p v)"
| "valueAt (Item i # p) (JArr items) = (if i < length items then valueAt p (items ! i) else None)"
| "valueAt _ _ = None"

text \<open>A path on which no name is sensitive.\<close>

definition exposed :: "jsonStep list \<Rightarrow> bool" where
  "exposed p \<longleftrightarrow> (\<forall>k. Member k \<in> set p \<longrightarrow> \<not> isSensitiveLogKey k)"

text \<open>The same value at the top: an object with the same names in the same order, an array of the same
  length, or the very same number, text, truth value or null.\<close>

fun sameTop :: "jsonVal \<Rightarrow> jsonVal \<Rightarrow> bool" where
  "sameTop (JObj ms) (JObj ns) = (map fst ms = map fst ns)"
| "sameTop (JArr xs) (JArr ys) = (length xs = length ys)"
| "sameTop (JObj _) _ = False"
| "sameTop (JArr _) _ = False"
| "sameTop v w = (v = w)"

lemma marker_clean [simp]: "\<not> isSensitiveLogString logRedactedValue"
  by code_simp

lemma empty_key [simp]: "\<not> isSensitiveLogKey []"
  by code_simp

lemma redact_sensitive: "isSensitiveLogKey k \<Longrightarrow> redactLogValue k v = JStr logRedactedValue"
  by (cases v) simp_all

lemma redact_clean: "clean (redactLogValue key v)"
proof (induction key v rule: redactLogValue.induct)
  case (1 key members)
  then show ?case by (auto simp: list_all_iff redact_sensitive)
next
  case (2 key items)
  then show ?case by (auto simp: list_all_iff)
qed simp_all

lemma redact_fixed: "clean v \<Longrightarrow> \<not> isSensitiveLogKey key \<Longrightarrow> redactLogValue key v = v"
proof (induction key v rule: redactLogValue.induct)
  case (1 key members)
  have "(case m of (k, v) \<Rightarrow> (k, redactLogValue k v)) = m" if m: "m \<in> set members" for m
  proof -
    obtain k v where kv: "m = (k, v)" by (cases m)
    have c: "isSensitiveLogKey k \<longrightarrow> v = JStr logRedactedValue" "clean v"
      using 1 m kv by (auto simp: list_all_iff)
    show ?thesis
    proof (cases "isSensitiveLogKey k")
      case True
      then show ?thesis using c kv by (simp add: redact_sensitive)
    next
      case False
      then show ?thesis using "1.IH" [OF "1.prems"(2) m kv [symmetric]] c kv by simp
    qed
  qed
  then show ?case using 1 by (simp add: map_idI)
next
  case (2 key items)
  then show ?case by (auto simp: list_all_iff intro!: map_idI)
qed simp_all

lemma map_of_redact:
  "map_of (map (\<lambda>(k, v). (k, redactLogValue k v)) ms) k = map_option (redactLogValue k) (map_of ms k)"
  by (induction ms) auto

lemma sameTop_redact:
  "\<not> isSensitiveLogKey key \<Longrightarrow> (\<forall>s. v = JStr s \<longrightarrow> \<not> isSensitiveLogString s) \<Longrightarrow> sameTop v (redactLogValue key v)"
  by (cases v) (auto simp: comp_def split_def)

text \<open>Along an exposed path masking goes down with the value.\<close>
lemma valueAt_redact:
  assumes "exposed p" "\<not> isSensitiveLogKey key"
  shows "\<exists>k. \<not> isSensitiveLogKey k \<and> valueAt p (redactLogValue key v) = map_option (redactLogValue k) (valueAt p v)"
  using assms
proof (induction p v arbitrary: key rule: valueAt.induct)
  case (2 k p members)
  have rest: "\<not> isSensitiveLogKey k" "exposed p" using 2(2) by (simp_all add: exposed_def)
  show ?case
  proof (cases "map_of members k")
    case None
    then show ?thesis using 2(3) by (auto simp: map_of_redact)
  next
    case (Some u)
    then show ?thesis using 2(1) [OF Some rest(2,1)] 2(3) by (simp add: map_of_redact)
  qed
next
  case (3 i p items)
  have rest: "exposed p" using 3(2) by (simp add: exposed_def)
  show ?case
  proof (cases "i < length items")
    case True
    then show ?thesis using 3(1) [OF True rest empty_key] 3(3) by simp
  qed (use 3(3) in auto)
qed auto

text \<open>C10.
  No secret of a JSON body is logged, and nothing else is lost.  After masking, no string at any depth
  looks like a credential or a connection string, and every member with a sensitive name, of an
  object, array or number as well, holds the mask.  At every path on which no name is sensitive the
  masked body has a value exactly when the original has one: the mask if it is a string that looks
  sensitive, otherwise the same scalar, an object with the same names (so with the masked members too) or
  an array of the same length.  Masking twice is masking once.\<close>
theorem redact_complete:
  "clean (redactLogValue [] v)
   \<and> (\<forall>p. exposed p \<longrightarrow> (case valueAt p v of
        None \<Rightarrow> valueAt p (redactLogValue [] v) = None
      | Some u \<Rightarrow> (\<exists>u'. valueAt p (redactLogValue [] v) = Some u'
          \<and> (if \<exists>s. u = JStr s \<and> isSensitiveLogString s then u' = JStr logRedactedValue else sameTop u u'))))
   \<and> redactLogValue [] (redactLogValue [] v) = redactLogValue [] v"
proof (intro conjI allI impI)
  fix p assume p: "exposed p"
  obtain k where k: "\<not> isSensitiveLogKey k" and at: "valueAt p (redactLogValue [] v) = map_option (redactLogValue k) (valueAt p v)"
    using valueAt_redact [OF p empty_key] by blast
  have "if \<exists>s. u = JStr s \<and> isSensitiveLogString s then redactLogValue k u = JStr logRedactedValue else sameTop u (redactLogValue k u)" for u
    using sameTop_redact [OF k, of u] by auto
  then show "case valueAt p v of
        None \<Rightarrow> valueAt p (redactLogValue [] v) = None
      | Some u \<Rightarrow> (\<exists>u'. valueAt p (redactLogValue [] v) = Some u'
          \<and> (if \<exists>s. u = JStr s \<and> isSensitiveLogString s then u' = JStr logRedactedValue else sameTop u u'))"
    unfolding at by (cases "valueAt p v") (simp_all only: option.map option.case option.inject simp_thms ex_simps, blast)
qed (simp_all add: redact_clean redact_fixed)

text \<open>A secret next to a name: the one is masked, the other is still there.\<close>
theorem redact_complete_witness:
  "valueAt [Member ''user'', Member ''name''] (redactLogValue [] (JObj [(''user'', JObj [(''name'', JStr ''x''), (''Access-Token'', JArr [JNum ''1''])])]))
     = Some (JStr ''x'')
   \<and> clean (redactLogValue [] (JObj [(''user'', JObj [(''name'', JStr ''x''), (''Access-Token'', JArr [JNum ''1''])])]))"
proof -
  let ?v = "JObj [(''user'', JObj [(''name'', JStr ''x''), (''Access-Token'', JArr [JNum ''1''])])]"
    and ?p = "[Member ''user'', Member ''name'']"
  have k: "\<not> isSensitiveLogKey ''user''" "\<not> isSensitiveLogKey ''name''" "\<not> isSensitiveLogString ''x''" by code_simp+
  then have "exposed ?p" by (simp add: exposed_def)
  moreover have "valueAt ?p ?v = Some (JStr ''x'')" by simp
  ultimately have "\<exists>u'. valueAt ?p (redactLogValue [] ?v) = Some u' \<and> sameTop (JStr ''x'') u'"
    using redact_complete [of ?v] k(3) by fastforce
  then show ?thesis using redact_complete [of ?v] by auto
qed

end
