(* ===== verification/ResponseLog.thy ===== *)
theory ResponseLog
  imports Proto Redact
begin

text \<open>
  Model of \<open>server/middleware/logging/response_log.go\<close>: what of a response is logged.  A protobuf
  message is that of \<open>Proto\<close>; its encoding and the fallbacks for values that have none are
  parameters.
\<close>

section \<open>Limits and results\<close>

definition RESPONSE_LOG_BYTE_LIMIT :: nat where "RESPONSE_LOG_BYTE_LIMIT = 32 * 1024"
definition RESPONSE_LIST_ITEM_LIMIT :: nat where "RESPONSE_LIST_ITEM_LIMIT = 20"
definition RESPONSE_NODE_COUNT_LIMIT :: nat where "RESPONSE_NODE_COUNT_LIMIT = 100"
definition RESPONSE_TREE_DEPTH_LIMIT :: nat where "RESPONSE_TREE_DEPTH_LIMIT = 5"
definition RESPONSE_REASON_COLLECTION :: string where "RESPONSE_REASON_COLLECTION = ''large_collection_response''"
definition RESPONSE_REASON_PAYLOAD :: string where "RESPONSE_REASON_PAYLOAD = ''large_payload_response''"

record collectionHit =
  ht_path :: string
  ht_kind :: string
  ht_topLevelCount :: nat
  ht_totalNodeCount :: nat
  ht_maxDepth :: nat

record collectionStats =
  cs_topLevelCount :: nat
  cs_totalNodeCount :: nat
  cs_maxDepth :: nat

record responseLogSummary =
  sm_truncated :: bool
  sm_reason :: string
  sm_field :: string
  sm_kind :: string
  sm_topLevelCount :: nat
  sm_totalNodeCount :: nat
  sm_maxDepth :: nat
  sm_byteSize :: nat

definition joinCollectionFieldPath :: "string \<Rightarrow> string \<Rightarrow> string" where
  "joinCollectionFieldPath parentPath fieldName = (if parentPath = [] then fieldName else parentPath @ ''.'' @ fieldName)"

section \<open>Node statistics\<close>

text \<open>Statistics of the collections of a part: its nodes and the greatest depth reached.  An empty
  list and a value that is no message count for nothing.\<close>

definition addStats :: "collectionStats \<Rightarrow> collectionStats \<Rightarrow> collectionStats" where
  "addStats child stats = stats\<lparr>cs_totalNodeCount := cs_totalNodeCount stats + cs_totalNodeCount child,
     cs_maxDepth := max (cs_maxDepth stats) (cs_maxDepth child)\<rparr>"

definition noStats :: "nat \<Rightarrow> collectionStats" where
  "noStats depth = \<lparr>cs_topLevelCount = 0, cs_totalNodeCount = 0, cs_maxDepth = depth\<rparr>"

fun collectDescendantStats :: "pmsg \<Rightarrow> nat \<Rightarrow> collectionStats"
  and collectFieldsStats :: "pfield list \<Rightarrow> nat \<Rightarrow> collectionStats"
  and collectFieldStats :: "pval \<Rightarrow> nat \<Rightarrow> collectionStats"
  and collectListStats :: "pmsg list \<Rightarrow> nat \<Rightarrow> collectionStats"
  and collectMapStats :: "pentry list \<Rightarrow> nat \<Rightarrow> collectionStats" where
  "collectDescendantStats (PMsg n v fs) depth = collectFieldsStats fs depth"
| "collectFieldsStats [] depth = noStats depth"
| "collectFieldsStats (PField n j x # fs) depth = addStats (collectFieldStats x depth) (collectFieldsStats fs depth)"
| "collectFieldStats (PMsgList MessageKind ms) depth = (if ms = [] then noStats depth else collectListStats ms (depth + 1))"
| "collectFieldStats (PMsgMap es) depth = collectMapStats es depth"
| "collectFieldStats (PSingle MessageKind (Some m)) depth = collectDescendantStats m depth"
| "collectFieldStats _ depth = noStats depth"
| "collectListStats [] depth = noStats depth"
| "collectListStats (m # ms) depth = addStats
     (addStats (collectDescendantStats m depth) \<lparr>cs_topLevelCount = 0, cs_totalNodeCount = 1, cs_maxDepth = depth\<rparr>)
     (collectListStats ms depth)"
| "collectMapStats [] depth = noStats depth"
| "collectMapStats (PEntry k m # es) depth = addStats (collectDescendantStats m depth) (collectMapStats es depth)"

text \<open>\<open>collectMessageListStats\<close> records the length of the list as well.\<close>

definition collectMessageListStats :: "pmsg list \<Rightarrow> nat \<Rightarrow> collectionStats" where
  "collectMessageListStats ms depth = (collectListStats ms depth)\<lparr>cs_topLevelCount := length ms\<rparr>"

section \<open>The search\<close>

definition listHit :: "string \<Rightarrow> nat \<Rightarrow> collectionHit" where
  "listHit path n = \<lparr>ht_path = path, ht_kind = ''list'', ht_topLevelCount = n, ht_totalNodeCount = n, ht_maxDepth = 1\<rparr>"

definition treeHit :: "string \<Rightarrow> collectionStats \<Rightarrow> collectionHit" where
  "treeHit path s = \<lparr>ht_path = path, ht_kind = ''tree'', ht_topLevelCount = cs_topLevelCount s,
     ht_totalNodeCount = cs_totalNodeCount s, ht_maxDepth = cs_maxDepth s\<rparr>"

definition tooLarge :: "collectionStats \<Rightarrow> bool" where
  "tooLarge s \<longleftrightarrow> RESPONSE_NODE_COUNT_LIMIT < cs_totalNodeCount s \<or> RESPONSE_TREE_DEPTH_LIMIT < cs_maxDepth s"

fun findLargeCollectionInMessage :: "pmsg \<Rightarrow> string \<Rightarrow> collectionHit option"
  and findLargeInFields :: "pfield list \<Rightarrow> string \<Rightarrow> collectionHit option"
  and findLargeInField :: "pval \<Rightarrow> string \<Rightarrow> collectionHit option"
  and findLargeInList :: "pmsg list \<Rightarrow> string \<Rightarrow> collectionHit option"
  and findLargeCollectionInMap :: "pentry list \<Rightarrow> string \<Rightarrow> collectionHit option" where
  "findLargeCollectionInMessage (PMsg n v fs) parentPath = findLargeInFields fs parentPath"
| "findLargeInFields [] parentPath = None"
| "findLargeInFields (PField n j x # fs) parentPath =
     (case findLargeInField x (joinCollectionFieldPath parentPath j) of
        Some hit \<Rightarrow> Some hit
      | None \<Rightarrow> findLargeInFields fs parentPath)"
| "findLargeInField (PMsgList MessageKind ms) path =
     (if ms = [] then None
      else if length ms > RESPONSE_LIST_ITEM_LIMIT then Some (listHit path (length ms))
      else if tooLarge (collectMessageListStats ms 1) then Some (treeHit path (collectMessageListStats ms 1))
      else findLargeInList ms path)"
| "findLargeInField (PMsgList GroupKind ms) path =
     (if length ms > RESPONSE_LIST_ITEM_LIMIT then Some (listHit path (length ms)) else None)"
| "findLargeInField (PScalarList i n) path =
     (if n > RESPONSE_LIST_ITEM_LIMIT then Some (listHit path n) else None)"
| "findLargeInField (PMsgMap es) path = findLargeCollectionInMap es path"
| "findLargeInField (PSingle MessageKind (Some m)) path = findLargeCollectionInMessage m path"
| "findLargeInField _ path = None"
| "findLargeInList [] path = None"
| "findLargeInList (m # ms) path = (case findLargeCollectionInMessage m path of
      Some hit \<Rightarrow> Some hit | None \<Rightarrow> findLargeInList ms path)"
| "findLargeCollectionInMap [] path = None"
| "findLargeCollectionInMap (PEntry k m # es) path =
     (case findLargeCollectionInMessage m (joinCollectionFieldPath path k) of
        Some hit \<Rightarrow> Some hit | None \<Rightarrow> findLargeCollectionInMap es path)"

section \<open>The logged text\<close>

text \<open>A reply is nil, a message with its encoding, or another value with its encoding; where there is no
  encoding the text of its \<open>Redact\<close> or \<open>String\<close> method, or its Go syntax, is the fallback.\<close>

datatype reply = NilReply | ProtoReply pmsg "string option" string | OtherReply "string option" string

definition marshalResponseBody :: "reply \<Rightarrow> string option" where
  "marshalResponseBody r = (case r of NilReply \<Rightarrow> Some ''null'' | ProtoReply m body f \<Rightarrow> body | OtherReply body f \<Rightarrow> body)"

definition marshalResponseSummary :: "(responseLogSummary \<Rightarrow> string option) \<Rightarrow> responseLogSummary \<Rightarrow> string" where
  "marshalResponseSummary encode s = (case encode s of
      None \<Rightarrow> ''{\"truncated\":true,\"reason\":\"response_summary_marshal_failed\"}'' | Some body \<Rightarrow> body)"

definition hitSummary :: "collectionHit \<Rightarrow> nat \<Rightarrow> responseLogSummary" where
  "hitSummary hit n = \<lparr>sm_truncated = True, sm_reason = RESPONSE_REASON_COLLECTION, sm_field = ht_path hit,
     sm_kind = ht_kind hit, sm_topLevelCount = ht_topLevelCount hit, sm_totalNodeCount = ht_totalNodeCount hit,
     sm_maxDepth = ht_maxDepth hit, sm_byteSize = n\<rparr>"

definition payloadSummary :: "nat \<Rightarrow> responseLogSummary" where
  "payloadSummary n = \<lparr>sm_truncated = True, sm_reason = RESPONSE_REASON_PAYLOAD, sm_field = [], sm_kind = [],
     sm_topLevelCount = 0, sm_totalNodeCount = 0, sm_maxDepth = 0, sm_byteSize = n\<rparr>"

definition marshalFallbackText :: "(string \<Rightarrow> string option) \<Rightarrow> string \<Rightarrow> string" where
  "marshalFallbackText quote text = (case quote text of None \<Rightarrow> text | Some t \<Rightarrow> t)"

definition extractResponse ::
  "(responseLogSummary \<Rightarrow> string option) \<Rightarrow> (string \<Rightarrow> string option) \<Rightarrow> (string \<Rightarrow> jsonVal option) \<Rightarrow> (jsonVal \<Rightarrow> string option)
    \<Rightarrow> reply \<Rightarrow> string" where
  "extractResponse encodeSummary quote decode encode r = (case marshalResponseBody r of
      Some body \<Rightarrow>
        (case (case r of ProtoReply m _ _ \<Rightarrow> findLargeCollectionInMessage m [] | _ \<Rightarrow> None) of
           Some hit \<Rightarrow> marshalResponseSummary encodeSummary (hitSummary hit (length body))
         | None \<Rightarrow>
             if length body > RESPONSE_LOG_BYTE_LIMIT then marshalResponseSummary encodeSummary (payloadSummary (length body))
             else redactLogJSON decode encode body)
    | None \<Rightarrow> marshalFallbackText quote (case r of NilReply \<Rightarrow> [] | ProtoReply _ _ f \<Rightarrow> f | OtherReply _ f \<Rightarrow> f))"

section \<open>A message without a hit is small\<close>

text \<open>The collections of a message and of everything the search reaches from it: lists of messages and
  of scalars, with their statistics.\<close>

fun listsOf :: "pmsg \<Rightarrow> (nat \<times> collectionStats option) list"
  and listsOfFields :: "pfield list \<Rightarrow> (nat \<times> collectionStats option) list"
  and listsOfField :: "pval \<Rightarrow> (nat \<times> collectionStats option) list"
  and listsOfMsgs :: "pmsg list \<Rightarrow> (nat \<times> collectionStats option) list"
  and listsOfEntries :: "pentry list \<Rightarrow> (nat \<times> collectionStats option) list" where
  "listsOf (PMsg n v fs) = listsOfFields fs"
| "listsOfFields [] = []"
| "listsOfFields (PField n j x # fs) = listsOfField x @ listsOfFields fs"
| "listsOfField (PMsgList MessageKind ms) = (length ms, Some (collectMessageListStats ms 1)) # listsOfMsgs ms"
| "listsOfField (PMsgList GroupKind ms) = [(length ms, None)]"
| "listsOfField (PScalarList i n) = [(n, None)]"
| "listsOfField (PMsgMap es) = listsOfEntries es"
| "listsOfField (PSingle MessageKind (Some m)) = listsOf m"
| "listsOfField _ = []"
| "listsOfMsgs [] = []"
| "listsOfMsgs (m # ms) = listsOf m @ listsOfMsgs ms"
| "listsOfEntries [] = []"
| "listsOfEntries (PEntry k m # es) = listsOf m @ listsOfEntries es"

definition smallList :: "nat \<times> collectionStats option \<Rightarrow> bool" where
  "smallList x = (fst x \<le> RESPONSE_LIST_ITEM_LIMIT \<and> (case snd x of None \<Rightarrow> True | Some s \<Rightarrow> \<not> tooLarge s))"

lemma smallList_simps [simp]:
  "smallList (n, None) \<longleftrightarrow> n \<le> RESPONSE_LIST_ITEM_LIMIT"
  "smallList (n, Some st) \<longleftrightarrow> n \<le> RESPONSE_LIST_ITEM_LIMIT \<and> \<not> tooLarge st"
  by (simp_all add: smallList_def)

lemma no_stats_small: "\<not> tooLarge (collectMessageListStats [] 1)"
  by (simp add: tooLarge_def collectMessageListStats_def noStats_def RESPONSE_NODE_COUNT_LIMIT_def RESPONSE_TREE_DEPTH_LIMIT_def)

lemma findLarge_None:
  "findLargeCollectionInMessage m p = None \<longleftrightarrow> list_all smallList (listsOf m)"
  "findLargeInFields fs p = None \<longleftrightarrow> list_all smallList (listsOfFields fs)"
  "findLargeInField x p = None \<longleftrightarrow> list_all smallList (listsOfField x)"
  "findLargeInList ms p = None \<longleftrightarrow> list_all smallList (listsOfMsgs ms)"
  "findLargeCollectionInMap es p = None \<longleftrightarrow> list_all smallList (listsOfEntries es)"
proof (induction m p and fs p and x p and ms p and es p
    rule: findLargeCollectionInMessage_findLargeInFields_findLargeInField_findLargeInList_findLargeCollectionInMap.induct)
  case (4 ms path)
  then show ?case using no_stats_small by auto
qed (auto split: option.splits)

text \<open>A response that is logged in full is small: its encoding has at most 32 KiB, and every collection
  the search reaches has at most twenty items, one hundred nodes and five levels.\<close>

lemma extractResponse_full:
  assumes "marshalResponseBody r = Some body" "\<forall>m b f. r = ProtoReply m b f \<longrightarrow> list_all smallList (listsOf m)"
    and "length body \<le> RESPONSE_LOG_BYTE_LIMIT"
  shows "extractResponse encodeSummary quote decode encode r = redactLogJSON decode encode body"
proof -
  have "findLargeCollectionInMessage m [] = None" if "r = ProtoReply m b f" for m b f
    using assms(2) that findLarge_None(1) by blast
  then have "(case r of ProtoReply m _ _ \<Rightarrow> findLargeCollectionInMessage m [] | _ \<Rightarrow> None) = None"
    by (cases r) auto
  then show ?thesis using assms(1,3) by (simp add: extractResponse_def)
qed

lemma extractResponse_summary:
  assumes "r = ProtoReply m (Some body) f" "\<not> list_all smallList (listsOf m)"
  shows "\<exists>hit. findLargeCollectionInMessage m [] = Some hit
     \<and> extractResponse encodeSummary quote decode encode r = marshalResponseSummary encodeSummary (hitSummary hit (length body))"
proof -
  obtain hit where "findLargeCollectionInMessage m [] = Some hit"
    using assms(2) findLarge_None(1) [of m "[]"] by (cases "findLargeCollectionInMessage m []") auto
  then show ?thesis using assms(1) by (simp add: extractResponse_def marshalResponseBody_def)
qed

end
