(* ===== verification/AccessLog.thy ===== *)
theory AccessLog
  imports RequestMeta ResponseLog
begin

text \<open>
  Model of \<open>server/middleware/logging/logging.go\<close> and \<open>utils.go\<close>: the access log event of a request,
  the address and the identifier it is logged under, and the single line on the console.
  The token parser, \<open>net.ParseIP\<close>, \<open>net.SplitHostPort\<close>, the address database, the clock, the JSON
  encodings of requests and the rendering of errors are parameters.
\<close>

section \<open>Headers\<close>

definition HEADER_KEY_USER_AGENT :: string where "HEADER_KEY_USER_AGENT = ''User-Agent''"
definition HEADER_KEY_AUTHORIZATION :: string where "HEADER_KEY_AUTHORIZATION = ''Authorization''"
definition HEADER_KEY_X_REQUEST_ID :: string where "HEADER_KEY_X_REQUEST_ID = ''X-Request-id''"
definition HEADER_KEY_X_FC_REQUEST_ID :: string where "HEADER_KEY_X_FC_REQUEST_ID = ''x-fc-request-id''"
definition HEADER_KEY_X_CORRELATION_ID :: string where "HEADER_KEY_X_CORRELATION_ID = ''X-Correlation-ID''"
definition HEADER_KEY_X_FORWARDED_FOR :: string where "HEADER_KEY_X_FORWARDED_FOR = ''X-Forwarded-For''"
definition HEADER_KEY_X_REAL_IP :: string where "HEADER_KEY_X_REAL_IP = ''X-Real-IP''"
definition HEADER_KEY_X_CLIENT_IP :: string where "HEADER_KEY_X_CLIENT_IP = ''X-Client-IP''"

section \<open>Who and where\<close>

record tokenUser =
  tu_tenantId :: int64
  tu_tenantCode :: string
  tu_userId :: int64
  tu_userName :: string

text \<open>\<open>payload\<close> authenticates a token and reads its user, if both succeed.\<close>

definition extractAuthToken :: "(string \<Rightarrow> tokenUser option) \<Rightarrow> string \<Rightarrow> tokenUser option" where
  "extractAuthToken payload authToken =
     (if length authToken = 0 then None else payload (trim_prefix authToken ''Bearer ''))"

definition getIPFromRemoteAddr :: "(string \<Rightarrow> bool) \<Rightarrow> (string \<Rightarrow> string option) \<Rightarrow> string \<Rightarrow> string" where
  "getIPFromRemoteAddr isIP splitHostPort hostAddress =
     (case (if CHR '':'' \<in> set hostAddress then splitHostPort hostAddress else None) of
        Some host \<Rightarrow> if isIP host then host else if isIP hostAddress then hostAddress else []
      | None \<Rightarrow> if isIP hostAddress then hostAddress else [])"

definition getClientRealIP :: "(string \<Rightarrow> bool) \<Rightarrow> (string \<Rightarrow> string option) \<Rightarrow> httpRequest option \<Rightarrow> string" where
  "getClientRealIP isIP splitHostPort request = (case request of None \<Rightarrow> []
    | Some r \<Rightarrow>
       (let xff = hr_header r HEADER_KEY_X_FORWARDED_FOR;
            forwarded = (if xff = [] then None else List.find isIP (split_char (CHR '','') xff));
            xri = hr_header r HEADER_KEY_X_REAL_IP;
            xci = hr_header r HEADER_KEY_X_CLIENT_IP in
        case forwarded of Some ip \<Rightarrow> ip
        | None \<Rightarrow> if xri \<noteq> [] \<and> isIP xri then xri
            else if xci \<noteq> [] \<and> isIP xci then xci
            else getIPFromRemoteAddr isIP splitHostPort (hr_remoteAddr r)))"

definition getRequestID :: "reqCtx \<Rightarrow> httpRequest option \<Rightarrow> string" where
  "getRequestID ctx request = (if RequestID ctx \<noteq> [] then RequestID ctx
     else (case request of None \<Rightarrow> []
       | Some r \<Rightarrow> firstNonEmpty (map (hr_header r)
           [HEADER_KEY_X_REQUEST_ID, HEADER_KEY_X_CORRELATION_ID, HEADER_KEY_X_FC_REQUEST_ID])))"

text \<open>The city of an address; \<open>intranet\<close> is the text for a private one.\<close>

definition clientIPToLocation :: "(string \<Rightarrow> bool) \<Rightarrow> (string \<Rightarrow> string option) \<Rightarrow> string \<Rightarrow> string \<Rightarrow> string" where
  "clientIPToLocation isPrivate query intranet ip = (if ip = [] then []
     else if isPrivate ip then intranet
     else (case query ip of None \<Rightarrow> [] | Some city \<Rightarrow> city))"

section \<open>Requests as text\<close>

text \<open>A request is nil, or a value with its JSON encoding (by protojson for a message) and the text of
  its \<open>Redact\<close> or \<open>String\<close> method or Go syntax.\<close>

datatype request = NilRequest | Request "string option" string

definition marshalRequestBody :: "request \<Rightarrow> string option" where
  "marshalRequestBody req = (case req of NilRequest \<Rightarrow> Some ''{}'' | Request body _ \<Rightarrow> body)"

definition extractArgs :: "(string \<Rightarrow> string option) \<Rightarrow> (string \<Rightarrow> jsonVal option) \<Rightarrow> (jsonVal \<Rightarrow> string option) \<Rightarrow> request \<Rightarrow> string" where
  "extractArgs quote decode encode req = (case marshalRequestBody req of
      Some body \<Rightarrow> redactLogJSON decode encode body
    | None \<Rightarrow> marshalFallbackText quote (case req of NilRequest \<Rightarrow> [] | Request _ f \<Rightarrow> f))"

text \<open>\<open>strings.ReplaceAll\<close> of a carriage return with line feed, then of each alone.\<close>

fun replace_crlf :: "string \<Rightarrow> string" where
  "replace_crlf (a # b # s) = (if a = CHR 0x0D \<and> b = CHR 0x0A then CHR '' '' # replace_crlf s else a # replace_crlf (b # s))"
| "replace_crlf s = s"

definition normalizeLogField :: "string \<Rightarrow> string" where
  "normalizeLogField value = (if value = [] then ''-''
     else join_str '' '' (str_fields (replace_char (CHR 0x0D) '' '' (replace_char (CHR 0x0A) '' '' (replace_crlf value)))))"

section \<open>The middleware\<close>

text \<open>What the middleware is given besides the request: clock, cost of the call, and the libraries.\<close>

record logEnvironment =
  lg_startTime :: goTime
  lg_costTime :: int64
  lg_payload :: "string \<Rightarrow> tokenUser option"
  lg_isIP :: "string \<Rightarrow> bool"
  lg_splitHostPort :: "string \<Rightarrow> string option"
  lg_quote :: "string \<Rightarrow> string option"
  lg_decode :: "string \<Rightarrow> jsonVal option"
  lg_encode :: "jsonVal \<Rightarrow> string option"

text \<open>An error as \<open>errors.FromError\<close> shows it, with its rendering by \<open>%+v\<close>.\<close>

record kratosError =
  kx_code :: int32
  kx_reason :: string
  kx_stack :: string

definition operationFileService :: string where
  "operationFileService = ''/base.v1.FileService/''"

definition requestEvent :: "logEnvironment \<Rightarrow> reqCtx \<Rightarrow> request \<Rightarrow> LogEvent" where
  "requestEvent env ctx req =
     (let event = emptyEvent\<lparr>ev_requestTime := lg_startTime env, ev_statusCode := 200\<rparr> in
      case rc_transport ctx of None \<Rightarrow> event
      | Some t \<Rightarrow> (let event = event\<lparr>ev_operation := tp_operation t\<rparr> in
          case tp_request t of None \<Rightarrow> event
          | Some r \<Rightarrow>
             (let event = event\<lparr>ev_requestID := getRequestID ctx (Some r), ev_traceID := TraceID ctx\<rparr>;
                  event = (if \<not> has_prefix (tp_operation t) operationFileService
                    then event\<lparr>ev_requestBody := extractArgs (lg_quote env) (lg_decode env) (lg_encode env) req\<rparr> else event);
                  event = event\<lparr>ev_method := hr_method r, ev_path := tp_pathTemplate t,
                    ev_clientIP := getClientRealIP (lg_isIP env) (lg_splitHostPort env) (Some r)\<rparr>;
                  event = (case extractAuthToken (lg_payload env) (tp_header t HEADER_KEY_AUTHORIZATION) of
                      None \<Rightarrow> event
                    | Some u \<Rightarrow> event\<lparr>ev_tenantID := tu_tenantId u, ev_tenantCode := tu_tenantCode u,
                        ev_userID := tu_userId u, ev_userName := tu_userName u\<rparr>)
              in event\<lparr>ev_userAgent := tp_header t HEADER_KEY_USER_AGENT\<rparr>)))"

definition outcomeEvent :: "logEnvironment \<Rightarrow> kratosError option \<Rightarrow> LogEvent \<Rightarrow> LogEvent" where
  "outcomeEvent env err event =
     (let event = event\<lparr>ev_isSuccess := (err = None)\<rparr>;
          event = (case err of None \<Rightarrow> event
            | Some e \<Rightarrow> event\<lparr>ev_statusCode := kx_code e, ev_reasonCode := kx_reason e, ev_reason := kx_reason e\<rparr>);
          event = event\<lparr>ev_costTime := lg_costTime env\<rparr>
      in (case err of None \<Rightarrow> event
        | Some e \<Rightarrow> if length (kx_stack e) > 0
            then event\<lparr>ev_reason := ''['' @ ev_reason event @ '']'' @ kx_stack e\<rparr> else event))"

definition logLine :: "(int32 \<Rightarrow> string) \<Rightarrow> (int64 \<Rightarrow> string) \<Rightarrow> LogEvent \<Rightarrow> string" where
  "logLine showCode showCost event =
     ''operation='' @ normalizeLogField (ev_operation event) @ '' method='' @ normalizeLogField (ev_method event)
     @ '' path='' @ normalizeLogField (ev_path event) @ '' args='' @ normalizeLogField (ev_requestBody event)
     @ '' code='' @ showCode (ev_statusCode event) @ '' latency='' @ showCost (ev_costTime event) @ ''ms''"

text \<open>The reply of the handler, the event emitted for it, the line and whether it is an error line.\<close>

definition logServer ::
  "logEnvironment \<Rightarrow> (int32 \<Rightarrow> string) \<Rightarrow> (int64 \<Rightarrow> string) \<Rightarrow> (reqCtx \<Rightarrow> request \<Rightarrow> 'r \<times> kratosError option)
    \<Rightarrow> reqCtx \<Rightarrow> request \<Rightarrow> ('r \<times> kratosError option) \<times> LogEvent \<times> string \<times> bool" where
  "logServer env showCode showCost handler ctx req =
     (case handler ctx req of (reply, err) \<Rightarrow>
        let event = outcomeEvent env err (requestEvent env ctx req)
        in ((reply, err), event, logLine showCode showCost event, err \<noteq> None))"

section \<open>One line per request\<close>

lemma fields_no_space: "f \<in> set (fields_acc w s) \<Longrightarrow> \<forall>c\<in>set w. \<not> is_space c \<Longrightarrow> \<forall>c\<in>set f. \<not> is_space c"
  by (induction w s rule: fields_acc.induct) (auto split: if_splits)

lemma str_fields_no_space: "f \<in> set (str_fields s) \<Longrightarrow> \<forall>c\<in>set f. \<not> is_space c"
  unfolding str_fields_def by (rule fields_no_space) auto

lemma set_join_str: "set (join_str sep xs) \<subseteq> set sep \<union> (\<Union>x\<in>set xs. set x)"
  by (induction sep xs rule: join_str.induct) auto

lemma normalizeLogField_line: "CHR 0x0A \<notin> set (normalizeLogField v) \<and> CHR 0x0D \<notin> set (normalizeLogField v)"
proof (cases "v = []")
  case False
  have "is_space (CHR 0x0A)" "is_space (CHR 0x0D)" by code_simp+
  moreover have "c = CHR '' '' \<or> \<not> is_space c" if "c \<in> set (normalizeLogField v)" for c
    using that False set_join_str str_fields_no_space unfolding normalizeLogField_def by fastforce
  ultimately show ?thesis by fastforce
qed (simp add: normalizeLogField_def)

end
