(* ===== verification/Auth.thy ===== *)
theory Auth
  imports RequestMeta
begin

text \<open>
  Model of \<open>server/middleware/auth.go\<close>: the authentication and authorization chain, its
  white lists, the checks on claims and tokens, and the audit of every policy evaluation.
  A middleware maps handlers to handlers; the ones of kratos-kit are parameters with the laws
  \<open>authnLaws\<close> and \<open>authzLaws\<close>.  A regular expression is the parameter \<open>compile\<close>: it gives no
  matcher when it does not compile, and a matcher gives the leftmost match of a text, if any.
\<close>

datatype authErr =
  ErrWrongContext | ErrExtractTenantFailed | ErrExtractSubjectFailed | ErrExtractUserInfoFailed
| ErrAccessTokenExpired | ErrAccessTokenNotExist | ErrUnauthorized | OtherAuthErr string

datatype authnErr = ErrMissingBearerToken | ErrTokenExpired | OtherAuthnErr string

type_synonym ('q, 'r) handler = "reqCtx \<Rightarrow> 'q \<Rightarrow> (authErr, 'r) result"
type_synonym isAuthorized = "reqCtx \<Rightarrow> string \<Rightarrow> string \<Rightarrow> string \<Rightarrow> string \<Rightarrow> (string, bool) result"

section \<open>White lists\<close>

record whiteList =
  wl_prefix :: "string list"
  wl_regex :: "string list"
  wl_path :: "string list"
  wl_match :: "string list"

record jwtConfig =
  jwt_optionalAuth :: "whiteList option"
  jwt_whiteList :: "whiteList option"

text \<open>\<open>regexp.FindString\<close> gives the empty string when nothing matches.\<close>

definition findString :: "(string \<Rightarrow> string option) \<Rightarrow> string \<Rightarrow> string" where
  "findString matcher s = (case matcher s of None \<Rightarrow> [] | Some m \<Rightarrow> m)"

definition matchWhiteList :: "(string \<Rightarrow> (string \<Rightarrow> string option) option) \<Rightarrow> whiteList option \<Rightarrow> string \<Rightarrow> bool" where
  "matchWhiteList compile wl operation = (case wl of None \<Rightarrow> False | Some w \<Rightarrow>
     if list_ex (has_prefix operation) (wl_prefix w) then True
     else if list_ex (\<lambda>r. case compile r of None \<Rightarrow> False | Some m \<Rightarrow> findString m operation = operation) (wl_regex w) then True
     else if operation \<in> set (wl_path w) then True
     else operation \<in> set (wl_match w))"

section \<open>Claims and tokens\<close>

definition fallbackAuthAction :: string where "fallbackAuthAction = ''ANY''"
definition BearerWord :: string where "BearerWord = ''Bearer''"

definition mapAuthnError :: "authnErr \<Rightarrow> authErr" where
  "mapAuthnError e = (case e of ErrMissingBearerToken \<Rightarrow> ErrAccessTokenNotExist
    | ErrTokenExpired \<Rightarrow> ErrAccessTokenExpired | OtherAuthnErr _ \<Rightarrow> ErrUnauthorized)"

definition requestAction :: "transportInfo \<Rightarrow> string" where
  "requestAction t =
     (let method = (case tp_request t of None \<Rightarrow> [] | Some r \<Rightarrow> hr_method r);
          method = (if method = [] then (case tp_method t of None \<Rightarrow> [] | Some m \<Rightarrow> m) else method);
          method = (if method = [] then fallbackAuthAction else method)
      in to_upper method)"

definition verifyAccessToken :: "(int64 \<Rightarrow> string \<Rightarrow> bool) \<Rightarrow> reqCtx \<Rightarrow> tokenClaims \<Rightarrow> authErr option" where
  "verifyAccessToken tokenValid ctx cl = (case tk_userID cl of
      None \<Rightarrow> Some ErrExtractUserInfoFailed
    | Some userID \<Rightarrow>
        if userID = 0 then None
        else (case rc_transport ctx of None \<Rightarrow> Some ErrWrongContext
          | Some t \<Rightarrow> (case str_fields (tp_header t ''Authorization'') of
              [word, token] \<Rightarrow> if equal_fold word BearerWord \<and> tokenValid userID token then None else Some ErrAccessTokenExpired
            | _ \<Rightarrow> Some ErrAccessTokenExpired)))"

definition authClaimsMiddleware :: "(int64 \<Rightarrow> string \<Rightarrow> bool) \<Rightarrow> ('q, 'r) handler \<Rightarrow> ('q, 'r) handler" where
  "authClaimsMiddleware tokenValid handler ctx req = (case rc_transport ctx of
      None \<Rightarrow> Inl ErrWrongContext
    | Some t \<Rightarrow> (case rc_claims ctx of
        None \<Rightarrow> Inl ErrWrongContext
      | Some cl \<Rightarrow> (case verifyAccessToken tokenValid ctx cl of
          Some e \<Rightarrow> Inl e
        | None \<Rightarrow>
            if stringOf (tk_tenantCode cl) = [] then Inl ErrExtractTenantFailed
            else if stringOf (tk_roleCode cl) = [] then Inl ErrExtractSubjectFailed
            else handler (ctx\<lparr>rc_authz := Some \<lparr>az_tenant = tk_tenantCode cl, az_subject = stringOf (tk_roleCode cl),
                   az_action = requestAction t, az_resource = tp_operation t\<rparr>\<rparr>) req)))"

section \<open>The audited engine\<close>

definition policyDecisionAllow :: int32 where "policyDecisionAllow = 1"
definition policyDecisionDeny :: int32 where "policyDecisionDeny = 2"
definition policyDecisionError :: int32 where "policyDecisionError = 3"

text \<open>The event of one evaluation; \<open>denied\<close> is the text shown for a refusal, \<open>splitHost\<close> is
  \<open>net.SplitHostPort\<close>.\<close>

definition policyEvent ::
  "string \<Rightarrow> (string \<Rightarrow> string option) \<Rightarrow> string \<Rightarrow> goTime \<Rightarrow> int32 \<Rightarrow> reqCtx \<Rightarrow> string \<Rightarrow> string \<Rightarrow> string \<Rightarrow> string
    \<Rightarrow> (string, bool) result \<Rightarrow> LogEvent" where
  "policyEvent engine splitHost denied startedAt durationMs ctx subject action resource project outcome =
     (let event = emptyEvent\<lparr>ev_kind := ''policy_evaluation'', ev_engine := engine, ev_evaluationType := 1,
            ev_requestID := RequestID ctx, ev_traceID := TraceID ctx, ev_resource := resource, ev_action := action,
            ev_project := project,
            ev_decision := (case outcome of Inl _ \<Rightarrow> policyDecisionError
              | Inr allowed \<Rightarrow> if allowed then policyDecisionAllow else policyDecisionDeny),
            ev_statusCode := (case outcome of Inl _ \<Rightarrow> 500 | Inr allowed \<Rightarrow> if allowed then 200 else 403),
            ev_isSuccess := (case outcome of Inl _ \<Rightarrow> False | Inr _ \<Rightarrow> True),
            ev_durationMs := durationMs, ev_requestTime := startedAt,
            ev_reasonCode := (case outcome of Inl _ \<Rightarrow> ''INTERNAL_ERROR''
              | Inr allowed \<Rightarrow> if allowed then [] else ''PERMISSION_DENIED''),
            ev_reason := (case outcome of Inl e \<Rightarrow> e | Inr allowed \<Rightarrow> if allowed then [] else denied),
            ev_roleCode := subject\<rparr>;
          event = (case rc_transport ctx of None \<Rightarrow> event
            | Some t \<Rightarrow> (let event = event\<lparr>ev_operation := tp_operation t\<rparr> in
                case tp_request t of None \<Rightarrow> event
                | Some r \<Rightarrow> event\<lparr>ev_method := hr_method r, ev_path := hr_path r,
                    ev_clientIP := (case splitHost (hr_remoteAddr r) of None \<Rightarrow> hr_remoteAddr r | Some host \<Rightarrow> host),
                    ev_userAgent := hr_userAgent r\<rparr>));
          event = (case rc_claims ctx of None \<Rightarrow> event
            | Some cl \<Rightarrow> event\<lparr>ev_userID := int64Of (tk_userID cl), ev_userName := stringOf (tk_subject cl),
                ev_tenantID := int64Of (tk_tenantID cl), ev_tenantCode := stringOf (tk_tenantCode cl),
                ev_roleID := int64Of (tk_roleID cl)\<rparr>)
      in (case rc_authz ctx of None \<Rightarrow> event
          | Some az \<Rightarrow> (case az_tenant az of None \<Rightarrow> event | Some tenant \<Rightarrow> event\<lparr>ev_tenantCode := tenant\<rparr>)))"

text \<open>One evaluation: the answer of the engine, and the event emitted for it.  Whether the event
  could be delivered is only logged.\<close>

definition auditedIsAuthorized ::
  "string \<Rightarrow> (string \<Rightarrow> string option) \<Rightarrow> string \<Rightarrow> goTime \<Rightarrow> int32 \<Rightarrow> isAuthorized
    \<Rightarrow> reqCtx \<Rightarrow> string \<Rightarrow> string \<Rightarrow> string \<Rightarrow> string \<Rightarrow> (string, bool) result \<times> LogEvent" where
  "auditedIsAuthorized engine splitHost denied startedAt durationMs isAuth ctx subject action resource project =
     (let outcome = isAuth ctx subject action resource project in
      (outcome, policyEvent engine splitHost denied startedAt durationMs ctx subject action resource project outcome))"

section \<open>The middleware\<close>

text \<open>\<open>authn\<close> and \<open>optionalAuth\<close> are the authentication middlewares and \<open>authz\<close> the authorization
  one; \<open>middleware.Chain\<close> runs the first middleware outermost.\<close>

definition fullAuth ::
  "((authnErr \<Rightarrow> authErr) \<Rightarrow> ('q, 'r) handler \<Rightarrow> ('q, 'r) handler) \<Rightarrow> (isAuthorized \<Rightarrow> ('q, 'r) handler \<Rightarrow> ('q, 'r) handler)
    \<Rightarrow> (int64 \<Rightarrow> string \<Rightarrow> bool) \<Rightarrow> isAuthorized \<Rightarrow> ('q, 'r) handler \<Rightarrow> ('q, 'r) handler" where
  "fullAuth authn authz tokenValid audited handler =
     authn mapAuthnError (authClaimsMiddleware tokenValid (authz audited handler))"

definition NewAuthMiddleware ::
  "((authnErr \<Rightarrow> authErr) \<Rightarrow> ('q, 'r) handler \<Rightarrow> ('q, 'r) handler) \<Rightarrow> (isAuthorized \<Rightarrow> ('q, 'r) handler \<Rightarrow> ('q, 'r) handler)
    \<Rightarrow> (('q, 'r) handler \<Rightarrow> ('q, 'r) handler) \<Rightarrow> (string \<Rightarrow> (string \<Rightarrow> string option) option)
    \<Rightarrow> (int64 \<Rightarrow> string \<Rightarrow> bool) \<Rightarrow> isAuthorized \<Rightarrow> jwtConfig \<Rightarrow> ('q, 'r) handler \<Rightarrow> ('q, 'r) handler" where
  "NewAuthMiddleware authn authz optionalAuth compile tokenValid audited cfg handler ctx req =
     (case rc_transport ctx of
        None \<Rightarrow> fullAuth authn authz tokenValid audited handler ctx req
      | Some t \<Rightarrow>
          if matchWhiteList compile (jwt_optionalAuth cfg) (tp_operation t) then optionalAuth handler ctx req
          else if matchWhiteList compile (jwt_whiteList cfg) (tp_operation t) then handler ctx req
          else fullAuth authn authz tokenValid audited handler ctx req)"

section \<open>Laws of the external middlewares\<close>

definition fails :: "(('q, 'r) handler \<Rightarrow> ('q, 'r) handler) \<Rightarrow> reqCtx \<Rightarrow> 'q \<Rightarrow> authErr \<Rightarrow> bool" where
  "fails m ctx req e \<longleftrightarrow> (\<forall>h. m h ctx req = Inl e)"

definition passes :: "(('q, 'r) handler \<Rightarrow> ('q, 'r) handler) \<Rightarrow> reqCtx \<Rightarrow> 'q \<Rightarrow> reqCtx \<Rightarrow> bool" where
  "passes m ctx req ctx' \<longleftrightarrow> (\<forall>h. m h ctx req = h ctx' req)"

text \<open>Authentication fails with a mapped error or passes authentic claims on in the context.\<close>

definition authnLaws :: "((authnErr \<Rightarrow> authErr) \<Rightarrow> ('q, 'r) handler \<Rightarrow> ('q, 'r) handler) \<Rightarrow> (reqCtx \<Rightarrow> tokenClaims \<Rightarrow> bool) \<Rightarrow> bool" where
  "authnLaws authn authentic \<longleftrightarrow> (\<forall>m ctx req. (\<exists>e. fails (authn m) ctx req (m e))
     \<or> (\<exists>cl. authentic ctx cl \<and> passes (authn m) ctx req (ctx\<lparr>rc_claims := Some cl\<rparr>)))"

text \<open>Authorization fails, or the engine allowed the claims of the context for some project.\<close>

definition authzLaws :: "(isAuthorized \<Rightarrow> ('q, 'r) handler \<Rightarrow> ('q, 'r) handler) \<Rightarrow> bool" where
  "authzLaws authz \<longleftrightarrow> (\<forall>isAuth ctx req. (\<exists>e. fails (authz isAuth) ctx req e)
     \<or> (\<exists>az p. rc_authz ctx = Some az \<and> isAuth ctx (az_subject az) (az_action az) (az_resource az) p = Inr True
          \<and> passes (authz isAuth) ctx req ctx))"

section \<open>Enforcement\<close>

lemma verifyAccessToken_ok:
  assumes "verifyAccessToken tokenValid ctx cl = None"
  shows "\<exists>userID. tk_userID cl = Some userID \<and> (userID = 0 \<or>
     (\<exists>t word token. rc_transport ctx = Some t \<and> str_fields (tp_header t ''Authorization'') = [word, token]
        \<and> equal_fold word BearerWord \<and> tokenValid userID token))"
  using assms unfolding verifyAccessToken_def
  by (auto split: option.splits if_splits list.splits)

lemma authClaims_cases:
  fixes claimsMiddleware :: "('q, 'r) handler \<Rightarrow> ('q, 'r) handler"
  assumes m: "claimsMiddleware = authClaimsMiddleware tokenValid"
  shows "(\<exists>e. fails claimsMiddleware ctx req e)
   \<or> (\<exists>t cl tenant role. rc_transport ctx = Some t \<and> rc_claims ctx = Some cl \<and> verifyAccessToken tokenValid ctx cl = None
        \<and> tk_tenantCode cl = Some tenant \<and> tenant \<noteq> [] \<and> tk_roleCode cl = Some role \<and> role \<noteq> []
        \<and> passes claimsMiddleware ctx req
            (ctx\<lparr>rc_authz := Some \<lparr>az_tenant = Some tenant, az_subject = role, az_action = requestAction t, az_resource = tp_operation t\<rparr>\<rparr>))"
proof (cases "rc_transport ctx")
  case None
  then show ?thesis by (auto simp: fails_def m authClaimsMiddleware_def)
next
  case t: (Some t)
  show ?thesis
  proof (cases "rc_claims ctx")
    case None
    then show ?thesis using t by (auto simp: fails_def m authClaimsMiddleware_def)
  next
    case cl: (Some cl)
    consider (bad) e where "verifyAccessToken tokenValid ctx cl = Some e"
      | (tenant) "verifyAccessToken tokenValid ctx cl = None" "stringOf (tk_tenantCode cl) = []"
      | (role) "verifyAccessToken tokenValid ctx cl = None" "stringOf (tk_tenantCode cl) \<noteq> []" "stringOf (tk_roleCode cl) = []"
      | (ok) "verifyAccessToken tokenValid ctx cl = None" "stringOf (tk_tenantCode cl) \<noteq> []" "stringOf (tk_roleCode cl) \<noteq> []"
      by fastforce
    then show ?thesis
    proof cases
      case ok
      then obtain tenant role where "tk_tenantCode cl = Some tenant" "tenant \<noteq> []" "tk_roleCode cl = Some role" "role \<noteq> []"
        by (auto simp: stringOf_def split: option.splits)
      then show ?thesis using t cl ok
        by (intro disjI2 exI [of _ t] exI [of _ cl] exI [of _ tenant] exI [of _ role])
          (simp add: passes_def m authClaimsMiddleware_def stringOf_def)
    qed (use t cl in \<open>auto simp: fails_def m authClaimsMiddleware_def\<close>)
  qed
qed

definition authorizedCall ::
  "(reqCtx \<Rightarrow> tokenClaims \<Rightarrow> bool) \<Rightarrow> (int64 \<Rightarrow> string \<Rightarrow> bool) \<Rightarrow> isAuthorized \<Rightarrow> reqCtx \<Rightarrow> reqCtx \<Rightarrow> bool" where
  "authorizedCall authentic tokenValid isAuth ctx ctx' \<longleftrightarrow>
     (\<exists>t cl userID tenant role p. rc_transport ctx = Some t \<and> authentic ctx cl
        \<and> tk_userID cl = Some userID \<and> tk_tenantCode cl = Some tenant \<and> tenant \<noteq> [] \<and> tk_roleCode cl = Some role \<and> role \<noteq> []
        \<and> (userID = 0 \<or> (\<exists>word token. str_fields (tp_header t ''Authorization'') = [word, token]
             \<and> equal_fold word BearerWord \<and> tokenValid userID token))
        \<and> ctx' = ctx\<lparr>rc_claims := Some cl,
             rc_authz := Some \<lparr>az_tenant = Some tenant, az_subject = role, az_action = requestAction t, az_resource = tp_operation t\<rparr>\<rparr>
        \<and> isAuth ctx' role (requestAction t) (tp_operation t) p = Inr True)"

lemma fullAuth_cases:
  fixes authn :: "(authnErr \<Rightarrow> authErr) \<Rightarrow> ('q, 'r) handler \<Rightarrow> ('q, 'r) handler"
  assumes "authnLaws authn authentic" "authzLaws authz"
  shows "(\<exists>e. fails (fullAuth authn authz tokenValid isAuth) ctx req e)
     \<or> (\<exists>ctx'. passes (fullAuth authn authz tokenValid isAuth) ctx req ctx' \<and> authorizedCall authentic tokenValid isAuth ctx ctx')"
proof -
  have full: "fullAuth authn authz tokenValid isAuth = (\<lambda>h. authn mapAuthnError (authClaimsMiddleware tokenValid (authz isAuth h)))"
    by (simp add: fullAuth_def fun_eq_iff)
  from assms(1) consider (no) e where "fails (authn mapAuthnError) ctx req e"
    | (yes) cl where "authentic ctx cl" "passes (authn mapAuthnError) ctx req (ctx\<lparr>rc_claims := Some cl\<rparr>)"
    unfolding authnLaws_def by meson
  then show ?thesis
  proof cases
    case no
    then show ?thesis unfolding full by (auto simp: fails_def)
  next
    case yes
    let ?c1 = "ctx\<lparr>rc_claims := Some cl\<rparr>"
    have one: "fullAuth authn authz tokenValid isAuth h ctx req = authClaimsMiddleware tokenValid (authz isAuth h) ?c1 req" for h
      using yes(2) by (simp add: full passes_def)
    define mw :: "('q, 'r) handler \<Rightarrow> ('q, 'r) handler" where "mw = authClaimsMiddleware tokenValid"
    from authClaims_cases [OF mw_def, of ?c1 req] show ?thesis
    proof (elim disjE exE conjE)
      fix e assume "fails mw ?c1 req e"
      then have "fails (fullAuth authn authz tokenValid isAuth) ctx req e" by (simp add: fails_def one mw_def)
      then show ?thesis by blast
    next
      fix t cl' tenant role
      assume t: "rc_transport ?c1 = Some t" and cl: "rc_claims ?c1 = Some cl'" and v: "verifyAccessToken tokenValid ?c1 cl' = None"
        and c: "tk_tenantCode cl' = Some tenant" "tenant \<noteq> []" "tk_roleCode cl' = Some role" "role \<noteq> []"
      define az where "az = \<lparr>az_tenant = Some tenant, az_subject = role, az_action = requestAction t, az_resource = tp_operation t\<rparr>"
      assume "passes mw ?c1 req
          (?c1\<lparr>rc_authz := Some \<lparr>az_tenant = Some tenant, az_subject = role, az_action = requestAction t, az_resource = tp_operation t\<rparr>\<rparr>)"
      then have two: "fullAuth authn authz tokenValid isAuth h ctx req = authz isAuth h (?c1\<lparr>rc_authz := Some az\<rparr>) req" for h
        by (simp add: one passes_def az_def mw_def)
      have [simp]: "cl' = cl" using cl by simp
      obtain userID where u: "tk_userID cl = Some userID" "userID = 0 \<or> (\<exists>word token. str_fields (tp_header t ''Authorization'') = [word, token]
             \<and> equal_fold word BearerWord \<and> tokenValid userID token)"
        using verifyAccessToken_ok [OF v] t by auto
      from assms(2) consider (no) e where "fails (authz isAuth) (?c1\<lparr>rc_authz := Some az\<rparr>) req e"
        | (yes) p where "isAuth (?c1\<lparr>rc_authz := Some az\<rparr>) (az_subject az) (az_action az) (az_resource az) p = Inr True"
            "passes (authz isAuth) (?c1\<lparr>rc_authz := Some az\<rparr>) req (?c1\<lparr>rc_authz := Some az\<rparr>)"
        unfolding authzLaws_def by fastforce
      then show ?thesis
      proof cases
        case no
        then have "fails (fullAuth authn authz tokenValid isAuth) ctx req e" by (simp add: fails_def two)
        then show ?thesis by blast
      next
        case (yes p)
        have "authorizedCall authentic tokenValid isAuth ctx (?c1\<lparr>rc_authz := Some az\<rparr>)"
          unfolding authorizedCall_def
          using \<open>authentic ctx cl\<close> t c u yes(1)
          by (intro exI [of _ t] exI [of _ cl] exI [of _ userID] exI [of _ tenant] exI [of _ role] exI [of _ p]) (simp add: az_def)
        moreover have "passes (fullAuth authn authz tokenValid isAuth) ctx req (?c1\<lparr>rc_authz := Some az\<rparr>)"
          using yes(2) by (simp add: passes_def two)
        ultimately show ?thesis by blast
      qed
    qed
  qed
qed

text \<open>C2.
  No unauthorized call.  Unless a white list names its operation, a request either fails whatever
  the handler is, or the handler runs with a context in which: the claims are authentic; the user is
  the internal one or its access token, the second word of a two-word bearer header, is still valid
  in the cache; tenant and role are non-empty; and the engine itself, asked through its audited
  wrapper for exactly that role, the real method in upper case and the operation of the request,
  allowed it.  A request without a transport never gets through.\<close>
theorem auth_enforced:
  assumes "authnLaws authn authentic" "authzLaws authz"
    and "\<forall>t. rc_transport ctx = Some t \<longrightarrow> \<not> matchWhiteList compile (jwt_optionalAuth cfg) (tp_operation t)
      \<and> \<not> matchWhiteList compile (jwt_whiteList cfg) (tp_operation t)"
    and "audited = (\<lambda>c s a r p. fst (auditedIsAuthorized engine splitHost denied startedAt durationMs isAuth c s a r p))"
  shows "(\<exists>e. fails (NewAuthMiddleware authn authz optionalAuth compile tokenValid audited cfg) ctx req e)
     \<or> (\<exists>ctx'. passes (NewAuthMiddleware authn authz optionalAuth compile tokenValid audited cfg) ctx req ctx'
          \<and> authorizedCall authentic tokenValid isAuth ctx ctx')"
proof -
  have a: "audited = isAuth" unfolding assms(4) by (simp add: auditedIsAuthorized_def Let_def)
  have "NewAuthMiddleware authn authz optionalAuth compile tokenValid audited cfg h ctx req
      = fullAuth authn authz tokenValid isAuth h ctx req" for h
    using assms(3) by (auto simp: NewAuthMiddleware_def a split: option.splits)
  then show ?thesis using fullAuth_cases [OF assms(1,2), of tokenValid isAuth ctx req]
    by (simp add: fails_def passes_def)
qed

text \<open>An authentication that trusts its header and an authorization that asks the engine.\<close>

definition exampleClaims2 :: tokenClaims where
  "exampleClaims2 = \<lparr>tk_userID = Some 7, tk_subject = Some ''u'', tk_tenantID = Some 1, tk_tenantCode = Some ''t'',
     tk_roleID = Some 2, tk_roleCode = Some ''r''\<rparr>"

definition exampleAuthn :: "(authnErr \<Rightarrow> authErr) \<Rightarrow> ('q, 'r) handler \<Rightarrow> ('q, 'r) handler" where
  "exampleAuthn m h ctx req = (case rc_transport ctx of None \<Rightarrow> Inl (m ErrMissingBearerToken)
     | Some t \<Rightarrow> if tp_header t ''Authorization'' = ''Bearer x'' then h (ctx\<lparr>rc_claims := Some exampleClaims2\<rparr>) req
         else Inl (m ErrMissingBearerToken))"

definition exampleAuthz :: "isAuthorized \<Rightarrow> ('q, 'r) handler \<Rightarrow> ('q, 'r) handler" where
  "exampleAuthz isAuth h ctx req = (case rc_authz ctx of None \<Rightarrow> Inl ErrUnauthorized
     | Some az \<Rightarrow> if isAuth ctx (az_subject az) (az_action az) (az_resource az) ''*'' = Inr True then h ctx req
         else Inl ErrUnauthorized)"

definition exampleReq :: reqCtx where
  "exampleReq = \<lparr>rc_httpRequestID = [], rc_grpcRequestID = [], rc_span = None,
     rc_transport = Some \<lparr>tp_operation = ''/s/m'', tp_request = None, tp_method = None,
       tp_header = (\<lambda>n. if n = ''Authorization'' then ''Bearer x'' else []), tp_pathTemplate = []\<rparr>,
     rc_claims = None, rc_authz = None, rc_peer = None, rc_locale = None\<rparr>"

lemma exampleAuthn_laws:
  "authnLaws (exampleAuthn :: _ \<Rightarrow> ('q, 'r) handler \<Rightarrow> ('q, 'r) handler) (\<lambda>ctx cl. cl = exampleClaims2)"
  by (auto simp: authnLaws_def exampleAuthn_def fails_def passes_def split: option.splits)

lemma exampleAuthz_laws: "authzLaws (exampleAuthz :: isAuthorized \<Rightarrow> ('q, 'r) handler \<Rightarrow> ('q, 'r) handler)"
proof -
  have "(\<exists>e. fails (exampleAuthz i :: ('q, 'r) handler \<Rightarrow> _) ctx req e) \<or> (\<exists>az p. rc_authz ctx = Some az
      \<and> i ctx (az_subject az) (az_action az) (az_resource az) p = Inr True \<and> passes (exampleAuthz i :: ('q, 'r) handler \<Rightarrow> _) ctx req ctx)" for i ctx req
    by (cases "rc_authz ctx") (auto simp: exampleAuthz_def fails_def passes_def)
  then show ?thesis by (simp add: authzLaws_def)
qed

theorem auth_enforced_witness:
  "\<exists>ctx'. passes (NewAuthMiddleware exampleAuthn exampleAuthz (\<lambda>h :: (unit, nat) handler. h) (\<lambda>_. None) (\<lambda>i tok. tok = ''x'')
       (\<lambda>c s a r p. fst (auditedIsAuthorized [] (\<lambda>_. None) [] 0 0 (\<lambda>_ s a r p. Inr (r = ''/s/m'')) c s a r p))
       \<lparr>jwt_optionalAuth = None, jwt_whiteList = None\<rparr>) exampleReq () ctx'
     \<and> authorizedCall (\<lambda>ctx cl. cl = exampleClaims2) (\<lambda>i tok. tok = ''x'') (\<lambda>_ s a r p. Inr (r = ''/s/m'')) exampleReq ctx'"
proof -
  let ?M = "NewAuthMiddleware exampleAuthn exampleAuthz (\<lambda>h :: (unit, nat) handler. h) (\<lambda>_. None) (\<lambda>i tok. tok = ''x'')
       (\<lambda>c s a r p. fst (auditedIsAuthorized [] (\<lambda>_. None) [] 0 0 (\<lambda>_ s a r p. Inr (r = ''/s/m'')) c s a r p))
       \<lparr>jwt_optionalAuth = None, jwt_whiteList = None\<rparr>"
  have "?M (\<lambda>_ _. Inr 5) exampleReq () = Inr 5" by code_simp
  then have "\<not> (\<exists>e. fails ?M exampleReq () e)" unfolding fails_def by (metis Inr_Inl_False)
  moreover have "\<forall>t. rc_transport exampleReq = Some t \<longrightarrow> \<not> matchWhiteList (\<lambda>_. None) (jwt_optionalAuth \<lparr>jwt_optionalAuth = None, jwt_whiteList = None\<rparr>) (tp_operation t)
      \<and> \<not> matchWhiteList (\<lambda>_. None) (jwt_whiteList \<lparr>jwt_optionalAuth = None, jwt_whiteList = None\<rparr>) (tp_operation t)"
    by (simp add: matchWhiteList_def)
  ultimately show ?thesis
    using auth_enforced [OF exampleAuthn_laws [where 'q = unit and 'r = nat] exampleAuthz_laws _ refl] by blast
qed

text \<open>A white list with any valid regular expression admits a request whose operation is empty: the
  empty text that stands for no match equals the operation.\<close>

lemma matchWhiteList_empty:
  assumes "r \<in> set (wl_regex w)" "compile r = Some m" "m [] = None"
  shows "matchWhiteList compile (Some w) []"
  using assms by (auto simp: matchWhiteList_def list_ex_iff findString_def)

end
