(* ===== verification/Validate.thy ===== *)
theory Validate
  imports Errors TenantScope RequestMeta
begin

text \<open>
  Model of \<open>server/middleware/validate.go\<close>: the middleware that refuses invalid requests and the
  conversion of the first violation to a structured error.  protovalidate is the pair of
  parameters \<open>validate\<close> (its error for a message, if any) and \<open>asValidation\<close> (the violations of an
  error of its type).
\<close>

section \<open>Model\<close>

text \<open>The field names of the paths of the rule and of the field, in order.\<close>

record violation =
  vi_message :: string
  vi_ruleID :: string
  vi_rule :: "string list"
  vi_field :: "string list"

text \<open>The UTF-8 text of the message for invalid parameters.\<close>

definition invalidParameters :: string where
  "invalidParameters = [CHR 0xE8, CHR 0xAF, CHR 0xB7, CHR 0xE6, CHR 0xB1, CHR 0x82, CHR 0xE5, CHR 0x8F, CHR 0x82, CHR 0xE6, CHR 0x95, CHR 0xB0, CHR 0xE9, CHR 0x94, CHR 0x99, CHR 0xE8, CHR 0xAF, CHR 0xAF]"

definition standardRuleTypes :: "string list" where
  "standardRuleTypes = [''bytes'', ''double'', ''duration'', ''enum'', ''fixed32'', ''fixed64'', ''float'', ''int32'', ''int64'',
     ''map'', ''message'', ''repeated'', ''required'', ''sfixed32'', ''sfixed64'', ''sint32'', ''sint64'', ''string'', ''timestamp'',
     ''uint32'', ''uint64'']"

definition isStandardValidationRule :: "string \<Rightarrow> string list \<Rightarrow> bool" where
  "isStandardValidationRule ruleID elements =
     (if elements \<noteq> [] \<and> hd elements \<in> set standardRuleTypes then True
      else if list_ex (\<lambda>t. has_prefix ruleID (t @ ''.'')) standardRuleTypes then True
      else ruleID = ''required'')"

definition standardValidationMessageKey :: "string \<Rightarrow> string list \<Rightarrow> string" where
  "standardValidationMessageKey ruleID elements =
     (if elements \<noteq> [] \<and> last elements = ''required'' then ''common.validation.required''
      else if isStandardValidationRule ruleID elements then ''common.validation.invalid''
      else if ruleID \<noteq> [] then ruleID
      else ''common.validation.invalid'')"

definition validationFieldPath :: "string list \<Rightarrow> string" where
  "validationFieldPath elements =
     (let fields = filter (\<lambda>f. f \<noteq> []) elements in if length fields = 0 then ''request'' else join_str ''.'' fields)"

definition validationError :: "'x errOps \<Rightarrow> ('x \<Rightarrow> violation list option) \<Rightarrow> 'x \<Rightarrow> 'x kratosErr option" where
  "validationError ops asValidation err =
     map_option (\<lambda>e. eo_withCause ops e err)
      (case asValidation err of
         Some (v # _) \<Rightarrow>
           (let message = (if vi_message v = [] then invalidParameters else vi_message v);
                messageKey = standardValidationMessageKey (vi_ruleID v) (vi_rule v);
                messageArgs = [(''Field'', validationFieldPath (vi_field v))]
            in WithMessageKey ops (InvalidArgument ops message) messageKey messageArgs)
       | _ \<Rightarrow> WithMessageKey ops (InvalidArgument ops invalidParameters) ''common.error.invalid_argument'' [])"

text \<open>The structured error is never nil; the last case is the nil interface value.\<close>

definition NewValidateMiddleware ::
  "'x errOps \<Rightarrow> (pmsg \<Rightarrow> 'x option) \<Rightarrow> ('x \<Rightarrow> violation list option)
    \<Rightarrow> (reqCtx \<Rightarrow> 'a request \<Rightarrow> ('x, 'r) result) \<Rightarrow> reqCtx \<Rightarrow> 'a request \<Rightarrow> ('x, 'r) result" where
  "NewValidateMiddleware ops validate asValidation handler ctx req =
     (case req of
        OtherRequest _ \<Rightarrow> handler ctx req
      | ProtoRequest m \<Rightarrow> (case validate m of
          None \<Rightarrow> handler ctx req
        | Some err \<Rightarrow> (case validationError ops asValidation err of
            Some e \<Rightarrow> Inl (eo_error ops e)
          | None \<Rightarrow> Inl err)))"

section \<open>Refused requests\<close>

lemma WithMessageKey_fields:
  assumes "errLaws ops"
  shows "\<exists>e'. WithMessageKey ops (Some e) key args = Some e' \<and> ke_code e' = ke_code e \<and> ke_reason e' = ke_reason e
    \<and> ke_message e' = ke_message e \<and> mdGet (ke_metadata e') METADATA_KEY_MESSAGE_KEY = key
    \<and> mdGet (ke_metadata e') METADATA_KEY_MESSAGE_ARGS
        = (if args = [] then ''{}'' else case eo_marshalArgs ops args of None \<Rightarrow> ''{}'' | Some data \<Rightarrow> data)"
  by (cases "eo_marshalArgs ops args")
    (simp_all add: WithMessageKey_def errLaws_simps [OF assms] mdGet_def METADATA_KEY_MESSAGE_KEY_def METADATA_KEY_MESSAGE_ARGS_def Let_def)

lemma messageKey_nonempty: "standardValidationMessageKey ruleID elements \<noteq> []"
  by (simp add: standardValidationMessageKey_def)

lemma validationError_fields:
  assumes "errLaws ops"
  shows "\<exists>e. validationError ops asValidation err = Some e \<and> ke_code e = 400 \<and> ke_reason e = ReasonInvalidArgument
    \<and> ke_message e \<noteq> [] \<and> ke_cause e = Some err
    \<and> (case asValidation err of
         Some (v # _) \<Rightarrow> mdGet (ke_metadata e) METADATA_KEY_MESSAGE_KEY = standardValidationMessageKey (vi_ruleID v) (vi_rule v)
           \<and> mdGet (ke_metadata e) METADATA_KEY_MESSAGE_ARGS
              = (case eo_marshalArgs ops [(''Field'', validationFieldPath (vi_field v))] of None \<Rightarrow> ''{}'' | Some data \<Rightarrow> data)
       | _ \<Rightarrow> mdGet (ke_metadata e) METADATA_KEY_MESSAGE_KEY = ''common.error.invalid_argument'')"
proof -
  have make: "\<exists>e'. WithMessageKey ops (InvalidArgument ops m) key args = Some e' \<and> ke_code e' = 400 \<and> ke_reason e' = ReasonInvalidArgument
    \<and> ke_message e' = m \<and> mdGet (ke_metadata e') METADATA_KEY_MESSAGE_KEY = key
    \<and> mdGet (ke_metadata e') METADATA_KEY_MESSAGE_ARGS
        = (if args = [] then ''{}'' else case eo_marshalArgs ops args of None \<Rightarrow> ''{}'' | Some data \<Rightarrow> data)" for m key args
  proof -
    obtain e where "InvalidArgument ops m = Some e" "ke_code e = 400" "ke_reason e = ReasonInvalidArgument" "ke_message e = m"
      using newStructuredError_fields [OF assms] unfolding InvalidArgument_def by blast
    with WithMessageKey_fields [OF assms, of e key args] show ?thesis by simp
  qed
  have shown: "invalidParameters \<noteq> []" by (simp add: invalidParameters_def)
  show ?thesis
  proof (cases "case asValidation err of Some (v # _) \<Rightarrow> Some v | _ \<Rightarrow> None")
    case None
    then have "validationError ops asValidation err = map_option (\<lambda>e. eo_withCause ops e err)
        (WithMessageKey ops (InvalidArgument ops invalidParameters) ''common.error.invalid_argument'' [])"
      by (auto simp: validationError_def split: option.splits list.splits)
    with make [of invalidParameters "''common.error.invalid_argument''" "[]"] None shown show ?thesis
      by (auto simp: errLaws_simps [OF assms] split: option.splits list.splits)
  next
    case (Some v)
    let ?m = "if vi_message v = [] then invalidParameters else vi_message v"
    have "validationError ops asValidation err = map_option (\<lambda>e. eo_withCause ops e err)
        (WithMessageKey ops (InvalidArgument ops ?m) (standardValidationMessageKey (vi_ruleID v) (vi_rule v))
           [(''Field'', validationFieldPath (vi_field v))])"
      using Some by (auto simp: validationError_def Let_def split: option.splits list.splits)
    with make [of ?m "standardValidationMessageKey (vi_ruleID v) (vi_rule v)" "[(''Field'', validationFieldPath (vi_field v))]"] Some shown
    show ?thesis by (auto simp: errLaws_simps [OF assms] split: option.splits list.splits)
  qed
qed

text \<open>C27.
  Invalid requests are refused with a classified error.  A request that validates is passed on as it
  is.  One that does not never reaches the handler: the client gets an INVALID_ARGUMENT error 400 that
  wraps the error of the validator, has a text and a message key; for a violation the key tells a
  missing required field, another standard rule, or the identifier of the custom rule, and the
  arguments name the path of the field.\<close>
theorem invalid_requests_refused:
  assumes "errLaws ops"
  shows "case validate m of
      None \<Rightarrow> NewValidateMiddleware ops validate asValidation handler ctx (ProtoRequest m) = handler ctx (ProtoRequest m)
    | Some err \<Rightarrow> (\<exists>e. (\<forall>h. NewValidateMiddleware ops validate asValidation h ctx (ProtoRequest m) = Inl (eo_error ops e))
        \<and> ke_code e = 400 \<and> ke_reason e = ReasonInvalidArgument \<and> ke_message e \<noteq> [] \<and> ke_cause e = Some err
        \<and> mdGet (ke_metadata e) METADATA_KEY_MESSAGE_KEY \<noteq> []
        \<and> (case asValidation err of
             Some (v # _) \<Rightarrow> mdGet (ke_metadata e) METADATA_KEY_MESSAGE_KEY =
                  (if vi_rule v \<noteq> [] \<and> last (vi_rule v) = ''required'' then ''common.validation.required''
                   else if isStandardValidationRule (vi_ruleID v) (vi_rule v) \<or> vi_ruleID v = [] then ''common.validation.invalid''
                   else vi_ruleID v)
               \<and> mdGet (ke_metadata e) METADATA_KEY_MESSAGE_ARGS
                  = (case eo_marshalArgs ops [(''Field'', validationFieldPath (vi_field v))] of None \<Rightarrow> ''{}'' | Some data \<Rightarrow> data)
           | _ \<Rightarrow> mdGet (ke_metadata e) METADATA_KEY_MESSAGE_KEY = ''common.error.invalid_argument''))"
proof (cases "validate m")
  case None
  then show ?thesis by (simp add: NewValidateMiddleware_def)
next
  case (Some err)
  obtain e where e: "validationError ops asValidation err = Some e" "ke_code e = 400" "ke_reason e = ReasonInvalidArgument"
      "ke_message e \<noteq> []" "ke_cause e = Some err"
    and k: "case asValidation err of
         Some (v # _) \<Rightarrow> mdGet (ke_metadata e) METADATA_KEY_MESSAGE_KEY = standardValidationMessageKey (vi_ruleID v) (vi_rule v)
           \<and> mdGet (ke_metadata e) METADATA_KEY_MESSAGE_ARGS
              = (case eo_marshalArgs ops [(''Field'', validationFieldPath (vi_field v))] of None \<Rightarrow> ''{}'' | Some data \<Rightarrow> data)
       | _ \<Rightarrow> mdGet (ke_metadata e) METADATA_KEY_MESSAGE_KEY = ''common.error.invalid_argument''"
    using validationError_fields [OF assms, of asValidation err] by blast
  have "NewValidateMiddleware ops validate asValidation h ctx (ProtoRequest m) = Inl (eo_error ops e)" for h
    by (simp add: NewValidateMiddleware_def Some e(1))
  moreover have "mdGet (ke_metadata e) METADATA_KEY_MESSAGE_KEY \<noteq> []"
    using k by (auto simp: messageKey_nonempty split: option.splits list.splits)
  ultimately show ?thesis using e k
    unfolding Some option.case
    by (intro exI [of _ e]) (auto simp: standardValidationMessageKey_def split: option.splits list.splits)
qed

theorem invalid_requests_refused_witness:
  "\<exists>e. NewValidateMiddleware demoOps (\<lambda>_. Some (Text ''bad'')) (\<lambda>_. Some [\<lparr>vi_message = [], vi_ruleID = ''string.min_len'',
       vi_rule = [''string'', ''min_len''], vi_field = [''user'', [], ''name'']\<rparr>]) (\<lambda>_ _. Inr 1) emptyCtx (ProtoRequest (PMsg ''M'' True []))
     = Inl (eo_error demoOps e) \<and> mdGet (ke_metadata e) METADATA_KEY_MESSAGE_KEY = ''common.validation.invalid''"
proof -
  have "isStandardValidationRule ''string.min_len'' [''string'', ''min_len'']" by code_simp
  then show ?thesis
    using invalid_requests_refused [OF demoOps_laws, where validate = "\<lambda>_. Some (Text ''bad'')" and m = "PMsg ''M'' True []"
      and asValidation = "\<lambda>_. Some [\<lparr>vi_message = [], vi_ruleID = ''string.min_len'',
       vi_rule = [''string'', ''min_len''], vi_field = [''user'', [], ''name'']\<rparr>]"] by fastforce
qed

end
