(* ===== verification/GoFloat.thy ===== *)
theory GoFloat
  imports GoNum Complex_Main "HOL-Library.Log_Nat" "HOL-Library.Signed_Division"
begin

text \<open>
  Numbers of type \<open>float64\<close>, as the rationals they stand for: a rational is rounded to the nearest one
  with 53 significant bits, ties to even, which is what every operation on them does with its exact
  result.  Overflow and subnormal numbers are left out; durations in seconds are far from both.
\<close>

section \<open>Rounding\<close>

definition nearestEven :: "rat \<Rightarrow> int" where
  "nearestEven x = (let n = \<lfloor>x\<rfloor>; r = x - of_int n in
     if r < 1 / 2 then n else if 1 / 2 < r then n + 1 else if even n then n else n + 1)"

text \<open>The distance of two neighbours at \<open>x\<close>: \<open>2\<close> to the exponent of \<open>x\<close>, over \<open>2 ^ 52\<close>.\<close>

definition ulp :: "rat \<Rightarrow> rat" where
  "ulp x = (if 1 \<le> \<bar>x\<bar> then 2 ^ (floorlog 2 (nat \<lfloor>\<bar>x\<bar>\<rfloor>) - 1) else 1 / 2 ^ ceillog2 (nat \<lceil>1 / \<bar>x\<bar>\<rceil>)) / 2 ^ 52"

definition float64 :: "rat \<Rightarrow> rat" where
  "float64 x = of_int (nearestEven (x / ulp x)) * ulp x"

lemma nearestEven_close: "\<bar>of_int (nearestEven x) - x\<bar> \<le> 1 / 2"
proof -
  have "of_int \<lfloor>x\<rfloor> \<le> x" "x < of_int \<lfloor>x\<rfloor> + 1" by linarith+
  then show ?thesis by (auto simp: nearestEven_def Let_def)
qed

lemma nearestEven_ge: "of_int a \<le> x \<Longrightarrow> a \<le> nearestEven x"
  using le_floor_iff [of a x] by (auto simp: nearestEven_def Let_def)

lemma nearestEven_le:
  assumes "x \<le> of_int b"
  shows "nearestEven x \<le> b"
proof (cases "x = of_int b")
  case True
  then show ?thesis by (simp add: nearestEven_def Let_def)
next
  case False
  then have "\<lfloor>x\<rfloor> < b" using assms by (simp add: floor_less_iff)
  then show ?thesis by (auto simp: nearestEven_def Let_def)
qed

lemma ulp_below_one:
  assumes "0 < x" "x < 1"
  shows "\<exists>N \<ge> 53. ulp x = 1 / 2 ^ N"
proof -
  let ?k = "ceillog2 (nat \<lceil>1 / x\<rceil>)"
  have one: "1 < 1 / x" using assms by simp
  then have "2 \<le> \<lceil>1 / x\<rceil>" by linarith
  then have "2 \<le> nat \<lceil>1 / x\<rceil>" by linarith
  then have "1 \<le> ?k" using ceillog2_ge_iff [of "nat \<lceil>1 / x\<rceil>" 1] assms by simp
  moreover have "ulp x = 1 / 2 ^ (?k + 52)" using assms by (simp add: ulp_def power_add)
  ultimately show ?thesis by (intro exI [of _ "?k + 52"]) simp
qed

lemma ulp_from_one:
  assumes "1 \<le> x" "x < 2 ^ b" "b \<le> 53"
  shows "\<exists>N \<ge> 53 - b. ulp x = 1 / 2 ^ N"
proof -
  let ?e = "floorlog 2 (nat \<lfloor>x\<rfloor>) - 1"
  have "\<lfloor>x\<rfloor> < 2 ^ b" using assms(2) by (simp add: floor_less_iff)
  then have "nat \<lfloor>x\<rfloor> < 2 ^ b" using assms(1) by (simp add: nat_less_iff)
  then have "floorlog 2 (nat \<lfloor>x\<rfloor>) \<le> b" by (intro floorlog_leI) simp_all
  moreover have "b \<noteq> 0" using assms(1,2) by (cases b) simp_all
  ultimately have e: "?e + 1 \<le> b" "?e \<le> 52" using assms(3) by simp_all
  have "ulp x = 2 ^ ?e / 2 ^ (?e + (52 - ?e))" using assms(1) e by (simp add: ulp_def)
  also have "\<dots> = 1 / 2 ^ (52 - ?e)" by (simp add: power_add)
  finally show ?thesis using e(1) by (intro exI [of _ "52 - ?e"] conjI) linarith+
qed

lemma ulp_pos: "0 < x \<Longrightarrow> 0 < ulp x"
  by (simp add: ulp_def)

lemma float64_close:
  assumes "0 < x"
  shows "\<bar>float64 x - x\<bar> \<le> ulp x / 2"
proof -
  have u: "0 < ulp x" by (rule ulp_pos [OF assms])
  have "float64 x - x = (of_int (nearestEven (x / ulp x)) - x / ulp x) * ulp x"
    using u by (simp add: float64_def left_diff_distrib)
  then have "\<bar>float64 x - x\<bar> = \<bar>of_int (nearestEven (x / ulp x)) - x / ulp x\<bar> * ulp x"
    using u by (simp add: abs_mult)
  also have "\<dots> \<le> 1 / 2 * ulp x" using nearestEven_close u by (intro mult_right_mono) simp_all
  finally show ?thesis by simp
qed

text \<open>Below \<open>2 ^ 53\<close> the whole numbers are exact, and rounding does not cross them.\<close>

lemma ulp_small:
  assumes "0 < x" "x < 2 ^ b" "1 \<le> b" "b \<le> 53"
  shows "\<exists>N \<ge> 53 - b. ulp x = 1 / 2 ^ N"
proof (cases "x < 1")
  case True
  then obtain N where "N \<ge> 53" "ulp x = 1 / 2 ^ N" using ulp_below_one [OF assms(1)] by blast
  then show ?thesis by (intro exI [of _ N]) simp
next
  case False
  then show ?thesis using ulp_from_one assms(2,4) by simp
qed

lemma float64_between:
  assumes "0 < x" "x < 2 ^ 53" "of_int a \<le> x" "x \<le> of_int b"
  shows "of_int a \<le> float64 x" "float64 x \<le> of_int b"
proof -
  obtain N where N: "ulp x = 1 / 2 ^ N" using ulp_small [OF assms(1,2)] by auto
  have "of_int (a * 2 ^ N) \<le> x / ulp x" "x / ulp x \<le> of_int (b * 2 ^ N)" using assms(3,4) N by simp_all
  then have "a * 2 ^ N \<le> nearestEven (x / ulp x)" "nearestEven (x / ulp x) \<le> b * 2 ^ N"
    by (simp_all only: nearestEven_ge nearestEven_le)
  then have "of_int (a * 2 ^ N) \<le> (of_int (nearestEven (x / ulp x)) :: rat)" "of_int (nearestEven (x / ulp x)) \<le> (of_int (b * 2 ^ N) :: rat)"
    by (simp_all only: of_int_le_iff)
  then show "of_int a \<le> float64 x" "float64 x \<le> of_int b"
    unfolding float64_def N by (simp_all add: field_simps)
qed

lemma float64_zero: "float64 0 = 0"
  by (simp add: float64_def nearestEven_def)

lemma float64_int:
  assumes "0 \<le> i" "i < 2 ^ 53"
  shows "float64 (of_int i) = of_int i"
proof (cases "i = 0")
  case True
  then show ?thesis by (simp add: float64_zero)
next
  case False
  have "(of_int i :: rat) < of_int (2 ^ 53)" using assms(2) by (simp only: of_int_less_iff)
  then have "(of_int i :: rat) < 2 ^ 53" by simp
  then show ?thesis using float64_between [of "of_int i" i i] False assms(1) by fastforce
qed

section \<open>Durations\<close>

text \<open>\<open>Duration.Seconds\<close>: whole seconds and the rest, each exact, and two operations that round.\<close>

definition durationSeconds :: "64 word \<Rightarrow> rat" where
  "durationSeconds d =
     float64 (float64 (of_int (sint d sdiv 1000000000)) + float64 (float64 (of_int (sint d smod 1000000000)) / 1000000000))"

lemma sint_below: "sint (d :: 64 word) < 2 ^ 63"
  using sint_range_size [of d] by (simp add: word_size)

text \<open>A positive duration: the whole seconds \<open>s\<close> and the nanoseconds \<open>n\<close> that are left.\<close>

lemma fraction_close:
  assumes "0 \<le> n" "n < (1000000000 :: int)"
  shows "0 \<le> float64 (of_int n / 1000000000)" "float64 (of_int n / 1000000000) < 1"
    and "\<bar>float64 (of_int n / 1000000000) - of_int n / 1000000000\<bar> \<le> 1 / 2 ^ 54"
    and "0 < n \<Longrightarrow> 0 < float64 (of_int n / 1000000000)"
proof -
  let ?q = "of_int n / 1000000000 :: rat"
  have close: "\<bar>float64 ?q - ?q\<bar> \<le> 1 / 2 ^ 54"
  proof (cases "n = 0")
    case True
    then show ?thesis by (simp add: float64_zero)
  next
    case False
    have q: "0 < ?q" "?q < 1" using False assms by simp_all
    then obtain N where N: "N \<ge> 53" "ulp ?q = 1 / 2 ^ N" using ulp_below_one by blast
    have "ulp ?q \<le> 1 / 2 ^ 53" unfolding N(2) using N(1) by (intro divide_left_mono power_increasing) simp_all
    then show ?thesis using float64_close [OF q(1)] by simp
  qed
  then show "\<bar>float64 ?q - ?q\<bar> \<le> 1 / 2 ^ 54" .
  have "?q \<le> 999999999 / 1000000000"
  proof -
    have "n \<le> 999999999" using assms(2) by simp
    then have "(of_int n :: rat) \<le> of_int 999999999" by (simp only: of_int_le_iff)
    then show ?thesis by simp
  qed
  then show "float64 ?q < 1" using close unfolding abs_diff_le_iff by simp
  show pos: "0 < float64 ?q" if "0 < n"
  proof -
    have "(1 :: rat) \<le> of_int n" using that by simp
    then have "1 / 1000000000 \<le> ?q" by simp
    then show ?thesis using close unfolding abs_diff_le_iff by simp
  qed
  show "0 \<le> float64 ?q" using pos assms(1) float64_zero by (cases "n = 0") (auto intro: less_imp_le)
qed

lemma durationSeconds_parts:
  assumes "0 < sint d" "s = sint d div 1000000000" "n = sint d mod 1000000000"
  shows "durationSeconds d = float64 (of_int s + float64 (of_int n / 1000000000))"
    and "0 \<le> s" "s < 2 ^ 34 - 1" "0 \<le> n" "n < 1000000000" "sint d = s * 1000000000 + n"
proof -
  show n: "0 \<le> n" "n < 1000000000" and d: "sint d = s * 1000000000 + n" using assms(2,3) by simp_all
  show s: "0 \<le> s" using assms(1,2) by simp
  show "s < 2 ^ 34 - 1" using sint_below [of d] d n by simp
  then have "s < 2 ^ 53" by simp
  then have "float64 (of_int s) = of_int s" "float64 (of_int n) = of_int n" using s n by (simp_all add: float64_int)
  moreover have "sint d sdiv 1000000000 = s" "sint d smod 1000000000 = n"
    using assms by (simp_all add: signed_divide_int_def signed_modulo_int_def minus_div_mult_eq_mod)
  ultimately show "durationSeconds d = float64 (of_int s + float64 (of_int n / 1000000000))"
    by (simp add: durationSeconds_def)
qed

text \<open>The result is between the whole seconds, less than a microsecond off, and above \<open>s\<close> as long as there
  are bits for the nanoseconds.\<close>

lemma durationSeconds_bounds:
  assumes "0 < sint d" "s = sint d div 1000000000" "n = sint d mod 1000000000"
  shows "of_int s \<le> durationSeconds d" "durationSeconds d \<le> of_int s + (if n = 0 then 0 else 1)"
    and "of_int (sint d) \<le> durationSeconds d * 1000000000 + 1000"
    and "s < 2 ^ 23 \<Longrightarrow> 0 < n \<Longrightarrow> of_int s < durationSeconds d"
proof -
  note P = durationSeconds_parts [OF assms]
  let ?q = "float64 (of_int n / 1000000000)"
  let ?x = "of_int s + ?q"
  note Q = fraction_close [OF P(4,5)]
  have s34: "(of_int s :: rat) < 2 ^ 34 - 1"
  proof -
    have "(of_int s :: rat) < of_int (2 ^ 34 - 1)" using P(3) by (simp only: of_int_less_iff)
    then show ?thesis by simp
  qed
  have pos: "0 < ?x"
  proof (cases "s = 0")
    case True
    then have "0 < n" using assms(1) P(4,6) by simp
    then show ?thesis using Q(4) True by simp
  next
    case False
    then have "0 < (of_int s :: rat)" using P(2) by simp
    then show ?thesis using Q(1) by (rule add_pos_nonneg)
  qed
  have lt: "?x < 2 ^ 34" using s34 Q(2) by simp
  have lo: "of_int s \<le> ?x" and hi: "?x \<le> of_int (s + (if n = 0 then 0 else 1))"
    using Q(1,2) by (simp_all add: float64_zero)
  have lt53: "?x < 2 ^ 53" using lt by simp
  from float64_between [OF pos lt53 lo hi] P(1)
  show "of_int s \<le> durationSeconds d" "durationSeconds d \<le> of_int s + (if n = 0 then 0 else 1)" by (simp_all split: if_splits)
  obtain N where N: "N \<ge> 19" "ulp ?x = 1 / 2 ^ N" using ulp_small [OF pos lt] by auto
  have u: "ulp ?x \<le> 1 / 2 ^ 19" unfolding N(2) using N(1) by (intro divide_left_mono power_increasing) simp_all
  have "?x \<le> durationSeconds d + 1 / 2 ^ 20" using float64_close [OF pos] u unfolding P(1) abs_diff_le_iff by simp
  moreover have "of_int n / 1000000000 \<le> ?q + 1 / 2 ^ 54" using Q(3) unfolding abs_diff_le_iff by simp
  moreover have "(of_int (sint d) :: rat) = of_int s * 1000000000 + of_int n" unfolding P(6) by simp
  ultimately show "of_int (sint d) \<le> durationSeconds d * 1000000000 + 1000" by (simp add: field_simps)
  show "of_int s < durationSeconds d" if small: "s < 2 ^ 23" "0 < n"
  proof -
    have "s + 1 \<le> 2 ^ 23" using small by simp
    then have "(of_int (s + 1) :: rat) \<le> of_int (2 ^ 23)" by (simp only: of_int_le_iff)
    then have "?x < 2 ^ 23" using Q(2) by simp
    then obtain M where M: "M \<ge> 30" "ulp ?x = 1 / 2 ^ M" using ulp_small [OF pos, of 23] by auto
    have "ulp ?x \<le> 1 / 2 ^ 30" unfolding M(2) using M(1) by (intro divide_left_mono power_increasing) simp_all
    then have "?x \<le> durationSeconds d + 1 / 2 ^ 31" using float64_close [OF pos] unfolding P(1) abs_diff_le_iff by simp
    moreover have "(1 :: rat) \<le> of_int n" using small by simp
    then have "1 / 1000000000 \<le> ?q + 1 / 2 ^ 54" using Q(3) unfolding abs_diff_le_iff by simp
    ultimately show ?thesis by simp
  qed
qed

end
