(* ===== verification/RateLimit.thy ===== *)
theory RateLimit
  imports RequestMeta GoFloat
begin

text \<open>
  Model of \<open>server/middleware/ratelimit/ratelimit.go\<close>: the identity of a policy, the key of its
  shared state, and the middleware that takes all policies of an operation at once.  The state
  store, the policy resolver, SHA-256, \<open>net.ParseIP\<close> and \<open>net.SplitHostPort\<close> are parameters.
  The floating-point rates are only passed on, so their type \<open>'f\<close> is left open; the retry delay is
  an \<open>int64\<close> number of nanoseconds, whose seconds are a \<open>float64\<close> of the theory \<open>GoFloat\<close>.
\<close>

section \<open>Policies and identities\<close>

definition DimensionGlobal :: string where "DimensionGlobal = ''GLOBAL''"
definition DimensionIP :: string where "DimensionIP = ''IP''"
definition DimensionTenant :: string where "DimensionTenant = ''TENANT''"
definition DimensionUser :: string where "DimensionUser = ''USER''"
definition DimensionOauthClient :: string where "DimensionOauthClient = ''OAUTH_CLIENT''"

record 'f rlPolicy =
  rp_dimension :: string
  rp_algorithm :: string
  rp_tokensPerSecond :: 'f
  rp_burst :: int
  rp_limit :: int
  rp_window :: int
  rp_leakRatePerSecond :: 'f
  rp_capacity :: int

record 'f rlRequest =
  rq_key :: string
  rq_algorithm :: string
  rq_tokensPerSecond :: 'f
  rq_burst :: int
  rq_limit :: int
  rq_window :: int
  rq_leakRatePerSecond :: 'f
  rq_capacity :: int

record rlIdentity =
  ri_tenantId :: int64
  ri_userId :: int64
  ri_userCode :: string

datatype rlErr = Unavailable string | ResourceExhausted | NextError string

text \<open>\<open>strconv.FormatInt(i, 10)\<close>.\<close>

definition format_int :: "int \<Rightarrow> string" where
  "format_int i = (if i < 0 then CHR ''-'' # dec (nat (- i)) else dec (nat i))"

record rlNet =
  rn_isIP :: "string \<Rightarrow> bool"
  rn_splitHostPort :: "string \<Rightarrow> string option"

definition hostIP :: "rlNet \<Rightarrow> string \<Rightarrow> string" where
  "hostIP net address = (case rn_splitHostPort net address of
      Some host \<Rightarrow> if rn_isIP net host then host else []
    | None \<Rightarrow> if rn_isIP net address then address else [])"

definition remoteIP :: "rlNet \<Rightarrow> reqCtx \<Rightarrow> string" where
  "remoteIP net ctx = (case (case rc_transport ctx of None \<Rightarrow> None | Some t \<Rightarrow> tp_request t) of
      Some r \<Rightarrow> hostIP net (hr_remoteAddr r)
    | None \<Rightarrow> (case rc_peer ctx of Some a \<Rightarrow> hostIP net a | None \<Rightarrow> []))"

text \<open>\<open>clientID\<close> is the client id a request carries, if its type has one; \<open>identity\<close> is
  \<open>auth.FromContext\<close>.\<close>

definition policyIdentity ::
  "rlNet \<Rightarrow> ('q \<Rightarrow> string option) \<Rightarrow> (reqCtx \<Rightarrow> (string, rlIdentity option) result)
    \<Rightarrow> reqCtx \<Rightarrow> 'q \<Rightarrow> string \<Rightarrow> (string, string) result" where
  "policyIdentity net clientID identity ctx request dimension =
     (let unavailable = Inl ''rate limit identity is unavailable'' in
      if dimension = DimensionGlobal then Inr ''global''
      else if dimension = DimensionIP then
        (if remoteIP net ctx \<noteq> [] then Inr (remoteIP net ctx) else unavailable)
      else if dimension \<in> {DimensionTenant, DimensionUser, DimensionOauthClient} then
        (if dimension = DimensionOauthClient \<and> stringOf (clientID request) \<noteq> [] then Inr (stringOf (clientID request))
         else (case identity ctx of
             Inl e \<Rightarrow> Inl e
           | Inr None \<Rightarrow> unavailable
           | Inr (Some i) \<Rightarrow>
               if dimension = DimensionTenant then
                 (if 0 < sint (ri_tenantId i) then Inr (format_int (sint (ri_tenantId i))) else unavailable)
               else if dimension = DimensionUser then
                 (if ri_userId i \<noteq> 0 then Inr (format_int (sint (ri_userId i))) else unavailable)
               else (if sint (ri_userId i) < 0 \<and> ri_userCode i \<noteq> [] then Inr (ri_userCode i) else unavailable)))
      else unavailable)"

section \<open>Keys\<close>

definition bucketKey :: "(string \<Rightarrow> string) \<Rightarrow> string \<Rightarrow> string \<Rightarrow> string \<Rightarrow> string" where
  "bucketKey sha operation dimension identity =
     ''api-rate-limit:{'' @ hexEncode (take 12 (sha operation)) @ ''}:'' @ dimension @ '':'' @ hexEncode (sha identity)"

definition effectiveAlgorithm :: "string \<Rightarrow> string \<Rightarrow> string" where
  "effectiveAlgorithm tokenBucket algorithm = (if algorithm = [] then tokenBucket else algorithm)"

definition stateKey :: "string \<Rightarrow> (string \<Rightarrow> string) \<Rightarrow> string \<Rightarrow> string \<Rightarrow> string \<Rightarrow> string \<Rightarrow> string" where
  "stateKey tokenBucket sha operation dimension identity algorithm =
     bucketKey sha operation dimension identity @ (if algorithm \<noteq> tokenBucket then '':'' @ algorithm else [])"

definition policyRequest ::
  "string \<Rightarrow> (string \<Rightarrow> string) \<Rightarrow> (string \<Rightarrow> (string, string) result) \<Rightarrow> string \<Rightarrow> 'f rlPolicy
    \<Rightarrow> (string, 'f rlRequest) result" where
  "policyRequest tokenBucket sha identityFor operation p = bindR (identityFor (rp_dimension p)) (\<lambda>identity.
     let algorithm = effectiveAlgorithm tokenBucket (rp_algorithm p) in
     Inr \<lparr>rq_key = stateKey tokenBucket sha operation (rp_dimension p) identity algorithm, rq_algorithm = algorithm,
          rq_tokensPerSecond = rp_tokensPerSecond p, rq_burst = rp_burst p, rq_limit = rp_limit p,
          rq_window = rp_window p, rq_leakRatePerSecond = rp_leakRatePerSecond p, rq_capacity = rp_capacity p\<rparr>)"

section \<open>The middleware\<close>

text \<open>\<open>math.Ceil\<close> of the seconds in a duration, at least one; a ceiling of so small a \<open>float64\<close> is exact.\<close>

definition retrySeconds :: "int64 \<Rightarrow> int" where
  "retrySeconds retryAfter = (let seconds = \<lceil>durationSeconds retryAfter\<rceil> in if seconds < 1 then 1 else seconds)"

text \<open>The environment: \<open>take\<close> is \<open>TakeRateLimits\<close> of a store that has it.\<close>

record ('q, 'f, 's) rlEnv =
  re_net :: rlNet
  re_clientID :: "'q \<Rightarrow> string option"
  re_identity :: "reqCtx \<Rightarrow> (string, rlIdentity option) result"
  re_sha :: "string \<Rightarrow> string"
  re_tokenBucket :: string
  re_resolver :: "(reqCtx \<Rightarrow> string \<Rightarrow> (string, 'f rlPolicy list) result) option"
  re_store :: "('f rlRequest list \<Rightarrow> 's \<Rightarrow> (string, bool \<times> int64) result \<times> 's) option option"

text \<open>The reply, the Retry-After header that was set, and the state of the store.\<close>

definition NewRateLimit ::
  "('q, 'f, 's) rlEnv \<Rightarrow> (reqCtx \<Rightarrow> 'q \<Rightarrow> (rlErr, 'r) result) \<Rightarrow> reqCtx \<Rightarrow> 'q \<Rightarrow> 's
    \<Rightarrow> (rlErr, 'r) result \<times> string option \<times> 's" where
  "NewRateLimit env handler ctx req s = (case (re_store env, re_resolver env) of
      (Some store, Some resolve) \<Rightarrow> (case rc_transport ctx of
        None \<Rightarrow> (handler ctx req, None, s)
      | Some t \<Rightarrow>
          if tp_operation t = [] then (handler ctx req, None, s)
          else (case resolve ctx (tp_operation t) of
            Inl _ \<Rightarrow> (Inl (Unavailable ''rate limit policy is unavailable''), None, s)
          | Inr [] \<Rightarrow> (handler ctx req, None, s)
          | Inr policies \<Rightarrow> (case store of
              None \<Rightarrow> (Inl (Unavailable ''rate limit storage does not support atomic policies''), None, s)
            | Some takeRateLimits \<Rightarrow>
               (case mapR (policyRequest (re_tokenBucket env) (re_sha env)
                        (policyIdentity (re_net env) (re_clientID env) (re_identity env) ctx req) (tp_operation t)) policies of
                  Inl _ \<Rightarrow> (Inl (Unavailable ''rate limit policy cannot be evaluated''), None, s)
                | Inr requests \<Rightarrow> (case takeRateLimits requests s of
                    (Inl _, s') \<Rightarrow> (Inl (Unavailable ''rate limit storage is unavailable''), None, s')
                  | (Inr (allowed, retryAfter), s') \<Rightarrow>
                      if allowed then (handler ctx req, None, s')
                      else (Inl ResourceExhausted, Some (format_int (retrySeconds retryAfter)), s'))))))
    | _ \<Rightarrow> (handler ctx req, None, s))"

section \<open>Enforcement\<close>

lemma retrySeconds_bounds:
  "1 \<le> retrySeconds d" "sint d \<le> retrySeconds d * 1000000000 + 1000"
  "sint d \<le> 2 ^ 23 * 1000000000 \<Longrightarrow> sint d \<le> retrySeconds d * 1000000000"
  "0 < sint d \<Longrightarrow> (retrySeconds d - 1) * 1000000000 < sint d"
proof -
  let ?t = "durationSeconds d"
  show one: "1 \<le> retrySeconds d" by (simp add: retrySeconds_def Let_def)
  have "sint d \<le> retrySeconds d * 1000000000 + 1000
      \<and> (sint d \<le> 2 ^ 23 * 1000000000 \<longrightarrow> sint d \<le> retrySeconds d * 1000000000)
      \<and> (0 < sint d \<longrightarrow> (retrySeconds d - 1) * 1000000000 < sint d)"
  proof (cases "0 < sint d")
    case False
    then show ?thesis using one by simp
  next
    case True
    define s n where "s = sint d div 1000000000" and "n = sint d mod 1000000000"
    note B = durationSeconds_bounds [OF True s_def n_def]
    note P = durationSeconds_parts(2-6) [OF True s_def n_def]
    have ceil: "\<lceil>?t\<rceil> \<le> retrySeconds d" "retrySeconds d \<le> max 1 \<lceil>?t\<rceil>" by (auto simp: retrySeconds_def Let_def)
    have up: "\<lceil>?t\<rceil> \<le> s + (if n = 0 then 0 else 1)" using B(2) by (auto simp: ceiling_le_iff split: if_splits)
    have "of_int (sint d) \<le> (of_int (\<lceil>?t\<rceil> * 1000000000 + 1000) :: rat)"
      using B(3) le_of_int_ceiling [of ?t] by simp linarith
    then have "sint d \<le> \<lceil>?t\<rceil> * 1000000000 + 1000" by (simp only: of_int_le_iff)
    then have near: "sint d \<le> retrySeconds d * 1000000000 + 1000" using ceil(1) by simp
    have exact: "sint d \<le> retrySeconds d * 1000000000" if small: "sint d \<le> 2 ^ 23 * 1000000000"
    proof (cases "n = 0")
      case True
      have "s \<le> \<lceil>?t\<rceil>" using B(1) by (simp add: le_ceiling_iff less_le_trans [of "of_int s - 1"])
      then show ?thesis using ceil(1) True P(5) by simp
    next
      case False
      then have "0 < n" "s < 2 ^ 23" using P small by simp_all
      then have "s < \<lceil>?t\<rceil>" using B(4) by (simp add: less_ceiling_iff)
      then show ?thesis using ceil(1) P by simp
    qed
    have "(retrySeconds d - 1) * 1000000000 < sint d"
    proof (cases "retrySeconds d = 1")
      case True
      then show ?thesis using \<open>0 < sint d\<close> by simp
    next
      case False
      then have "retrySeconds d \<le> s + (if n = 0 then 0 else 1)" using ceil(2) up one by simp
      then show ?thesis using P by (simp split: if_splits)
    qed
    with near exact show ?thesis by blast
  qed
  then show "sint d \<le> retrySeconds d * 1000000000 + 1000"
    "sint d \<le> 2 ^ 23 * 1000000000 \<Longrightarrow> sint d \<le> retrySeconds d * 1000000000"
    "0 < sint d \<Longrightarrow> (retrySeconds d - 1) * 1000000000 < sint d" by blast+
qed

text \<open>The request a policy becomes: its identity is the one of its dimension for this context and this
  request, its key that of the operation, the dimension and the identity, its numbers those of the policy.\<close>

definition limitsPolicy :: "('q, 'f, 's) rlEnv \<Rightarrow> reqCtx \<Rightarrow> 'q \<Rightarrow> string \<Rightarrow> 'f rlPolicy \<Rightarrow> 'f rlRequest \<Rightarrow> bool" where
  "limitsPolicy env ctx req operation p q \<longleftrightarrow>
     (\<exists>i. policyIdentity (re_net env) (re_clientID env) (re_identity env) ctx req (rp_dimension p) = Inr i
        \<and> rq_key q = stateKey (re_tokenBucket env) (re_sha env) operation (rp_dimension p) i (rq_algorithm q))
   \<and> rq_algorithm q = effectiveAlgorithm (re_tokenBucket env) (rp_algorithm p)
   \<and> rq_tokensPerSecond q = rp_tokensPerSecond p \<and> rq_burst q = rp_burst p \<and> rq_limit q = rp_limit p
   \<and> rq_window q = rp_window p \<and> rq_leakRatePerSecond q = rp_leakRatePerSecond p \<and> rq_capacity q = rp_capacity p"

lemma policyRequest_limits:
  "policyRequest (re_tokenBucket env) (re_sha env) (policyIdentity (re_net env) (re_clientID env) (re_identity env) ctx req) operation p = Inr q
     \<Longrightarrow> limitsPolicy env ctx req operation p q"
  by (auto simp: policyRequest_def limitsPolicy_def bindR_Inr_iff Let_def)

definition rejects :: "('q, 'f, 's) rlEnv \<Rightarrow> reqCtx \<Rightarrow> 'q \<Rightarrow> 's \<Rightarrow> rlErr \<Rightarrow> string option \<Rightarrow> 'r itself \<Rightarrow> bool" where
  "rejects env ctx req s e retry _ \<longleftrightarrow>
     (\<exists>s'. \<forall>handler :: reqCtx \<Rightarrow> 'q \<Rightarrow> (rlErr, 'r) result. NewRateLimit env handler ctx req s = (Inl e, retry, s'))"

text \<open>For an operation with policies: a failure that no handler sees, or the decision of one call of the store.\<close>
lemma limit_decision:
  fixes env :: "('q, 'f, 's) rlEnv"
  assumes "re_store env = Some store" "re_resolver env = Some resolve" "rc_transport ctx = Some t"
    and "tp_operation t \<noteq> []" "resolve ctx (tp_operation t) \<noteq> Inr []"
  shows "(\<exists>msg s1. \<forall>h :: reqCtx \<Rightarrow> 'q \<Rightarrow> (rlErr, 'r) result. NewRateLimit env h ctx req s = (Inl (Unavailable msg), None, s1))
    \<or> (\<exists>policies takeRateLimits requests allowed d s1. resolve ctx (tp_operation t) = Inr policies \<and> store = Some takeRateLimits
      \<and> takeRateLimits requests s = (Inr (allowed, d), s1)
      \<and> list_all2 (limitsPolicy env ctx req (tp_operation t)) policies requests
      \<and> (\<forall>h :: reqCtx \<Rightarrow> 'q \<Rightarrow> (rlErr, 'r) result. NewRateLimit env h ctx req s = (if allowed then (h ctx req, None, s1)
          else (Inl ResourceExhausted, Some (format_int (retrySeconds d)), s1))))"
proof (cases "resolve ctx (tp_operation t)")
  case (Inl x)
  then show ?thesis using assms(1-4) by (simp add: NewRateLimit_def)
next
  case res: (Inr policies)
  then obtain p ps where ps: "policies = p # ps" using assms(5) by (cases policies) auto
  let ?one = "policyRequest (re_tokenBucket env) (re_sha env)
      (policyIdentity (re_net env) (re_clientID env) (re_identity env) ctx req) (tp_operation t)"
  note run = NewRateLimit_def assms(1-4) res ps
  show ?thesis
  proof (cases store)
    case None
    then show ?thesis by (simp add: run)
  next
    case st: (Some takeRateLimits)
    show ?thesis
    proof (cases "mapR ?one (p # ps)")
      case (Inl x)
      then show ?thesis using st by (simp add: run del: mapR.simps)
    next
      case reqs: (Inr requests)
      then have "list_all2 (\<lambda>p q. ?one p = Inr q) policies requests" using ps by (simp add: mapR_Inr_iff del: mapR.simps)
      then have all2: "list_all2 (limitsPolicy env ctx req (tp_operation t)) policies requests"
        by (rule list_all2_mono) (rule policyRequest_limits)
      show ?thesis
      proof (cases "takeRateLimits requests s")
        case tk: (Pair o1 s1)
        show ?thesis
        proof (cases o1)
          case (Inl x)
          then show ?thesis using st reqs tk by (simp add: run del: mapR.simps)
        next
          case (Inr ad)
          then show ?thesis using st reqs all2 tk
            by (intro disjI2 exI [of _ policies] exI [of _ takeRateLimits] exI [of _ requests] exI [of _ "fst ad"] exI [of _ "snd ad"] exI [of _ s1])
              (simp add: run split: prod.splits del: mapR.simps)
        qed
      qed
    qed
  qed
qed

text \<open>C9.
  Rate limits fail closed and are all taken together.  For an operation with policies the handler
  runs exactly when every policy has an identity and one call of the store, with one request per
  policy in their order, allowed them all: each request with the key of the operation, the dimension and
  the identity, the algorithm (token bucket if none is set) and the numbers of its policy.  Every failure
  on the way (policies, identity, storage) refuses the request before the handler.  A refusal by the store
  tells the client to come back after a whole number of seconds, at least one and less than a second more
  than the delay of the store; it is no shorter than that delay up to \<open>2 ^ 23\<close> seconds (97 days), beyond
  which the rounding of \<open>float64\<close> can make it shorter by at most a microsecond.\<close>
theorem ratelimit_enforced:
  fixes handler :: "reqCtx \<Rightarrow> 'q \<Rightarrow> (rlErr, 'r) result" and env :: "('q, 'f, 's) rlEnv"
  assumes "re_store env = Some store" "re_resolver env = Some resolve" "rc_transport ctx = Some t"
    and "tp_operation t \<noteq> []" "resolve ctx (tp_operation t) \<noteq> Inr []"
    and "NewRateLimit env handler ctx req s = (r, retry, s')"
  shows "(\<exists>policies takeRateLimits requests d. resolve ctx (tp_operation t) = Inr policies \<and> store = Some takeRateLimits
       \<and> list_all2 (limitsPolicy env ctx req (tp_operation t)) policies requests
       \<and> takeRateLimits requests s = (Inr (True, d), s') \<and> r = handler ctx req \<and> retry = None)
     \<or> (\<exists>e. rejects env ctx req s e retry TYPE('r) \<and> r = Inl e
          \<and> (e = ResourceExhausted \<and> (\<exists>policies d n takeRateLimits requests. resolve ctx (tp_operation t) = Inr policies
                \<and> store = Some takeRateLimits \<and> list_all2 (limitsPolicy env ctx req (tp_operation t)) policies requests
                \<and> takeRateLimits requests s = (Inr (False, d), s') \<and> retry = Some (format_int n)
                \<and> 1 \<le> n \<and> (0 < sint d \<longrightarrow> n * 1000000000 < sint d + 1000000000)
                \<and> (sint d \<le> 2 ^ 23 * 1000000000 \<longrightarrow> sint d \<le> n * 1000000000) \<and> sint d \<le> n * 1000000000 + 1000)
             \<or> (\<exists>msg. e = Unavailable msg) \<and> retry = None))"
  using limit_decision [where 'r = 'r and 'q = 'q and req = req and s = s, OF assms(1-5)]
proof (elim disjE exE conjE)
  fix msg s1 assume no: "\<forall>h :: reqCtx \<Rightarrow> 'q \<Rightarrow> (rlErr, 'r) result. NewRateLimit env h ctx req s = (Inl (Unavailable msg), None, s1)"
  then have "rejects env ctx req s (Unavailable msg) None TYPE('r)" by (auto simp: rejects_def)
  then show ?thesis using assms(6) no by auto
next
  fix policies takeRateLimits requests allowed d s1
  assume res: "resolve ctx (tp_operation t) = Inr policies" "store = Some takeRateLimits"
      "takeRateLimits requests s = (Inr (allowed, d), s1)" "list_all2 (limitsPolicy env ctx req (tp_operation t)) policies requests"
    and run: "\<forall>h :: reqCtx \<Rightarrow> 'q \<Rightarrow> (rlErr, 'r) result. NewRateLimit env h ctx req s = (if allowed then (h ctx req, None, s1)
       else (Inl ResourceExhausted, Some (format_int (retrySeconds d)), s1))"
  show ?thesis
  proof (cases allowed)
    case True
    then show ?thesis using assms(6) run res
      by (intro disjI1 exI [of _ policies] exI [of _ takeRateLimits] exI [of _ requests] exI [of _ d]) simp
  next
    case False
    have rj: "rejects env ctx req s ResourceExhausted (Some (format_int (retrySeconds d))) TYPE('r)"
      using run False by (auto simp: rejects_def)
    have "0 < sint d \<longrightarrow> retrySeconds d * 1000000000 < sint d + 1000000000" using retrySeconds_bounds(4) [of d] by (simp add: algebra_simps)
    then show ?thesis using rj retrySeconds_bounds(1,2) [of d] retrySeconds_bounds(3) [of d] res assms(6) run False
      by (intro disjI2 exI [of _ ResourceExhausted] conjI disjI1 exI [of _ policies] exI [of _ d] exI [of _ "retrySeconds d"]
          exI [of _ takeRateLimits] exI [of _ requests] impI) simp_all
  qed
qed

text \<open>A store that counts its calls and allows the first.\<close>

definition exampleTransport :: transportInfo where
  "exampleTransport = \<lparr>tp_operation = ''/s/m'', tp_request = None, tp_method = None, tp_header = (\<lambda>_. []), tp_pathTemplate = []\<rparr>"

definition exampleRlCtx :: reqCtx where
  "exampleRlCtx = \<lparr>rc_httpRequestID = [], rc_grpcRequestID = [], rc_span = None, rc_transport = Some exampleTransport,
     rc_claims = None, rc_authz = None, rc_peer = None, rc_locale = None\<rparr>"

definition exampleTake :: "nat rlRequest list \<Rightarrow> nat \<Rightarrow> (string, bool \<times> int64) result \<times> nat" where
  "exampleTake requests n = (Inr (n = 0, 1500000000), n + 1)"

definition exampleRlEnv :: "(unit, nat, nat) rlEnv" where
  "exampleRlEnv = \<lparr>re_net = \<lparr>rn_isIP = (\<lambda>_. True), rn_splitHostPort = (\<lambda>_. None)\<rparr>, re_clientID = (\<lambda>_. None),
     re_identity = (\<lambda>_. Inl ''none''), re_sha = (\<lambda>s. s), re_tokenBucket = ''TOKEN_BUCKET'',
     re_resolver = Some (\<lambda>_ _. Inr [\<lparr>rp_dimension = DimensionGlobal, rp_algorithm = [], rp_tokensPerSecond = 1, rp_burst = 1,
       rp_limit = 0, rp_window = 0, rp_leakRatePerSecond = 0, rp_capacity = 0\<rparr>]), re_store = Some (Some exampleTake)\<rparr>"

theorem ratelimit_enforced_witness:
  "rejects exampleRlEnv exampleRlCtx () 1 ResourceExhausted (Some ''2'') TYPE(nat)
   \<and> NewRateLimit exampleRlEnv (\<lambda>_ _. Inr (5 :: nat)) exampleRlCtx () 0 = (Inr 5, None, 1)"
proof -
  have ok: "NewRateLimit exampleRlEnv (\<lambda>_ _. Inr (5 :: nat)) exampleRlCtx () 0 = (Inr 5, None, 1)" by code_simp
  have "sint (1500000000 :: int64) = 1500000000" by (simp add: sint64_uint)
  then have "retrySeconds 1500000000 = 2" using retrySeconds_bounds [of 1500000000] by simp
  moreover have "format_int 2 = ''2''" by code_simp
  ultimately have no: "NewRateLimit exampleRlEnv (\<lambda>_ _. Inr (5 :: nat)) exampleRlCtx () 1 = (Inl ResourceExhausted, Some ''2'', 2)"
    by (simp add: NewRateLimit_def exampleRlEnv_def exampleRlCtx_def exampleTransport_def policyRequest_def policyIdentity_def
        exampleTake_def Let_def)
  obtain resolve where r: "re_resolver exampleRlEnv = Some resolve" "resolve exampleRlCtx (tp_operation exampleTransport) \<noteq> Inr []"
    by (simp add: exampleRlEnv_def)
  have t: "re_store exampleRlEnv = Some (Some exampleTake)" "rc_transport exampleRlCtx = Some exampleTransport"
    "tp_operation exampleTransport \<noteq> []"
    by (simp_all add: exampleRlEnv_def exampleRlCtx_def exampleTransport_def)
  from ratelimit_enforced [OF t(1) r(1) t(2,3) r(2) no] ok show ?thesis by auto
qed

section \<open>The state keys separate what they should\<close>

text \<open>Two policies share a limiter state only when they agree on everything the limit is per: if the
  keys of two requests are equal, the operations have the same 96-bit hash, and the dimensions, the
  hashes of the identities and the algorithms are equal; so limits of different users, tenants,
  addresses, dimensions or algorithms never mix, short of a collision of SHA-256.\<close>
theorem stateKey_separates:
  assumes "\<forall>s. length (sha s) = 32" "CHR '':'' \<notin> set dimension" "CHR '':'' \<notin> set dimension'"
    and "stateKey tokenBucket sha operation dimension identity algorithm
       = stateKey tokenBucket sha operation' dimension' identity' algorithm'"
  shows "take 12 (sha operation) = take 12 (sha operation') \<and> dimension = dimension'
     \<and> sha identity = sha identity' \<and> algorithm = algorithm'"
proof -
  let ?tail = "\<lambda>d i a. d @ '':'' @ hexEncode (sha i) @ (if a \<noteq> tokenBucket then '':'' @ a else [])"
  have "hexEncode (take 12 (sha operation)) @ ''}:'' @ ?tail dimension identity algorithm
      = hexEncode (take 12 (sha operation')) @ ''}:'' @ ?tail dimension' identity' algorithm'"
    using assms(4) by (simp add: stateKey_def bucketKey_def)
  then have h: "hexEncode (take 12 (sha operation)) = hexEncode (take 12 (sha operation'))"
    and t: "?tail dimension identity algorithm = ?tail dimension' identity' algorithm'"
    using assms(1) by (simp_all add: append_eq_append_conv length_hexEncode)
  let ?rest = "\<lambda>i a. hexEncode (sha i) @ (if a \<noteq> tokenBucket then CHR '':'' # a else [])"
  have "cut_char (CHR '':'') (dimension @ CHR '':'' # ?rest identity algorithm) = (dimension, ?rest identity algorithm, True)"
    "cut_char (CHR '':'') (dimension' @ CHR '':'' # ?rest identity' algorithm') = (dimension', ?rest identity' algorithm', True)"
    using assms(2,3) by (simp_all only: cut_char_found simp_thms)
  moreover have "dimension @ CHR '':'' # ?rest identity algorithm = dimension' @ CHR '':'' # ?rest identity' algorithm'"
    using t by (simp only: append_Cons append_Nil)
  ultimately have d: "dimension = dimension'" and r: "?rest identity algorithm = ?rest identity' algorithm'"
    by (metis prod.inject)+
  have "length (hexEncode (sha identity)) = length (hexEncode (sha identity'))" using assms(1) by (simp add: length_hexEncode)
  then have "hexEncode (sha identity) = hexEncode (sha identity')"
    and "(if algorithm \<noteq> tokenBucket then CHR '':'' # algorithm else []) = (if algorithm' \<noteq> tokenBucket then CHR '':'' # algorithm' else [])"
    using r append_eq_append_conv by blast+
  then show ?thesis using h d by (auto simp: hexEncode_inj split: if_splits)
qed

theorem stateKey_separates_witness:
  "stateKey ''TB'' (\<lambda>s. replicate 32 (CHR ''h'')) ''/a'' ''IP'' ''1.1.1.1'' ''TB''
     \<noteq> stateKey ''TB'' (\<lambda>s. replicate 32 (CHR ''h'')) ''/a'' ''USER'' ''1.1.1.1'' ''TB''"
  using stateKey_separates [of "\<lambda>s. replicate 32 (CHR ''h'')" "''IP''" "''USER''" "''TB''" "''/a''" "''1.1.1.1''" "''TB''" "''/a''" "''1.1.1.1''" "''TB''"]
  by auto

end
