(* ===== verification/ServerChain.thy ===== *)
theory ServerChain
  imports I18n AccessLog Auth TenantScope Validate RateLimit
begin

text \<open>
  Model of \<open>NewHTTPMiddleware\<close> and \<open>NewGRPCMiddleware\<close> (\<open>server/http.go\<close>, \<open>server/grpc.go\<close>): the
  chain of the middlewares modelled in the theories of localization, request log, authentication,
  tenant scope, validation and rate limit.  Each has a handler type of its own there; here they are
  brought to one, in which a handler takes the context, the request and the world (the state of the rate
  limit store, the retry header, the events logged) and returns a reply or an error and the new world.
  The three injections convert the errors of a middleware to the one error type of the chain.
\<close>

section \<open>One handler type\<close>

record 's srvWorld =
  sw_store :: 's
  sw_retry :: "string option"
  sw_events :: "LogEvent list"

type_synonym ('x, 'a, 'r, 's) srvHandler =
  "reqCtx \<Rightarrow> 'a TenantScope.request \<Rightarrow> 's srvWorld \<Rightarrow> ('x, 'r) result \<times> 's srvWorld"

text \<open>A middleware that calls its handler at most once and returns its outcome.\<close>

definition liftAuth ::
  "(authErr \<Rightarrow> 'x) \<Rightarrow> (('a TenantScope.request, ('x, 'r) result \<times> 's srvWorld) handler
      \<Rightarrow> ('a TenantScope.request, ('x, 'r) result \<times> 's srvWorld) handler)
    \<Rightarrow> ('x, 'a, 'r, 's) srvHandler \<Rightarrow> ('x, 'a, 'r, 's) srvHandler" where
  "liftAuth conv mw h ctx q w = (case mw (\<lambda>c r. Inr (h c r w)) ctx q of
      Inl e \<Rightarrow> (Inl (conv e), w) | Inr outcome \<Rightarrow> outcome)"

definition liftTenant ::
  "(tenant_error \<Rightarrow> 'x) \<Rightarrow> string \<Rightarrow> (reqCtx \<Rightarrow> (string, auth_info option) result)
    \<Rightarrow> ('x, 'a, 'r, 's) srvHandler \<Rightarrow> ('x, 'a, 'r, 's) srvHandler" where
  "liftTenant conv dc identity h ctx q w = (case NewTenantScopeMiddleware dc (\<lambda>r. Inr (h ctx r w)) (identity ctx) q of
      Inl e \<Rightarrow> (Inl (conv e), w) | Inr outcome \<Rightarrow> outcome)"

definition liftValidate ::
  "'x errOps \<Rightarrow> (pmsg \<Rightarrow> 'x option) \<Rightarrow> ('x \<Rightarrow> violation list option)
    \<Rightarrow> ('x, 'a, 'r, 's) srvHandler \<Rightarrow> ('x, 'a, 'r, 's) srvHandler" where
  "liftValidate ops validate asValidation h ctx q w =
     (case NewValidateMiddleware ops validate asValidation (\<lambda>c r. Inr (h c r w)) ctx q of
        Inl e \<Rightarrow> (Inl e, w) | Inr outcome \<Rightarrow> outcome)"

text \<open>The rate limit takes its state before the handler runs: it is run with a handler that returns its
  arguments, and the handler then in the world it leaves.\<close>

definition liftLimit ::
  "(rlErr \<Rightarrow> 'x) \<Rightarrow> ('a TenantScope.request, 'f, 's) rlEnv
    \<Rightarrow> ('x, 'a, 'r, 's) srvHandler \<Rightarrow> ('x, 'a, 'r, 's) srvHandler" where
  "liftLimit conv env h ctx q w = (case NewRateLimit env (\<lambda>c r. Inr (c, r)) ctx q (sw_store w) of
      (Inl e, retry, s') \<Rightarrow> (Inl (conv e), w\<lparr>sw_store := s', sw_retry := retry\<rparr>)
    | (Inr (c, r), retry, s') \<Rightarrow> h c r (w\<lparr>sw_store := s'\<rparr>))"

text \<open>The request log sees the outcome of the handler and adds one event.\<close>

definition liftLog ::
  "logEnvironment \<Rightarrow> (int32 \<Rightarrow> string) \<Rightarrow> (int64 \<Rightarrow> string) \<Rightarrow> ('a TenantScope.request \<Rightarrow> AccessLog.request) \<Rightarrow> ('x \<Rightarrow> kratosError)
    \<Rightarrow> ('x, 'a, 'r, 's) srvHandler \<Rightarrow> ('x, 'a, 'r, 's) srvHandler" where
  "liftLog env showCode showCost view logError h ctx q w =
     (case logServer env showCode showCost (\<lambda>c _. let outcome = h c q w in
           (outcome, case fst outcome of Inl e \<Rightarrow> Some (logError e) | Inr _ \<Rightarrow> None)) ctx (view q) of
        (((reply, w'), _), event, _, _) \<Rightarrow> (reply, w'\<lparr>sw_events := sw_events w' @ [event]\<rparr>))"

text \<open>Localization chooses the context of the handler and rewrites its error: the middleware is run once
  with a handler that returns its arguments and once with one that returns the outcome.\<close>

definition liftI18n ::
  "'x errOps \<Rightarrow> ('b, 'n) i18nLib \<Rightarrow> 'b i18n option \<Rightarrow> (string \<Rightarrow> (string, string) result)
    \<Rightarrow> (('x, 'a, 'r, 's) srvHandler \<Rightarrow> ('x, 'a, 'r, 's) srvHandler) option" where
  "liftI18n ops lib catalog cacheGet = (case NewI18nCatalogMiddleware ops lib catalog cacheGet of
      None \<Rightarrow> None
    | Some before \<Rightarrow> Some (\<lambda>h ctx q w. (case before (\<lambda>c r. Inr (c, r)) ctx q of
          Inl e \<Rightarrow> (Inl e, w)
        | Inr (c, r) \<Rightarrow> (case h c r w of (reply, w') \<Rightarrow>
            (case NewI18nCatalogMiddleware ops lib catalog cacheGet of
               None \<Rightarrow> (reply, w') | Some after \<Rightarrow> (after (\<lambda>_ _. reply) ctx q, w'))))))"

section \<open>The chain\<close>

text \<open>What the two functions are given: the libraries, and the components that may be missing.\<close>

record ('x, 'a, 'r, 's, 'b, 'n, 'f) chainEnv =
  ch_ops :: "'x errOps"
  ch_lib :: "('b, 'n) i18nLib"
  ch_catalog :: "'b i18n option"
  ch_cacheGet :: "string \<Rightarrow> (string, string) result"
  ch_log :: logEnvironment
  ch_showCode :: "int32 \<Rightarrow> string"
  ch_showCost :: "int64 \<Rightarrow> string"
  ch_view :: "'a TenantScope.request \<Rightarrow> AccessLog.request"
  ch_logError :: "'x \<Rightarrow> kratosError"
  ch_authenticator :: "((authnErr \<Rightarrow> authErr) \<Rightarrow> ('a TenantScope.request, ('x, 'r) result \<times> 's srvWorld) handler
     \<Rightarrow> ('a TenantScope.request, ('x, 'r) result \<times> 's srvWorld) handler) option"
  ch_authorizer :: "isAuthorized option"
  ch_userToken :: "(int64 \<Rightarrow> string \<Rightarrow> bool) option"
  ch_jwt :: "jwtConfig option"
  ch_authz :: "isAuthorized \<Rightarrow> ('a TenantScope.request, ('x, 'r) result \<times> 's srvWorld) handler
     \<Rightarrow> ('a TenantScope.request, ('x, 'r) result \<times> 's srvWorld) handler"
  ch_optionalAuth :: "('a TenantScope.request, ('x, 'r) result \<times> 's srvWorld) handler
     \<Rightarrow> ('a TenantScope.request, ('x, 'r) result \<times> 's srvWorld) handler"
  ch_compile :: "string \<Rightarrow> (string \<Rightarrow> string option) option"
  ch_audit :: "isAuthorized \<Rightarrow> isAuthorized"
  ch_defaultTenant :: string
  ch_identity :: "reqCtx \<Rightarrow> (string, auth_info option) result"
  ch_validate :: "pmsg \<Rightarrow> 'x option"
  ch_asValidation :: "'x \<Rightarrow> violation list option"
  ch_limit :: "('a TenantScope.request, 'f, 's) rlEnv"
  ch_authError :: "authErr \<Rightarrow> 'x"
  ch_tenantError :: "tenant_error \<Rightarrow> 'x"
  ch_limitError :: "rlErr \<Rightarrow> 'x"

text \<open>The switches of one protocol: \<open>None\<close> when the configuration, the server, the protocol or its
  middleware part is missing.\<close>

record switches =
  sx_enableLogging :: bool
  sx_enableValidate :: bool

definition enabled :: "(switches \<Rightarrow> bool) \<Rightarrow> switches option \<Rightarrow> bool" where
  "enabled get cfg \<longleftrightarrow> (case cfg of None \<Rightarrow> False | Some sw \<Rightarrow> get sw)"

definition authPart ::
  "('x, 'a, 'r, 's, 'b, 'n, 'f) chainEnv \<Rightarrow> (('x, 'a, 'r, 's) srvHandler \<Rightarrow> ('x, 'a, 'r, 's) srvHandler) list" where
  "authPart env = (case (ch_authenticator env, ch_authorizer env, ch_userToken env, ch_jwt env) of
      (Some authn, Some isAuth, Some tokenValid, Some jwt) \<Rightarrow>
        [liftAuth (ch_authError env) (NewAuthMiddleware authn (ch_authz env) (ch_optionalAuth env) (ch_compile env) tokenValid (ch_audit env isAuth) jwt)]
    | _ \<Rightarrow> [])"

definition i18nPart :: "('x, 'a, 'r, 's, 'b, 'n, 'f) chainEnv \<Rightarrow> (('x, 'a, 'r, 's) srvHandler \<Rightarrow> ('x, 'a, 'r, 's) srvHandler) list" where
  "i18nPart env = (case liftI18n (ch_ops env) (ch_lib env) (ch_catalog env) (ch_cacheGet env) of None \<Rightarrow> [] | Some m \<Rightarrow> [m])"

definition logPart :: "switches option \<Rightarrow> ('x, 'a, 'r, 's, 'b, 'n, 'f) chainEnv \<Rightarrow> (('x, 'a, 'r, 's) srvHandler \<Rightarrow> ('x, 'a, 'r, 's) srvHandler) list" where
  "logPart cfg env = (if enabled sx_enableLogging cfg \<and> ch_authenticator env \<noteq> None
      then [liftLog (ch_log env) (ch_showCode env) (ch_showCost env) (ch_view env) (ch_logError env)] else [])"

definition tenantPart :: "('x, 'a, 'r, 's, 'b, 'n, 'f) chainEnv \<Rightarrow> (('x, 'a, 'r, 's) srvHandler \<Rightarrow> ('x, 'a, 'r, 's) srvHandler) list" where
  "tenantPart env = [liftTenant (ch_tenantError env) (ch_defaultTenant env) (ch_identity env)]"

definition validatePart :: "switches option \<Rightarrow> ('x, 'a, 'r, 's, 'b, 'n, 'f) chainEnv \<Rightarrow> (('x, 'a, 'r, 's) srvHandler \<Rightarrow> ('x, 'a, 'r, 's) srvHandler) list" where
  "validatePart cfg env =
     (if enabled sx_enableValidate cfg then [liftValidate (ch_ops env) (ch_validate env) (ch_asValidation env)] else [])"

definition limitPart :: "('x, 'a, 'r, 's, 'b, 'n, 'f) chainEnv \<Rightarrow> (('x, 'a, 'r, 's) srvHandler \<Rightarrow> ('x, 'a, 'r, 's) srvHandler) list" where
  "limitPart env = [liftLimit (ch_limitError env) (ch_limit env)]"

definition serverMiddlewares :: "switches option \<Rightarrow> ('x, 'a, 'r, 's, 'b, 'n, 'f) chainEnv \<Rightarrow> (('x, 'a, 'r, 's) srvHandler \<Rightarrow> ('x, 'a, 'r, 's) srvHandler) list" where
  "serverMiddlewares cfg env =
     i18nPart env @ logPart cfg env @ authPart env @ tenantPart env @ validatePart cfg env @ limitPart env"

text \<open>The two functions differ in the part of the configuration they read.\<close>

record serverSwitches =
  sv_http :: "switches option"
  sv_grpc :: "switches option"

definition NewHTTPMiddleware ::
  "serverSwitches \<Rightarrow> ('x, 'a, 'r, 's, 'b, 'n, 'f) chainEnv \<Rightarrow> (('x, 'a, 'r, 's) srvHandler \<Rightarrow> ('x, 'a, 'r, 's) srvHandler) list" where
  "NewHTTPMiddleware cfg env = serverMiddlewares (sv_http cfg) env"

definition NewGRPCMiddleware ::
  "serverSwitches \<Rightarrow> ('x, 'a, 'r, 's, 'b, 'n, 'f) chainEnv \<Rightarrow> (('x, 'a, 'r, 's) srvHandler \<Rightarrow> ('x, 'a, 'r, 's) srvHandler) list" where
  "NewGRPCMiddleware cfg env = serverMiddlewares (sv_grpc cfg) env"

text \<open>\<open>middleware.Chain\<close>: the first middleware is the outermost.\<close>

definition chained :: "('h \<Rightarrow> 'h) list \<Rightarrow> 'h \<Rightarrow> 'h" where
  "chained mws h = foldr (\<lambda>m h. m h) mws h"

section \<open>Calls through a middleware\<close>

text \<open>A middleware admits a call as another one, with a function for its outcome that keeps replies and
  failures, or it answers itself.\<close>

definition admits ::
  "(('x, 'a, 'r, 's) srvHandler \<Rightarrow> ('x, 'a, 'r, 's) srvHandler) \<Rightarrow> reqCtx \<Rightarrow> 'a TenantScope.request \<Rightarrow> 's srvWorld
    \<Rightarrow> reqCtx \<Rightarrow> 'a TenantScope.request \<Rightarrow> 's srvWorld \<Rightarrow> (('x, 'r) result \<times> 's srvWorld \<Rightarrow> ('x, 'r) result \<times> 's srvWorld) \<Rightarrow> bool" where
  "admits m ctx q w ctx' q' w' post \<longleftrightarrow> (\<forall>h. m h ctx q w = post (h ctx' q' w'))
     \<and> (\<forall>reply v. fst (post (Inr reply, v)) = Inr reply) \<and> (\<forall>e v. isl (fst (post (Inl e, v))))"

definition answers ::
  "(('x, 'a, 'r, 's) srvHandler \<Rightarrow> ('x, 'a, 'r, 's) srvHandler) \<Rightarrow> reqCtx \<Rightarrow> 'a TenantScope.request \<Rightarrow> 's srvWorld \<Rightarrow> bool" where
  "answers m ctx q w \<longleftrightarrow> (\<exists>e w'. \<forall>h. m h ctx q w = (Inl e, w'))"

lemma chained_simps [simp]: "chained [] h = h" "chained (m # ms) h = m (chained ms h)" "chained (ms @ ns) h = chained ms (chained ns h)"
  by (simp_all add: chained_def)

lemma admits_id: "(\<And>h. m h ctx q w = h ctx' q' w') \<Longrightarrow> admits m ctx q w ctx' q' w' id"
  by (simp add: admits_def)

lemma admits_comp:
  assumes "admits m ctx q w c1 q1 w1 p1" "admits n c1 q1 w1 c2 q2 w2 p2"
  shows "admits (\<lambda>h. m (n h)) ctx q w c2 q2 w2 (p1 \<circ> p2)"
proof -
  have keep: "\<exists>v'. p2 (Inr reply, v) = (Inr reply, v')" for reply v
    using assms(2) unfolding admits_def by (metis prod.collapse)
  have lose: "\<exists>e' v'. p2 (Inl e, v) = (Inl e', v')" for e v
    using assms(2) unfolding admits_def by (metis prod.collapse isl_def)
  have "fst (p1 (p2 (Inr reply, v))) = Inr reply" for reply v
    using keep [of reply v] assms(1) by (auto simp: admits_def)
  moreover have "isl (fst (p1 (p2 (Inl e, v))))" for e v
    using lose [of e v] assms(1) by (auto simp: admits_def)
  ultimately show ?thesis using assms unfolding admits_def by simp
qed

lemma answers_comp:
  assumes "admits m ctx q w c1 q1 w1 p1" "answers n c1 q1 w1"
  shows "answers (\<lambda>h. m (n h)) ctx q w"
proof -
  obtain e w2 where n: "\<And>h. n h c1 q1 w1 = (Inl e, w2)" using assms(2) by (auto simp: answers_def)
  obtain e' w3 where "p1 (Inl e, w2) = (Inl e', w3)"
    using assms(1) unfolding admits_def by (metis prod.collapse isl_def)
  then show ?thesis using assms(1) n by (auto simp: answers_def admits_def)
qed

lemma answers_first: "answers m ctx q w \<Longrightarrow> answers (\<lambda>h. m (n h)) ctx q w"
  by (auto simp: answers_def)

section \<open>What each middleware admits\<close>

lemma i18n_admits:
  assumes "liftI18n ops lib catalog cacheGet = Some m"
  shows "\<exists>loc post. admits m ctx q w (WithLocale ctx loc) q w post"
proof -
  let ?loc = "case rc_transport ctx of None \<Rightarrow> [] | Some t \<Rightarrow> tp_header t ''Accept-Language''"
  let ?fb = "case cacheGet I18nDefaultLanguage of Inl _ \<Rightarrow> ''zh-CN'' | Inr v \<Rightarrow> v"
  let ?local = "\<lambda>e. case LocalizeError ops lib catalog ?loc ?fb (Some e) of Some e' \<Rightarrow> Inl e' | None \<Rightarrow> Inl e"
  have "m h ctx q w = (\<lambda>(reply, v). (case reply of Inl e \<Rightarrow> ?local e | Inr x \<Rightarrow> Inr x, v)) (h (WithLocale ctx ?loc) q w)" for h
    using assms by (auto simp: liftI18n_def NewI18nCatalogMiddleware_def Let_def split: if_splits sum.splits prod.splits option.splits)
  then show ?thesis
    by (intro exI [of _ ?loc] exI [of _ "\<lambda>(reply, v). (case reply of Inl e \<Rightarrow> ?local e | Inr x \<Rightarrow> Inr x, v)"])
      (simp add: admits_def split: option.splits)
qed

lemma log_admits:
  fixes w :: "'s srvWorld" and q :: "'a TenantScope.request" and logError :: "'x \<Rightarrow> kratosError"
  shows "\<exists>post :: ('x, 'r) result \<times> 's srvWorld \<Rightarrow> ('x, 'r) result \<times> 's srvWorld.
    admits (liftLog env showCode showCost view logError) ctx q w ctx q w post"
proof -
  have "liftLog env showCode showCost view logError h ctx q w
      = (\<lambda>(reply, v). (reply, v\<lparr>sw_events := sw_events v @ [outcomeEvent env (case reply of Inl e \<Rightarrow> Some (logError e) | Inr _ \<Rightarrow> None)
           (requestEvent env ctx (view q))]\<rparr>)) (h ctx q w)" for h :: "('x, 'a, 'r, 's) srvHandler"
    by (simp add: liftLog_def logServer_def Let_def split: prod.splits)
  then show ?thesis
    by (intro exI [of _ "\<lambda>(reply, v). (reply, v\<lparr>sw_events := sw_events v @ [outcomeEvent env (case reply of Inl e \<Rightarrow> Some (logError e) | Inr _ \<Rightarrow> None)
           (requestEvent env ctx (view q))]\<rparr>)"]) (simp add: admits_def)
qed

lemma auth_admits:
  fixes authn :: "(authnErr \<Rightarrow> authErr) \<Rightarrow> ('a TenantScope.request, ('x, 'r) result \<times> 's srvWorld) handler
     \<Rightarrow> ('a TenantScope.request, ('x, 'r) result \<times> 's srvWorld) handler"
  assumes "authnLaws authn authentic" "authzLaws authz"
    and "\<forall>t. rc_transport ctx = Some t \<longrightarrow> \<not> matchWhiteList compile (jwt_optionalAuth cfg) (tp_operation t)
      \<and> \<not> matchWhiteList compile (jwt_whiteList cfg) (tp_operation t)"
  shows "answers (liftAuth conv (NewAuthMiddleware authn authz optionalAuth compile tokenValid isAuth cfg)) ctx q w
    \<or> (\<exists>ctx'. admits (liftAuth conv (NewAuthMiddleware authn authz optionalAuth compile tokenValid isAuth cfg)) ctx q w ctx' q w id
         \<and> authorizedCall authentic tokenValid isAuth ctx ctx')"
proof -
  have full: "NewAuthMiddleware authn authz optionalAuth compile tokenValid isAuth cfg h ctx q = fullAuth authn authz tokenValid isAuth h ctx q" for h
    using assms(3) by (auto simp: NewAuthMiddleware_def split: option.splits)
  from fullAuth_cases [OF assms(1,2), of tokenValid isAuth ctx q] show ?thesis
  proof (elim disjE exE conjE)
    fix e assume "fails (fullAuth authn authz tokenValid isAuth) ctx q e"
    then show ?thesis by (auto simp: answers_def liftAuth_def full fails_def)
  next
    fix ctx' assume "passes (fullAuth authn authz tokenValid isAuth) ctx q ctx'" "authorizedCall authentic tokenValid isAuth ctx ctx'"
    then show ?thesis by (intro disjI2 exI [of _ ctx'] conjI admits_id) (simp_all add: liftAuth_def full passes_def)
  qed
qed

text \<open>The identity that \<open>auth.FromContext\<close> reads off the claims of the context.\<close>

definition claimIdentity :: "tokenClaims \<Rightarrow> auth_info" where
  "claimIdentity cl = \<lparr>ai_tenant_id = sint (int64Of (tk_tenantID cl)), ai_tenant_code = stringOf (tk_tenantCode cl)\<rparr>"

text \<open>A request the tenant scope reaches everywhere (\<open>plainMsg\<close>), and what it makes of it for the tenant of
  the claims: for the default tenant the request as it was sent; otherwise every \<open>tenant_id\<close> that was zero
  is the tenant, nothing else has changed, and then each is the tenant or negative.\<close>

definition plainRequest :: "'a TenantScope.request \<Rightarrow> bool" where
  "plainRequest q \<longleftrightarrow> (case q of OtherRequest _ \<Rightarrow> True | ProtoRequest m \<Rightarrow> plainMsg [] m)"

definition scopedTo :: "string \<Rightarrow> tokenClaims \<Rightarrow> 'a TenantScope.request \<Rightarrow> 'a TenantScope.request \<Rightarrow> bool" where
  "scopedTo dc cl q q' \<longleftrightarrow> (case q of
      OtherRequest x \<Rightarrow> q' = q
    | ProtoRequest m \<Rightarrow>
        if stringOf (tk_tenantCode cl) = dc then q' = q
        else (let tenant = sint (int64Of (tk_tenantID cl)) in
          q' = ProtoRequest (fillMsg tenant m) \<and> (\<forall>i \<in> set (tidsMsg (fillMsg tenant m)). i = tenant \<or> i < 0)))"

definition scopedCopy :: "string \<Rightarrow> tokenClaims \<Rightarrow> 'a TenantScope.request \<Rightarrow> 'a TenantScope.request \<Rightarrow> bool" where
  "scopedCopy dc cl q q' \<longleftrightarrow> (plainRequest q \<or> stringOf (tk_tenantCode cl) = dc \<longrightarrow> scopedTo dc cl q q')"

lemma tenant_admits:
  assumes "rc_claims ctx = Some cl" "identity ctx = Inr (Some (claimIdentity cl))"
  shows "answers (liftTenant conv dc identity) ctx q w
    \<or> (\<exists>q'. admits (liftTenant conv dc identity) ctx q w ctx q' w id \<and> scopedCopy dc cl q q')"
proof (cases q)
  case (OtherRequest x)
  then show ?thesis
    by (intro disjI2 exI [of _ q] conjI admits_id) (simp_all add: liftTenant_def NewTenantScopeMiddleware_def scopedCopy_def scopedTo_def)
next
  case q: (ProtoRequest m)
  show ?thesis
  proof (cases "messageHasTenantField [] m")
    case False
    then have "plainMsg [] m \<Longrightarrow> tidsMsg m = []" by (rule no_tenant_field_tids)
    then have "scopedCopy dc cl q q" by (auto simp: scopedCopy_def scopedTo_def plainRequest_def q fill_no_tids Let_def)
    with False show ?thesis
      by (intro disjI2 exI [of _ q] conjI admits_id) (simp_all add: liftTenant_def NewTenantScopeMiddleware_def q)
  next
    case True
    show ?thesis
    proof (cases "applyTenantScope dc (claimIdentity cl) [] m")
      case (Inl e)
      then show ?thesis using True by (auto simp: answers_def liftTenant_def NewTenantScopeMiddleware_def q assms)
    next
      case (Inr m')
      have "scopedCopy dc cl q (ProtoRequest m')"
      proof (cases "stringOf (tk_tenantCode cl) = dc")
        case True
        then show ?thesis using apply_default(1) [OF Inr] by (simp add: scopedCopy_def scopedTo_def q claimIdentity_def)
      next
        case False
        then have code: "ai_tenant_code (claimIdentity cl) \<noteq> dc" by (simp add: claimIdentity_def)
        show ?thesis using apply_fill(1) [OF Inr code] apply_scoped(1) [OF Inr code] False
          by (auto simp: scopedCopy_def scopedTo_def plainRequest_def q claimIdentity_def scopedID_def Let_def)
      qed
      then show ?thesis using True Inr
        by (intro disjI2 exI [of _ "ProtoRequest m'"] conjI admits_id)
          (simp_all add: liftTenant_def NewTenantScopeMiddleware_def q assms)
    qed
  qed
qed

definition valid :: "(pmsg \<Rightarrow> 'x option) \<Rightarrow> 'a TenantScope.request \<Rightarrow> bool" where
  "valid validate q \<longleftrightarrow> (case q of ProtoRequest m \<Rightarrow> validate m = None | OtherRequest _ \<Rightarrow> True)"

lemma validate_admits:
  "answers (liftValidate ops validate asValidation) ctx q w
    \<or> admits (liftValidate ops validate asValidation) ctx q w ctx q w id \<and> valid validate q"
proof (cases q)
  case (OtherRequest x)
  then show ?thesis by (simp add: admits_def liftValidate_def NewValidateMiddleware_def valid_def)
next
  case (ProtoRequest m)
  then show ?thesis
    by (cases "validate m") (auto simp: answers_def admits_def liftValidate_def NewValidateMiddleware_def valid_def split: option.splits)
qed

text \<open>The rate limit lets a call through: it does not apply, or one call of the store allowed the
  requests of all policies, each made for this context and this request.\<close>

definition rateAdmitted :: "('q, 'f, 's) rlEnv \<Rightarrow> reqCtx \<Rightarrow> 'q \<Rightarrow> 's \<Rightarrow> 's \<Rightarrow> bool" where
  "rateAdmitted env ctx req s s' \<longleftrightarrow>
     (s' = s \<and> (re_store env = None \<or> re_resolver env = None \<or> rc_transport ctx = None
        \<or> (\<exists>t resolve. rc_transport ctx = Some t \<and> re_resolver env = Some resolve
             \<and> (tp_operation t = [] \<or> resolve ctx (tp_operation t) = Inr []))))
   \<or> (\<exists>t resolve policies takeRateLimits requests d. rc_transport ctx = Some t \<and> re_resolver env = Some resolve
        \<and> resolve ctx (tp_operation t) = Inr policies \<and> re_store env = Some (Some takeRateLimits)
        \<and> list_all2 (limitsPolicy env ctx req (tp_operation t)) policies requests \<and> takeRateLimits requests s = (Inr (True, d), s'))"

text \<open>The identities of the tenant and user dimensions are those of the claims.\<close>

definition limitsCaller :: "('q, 'f, 's) rlEnv \<Rightarrow> tokenClaims \<Rightarrow> reqCtx \<Rightarrow> 'q \<Rightarrow> bool" where
  "limitsCaller env cl ctx req \<longleftrightarrow> (\<forall>dimension i.
     policyIdentity (re_net env) (re_clientID env) (re_identity env) ctx req dimension = Inr i \<longrightarrow>
       (dimension = DimensionTenant \<longrightarrow> i = format_int (sint (int64Of (tk_tenantID cl))))
     \<and> (dimension = DimensionUser \<longrightarrow> i = format_int (sint (int64Of (tk_userID cl)))))"

lemma limitsCallerI:
  assumes "re_identity env ctx = Inr (Some i)" "ri_tenantId i = int64Of (tk_tenantID cl)" "ri_userId i = int64Of (tk_userID cl)"
  shows "limitsCaller env cl ctx req"
  using assms by (auto simp: limitsCaller_def policyIdentity_def Let_def DimensionGlobal_def DimensionIP_def DimensionTenant_def
      DimensionUser_def DimensionOauthClient_def split: if_splits)

lemma rateAdmitted_run:
  assumes "NewRateLimit env (\<lambda>c r. Inr (c, r)) ctx q s = (Inr cr, retry, s')"
  shows "cr = (ctx, q) \<and> rateAdmitted env ctx q s s'"
proof (cases "\<exists>store resolve t. re_store env = Some store \<and> re_resolver env = Some resolve \<and> rc_transport ctx = Some t
    \<and> tp_operation t \<noteq> [] \<and> resolve ctx (tp_operation t) \<noteq> Inr []")
  case False
  then show ?thesis using assms
    by (auto simp: NewRateLimit_def rateAdmitted_def split: option.splits if_splits sum.splits list.splits)
next
  case True
  then obtain store resolve t where env: "re_store env = Some store" "re_resolver env = Some resolve" "rc_transport ctx = Some t"
    "tp_operation t \<noteq> []" "resolve ctx (tp_operation t) \<noteq> Inr []" by blast
  let ?h = "\<lambda>c r. Inr (c, r)"
  from limit_decision [OF env, where 'r = "reqCtx \<times> 'a" and req = q and s = s] show ?thesis
  proof (elim disjE exE conjE)
    fix msg s1 assume "\<forall>h :: reqCtx \<Rightarrow> 'a \<Rightarrow> (rlErr, reqCtx \<times> 'a) result. NewRateLimit env h ctx q s = (Inl (Unavailable msg), None, s1)"
    from spec [OF this, of ?h] assms show ?thesis by simp
  next
    fix policies takeRateLimits requests allowed d s1
    assume p: "resolve ctx (tp_operation t) = Inr policies" "store = Some takeRateLimits" "takeRateLimits requests s = (Inr (allowed, d), s1)"
        "list_all2 (limitsPolicy env ctx q (tp_operation t)) policies requests"
      and run: "\<forall>h :: reqCtx \<Rightarrow> 'a \<Rightarrow> (rlErr, reqCtx \<times> 'a) result. NewRateLimit env h ctx q s = (if allowed then (h ctx q, None, s1)
          else (Inl ResourceExhausted, Some (format_int (retrySeconds d)), s1))"
    from spec [OF run, of ?h] assms have "allowed" "cr = (ctx, q)" "s' = s1" by (auto split: if_splits)
    then show ?thesis using p env(1-3) unfolding rateAdmitted_def
      by (intro conjI disjI2 exI [of _ t] exI [of _ resolve] exI [of _ policies] exI [of _ takeRateLimits] exI [of _ requests] exI [of _ d]) simp_all
  qed
qed

lemma limit_admits:
  "answers (liftLimit conv env) ctx q w
    \<or> (\<exists>s'. admits (liftLimit conv env) ctx q w ctx q (w\<lparr>sw_store := s'\<rparr>) id \<and> rateAdmitted env ctx q (sw_store w) s')"
proof (cases "NewRateLimit env (\<lambda>c r. Inr (c, r)) ctx q (sw_store w)")
  case (fields outcome retry s')
  show ?thesis
  proof (cases outcome)
    case (Inl e)
    then show ?thesis using fields by (auto simp: answers_def liftLimit_def)
  next
    case (Inr cr)
    then show ?thesis using fields rateAdmitted_run [of env ctx q "sw_store w" cr retry s']
      by (intro disjI2 exI [of _ s'] conjI admits_id) (auto simp: liftLimit_def)
  qed
qed

section \<open>The chain protects its handler\<close>

text \<open>A middleware answers itself, or it admits a call for which \<open>P\<close> holds.\<close>

definition guards ::
  "(('x, 'a, 'r, 's) srvHandler \<Rightarrow> ('x, 'a, 'r, 's) srvHandler) \<Rightarrow> reqCtx \<Rightarrow> 'a TenantScope.request \<Rightarrow> 's srvWorld
    \<Rightarrow> (reqCtx \<Rightarrow> 'a TenantScope.request \<Rightarrow> 's srvWorld \<Rightarrow> bool) \<Rightarrow> bool" where
  "guards m ctx q w P \<longleftrightarrow> answers m ctx q w \<or> (\<exists>ctx' q' w' post. admits m ctx q w ctx' q' w' post \<and> P ctx' q' w')"

lemma guardsI: "admits m ctx q w ctx' q' w' post \<Longrightarrow> P ctx' q' w' \<Longrightarrow> guards m ctx q w P"
  by (auto simp: guards_def)

lemma guards_nil: "P ctx q w \<Longrightarrow> guards (chained []) ctx q w P"
  by (rule guardsI [OF admits_id]) simp_all

lemma guards_one: "guards m ctx q w P \<Longrightarrow> guards (chained [m]) ctx q w P"
  by (simp add: guards_def answers_def admits_def)

lemma guards_append:
  assumes "guards (chained ms) ctx q w P" "\<And>c r v. P c r v \<Longrightarrow> guards (chained ns) c r v Q"
  shows "guards (chained (ms @ ns)) ctx q w Q"
proof -
  have split: "chained (ms @ ns) = (\<lambda>h. chained ms (chained ns h))" by (rule ext) simp
  from assms(1) show ?thesis unfolding guards_def [of "chained ms"]
  proof (elim disjE exE conjE)
    assume "answers (chained ms) ctx q w"
    then have "answers (\<lambda>h. chained ms (chained ns h)) ctx q w" by (rule answers_first)
    then show ?thesis by (simp only: guards_def split simp_thms)
  next
    fix c r v post assume a: "admits (chained ms) ctx q w c r v post" and "P c r v"
    then have "guards (chained ns) c r v Q" using assms(2) by blast
    then show ?thesis unfolding guards_def [of "chained ns"]
    proof (elim disjE exE conjE)
      assume "answers (chained ns) c r v"
      then have "answers (\<lambda>h. chained ms (chained ns h)) ctx q w" by (rule answers_comp [OF a])
      then show ?thesis by (simp only: guards_def split simp_thms)
    next
      fix c2 r2 v2 post2 assume b: "admits (chained ns) c r v c2 r2 v2 post2" and q: "Q c2 r2 v2"
      show ?thesis unfolding split by (rule guardsI [OF admits_comp [OF a b]]) (rule q)
    qed
  qed
qed

lemma authorizedCall_claims: "authorizedCall authentic tokenValid isAuth ctx ctx' \<Longrightarrow> \<exists>cl. rc_claims ctx' = Some cl"
  by (auto simp: authorizedCall_def)

text \<open>The context of the request, with the locale that localization may have put there.\<close>

definition localized :: "reqCtx \<Rightarrow> reqCtx \<Rightarrow> bool" where
  "localized ctx ctx0 \<longleftrightarrow> ctx0 = ctx \<or> (\<exists>loc. ctx0 = WithLocale ctx loc)"

lemma guards_weaken: "guards m ctx q w P \<Longrightarrow> (\<And>c r v. P c r v \<Longrightarrow> Q c r v) \<Longrightarrow> guards m ctx q w Q"
  unfolding guards_def by blast

text \<open>What each part of the chain guarantees of the calls it admits.\<close>

lemma i18n_guards:
  fixes env :: "('x, 'a, 'r, 's, 'b, 'n, 'f) chainEnv"
  shows "guards (chained (i18nPart env)) ctx q w (\<lambda>c r v. localized ctx c \<and> r = q \<and> v = w)"
proof (cases "liftI18n (ch_ops env) (ch_lib env) (ch_catalog env) (ch_cacheGet env) :: (('x, 'a, 'r, 's) srvHandler \<Rightarrow> _) option")
  case None
  then show ?thesis by (simp add: i18nPart_def guards_nil localized_def)
next
  case (Some m)
  obtain loc post where "admits m ctx q w (WithLocale ctx loc) q w post" using i18n_admits [OF Some] by blast
  then have "guards m ctx q w (\<lambda>c r v. localized ctx c \<and> r = q \<and> v = w)" by (rule guardsI) (auto simp: localized_def)
  then show ?thesis using Some by (simp only: i18nPart_def option.case guards_one)
qed

lemma log_guards:
  fixes env :: "('x, 'a, 'r, 's, 'b, 'n, 'f) chainEnv"
  assumes "P ctx q w"
  shows "guards (chained (logPart sw env)) ctx q w P"
proof -
  obtain post :: "('x, 'r) result \<times> 's srvWorld \<Rightarrow> ('x, 'r) result \<times> 's srvWorld" where
    "admits (liftLog (ch_log env) (ch_showCode env) (ch_showCost env) (ch_view env) (ch_logError env)) ctx q w ctx q w post"
    using log_admits by blast
  then have "guards (chained [liftLog (ch_log env) (ch_showCode env) (ch_showCost env) (ch_view env) (ch_logError env)
      :: ('x, 'a, 'r, 's) srvHandler \<Rightarrow> _]) ctx q w P"
    by (intro guards_one guardsI) (use assms in simp_all)
  then show ?thesis using assms by (simp only: logPart_def guards_nil split: if_splits) simp
qed

lemma auth_guards:
  fixes env :: "('x, 'a, 'r, 's, 'b, 'n, 'f) chainEnv"
  assumes "ch_authenticator env = Some authn" "ch_authorizer env = Some isAuth" "ch_userToken env = Some tokenValid" "ch_jwt env = Some jwt"
    and "authnLaws authn authentic" "authzLaws (ch_authz env)" "ch_audit env isAuth = isAuth"
    and "\<forall>t. rc_transport ctx = Some t \<longrightarrow> \<not> matchWhiteList (ch_compile env) (jwt_optionalAuth jwt) (tp_operation t)
      \<and> \<not> matchWhiteList (ch_compile env) (jwt_whiteList jwt) (tp_operation t)"
  shows "guards (chained (authPart env)) ctx q w (\<lambda>c r v. authorizedCall authentic tokenValid isAuth ctx c \<and> r = q \<and> v = w)"
proof -
  from auth_admits [OF assms(5,6,8), of "ch_authError env" "ch_optionalAuth env" tokenValid isAuth q w]
  have "guards (liftAuth (ch_authError env) (NewAuthMiddleware authn (ch_authz env) (ch_optionalAuth env) (ch_compile env) tokenValid isAuth jwt))
      ctx q w (\<lambda>c r v. authorizedCall authentic tokenValid isAuth ctx c \<and> r = q \<and> v = w)"
    unfolding guards_def by blast
  then show ?thesis by (simp only: authPart_def assms(1-4,7) option.case prod.case guards_one)
qed

lemma tenant_guards:
  fixes env :: "('x, 'a, 'r, 's, 'b, 'n, 'f) chainEnv"
  assumes "rc_claims ctx = Some cl" "ch_identity env ctx = Inr (Some (claimIdentity cl))"
  shows "guards (chained (tenantPart env)) ctx q w (\<lambda>c r v. c = ctx \<and> scopedCopy (ch_defaultTenant env) cl q r \<and> v = w)"
  using tenant_admits [where identity = "ch_identity env", OF assms, of "ch_tenantError env" "ch_defaultTenant env" q w]
  unfolding tenantPart_def by (intro guards_one) (unfold guards_def, blast)

lemma validate_guards:
  fixes env :: "('x, 'a, 'r, 's, 'b, 'n, 'f) chainEnv"
  assumes "enabled sx_enableValidate sw"
  shows "guards (chained (validatePart sw env)) ctx q w (\<lambda>c r v. c = ctx \<and> r = q \<and> valid (ch_validate env) q \<and> v = w)"
proof -
  have "guards (liftValidate (ch_ops env) (ch_validate env) (ch_asValidation env) :: ('x, 'a, 'r, 's) srvHandler \<Rightarrow> _) ctx q w
      (\<lambda>c r v. c = ctx \<and> r = q \<and> valid (ch_validate env) q \<and> v = w)"
    using validate_admits [of "ch_ops env" "ch_validate env" "ch_asValidation env" ctx q w] unfolding guards_def by blast
  then show ?thesis by (simp only: validatePart_def assms if_True guards_one)
qed

lemma limit_guards:
  fixes env :: "('x, 'a, 'r, 's, 'b, 'n, 'f) chainEnv"
  shows "guards (chained (limitPart env)) ctx q w
     (\<lambda>c r v. c = ctx \<and> r = q \<and> (\<exists>s'. v = w\<lparr>sw_store := s'\<rparr> \<and> rateAdmitted (ch_limit env) ctx q (sw_store w) s'))"
proof -
  have "guards (liftLimit (ch_limitError env) (ch_limit env) :: ('x, 'a, 'r, 's) srvHandler \<Rightarrow> _) ctx q w
      (\<lambda>c r v. c = ctx \<and> r = q \<and> (\<exists>s'. v = w\<lparr>sw_store := s'\<rparr> \<and> rateAdmitted (ch_limit env) ctx q (sw_store w) s'))"
    using limit_admits [of "ch_limitError env" "ch_limit env" ctx q w] unfolding guards_def by blast
  then show ?thesis by (simp only: limitPart_def guards_one)
qed

text \<open>C1.
  The chain of a server protects its handler.  With authentication mounted and validation enabled, for
  HTTP and for gRPC alike and whatever else is mounted, a request that no white list names is either
  answered with an error that does not depend on the handler, or reaches the handler exactly once, whose
  reply is passed on; then all of this holds of that one call.  The caller is authorized: authentic
  claims, a token that is still valid, the engine allowed this role this method of this operation.  For a
  caller of the default tenant the request is the original.  For any other, if it is plain (no message type
  recurs on a path, and no tenant ids are below a message-typed field named \<open>tenant_id\<close>), it is the original
  with every \<open>tenant_id\<close> that was zero set to the tenant of those very claims, and each \<open>tenant_id\<close> in it is
  that tenant or negative.  It is this copy that was validated.  And the rate limits of the operation do
  not apply, or were taken together in one call of the store that allowed them all: one request per policy,
  with the key and the numbers of the policy, for the identity of the dimension in this context, which for
  the tenant and user dimensions is that of those claims (\<open>auth.FromContext\<close> reading the tenant and the user off the claims).\<close>
theorem chain_secure:
  fixes env :: "('x, 'a, 'r, 's, 'b, 'n, 'f) chainEnv"
  assumes "ch_authenticator env = Some authn" "ch_authorizer env = Some isAuth" "ch_userToken env = Some tokenValid" "ch_jwt env = Some jwt"
    and "authnLaws authn authentic" "authzLaws (ch_authz env)"
    and "ch_audit env = (\<lambda>i c s a r p. fst (auditedIsAuthorized engine splitHost denied startedAt durationMs i c s a r p))"
    and "\<forall>t. rc_transport ctx = Some t \<longrightarrow> \<not> matchWhiteList (ch_compile env) (jwt_optionalAuth jwt) (tp_operation t)
      \<and> \<not> matchWhiteList (ch_compile env) (jwt_whiteList jwt) (tp_operation t)"
    and "\<And>c cl. rc_claims c = Some cl \<Longrightarrow> ch_identity env c = Inr (Some (claimIdentity cl))
       \<and> (\<exists>i. re_identity (ch_limit env) c = Inr (Some i) \<and> ri_tenantId i = int64Of (tk_tenantID cl) \<and> ri_userId i = int64Of (tk_userID cl))"
    and "mws = NewHTTPMiddleware cfg env \<and> enabled sx_enableValidate (sv_http cfg)
       \<or> mws = NewGRPCMiddleware cfg env \<and> enabled sx_enableValidate (sv_grpc cfg)"
  shows "answers (chained mws) ctx q w
    \<or> (\<exists>ctx0 ctx' cl q' s' post. admits (chained mws) ctx q w ctx' q' (w\<lparr>sw_store := s'\<rparr>) post
         \<and> localized ctx ctx0 \<and> authorizedCall authentic tokenValid isAuth ctx0 ctx'
         \<and> rc_claims ctx' = Some cl
         \<and> (plainRequest q \<or> stringOf (tk_tenantCode cl) = ch_defaultTenant env \<longrightarrow> scopedTo (ch_defaultTenant env) cl q q')
         \<and> valid (ch_validate env) q' \<and> rateAdmitted (ch_limit env) ctx' q' (sw_store w) s'
         \<and> limitsCaller (ch_limit env) cl ctx' q')"
proof -
  obtain sw where mws: "mws = serverMiddlewares sw env" and on: "enabled sx_enableValidate sw"
    using assms(10) by (auto simp: NewHTTPMiddleware_def NewGRPCMiddleware_def)
  let ?called = "\<lambda>c. \<exists>ctx0. localized ctx ctx0 \<and> authorizedCall authentic tokenValid isAuth ctx0 c"
  let ?scoped = "\<lambda>c r. \<exists>cl. rc_claims c = Some cl \<and> scopedCopy (ch_defaultTenant env) cl q r"
  let ?P1 = "\<lambda>c r v. localized ctx c \<and> r = q \<and> v = w"
  let ?P2 = "\<lambda>c r v. ?called c \<and> r = q \<and> v = w"
  let ?P3 = "\<lambda>c r v. ?called c \<and> ?scoped c r \<and> v = w"
  let ?P4 = "\<lambda>c r v. ?called c \<and> ?scoped c r \<and> valid (ch_validate env) r \<and> v = w"
  let ?P5 = "\<lambda>c r v. ?called c \<and> ?scoped c r \<and> valid (ch_validate env) r
      \<and> (\<exists>s'. v = w\<lparr>sw_store := s'\<rparr> \<and> rateAdmitted (ch_limit env) c r (sw_store w) s')"
  have audit: "ch_audit env isAuth = isAuth"
    by (simp add: assms(7) auditedIsAuthorized_def Let_def)
  have i18n: "guards (chained (i18nPart env)) ctx q w ?P1" by (rule i18n_guards)
  have log: "guards (chained (logPart sw env)) c r v ?P1" if "?P1 c r v" for c r v by (rule log_guards) (rule that)
  have auth: "guards (chained (authPart env)) c r v ?P2" if pre: "?P1 c r v" for c r v
  proof (rule guards_weaken)
    show "guards (chained (authPart env)) c r v (\<lambda>c' r' v'. authorizedCall authentic tokenValid isAuth c c' \<and> r' = r \<and> v' = v)"
      by (rule auth_guards [OF assms(1-6) audit]) (use pre assms(8) in \<open>auto simp: localized_def WithLocale_def\<close>)
  qed (use pre in blast)
  have tenant: "guards (chained (tenantPart env)) c r v ?P3" if pre: "?P2 c r v" for c r v
  proof -
    from pre have "\<exists>cl. rc_claims c = Some cl" using authorizedCall_claims by blast
    then obtain cl where cl: "rc_claims c = Some cl" ..
    show ?thesis by (rule guards_weaken [OF tenant_guards [OF cl conjunct1 [OF assms(9) [OF cl]]]]) (use pre cl in blast)
  qed
  have validate: "guards (chained (validatePart sw env)) c r v ?P4" if pre: "?P3 c r v" for c r v
    by (rule guards_weaken [OF validate_guards [OF on]]) (use pre in blast)
  have limit: "guards (chained (limitPart env)) c r v ?P5" if pre: "?P4 c r v" for c r v
    by (rule guards_weaken [OF limit_guards]) (use pre in blast)
  have "guards (chained mws) ctx q w ?P5"
    unfolding mws serverMiddlewares_def
    by (rule guards_append [OF i18n] guards_append [OF log] guards_append [OF auth] guards_append [OF tenant]
        guards_append [OF validate] limit | assumption)+
  then show ?thesis unfolding guards_def
  proof (elim disjE exE conjE)
    fix ctx' q' w' post ctx0 cl s'
    assume adm: "admits (chained mws) ctx q w ctx' q' w' post" "w' = w\<lparr>sw_store := s'\<rparr>" and cl: "rc_claims ctx' = Some cl"
      and rest: "localized ctx ctx0" "authorizedCall authentic tokenValid isAuth ctx0 ctx'" "scopedCopy (ch_defaultTenant env) cl q q'"
        "valid (ch_validate env) q'" "rateAdmitted (ch_limit env) ctx' q' (sw_store w) s'"
    obtain i where "re_identity (ch_limit env) ctx' = Inr (Some i)" "ri_tenantId i = int64Of (tk_tenantID cl)" "ri_userId i = int64Of (tk_userID cl)"
      using assms(9) [OF cl] by blast
    then have "limitsCaller (ch_limit env) cl ctx' q'" by (rule limitsCallerI)
    then show ?thesis using adm cl rest unfolding scopedCopy_def
      by (intro disjI2 exI [of _ ctx0] exI [of _ ctx'] exI [of _ cl] exI [of _ q'] exI [of _ s'] exI [of _ post]) simp
  qed (rule disjI1)
qed

text \<open>A chain with authentication, tenant scope, validation and a rate limit of one call.\<close>

definition exampleTakeOnce :: "unit rlRequest list \<Rightarrow> nat \<Rightarrow> (string, bool \<times> int64) result \<times> nat" where
  "exampleTakeOnce requests n = (Inr (n = 0, 1500000000), n + length requests)"

definition exampleLimit :: "(unit TenantScope.request, unit, nat) rlEnv" where
  "exampleLimit = \<lparr>re_net = \<lparr>rn_isIP = (\<lambda>_. True), rn_splitHostPort = (\<lambda>_. None)\<rparr>, re_clientID = (\<lambda>_. None),
     re_identity = (\<lambda>c. case rc_claims c of None \<Rightarrow> Inl ''none''
       | Some cl \<Rightarrow> Inr (Some \<lparr>ri_tenantId = int64Of (tk_tenantID cl), ri_userId = int64Of (tk_userID cl), ri_userCode = []\<rparr>)),
     re_sha = (\<lambda>s. s), re_tokenBucket = ''TOKEN_BUCKET'',
     re_resolver = Some (\<lambda>_ _. Inr [\<lparr>rp_dimension = DimensionTenant, rp_algorithm = [], rp_tokensPerSecond = (), rp_burst = 1,
       rp_limit = 0, rp_window = 0, rp_leakRatePerSecond = (), rp_capacity = 0\<rparr>]), re_store = Some (Some exampleTakeOnce)\<rparr>"

definition exampleLogEnv :: logEnvironment where
  "exampleLogEnv = \<lparr>lg_startTime = 0, lg_costTime = 0, lg_payload = (\<lambda>_. None), lg_isIP = (\<lambda>_. False), lg_splitHostPort = (\<lambda>_. None),
     lg_quote = (\<lambda>_. None), lg_decode = (\<lambda>_. None), lg_encode = (\<lambda>_. None)\<rparr>"

definition exampleChain :: "(demoErr, unit, nat, nat, nat, nat, unit) chainEnv" where
  "exampleChain = \<lparr>ch_ops = demoOps, ch_lib = demoLib, ch_catalog = None, ch_cacheGet = (\<lambda>_. Inl ''miss''),
     ch_log = exampleLogEnv, ch_showCode = (\<lambda>_. []), ch_showCost = (\<lambda>_. []), ch_view = (\<lambda>_. NilRequest),
     ch_logError = (\<lambda>_. \<lparr>kx_code = 500, kx_reason = [], kx_stack = []\<rparr>),
     ch_authenticator = Some exampleAuthn, ch_authorizer = Some (\<lambda>_ s a r p. Inr (r = ''/s/m'')),
     ch_userToken = Some (\<lambda>i tok. tok = ''x''), ch_jwt = Some \<lparr>jwt_optionalAuth = None, jwt_whiteList = None\<rparr>,
     ch_authz = exampleAuthz, ch_optionalAuth = (\<lambda>h. h), ch_compile = (\<lambda>_. None),
     ch_audit = (\<lambda>i c s a r p. fst (auditedIsAuthorized [] (\<lambda>_. None) [] 0 0 i c s a r p)),
     ch_defaultTenant = ''default'',
     ch_identity = (\<lambda>c. case rc_claims c of None \<Rightarrow> Inl [] | Some cl \<Rightarrow> Inr (Some (claimIdentity cl))),
     ch_validate = (\<lambda>m. if m = PMsg ''M'' True [PField ''tenant_id'' ''tenantId'' (PInt64 False True 1)] then None else Some (Text ''bad'')),
     ch_asValidation = (\<lambda>_. None), ch_limit = exampleLimit,
     ch_authError = (\<lambda>_. Text ''auth''), ch_tenantError = (\<lambda>_. Text ''tenant''), ch_limitError = (\<lambda>_. Text ''limit'')\<rparr>"

definition exampleSwitches :: serverSwitches where
  "exampleSwitches = \<lparr>sv_http = Some \<lparr>sx_enableLogging = True, sx_enableValidate = True\<rparr>, sv_grpc = None\<rparr>"

definition exampleMessage :: "unit TenantScope.request" where
  "exampleMessage = ProtoRequest (PMsg ''M'' True [PField ''tenant_id'' ''tenantId'' (PInt64 False False 0)])"

theorem chain_secure_witness:
  "\<exists>ctx0 ctx' cl q' s' post. admits (chained (NewHTTPMiddleware exampleSwitches exampleChain)) exampleReq exampleMessage
       \<lparr>sw_store = 0, sw_retry = None, sw_events = []\<rparr> ctx' q' \<lparr>sw_store = s', sw_retry = None, sw_events = []\<rparr> post
     \<and> authorizedCall (\<lambda>ctx cl. cl = exampleClaims2) (\<lambda>i tok. tok = ''x'') (\<lambda>_ s a r p. Inr (r = ''/s/m'')) ctx0 ctx'
     \<and> rc_claims ctx' = Some cl \<and> scopedTo ''default'' cl exampleMessage q' \<and> limitsCaller exampleLimit cl ctx' q'"
proof -
  let ?mws = "NewHTTPMiddleware exampleSwitches exampleChain" and ?w = "\<lparr>sw_store = 0 :: nat, sw_retry = None, sw_events = []\<rparr>"
  have "case fst (chained ?mws (\<lambda>_ _ w. (Inr 5, w)) exampleReq exampleMessage ?w) of Inl _ \<Rightarrow> False | Inr n \<Rightarrow> n = 5" by code_simp
  then have run: "\<not> isl (fst (chained ?mws (\<lambda>_ _ w. (Inr 5, w)) exampleReq exampleMessage ?w))" by (auto split: sum.splits)
  have no: "\<not> answers (chained ?mws) exampleReq exampleMessage ?w"
  proof
    assume "answers (chained ?mws) exampleReq exampleMessage ?w"
    then obtain e w' where "\<And>h. chained ?mws h exampleReq exampleMessage ?w = (Inl e, w')" unfolding answers_def by blast
    with run show False by simp
  qed
  have open_: "\<forall>t. rc_transport exampleReq = Some t \<longrightarrow>
       \<not> matchWhiteList (ch_compile exampleChain) (jwt_optionalAuth \<lparr>jwt_optionalAuth = None, jwt_whiteList = None\<rparr>) (tp_operation t)
     \<and> \<not> matchWhiteList (ch_compile exampleChain) (jwt_whiteList \<lparr>jwt_optionalAuth = None, jwt_whiteList = None\<rparr>) (tp_operation t)"
    by (simp add: matchWhiteList_def)
  have on: "?mws = NewHTTPMiddleware exampleSwitches exampleChain \<and> enabled sx_enableValidate (sv_http exampleSwitches)
       \<or> ?mws = NewGRPCMiddleware exampleSwitches exampleChain \<and> enabled sx_enableValidate (sv_grpc exampleSwitches)"
    by (simp add: exampleSwitches_def enabled_def)
  have authz: "authzLaws (ch_authz exampleChain)" by (simp add: exampleChain_def exampleAuthz_laws)
  have fields: "ch_authenticator exampleChain = Some exampleAuthn" "ch_authorizer exampleChain = Some (\<lambda>_ s a r p. Inr (r = ''/s/m''))"
    "ch_userToken exampleChain = Some (\<lambda>i tok. tok = ''x'')" "ch_jwt exampleChain = Some \<lparr>jwt_optionalAuth = None, jwt_whiteList = None\<rparr>"
    "ch_audit exampleChain = (\<lambda>i c s a r p. fst (auditedIsAuthorized [] (\<lambda>_. None) [] 0 0 i c s a r p))"
    "ch_defaultTenant exampleChain = ''default''"
    "ch_limit exampleChain = exampleLimit"
    by (simp_all add: exampleChain_def)
  have ids: "ch_identity exampleChain c = Inr (Some (claimIdentity cl))
       \<and> (\<exists>i. re_identity (ch_limit exampleChain) c = Inr (Some i) \<and> ri_tenantId i = int64Of (tk_tenantID cl) \<and> ri_userId i = int64Of (tk_userID cl))"
    if "rc_claims c = Some cl" for c cl using that by (simp add: exampleChain_def exampleLimit_def)
  have plain: "plainRequest exampleMessage" by (simp add: plainRequest_def exampleMessage_def tenantFieldName_def)
  from chain_secure [OF fields(1-4) exampleAuthn_laws authz fields(5) open_ ids on, where q = exampleMessage and w = ?w] no plain
  show ?thesis unfolding fields(6,7) by fastforce
qed

end
