(* ===== verification/LocalGrpc.thy ===== *)
theory LocalGrpc
  imports GoChannel Metadata
begin

text \<open>
  Model of \<open>client/localgrpc/conn.go\<close>, the in-process gRPC connection: registration and unary
  calls here, streams in \<open>LocalStream\<close>.  A protobuf message is its full name and its content,
  any other Go value is \<open>Other\<close>.  Generated handlers, interceptors and the call context are
  parameters; a panic of a handler is an outcome of its own.
\<close>

section \<open>Messages and errors\<close>

datatype 'c anyMsg = Msg (msg_name: string) (msg_content: 'c) | Other string

datatype rpcErr =
  Unimplemented string | HandlerFailure string | NotProtobuf | NameMismatch string string
| InternalStatus string | EndOfFile | ContextError string | StatusError string

text \<open>The content of the source replaces that of the target; names must agree.\<close>

definition copyMessage :: "'c anyMsg \<Rightarrow> 'c anyMsg \<Rightarrow> (rpcErr, 'c anyMsg) result" where
  "copyMessage target source = (case (target, source) of
      (Msg n _, Msg n' c) \<Rightarrow> if n \<noteq> n' then Inl (NameMismatch n' n) else Inr (Msg n c)
    | _ \<Rightarrow> Inl NotProtobuf)"

section \<open>The connection\<close>

record responseMetadata =
  rm_header :: md
  rm_trailer :: md

text \<open>A handler decodes its request with the function it is given, may write response metadata
  through the context, and returns, fails or panics.\<close>

datatype 'c outcome = Returns "'c anyMsg" | Fails rpcErr | Panics string

type_synonym 'c decoder = "'c anyMsg \<Rightarrow> (rpcErr, 'c anyMsg) result"
type_synonym ('x, 'i, 'c) unaryHandler =
  "'x \<Rightarrow> 'c decoder \<Rightarrow> 'i option \<Rightarrow> responseMetadata \<Rightarrow> 'c outcome \<times> responseMetadata"
type_synonym ('x, 'c) invoker =
  "'x \<Rightarrow> string \<Rightarrow> 'c anyMsg \<Rightarrow> 'c anyMsg \<Rightarrow> responseMetadata \<Rightarrow> (rpcErr, 'c anyMsg) result \<times> responseMetadata"

record ('x, 'i, 'c, 'st, 'si, 'sc) conn =
  cn_methods :: "string \<Rightarrow> ('x, 'i, 'c) unaryHandler option"
  cn_streams :: "string \<Rightarrow> 'st option"
  cn_interceptor :: "'i option"
  cn_streamInterceptor :: "'si option"
  cn_clientInterceptors :: "(('x, 'c) invoker \<Rightarrow> ('x, 'c) invoker) option list"
  cn_streamClientInterceptors :: "'sc option list"

text \<open>A nil option is skipped; the server interceptors are replaced, the client ones appended.\<close>

datatype ('x, 'i, 'c, 'si, 'sc) connOption =
  WithUnaryInterceptor 'i | WithStreamInterceptor 'si
| WithUnaryClientInterceptor "(('x, 'c) invoker \<Rightarrow> ('x, 'c) invoker) option list"
| WithStreamClientInterceptor "'sc option list"

definition applyOption ::
  "('x, 'i, 'c, 'si, 'sc) connOption option \<Rightarrow> ('x, 'i, 'c, 'st, 'si, 'sc) conn \<Rightarrow> ('x, 'i, 'c, 'st, 'si, 'sc) conn" where
  "applyOption opt c = (case opt of None \<Rightarrow> c
    | Some (WithUnaryInterceptor i) \<Rightarrow> c\<lparr>cn_interceptor := Some i\<rparr>
    | Some (WithStreamInterceptor i) \<Rightarrow> c\<lparr>cn_streamInterceptor := Some i\<rparr>
    | Some (WithUnaryClientInterceptor is) \<Rightarrow> c\<lparr>cn_clientInterceptors := cn_clientInterceptors c @ is\<rparr>
    | Some (WithStreamClientInterceptor is) \<Rightarrow> c\<lparr>cn_streamClientInterceptors := cn_streamClientInterceptors c @ is\<rparr>)"

definition NewConn :: "('x, 'i, 'c, 'si, 'sc) connOption option list \<Rightarrow> ('x, 'i, 'c, 'st, 'si, 'sc) conn" where
  "NewConn options = fold applyOption options
     \<lparr>cn_methods = (\<lambda>_. None), cn_streams = (\<lambda>_. None), cn_interceptor = None, cn_streamInterceptor = None,
      cn_clientInterceptors = [], cn_streamClientInterceptors = []\<rparr>"

section \<open>Registration\<close>

record ('x, 'i, 'c, 'st) serviceDesc =
  sd_name :: string
  sd_methods :: "(string \<times> ('x, 'i, 'c) unaryHandler) list"
  sd_streams :: "(string \<times> 'st) list"

datatype regPanic = NilDescription | NilService string | DuplicateMethod string

definition fullMethod :: "string \<Rightarrow> string \<Rightarrow> string" where
  "fullMethod service name = ''/'' @ service @ ''/'' @ name"

definition taken :: "('x, 'i, 'c, 'st, 'si, 'sc) conn \<Rightarrow> string \<Rightarrow> bool" where
  "taken c m \<longleftrightarrow> cn_methods c m \<noteq> None \<or> cn_streams c m \<noteq> None"

text \<open>The connection after the call, and the panic that interrupted it, if any: the lock is released
  by a deferred call, and what was registered before the panic stays.\<close>

fun registerUnary ::
  "string \<Rightarrow> (string \<times> ('x, 'i, 'c) unaryHandler) list \<Rightarrow> ('x, 'i, 'c, 'st, 'si, 'sc) conn
    \<Rightarrow> regPanic option \<times> ('x, 'i, 'c, 'st, 'si, 'sc) conn" where
  "registerUnary service [] c = (None, c)"
| "registerUnary service ((name, h) # ms) c =
     (if taken c (fullMethod service name) then (Some (DuplicateMethod (fullMethod service name)), c)
      else registerUnary service ms (c\<lparr>cn_methods := (cn_methods c)(fullMethod service name \<mapsto> h)\<rparr>))"

fun registerStreams ::
  "string \<Rightarrow> (string \<times> 'st) list \<Rightarrow> ('x, 'i, 'c, 'st, 'si, 'sc) conn \<Rightarrow> regPanic option \<times> ('x, 'i, 'c, 'st, 'si, 'sc) conn" where
  "registerStreams service [] c = (None, c)"
| "registerStreams service ((name, h) # ms) c =
     (if taken c (fullMethod service name) then (Some (DuplicateMethod (fullMethod service name)), c)
      else registerStreams service ms (c\<lparr>cn_streams := (cn_streams c)(fullMethod service name \<mapsto> h)\<rparr>))"

definition RegisterService ::
  "('x, 'i, 'c, 'st) serviceDesc option \<Rightarrow> bool \<Rightarrow> ('x, 'i, 'c, 'st, 'si, 'sc) conn
    \<Rightarrow> regPanic option \<times> ('x, 'i, 'c, 'st, 'si, 'sc) conn" where
  "RegisterService description service c = (case description of
      None \<Rightarrow> (Some NilDescription, c)
    | Some d \<Rightarrow>
        if \<not> service then (Some (NilService (sd_name d)), c)
        else (case registerUnary (sd_name d) (sd_methods d) c of
            (Some p, c') \<Rightarrow> (Some p, c')
          | (None, c') \<Rightarrow> registerStreams (sd_name d) (sd_streams d) c'))"

section \<open>Unary calls\<close>

definition invoke :: "('x, 'i, 'c, 'st, 'si, 'sc) conn \<Rightarrow> ('x, 'c) invoker" where
  "invoke c ctx method args reply rm = (case cn_methods c method of
      None \<Rightarrow> (Inl (Unimplemented method), rm)
    | Some handler \<Rightarrow> (case handler ctx (\<lambda>request. copyMessage request args) (cn_interceptor c) rm of
        (Panics v, rm') \<Rightarrow> (Inl (HandlerFailure v), rm')
      | (Fails e, rm') \<Rightarrow> (Inl e, rm')
      | (Returns response, rm') \<Rightarrow> (copyMessage reply response, rm')))"

text \<open>Interceptors run in their order, the first outermost; nil ones are skipped.\<close>

definition chainClient :: "(('x, 'c) invoker \<Rightarrow> ('x, 'c) invoker) option list \<Rightarrow> ('x, 'c) invoker \<Rightarrow> ('x, 'c) invoker" where
  "chainClient interceptors base = foldr (\<lambda>i next. case i of None \<Rightarrow> next | Some f \<Rightarrow> f next) interceptors base"

text \<open>Call options name the places response metadata is copied to; a nil address or another option
  is left alone.\<close>

datatype callOption = HeaderOption "nat option" | TrailerOption "nat option" | OtherOption

definition applyCallOptions :: "callOption list \<Rightarrow> responseMetadata \<Rightarrow> (nat \<Rightarrow> md) \<Rightarrow> (nat \<Rightarrow> md)" where
  "applyCallOptions options rm places = fold (\<lambda>opt p. case opt of
      HeaderOption (Some a) \<Rightarrow> p(a := rm_header rm)
    | TrailerOption (Some a) \<Rightarrow> p(a := rm_trailer rm)
    | _ \<Rightarrow> p) options places"

definition Invoke ::
  "('x, 'i, 'c, 'st, 'si, 'sc) conn \<Rightarrow> 'x \<Rightarrow> string \<Rightarrow> 'c anyMsg \<Rightarrow> 'c anyMsg \<Rightarrow> callOption list \<Rightarrow> (nat \<Rightarrow> md)
    \<Rightarrow> (rpcErr, 'c anyMsg) result \<times> (nat \<Rightarrow> md)" where
  "Invoke c ctx method args reply options places =
     (case chainClient (cn_clientInterceptors c) (invoke c) ctx method args reply \<lparr>rm_header = Map.empty, rm_trailer = Map.empty\<rparr> of
        (r, rm) \<Rightarrow> (r, applyCallOptions options rm places))"

section \<open>Registered methods stay what they are\<close>

definition kept :: "('x, 'i, 'c, 'st, 'si, 'sc) conn \<Rightarrow> ('x, 'i, 'c, 'st, 'si, 'sc) conn \<Rightarrow> bool" where
  "kept c c' \<longleftrightarrow> cn_methods c \<subseteq>\<^sub>m cn_methods c' \<and> cn_streams c \<subseteq>\<^sub>m cn_streams c'
     \<and> cn_interceptor c' = cn_interceptor c \<and> cn_clientInterceptors c' = cn_clientInterceptors c
     \<and> cn_streamInterceptor c' = cn_streamInterceptor c \<and> cn_streamClientInterceptors c' = cn_streamClientInterceptors c"

definition disjointNames :: "('x, 'i, 'c, 'st, 'si, 'sc) conn \<Rightarrow> bool" where
  "disjointNames c \<longleftrightarrow> dom (cn_methods c) \<inter> dom (cn_streams c) = {}"

lemma kept_refl: "kept c c"
  by (simp add: kept_def)

lemma kept_trans: "kept a b \<Longrightarrow> kept b c \<Longrightarrow> kept a c"
  by (auto simp: kept_def intro: map_le_trans)

lemma kept_method: "\<not> taken c m \<Longrightarrow> kept c (c\<lparr>cn_methods := (cn_methods c)(m \<mapsto> h)\<rparr>)"
  by (auto simp: kept_def taken_def map_le_def dom_def)

lemma kept_stream: "\<not> taken c m \<Longrightarrow> kept c (c\<lparr>cn_streams := (cn_streams c)(m \<mapsto> h)\<rparr>)"
  by (auto simp: kept_def taken_def map_le_def dom_def)

lemma registerUnary_kept:
  "registerUnary service ms c = (p, c') \<Longrightarrow> kept c c' \<and> (disjointNames c \<longrightarrow> disjointNames c')
     \<and> (p = None \<longrightarrow> (\<forall>(n, h)\<in>set ms. cn_methods c' (fullMethod service n) = Some h))"
proof (induction service ms c rule: registerUnary.induct)
  case (1 service c)
  then show ?case by (simp add: kept_refl)
next
  case (2 service name h ms c)
  let ?m = "fullMethod service name" and ?c1 = "c\<lparr>cn_methods := (cn_methods c)(fullMethod service name \<mapsto> h)\<rparr>"
  show ?case
  proof (cases "taken c ?m")
    case True
    then show ?thesis using 2 by (auto simp: kept_refl)
  next
    case False
    have run: "registerUnary service ms ?c1 = (p, c')" using 2 False by simp
    note ih = "2.IH" [OF False run]
    have "disjointNames c \<Longrightarrow> disjointNames ?c1" using False by (auto simp: disjointNames_def taken_def)
    moreover have "cn_methods c' ?m = Some h"
      using ih by (auto simp: kept_def map_le_def dom_def)
    ultimately show ?thesis using ih kept_trans [OF kept_method [OF False]] by auto
  qed
qed

lemma registerStreams_kept:
  "registerStreams service ms c = (p, c') \<Longrightarrow> kept c c' \<and> (disjointNames c \<longrightarrow> disjointNames c')
     \<and> (p = None \<longrightarrow> (\<forall>(n, h)\<in>set ms. cn_streams c' (fullMethod service n) = Some h))"
proof (induction service ms c rule: registerStreams.induct)
  case (1 service c)
  then show ?case by (simp add: kept_refl)
next
  case (2 service name h ms c)
  let ?m = "fullMethod service name" and ?c1 = "c\<lparr>cn_streams := (cn_streams c)(fullMethod service name \<mapsto> h)\<rparr>"
  show ?case
  proof (cases "taken c ?m")
    case True
    then show ?thesis using 2 by (auto simp: kept_refl)
  next
    case False
    have run: "registerStreams service ms ?c1 = (p, c')" using 2 False by simp
    note ih = "2.IH" [OF False run]
    have "disjointNames c \<Longrightarrow> disjointNames ?c1" using False by (auto simp: disjointNames_def taken_def)
    moreover have "cn_streams c' ?m = Some h"
      using ih by (auto simp: kept_def map_le_def dom_def)
    ultimately show ?thesis using ih kept_trans [OF kept_stream [OF False]] by auto
  qed
qed

text \<open>Registering a service never replaces a method: whatever the call does, a panic half way included,
  every unary and stream method registered before keeps its handler and no name is both unary and
  streaming; and when it returns, every method of the service is registered, so that a unary call
  of one reaches its handler, which gets the request only if it is a message of its type, whose
  panic is an error of the call, and whose response is copied into the caller's message.\<close>
theorem RegisterService_permanent:
  assumes "RegisterService description service c = (p, c')" "disjointNames c"
  shows "kept c c' \<and> disjointNames c'
     \<and> (p = None \<longrightarrow> (\<exists>d. description = Some d \<and> service
          \<and> (\<forall>(n, h)\<in>set (sd_streams d). cn_streams c' (fullMethod (sd_name d) n) = Some h)
          \<and> (\<forall>(n, h)\<in>set (sd_methods d). \<forall>ctx args reply rm.
              invoke c' ctx (fullMethod (sd_name d) n) args reply rm =
              (case h ctx (\<lambda>request. copyMessage request args) (cn_interceptor c) rm of
                 (Panics v, rm') \<Rightarrow> (Inl (HandlerFailure v), rm')
               | (Fails e, rm') \<Rightarrow> (Inl e, rm')
               | (Returns response, rm') \<Rightarrow> (copyMessage reply response, rm')))))"
proof (cases "description = None \<or> \<not> service")
  case True
  then have "c' = c" "p \<noteq> None" using assms(1) by (auto simp: RegisterService_def split: option.splits if_splits)
  then show ?thesis using assms(2) by (auto simp: kept_refl)
next
  case False
  then obtain d where d: "description = Some d" "service" by auto
  obtain p1 c1 where u: "registerUnary (sd_name d) (sd_methods d) c = (p1, c1)" by fastforce
  note U = registerUnary_kept [OF u]
  show ?thesis
  proof (cases p1)
    case (Some q)
    then have "c' = c1" "p = Some q" using assms(1) d u by (auto simp: RegisterService_def)
    then show ?thesis using U assms(2) by simp
  next
    case None
    then have s: "registerStreams (sd_name d) (sd_streams d) c1 = (p, c')" using assms(1) d u by (auto simp: RegisterService_def)
    note S = registerStreams_kept [OF s]
    have k: "kept c c'" using U S kept_trans by blast
    have reg: "cn_methods c' (fullMethod (sd_name d) n) = Some h" if "(n, h) \<in> set (sd_methods d)" for n h
      using U None that S by (auto simp: kept_def map_le_def dom_def)
    have "cn_interceptor c' = cn_interceptor c" using k by (simp add: kept_def)
    then show ?thesis using k U S assms(2) d reg by (auto simp: invoke_def)
  qed
qed

definition exampleService :: "(unit, unit, nat, nat) serviceDesc" where
  "exampleService = \<lparr>sd_name = ''s'', sd_methods = [(''m'', \<lambda>_ decode _ rm. (case decode (Msg ''Req'' 0) of
       Inl e \<Rightarrow> (Fails e, rm) | Inr (Msg n x) \<Rightarrow> (Returns (Msg ''Resp'' (x + 1)), rm) | Inr (Other v) \<Rightarrow> (Panics v, rm)))],
     sd_streams = [(''w'', 1)]\<rparr>"

theorem RegisterService_permanent_witness:
  "kept (NewConn []) (snd (RegisterService (Some exampleService) True (NewConn [] :: (unit, unit, nat, nat, unit, unit) conn)))
   \<and> fst (invoke (snd (RegisterService (Some exampleService) True (NewConn [] :: (unit, unit, nat, nat, unit, unit) conn))) () ''/s/m'' (Msg ''Req'' 4) (Msg ''Resp'' 0)
        \<lparr>rm_header = Map.empty, rm_trailer = Map.empty\<rparr>) = Inr (Msg ''Resp'' 5)"
proof -
  let ?c = "NewConn [] :: (unit, unit, nat, nat, unit, unit) conn"
  have run: "RegisterService (Some exampleService) True ?c = (fst (RegisterService (Some exampleService) True ?c),
      snd (RegisterService (Some exampleService) True ?c))" by simp
  have "disjointNames ?c" by (simp add: disjointNames_def NewConn_def)
  from RegisterService_permanent [OF run this] have "kept ?c (snd (RegisterService (Some exampleService) True ?c))" by simp
  moreover have "fst (invoke (snd (RegisterService (Some exampleService) True ?c)) () ''/s/m'' (Msg ''Req'' 4) (Msg ''Resp'' 0)
        \<lparr>rm_header = Map.empty, rm_trailer = Map.empty\<rparr>) = Inr (Msg ''Resp'' 5)" by code_simp
  ultimately show ?thesis by simp
qed

end
