(* ===== verification/LocalStream.thy ===== *)
theory LocalStream
  imports LocalGrpc
begin

text \<open>
  The streams of \<open>client/localgrpc/conn.go\<close>: one stream is a pair of one-place channels, three
  channels that are only ever closed, and flags under a mutex.  An operation that may block is
  split where the code blocks: the part before its \<open>select\<close>, and the \<open>select\<close>, given as the list of
  the outcomes that are ready (Go picks any of them; none means that the call waits).  The four
  parties (sender and receiver on either side) run interleaved.  As gRPC requires, a side has one
  sender and one receiver, a client does not close its sending side during a send, and the server
  side does not use a stream after its handler returned.
\<close>

section \<open>State\<close>

record 'm stream =
  st_toServer :: "'m chan"
  st_toClient :: "'m chan"
  st_sendClosed :: bool
  st_done :: bool
  st_headerReady :: bool
  st_finished :: bool
  st_err :: "rpcErr option"
  st_header :: md
  st_trailer :: md
  st_headerSent :: bool
  st_ctxErr :: "rpcErr option"

definition newLocalStream :: "'m stream" where
  "newLocalStream = \<lparr>st_toServer = chan_make 1, st_toClient = chan_make 1, st_sendClosed = False, st_done = False,
     st_headerReady = False, st_finished = False, st_err = None, st_header = Map.empty, st_trailer = Map.empty, st_headerSent = False,
     st_ctxErr = None\<rparr>"

section \<open>Operations that do not block\<close>

definition SetHeader :: "mdLib \<Rightarrow> md \<Rightarrow> 'm stream \<Rightarrow> rpcErr option \<times> 'm stream" where
  "SetHeader lib m s = (if st_finished s \<or> st_headerSent s then (Some (InternalStatus ''header sent''), s)
     else (None, s\<lparr>st_header := ml_join lib (st_header s) m\<rparr>))"

definition SendHeader :: "mdLib \<Rightarrow> md \<Rightarrow> 'm stream \<Rightarrow> rpcErr option \<times> 'm stream" where
  "SendHeader lib m s = (if st_finished s \<or> st_headerSent s then (Some (InternalStatus ''header sent twice''), s)
     else (None, s\<lparr>st_header := ml_join lib (st_header s) m, st_headerSent := True, st_headerReady := True\<rparr>))"

definition SetTrailer :: "mdLib \<Rightarrow> md \<Rightarrow> 'm stream \<Rightarrow> 'm stream" where
  "SetTrailer lib m s = (if st_finished s then s else s\<lparr>st_trailer := ml_join lib (st_trailer s) m\<rparr>)"

definition CloseSend :: "'m stream \<Rightarrow> 'm stream" where
  "CloseSend s = (if st_sendClosed s then s else s\<lparr>st_sendClosed := True\<rparr>)"

definition finish :: "rpcErr option \<Rightarrow> 'm stream \<Rightarrow> 'm stream" where
  "finish err s = s\<lparr>st_err := err, st_finished := True, st_headerReady := True, st_done := True\<rparr>"

definition streamResult :: "rpcErr option \<Rightarrow> rpcErr" where
  "streamResult err = (case err of None \<Rightarrow> EndOfFile | Some e \<Rightarrow> e)"

text \<open>\<open>Header\<close> blocks until the header is ready or the stream is done or cancelled.\<close>

definition HeaderSelect :: "'m stream \<Rightarrow> (rpcErr, md) result list" where
  "HeaderSelect s = (if st_headerReady s \<or> st_done s then [Inr (st_header s)] else [])
     @ (case st_ctxErr s of None \<Rightarrow> [] | Some e \<Rightarrow> [Inl e])"

definition Trailer :: "'m stream \<Rightarrow> md" where
  "Trailer s = st_trailer s"

section \<open>Operations that block\<close>

datatype 'm progress = Finished "(rpcErr, 'm option) result" | Blocked

text \<open>The check of a server send; a send that goes on publishes the header first.\<close>

definition serverSendBegin :: "'m stream \<Rightarrow> rpcErr option \<times> 'm stream" where
  "serverSendBegin s = (if st_finished s then (Some (streamResult (st_err s)), s)
     else (None, s\<lparr>st_headerSent := True, st_headerReady := True\<rparr>))"

definition clientSendBegin :: "'m stream \<Rightarrow> rpcErr option" where
  "clientSendBegin s = (if st_sendClosed s then Some EndOfFile else None)"

text \<open>What can interrupt a send: the context, the end of the stream.\<close>

definition sendAborts :: "'m stream \<Rightarrow> rpcErr list" where
  "sendAborts s = (case st_ctxErr s of None \<Rightarrow> [] | Some e \<Rightarrow> [e])
     @ (if st_done s then [streamResult (st_err s)] else [])"

definition serverSendSelect :: "'m \<Rightarrow> 'm stream \<Rightarrow> (rpcErr option \<times> 'm stream) list" where
  "serverSendSelect m s = (case chan_offer m (st_toClient s) of None \<Rightarrow> [] | Some c \<Rightarrow> [(None, s\<lparr>st_toClient := c\<rparr>)])
     @ map (\<lambda>e. (Some e, s)) (sendAborts s)"

definition clientSendSelect :: "'m \<Rightarrow> 'm stream \<Rightarrow> (rpcErr option \<times> 'm stream) list" where
  "clientSendSelect m s = (case chan_offer m (st_toServer s) of None \<Rightarrow> [] | Some c \<Rightarrow> [(None, s\<lparr>st_toServer := c\<rparr>)])
     @ map (\<lambda>e. (Some e, s)) (sendAborts s)"

text \<open>Receiving takes what is buffered, and waits otherwise.  In the waiting \<open>select\<close> the closed side
  or the end of the stream lead to a last look at the buffer (\<open>Drain\<close>), the end with an error does not.\<close>

datatype 'm recvOutcome = Got 'm | RecvError rpcErr | Drain

definition recvOne :: "'m chan \<Rightarrow> ('m recvOutcome \<times> 'm chan) list" where
  "recvOne c = (case chan_take c of None \<Rightarrow> [] | Some (m, c') \<Rightarrow> [(Got m, c')])"

definition recvEnds :: "'m stream \<Rightarrow> 'm recvOutcome list" where
  "recvEnds s = (case st_ctxErr s of None \<Rightarrow> [] | Some e \<Rightarrow> [RecvError e])
     @ (if st_done s then [case st_err s of None \<Rightarrow> Drain | Some e \<Rightarrow> RecvError e] else [])"

definition receiveClientSelect :: "'m stream \<Rightarrow> ('m recvOutcome \<times> 'm stream) list" where
  "receiveClientSelect s = map (\<lambda>(r, c). (r, s\<lparr>st_toServer := c\<rparr>)) (recvOne (st_toServer s))
     @ (if st_sendClosed s then [(Drain, s)] else []) @ map (\<lambda>r. (r, s)) (recvEnds s)"

definition receiveServerSelect :: "'m stream \<Rightarrow> ('m recvOutcome \<times> 'm stream) list" where
  "receiveServerSelect s = map (\<lambda>(r, c). (r, s\<lparr>st_toClient := c\<rparr>)) (recvOne (st_toClient s))
     @ map (\<lambda>r. (r, s)) (recvEnds s)"

text \<open>The \<open>select\<close> with a \<open>default\<close>: one attempt on the buffer.\<close>

definition takeServer :: "'m stream \<Rightarrow> ('m \<times> 'm stream) option" where
  "takeServer s = map_option (\<lambda>(m, c). (m, s\<lparr>st_toServer := c\<rparr>)) (chan_take (st_toServer s))"

definition takeClient :: "'m stream \<Rightarrow> ('m \<times> 'm stream) option" where
  "takeClient s = map_option (\<lambda>(m, c). (m, s\<lparr>st_toClient := c\<rparr>)) (chan_take (st_toClient s))"

section \<open>The parties\<close>

datatype 'm sender = SendIdle | Sending 'm
datatype receiver = RecvIdle | RecvWaiting | RecvDraining

text \<open>The accepted and the delivered messages of each direction, and what the receive calls of the
  client and of the server returned so far.\<close>

record 'm system =
  sy_stream :: "'m stream"
  sy_clientSend :: "'m sender"
  sy_clientRecv :: receiver
  sy_serverSend :: "'m sender"
  sy_serverRecv :: receiver
  sy_sentUp :: "'m list"
  sy_recvUp :: "'m list"
  sy_sentDown :: "'m list"
  sy_recvDown :: "'m list"
  sy_clientResults :: "(rpcErr, 'm) result list"
  sy_serverResults :: "(rpcErr, 'm) result list"

definition initialSystem :: "'m system" where
  "initialSystem = \<lparr>sy_stream = newLocalStream, sy_clientSend = SendIdle, sy_clientRecv = RecvIdle,
     sy_serverSend = SendIdle, sy_serverRecv = RecvIdle, sy_sentUp = [], sy_recvUp = [], sy_sentDown = [], sy_recvDown = [],
     sy_clientResults = [], sy_serverResults = []\<rparr>"

definition clientGets :: "'m \<Rightarrow> 'm stream \<Rightarrow> 'm system \<Rightarrow> 'm system" where
  "clientGets m s y = y\<lparr>sy_stream := s, sy_clientRecv := RecvIdle, sy_recvDown := sy_recvDown y @ [m],
     sy_clientResults := sy_clientResults y @ [Inr m]\<rparr>"

definition clientFails :: "rpcErr \<Rightarrow> 'm system \<Rightarrow> 'm system" where
  "clientFails e y = y\<lparr>sy_clientRecv := RecvIdle, sy_clientResults := sy_clientResults y @ [Inl e]\<rparr>"

definition serverGets :: "'m \<Rightarrow> 'm stream \<Rightarrow> 'm system \<Rightarrow> 'm system" where
  "serverGets m s y = y\<lparr>sy_stream := s, sy_serverRecv := RecvIdle, sy_recvUp := sy_recvUp y @ [m],
     sy_serverResults := sy_serverResults y @ [Inr m]\<rparr>"

definition serverFails :: "rpcErr \<Rightarrow> 'm system \<Rightarrow> 'm system" where
  "serverFails e y = y\<lparr>sy_serverRecv := RecvIdle, sy_serverResults := sy_serverResults y @ [Inl e]\<rparr>"

inductive stream_step :: "mdLib \<Rightarrow> 'm system \<Rightarrow> 'm system \<Rightarrow> bool" for lib where
  clientSendCall: "sy_clientSend y = SendIdle \<Longrightarrow> clientSendBegin (sy_stream y) = None \<Longrightarrow>
     stream_step lib y (y\<lparr>sy_clientSend := Sending m\<rparr>)"
| clientSendDone: "sy_clientSend y = Sending m \<Longrightarrow> (None, s) \<in> set (clientSendSelect m (sy_stream y)) \<Longrightarrow>
     stream_step lib y (y\<lparr>sy_stream := s, sy_clientSend := SendIdle, sy_sentUp := sy_sentUp y @ [m]\<rparr>)"
| clientSendAbort: "sy_clientSend y = Sending m \<Longrightarrow> (Some e, s) \<in> set (clientSendSelect m (sy_stream y)) \<Longrightarrow>
     stream_step lib y (y\<lparr>sy_stream := s, sy_clientSend := SendIdle\<rparr>)"
| closeSend: "sy_clientSend y = SendIdle \<Longrightarrow> stream_step lib y (y\<lparr>sy_stream := CloseSend (sy_stream y)\<rparr>)"
| serverSendCall: "sy_serverSend y = SendIdle \<Longrightarrow> serverSendBegin (sy_stream y) = (None, s) \<Longrightarrow>
     stream_step lib y (y\<lparr>sy_stream := s, sy_serverSend := Sending m\<rparr>)"
| serverSendDone: "sy_serverSend y = Sending m \<Longrightarrow> (None, s) \<in> set (serverSendSelect m (sy_stream y)) \<Longrightarrow>
     stream_step lib y (y\<lparr>sy_stream := s, sy_serverSend := SendIdle, sy_sentDown := sy_sentDown y @ [m]\<rparr>)"
| serverSendAbort: "sy_serverSend y = Sending m \<Longrightarrow> (Some e, s) \<in> set (serverSendSelect m (sy_stream y)) \<Longrightarrow>
     stream_step lib y (y\<lparr>sy_stream := s, sy_serverSend := SendIdle\<rparr>)"
| clientRecvNow: "sy_clientRecv y \<in> {RecvIdle, RecvDraining} \<Longrightarrow> takeClient (sy_stream y) = Some (m, s) \<Longrightarrow>
     stream_step lib y (clientGets m s y)"
| clientRecvWait: "sy_clientRecv y = RecvIdle \<Longrightarrow> takeClient (sy_stream y) = None \<Longrightarrow>
     stream_step lib y (y\<lparr>sy_clientRecv := RecvWaiting\<rparr>)"
| clientRecvGot: "sy_clientRecv y = RecvWaiting \<Longrightarrow> (Got m, s) \<in> set (receiveServerSelect (sy_stream y)) \<Longrightarrow>
     stream_step lib y (clientGets m s y)"
| clientRecvError: "sy_clientRecv y = RecvWaiting \<Longrightarrow> (RecvError e, s) \<in> set (receiveServerSelect (sy_stream y)) \<Longrightarrow>
     stream_step lib y (clientFails e y)"
| clientRecvDrain: "sy_clientRecv y = RecvWaiting \<Longrightarrow> (Drain, s) \<in> set (receiveServerSelect (sy_stream y)) \<Longrightarrow>
     stream_step lib y (y\<lparr>sy_clientRecv := RecvDraining\<rparr>)"
| clientRecvEOF: "sy_clientRecv y = RecvDraining \<Longrightarrow> takeClient (sy_stream y) = None \<Longrightarrow>
     stream_step lib y (clientFails EndOfFile y)"
| serverRecvNow: "sy_serverRecv y \<in> {RecvIdle, RecvDraining} \<Longrightarrow> \<not> st_finished (sy_stream y) \<Longrightarrow>
     takeServer (sy_stream y) = Some (m, s) \<Longrightarrow> stream_step lib y (serverGets m s y)"
| serverRecvWait: "sy_serverRecv y = RecvIdle \<Longrightarrow> \<not> st_finished (sy_stream y) \<Longrightarrow> takeServer (sy_stream y) = None \<Longrightarrow>
     stream_step lib y (y\<lparr>sy_serverRecv := RecvWaiting\<rparr>)"
| serverRecvGot: "sy_serverRecv y = RecvWaiting \<Longrightarrow> (Got m, s) \<in> set (receiveClientSelect (sy_stream y)) \<Longrightarrow>
     stream_step lib y (serverGets m s y)"
| serverRecvError: "sy_serverRecv y = RecvWaiting \<Longrightarrow> (RecvError e, s) \<in> set (receiveClientSelect (sy_stream y)) \<Longrightarrow>
     stream_step lib y (serverFails e y)"
| serverRecvDrain: "sy_serverRecv y = RecvWaiting \<Longrightarrow> (Drain, s) \<in> set (receiveClientSelect (sy_stream y)) \<Longrightarrow>
     stream_step lib y (y\<lparr>sy_serverRecv := RecvDraining\<rparr>)"
| serverRecvEOF: "sy_serverRecv y = RecvDraining \<Longrightarrow> takeServer (sy_stream y) = None \<Longrightarrow>
     stream_step lib y (serverFails EndOfFile y)"
| setHeader: "\<not> st_finished (sy_stream y) \<Longrightarrow> stream_step lib y (y\<lparr>sy_stream := snd (SetHeader lib d (sy_stream y))\<rparr>)"
| sendHeader: "\<not> st_finished (sy_stream y) \<Longrightarrow> stream_step lib y (y\<lparr>sy_stream := snd (SendHeader lib d (sy_stream y))\<rparr>)"
| setTrailer: "\<not> st_finished (sy_stream y) \<Longrightarrow> stream_step lib y (y\<lparr>sy_stream := SetTrailer lib d (sy_stream y)\<rparr>)"
| handlerReturns: "sy_serverSend y = SendIdle \<Longrightarrow> sy_serverRecv y = RecvIdle \<Longrightarrow> \<not> st_finished (sy_stream y) \<Longrightarrow>
     stream_step lib y (y\<lparr>sy_stream := finish err (sy_stream y)\<rparr>)"
| cancelled: "stream_step lib y (y\<lparr>sy_stream := (sy_stream y)\<lparr>st_ctxErr := Some (ContextError e)\<rparr>\<rparr>)"

inductive stream_reach :: "mdLib \<Rightarrow> 'm system \<Rightarrow> bool" for lib where
  start: "stream_reach lib initialSystem"
| step: "stream_reach lib y \<Longrightarrow> stream_step lib y y' \<Longrightarrow> stream_reach lib y'"

inductive_cases stream_stepE: "stream_step lib y y'"

section \<open>Invariants\<close>

lemma chan_offer_iff:
  "chan_offer m c = Some c' \<longleftrightarrow> \<not> ch_closed c \<and> length (ch_buf c) < ch_cap c \<and> c' = c\<lparr>ch_buf := ch_buf c @ [m]\<rparr>"
  by (auto simp: chan_offer_def chan_send_def)

lemma chan_take_iff: "chan_take c = Some (m, c') \<longleftrightarrow> (\<exists>xs. ch_buf c = m # xs \<and> c' = c\<lparr>ch_buf := xs\<rparr>)"
  by (auto simp: chan_take_def chan_recv_def split: list.splits)

lemma chan_take_None: "chan_take c = None \<longleftrightarrow> ch_buf c = []"
  by (auto simp: chan_take_def chan_recv_def split: list.splits)

lemma chan_flipped:
  "Some c' = chan_offer m c \<longleftrightarrow> chan_offer m c = Some c'" "None = chan_offer m c \<longleftrightarrow> chan_offer m c = None"
  "Some p = chan_take d \<longleftrightarrow> chan_take d = Some p" "None = chan_take d \<longleftrightarrow> chan_take d = None"
  by auto

lemmas stream_ops =
  clientSendSelect_def serverSendSelect_def serverSendBegin_def clientSendBegin_def sendAborts_def CloseSend_def
  receiveClientSelect_def receiveServerSelect_def recvOne_def recvEnds_def takeServer_def takeClient_def
  SetHeader_def SendHeader_def SetTrailer_def finish_def clientGets_def clientFails_def serverGets_def serverFails_def
  chan_offer_iff chan_take_iff chan_take_None chan_flipped

definition delivered :: "(rpcErr, 'm) result list \<Rightarrow> 'm list" where
  "delivered rs = List.map_filter (\<lambda>r. case r of Inl _ \<Rightarrow> None | Inr m \<Rightarrow> Some m) rs"

lemma delivered_simps [simp]:
  "delivered [] = []" "delivered (rs @ [Inr m]) = delivered rs @ [m]" "delivered (rs @ [Inl e]) = delivered rs"
  by (simp_all add: delivered_def List.map_filter_def)

definition queueInv :: "'m system \<Rightarrow> bool" where
  "queueInv y \<longleftrightarrow>
     sy_sentUp y = sy_recvUp y @ ch_buf (st_toServer (sy_stream y))
   \<and> sy_sentDown y = sy_recvDown y @ ch_buf (st_toClient (sy_stream y))
   \<and> length (ch_buf (st_toServer (sy_stream y))) \<le> 1 \<and> length (ch_buf (st_toClient (sy_stream y))) \<le> 1
   \<and> ch_cap (st_toServer (sy_stream y)) = 1 \<and> ch_cap (st_toClient (sy_stream y)) = 1
   \<and> delivered (sy_serverResults y) = sy_recvUp y \<and> delivered (sy_clientResults y) = sy_recvDown y"

lemma queueInv_start: "queueInv initialSystem"
  by (simp add: queueInv_def initialSystem_def newLocalStream_def chan_make_def)

lemma queueInv_step: "stream_step lib y y' \<Longrightarrow> queueInv y \<Longrightarrow> queueInv y'"
  by (erule stream_step.cases)
    (auto simp: queueInv_def stream_ops split: if_splits option.splits)

definition flagInv :: "'m system \<Rightarrow> bool" where
  "flagInv y \<longleftrightarrow>
     (st_done (sy_stream y) = st_finished (sy_stream y))
   \<and> (st_finished (sy_stream y) \<longrightarrow> sy_serverSend y = SendIdle \<and> sy_serverRecv y = RecvIdle)
   \<and> (\<not> st_finished (sy_stream y) \<longrightarrow> st_err (sy_stream y) = None)
   \<and> (sy_clientRecv y = RecvDraining \<longrightarrow> st_finished (sy_stream y) \<and> st_err (sy_stream y) = None)
   \<and> (sy_serverRecv y = RecvDraining \<longrightarrow> st_sendClosed (sy_stream y))
   \<and> (st_sendClosed (sy_stream y) \<longrightarrow> sy_clientSend y = SendIdle)
   \<and> (st_ctxErr (sy_stream y) \<noteq> Some EndOfFile)"

lemma flagInv_start: "flagInv initialSystem"
  by (simp add: flagInv_def initialSystem_def newLocalStream_def)

lemma flagInv_step: "stream_step lib y y' \<Longrightarrow> flagInv y \<Longrightarrow> flagInv y'"
  by (erule stream_step.cases)
    (auto simp: flagInv_def stream_ops split: if_splits option.splits)

definition eofInv :: "'m system \<Rightarrow> bool" where
  "eofInv y \<longleftrightarrow>
     (Inl EndOfFile \<in> set (sy_clientResults y) \<and> st_err (sy_stream y) = None \<longrightarrow>
        st_finished (sy_stream y) \<and> ch_buf (st_toClient (sy_stream y)) = [])
   \<and> (Inl EndOfFile \<in> set (sy_serverResults y) \<longrightarrow>
        st_sendClosed (sy_stream y) \<and> ch_buf (st_toServer (sy_stream y)) = [])"

lemma eofInv_start: "eofInv initialSystem"
  by (simp add: eofInv_def initialSystem_def)

lemma eofInv_step: "stream_step lib y y' \<Longrightarrow> flagInv y \<Longrightarrow> eofInv y \<Longrightarrow> eofInv y'"
  by (erule stream_step.cases)
    (auto simp: eofInv_def flagInv_def stream_ops split: if_splits option.splits)

lemma stream_inv: "stream_reach lib y \<Longrightarrow> queueInv y \<and> flagInv y \<and> eofInv y"
proof (induction rule: stream_reach.induct)
  case start
  then show ?case using queueInv_start flagInv_start eofInv_start by blast
next
  case (step y y')
  then show ?case by (meson queueInv_step flagInv_step eofInv_step)
qed

section \<open>What a stream guarantees\<close>

abbreviation stream_steps :: "mdLib \<Rightarrow> 'm system \<Rightarrow> 'm system \<Rightarrow> bool" where
  "stream_steps lib \<equiv> (stream_step lib)\<^sup>*\<^sup>*"

lemma stream_reach_steps: "stream_reach lib y \<Longrightarrow> stream_steps lib y y' \<Longrightarrow> stream_reach lib y'"
  by (rotate_tac 1, induction rule: rtranclp_induct) (auto intro: stream_reach.step)

lemma take_all:
  assumes "takeClient (sy_stream y) = Some (m, s)" "sy_clientRecv y = RecvIdle"
  shows "stream_steps lib y (clientGets m s y)"
  using stream_step.clientRecvNow [OF _ assms(1)] assms(2) by (intro r_into_rtranclp) simp

lemma end_of_stream:
  assumes "sy_clientRecv y = RecvIdle" "ch_buf (st_toClient (sy_stream y)) = []"
    and "st_done (sy_stream y)" "st_err (sy_stream y) = None"
  shows "stream_steps lib y (clientFails EndOfFile y)"
proof -
  let ?w = "y\<lparr>sy_clientRecv := RecvWaiting\<rparr>" and ?d = "y\<lparr>sy_clientRecv := RecvDraining\<rparr>"
  have none: "takeClient (sy_stream y) = None" using assms(2) by (simp add: stream_ops)
  have "stream_step lib y ?w" using assms(1) none by (rule stream_step.clientRecvWait)
  moreover have "stream_step lib ?w (?w\<lparr>sy_clientRecv := RecvDraining\<rparr>)"
    by (rule stream_step.clientRecvDrain [where s = "sy_stream y"]) (use assms in \<open>simp_all add: stream_ops\<close>)
  then have "stream_step lib ?w ?d" by simp
  moreover have "stream_step lib ?d (clientFails EndOfFile ?d)" by (rule stream_step.clientRecvEOF) (simp_all add: none)
  then have "stream_step lib ?d (clientFails EndOfFile y)" by (simp add: clientFails_def)
  ultimately show ?thesis by (meson converse_rtranclp_into_rtranclp rtranclp.rtrancl_refl)
qed

lemma drains:
  assumes "queueInv y" "sy_clientRecv y = RecvIdle" "st_done (sy_stream y)" "st_err (sy_stream y) = None"
  shows "\<exists>y'. stream_steps lib y y' \<and> sy_recvDown y' = sy_sentDown y
     \<and> sy_clientResults y' = sy_clientResults y @ map Inr (ch_buf (st_toClient (sy_stream y))) @ [Inl EndOfFile]"
proof (cases "ch_buf (st_toClient (sy_stream y))")
  case Nil
  have "sy_recvDown (clientFails EndOfFile y) = sy_sentDown y" using assms(1) Nil by (simp add: queueInv_def clientFails_def)
  then show ?thesis using end_of_stream [OF assms(2) Nil assms(3,4)] Nil by (intro exI [of _ "clientFails EndOfFile y"]) (simp add: clientFails_def)
next
  case (Cons m xs)
  then have xs: "xs = []" using assms(1) by (simp add: queueInv_def)
  let ?s = "(sy_stream y)\<lparr>st_toClient := (st_toClient (sy_stream y))\<lparr>ch_buf := []\<rparr>\<rparr>"
  have tk: "takeClient (sy_stream y) = Some (m, ?s)" using Cons xs by (simp add: takeClient_def chan_take_def chan_recv_def)
  let ?y1 = "clientGets m ?s y"
  have one: "stream_steps lib y ?y1" using tk assms(2) by (rule take_all)
  have "stream_steps lib ?y1 (clientFails EndOfFile ?y1)"
    by (rule end_of_stream) (use assms in \<open>simp_all add: clientGets_def\<close>)
  then show ?thesis using one assms(1) Cons xs
    by (intro exI [of _ "clientFails EndOfFile ?y1"]) (auto simp: clientFails_def clientGets_def queueInv_def)
qed

text \<open>C5.
  The streams deliver: in every reachable state of a stream, under every interleaving of its four
  parties, in each direction the messages received so far, followed by the at most one buffered,
  are the messages sent, in their order, nothing lost, repeated or invented, and the results of the
  receive calls are exactly those messages.  A receive call reports the end to the server only when
  the client closed its side and everything it sent was received, and to the client of a handler
  that returned without error only when everything it sent was received; and once such a handler
  has returned, the client can still receive what is left and then gets the end.\<close>
theorem stream_fifo:
  assumes "stream_reach lib y"
  shows "sy_sentUp y = sy_recvUp y @ ch_buf (st_toServer (sy_stream y)) \<and> length (ch_buf (st_toServer (sy_stream y))) \<le> 1
     \<and> sy_sentDown y = sy_recvDown y @ ch_buf (st_toClient (sy_stream y)) \<and> length (ch_buf (st_toClient (sy_stream y))) \<le> 1
     \<and> delivered (sy_serverResults y) = sy_recvUp y \<and> delivered (sy_clientResults y) = sy_recvDown y
     \<and> (Inl EndOfFile \<in> set (sy_serverResults y) \<longrightarrow> st_sendClosed (sy_stream y) \<and> sy_recvUp y = sy_sentUp y)
     \<and> (Inl EndOfFile \<in> set (sy_clientResults y) \<and> st_err (sy_stream y) = None \<longrightarrow>
          st_finished (sy_stream y) \<and> sy_recvDown y = sy_sentDown y)
     \<and> (st_finished (sy_stream y) \<and> st_err (sy_stream y) = None \<and> sy_clientRecv y = RecvIdle \<longrightarrow>
          (\<exists>y'. stream_reach lib y' \<and> sy_recvDown y' = sy_sentDown y
             \<and> sy_clientResults y' = sy_clientResults y @ map Inr (ch_buf (st_toClient (sy_stream y))) @ [Inl EndOfFile]))"
proof -
  have q: "queueInv y" and f: "flagInv y" and e: "eofInv y" using stream_inv [OF assms] by auto
  have end_: "\<exists>y'. stream_reach lib y' \<and> sy_recvDown y' = sy_sentDown y
      \<and> sy_clientResults y' = sy_clientResults y @ map Inr (ch_buf (st_toClient (sy_stream y))) @ [Inl EndOfFile]"
    if "st_finished (sy_stream y)" "st_err (sy_stream y) = None" "sy_clientRecv y = RecvIdle"
    using drains [OF q that(3) _ that(2)] that(1) f stream_reach_steps [OF assms] by (auto simp: flagInv_def)
  show ?thesis using q e end_ by (simp add: queueInv_def eofInv_def)
qed

section \<open>Response metadata is published once\<close>

definition published :: "'m stream \<Rightarrow> bool" where
  "published s \<longleftrightarrow> st_headerSent s \<or> st_finished s"

lemma published_step:
  "stream_step lib y y' \<Longrightarrow> published (sy_stream y) \<Longrightarrow>
     published (sy_stream y') \<and> st_header (sy_stream y') = st_header (sy_stream y)"
  by (erule stream_step.cases) (auto simp: published_def stream_ops split: if_splits option.splits)

lemma published_steps:
  "stream_steps lib y y' \<Longrightarrow> published (sy_stream y) \<Longrightarrow>
     published (sy_stream y') \<and> st_header (sy_stream y') = st_header (sy_stream y)"
proof (induction rule: rtranclp_induct)
  case (step z y')
  then show ?case using published_step [of lib z y'] by simp
qed simp

lemma trailer_step:
  "stream_step lib y y' \<Longrightarrow> st_finished (sy_stream y) \<Longrightarrow>
     st_finished (sy_stream y') \<and> st_trailer (sy_stream y') = st_trailer (sy_stream y)"
  by (erule stream_step.cases) (auto simp: stream_ops split: if_splits option.splits)

lemma trailer_steps:
  "stream_steps lib y y' \<Longrightarrow> st_finished (sy_stream y) \<Longrightarrow>
     st_finished (sy_stream y') \<and> st_trailer (sy_stream y') = st_trailer (sy_stream y)"
proof (induction rule: rtranclp_induct)
  case (step z y')
  then show ?case using trailer_step [of lib z y'] by simp
qed simp

lemma ready_step:
  "stream_step lib y y' \<Longrightarrow> (st_headerReady (sy_stream y) \<or> st_done (sy_stream y) \<longrightarrow> published (sy_stream y)) \<Longrightarrow>
     st_headerReady (sy_stream y') \<or> st_done (sy_stream y') \<longrightarrow> published (sy_stream y')"
  by (erule stream_step.cases) (auto simp: published_def stream_ops split: if_splits option.splits)

lemma ready_published:
  "stream_reach lib y \<Longrightarrow> st_headerReady (sy_stream y) \<or> st_done (sy_stream y) \<longrightarrow> published (sy_stream y)"
proof (induction rule: stream_reach.induct)
  case start
  then show ?case by (simp add: initialSystem_def newLocalStream_def)
next
  case (step y y')
  then show ?case using ready_step by blast
qed

text \<open>A header that a client has received is the header of the stream for good, and so is the trailer
  once the handler has returned, whatever the handler and the other parties do afterwards.\<close>
theorem header_final:
  assumes "stream_reach lib y" "Inr h \<in> set (HeaderSelect (sy_stream y))" "stream_steps lib y y'"
  shows "(\<forall>h'. Inr h' \<in> set (HeaderSelect (sy_stream y')) \<longrightarrow> h' = h)
     \<and> (st_finished (sy_stream y) \<longrightarrow> Trailer (sy_stream y') = Trailer (sy_stream y))"
proof -
  have "published (sy_stream y)" "h = st_header (sy_stream y)"
    using ready_published [OF assms(1)] assms(2) by (auto simp: HeaderSelect_def split: if_splits option.splits)
  then show ?thesis using published_steps [OF assms(3)] trailer_steps [OF assms(3)]
    by (auto simp: HeaderSelect_def Trailer_def split: if_splits option.splits)
qed

section \<open>An error overtakes a message\<close>

definition serverSends :: "'m \<Rightarrow> 'm system \<Rightarrow> 'm system" where
  "serverSends m y = y\<lparr>sy_stream := (sy_stream y)\<lparr>st_headerSent := True, st_headerReady := True,
       st_toClient := \<lparr>ch_buf = [m], ch_cap = 1, ch_closed = False\<rparr>\<rparr>, sy_serverSend := SendIdle, sy_sentDown := sy_sentDown y @ [m]\<rparr>"

lemma reach_serverSends:
  assumes "stream_reach lib y" "sy_serverSend y = SendIdle" "\<not> st_finished (sy_stream y)"
    and "st_toClient (sy_stream y) = \<lparr>ch_buf = [], ch_cap = 1, ch_closed = False\<rparr>"
  shows "stream_reach lib (serverSends m y)"
proof -
  let ?s = "(sy_stream y)\<lparr>st_headerSent := True, st_headerReady := True\<rparr>"
  let ?y1 = "y\<lparr>sy_stream := ?s, sy_serverSend := Sending m\<rparr>"
  have "stream_step lib y ?y1" by (rule stream_step.serverSendCall) (use assms in \<open>simp_all add: serverSendBegin_def\<close>)
  moreover have "stream_step lib ?y1 (?y1\<lparr>sy_stream := ?s\<lparr>st_toClient := \<lparr>ch_buf = [m], ch_cap = 1, ch_closed = False\<rparr>\<rparr>,
      sy_serverSend := SendIdle, sy_sentDown := sy_sentDown ?y1 @ [m]\<rparr>)"
    by (rule stream_step.serverSendDone) (use assms in \<open>simp_all add: serverSendSelect_def chan_offer_def chan_send_def\<close>)
  ultimately show ?thesis using assms(1) by (auto simp: serverSends_def intro: stream_reach.step)
qed

text \<open>A stream on which the server sent one message.\<close>

definition exampleSystem :: "nat system" where
  "exampleSystem = serverSends 7 initialSystem"

theorem stream_fifo_witness:
  "sy_sentDown exampleSystem = [7] \<and> sy_sentDown exampleSystem = sy_recvDown exampleSystem @ ch_buf (st_toClient (sy_stream exampleSystem))
   \<and> delivered (sy_clientResults exampleSystem) = sy_recvDown exampleSystem"
proof -
  have "stream_reach lib exampleSystem" unfolding exampleSystem_def
    by (rule reach_serverSends [OF stream_reach.start])
      (simp_all add: initialSystem_def newLocalStream_def chan_make_def)
  from stream_fifo [OF this] show ?thesis by (simp add: exampleSystem_def serverSends_def initialSystem_def)
qed

text \<open>An error can overtake a message.  A client waits, the handler sends a message and returns an
  error: both cases of the client's waiting \<open>select\<close> are ready, and when Go picks the end of the
  stream the receive call returns the error although the message was sent before it and is
  buffered; a further call then returns the message.  (The successful end looks at the buffer once
  more and the failing one does not.)\<close>
theorem stream_error_overtakes:
  "\<exists>y. stream_reach lib y \<and> sy_sentDown y = [m]
     \<and> sy_clientResults y = [Inl (StatusError e), Inr m]"
proof -
  let ?s0 = "newLocalStream :: 'a stream"
  let ?y1 = "initialSystem\<lparr>sy_clientRecv := RecvWaiting\<rparr> :: 'a system"
  have r1: "stream_reach lib ?y1"
    by (rule stream_reach.step [OF stream_reach.start stream_step.clientRecvWait])
      (simp_all add: initialSystem_def newLocalStream_def takeClient_def chan_make_def chan_take_def chan_recv_def)
  let ?y2 = "serverSends m ?y1"
  have r2: "stream_reach lib ?y2"
    by (rule reach_serverSends [OF r1]) (simp_all add: initialSystem_def newLocalStream_def chan_make_def)
  let ?y3 = "?y2\<lparr>sy_stream := finish (Some (StatusError e)) (sy_stream ?y2)\<rparr>"
  have r3: "stream_reach lib ?y3"
    by (rule stream_reach.step [OF r2 stream_step.handlerReturns])
      (simp_all add: serverSends_def initialSystem_def newLocalStream_def)
  let ?y4 = "clientFails (StatusError e) ?y3"
  have r4: "stream_reach lib ?y4"
    by (rule stream_reach.step [OF r3 stream_step.clientRecvError [where s = "sy_stream ?y3"]])
      (simp_all add: serverSends_def initialSystem_def newLocalStream_def finish_def receiveServerSelect_def recvEnds_def)
  let ?s5 = "(sy_stream ?y4)\<lparr>st_toClient := \<lparr>ch_buf = [], ch_cap = 1, ch_closed = False\<rparr>\<rparr>"
  have r5: "stream_reach lib (clientGets m ?s5 ?y4)"
    by (rule stream_reach.step [OF r4 stream_step.clientRecvNow])
      (simp_all add: clientFails_def serverSends_def finish_def takeClient_def chan_take_def chan_recv_def)
  then show ?thesis
    by (rule exI [of _ "clientGets m ?s5 ?y4", OF conjI]) (simp add: clientGets_def clientFails_def serverSends_def initialSystem_def)
qed

end
