(* ===== verification/LocalOpen.thy ===== *)
theory LocalOpen
  imports LocalStream
begin

text \<open>
  How a stream of \<open>client/localgrpc/conn.go\<close> is opened and what a client and a handler see of it:
  the interceptors of either side, the goroutine of the handler, the copies made of messages and
  the call options that receive header and trailer.  The operations of \<open>LocalStream\<close> are used as
  they are.  What a handler does with the stream is a program of a type of its own; a context is a
  parameter, and \<open>ctxErr\<close> stands for its \<open>Err\<close>.
\<close>

section \<open>Registered streams\<close>

record 'p streamDesc =
  sm_clientStreams :: bool
  sm_serverStreams :: bool
  sm_handler :: 'p

record streamInfo =
  in_fullMethod :: string
  in_isClientStream :: bool
  in_isServerStream :: bool

type_synonym 'p streamInterceptor = "streamInfo \<Rightarrow> 'p \<Rightarrow> 'p"

section \<open>The two ends\<close>

record ('m, 'x) localStream =
  ls_stream :: "'m stream"
  ls_ctx :: 'x
  ls_operation :: string

record ('m, 'x) localClientStream =
  lc_stream :: "('m, 'x) localStream"
  lc_headerOptions :: "nat list"
  lc_trailerOptions :: "nat list"

definition openLocalStream :: "('x \<Rightarrow> rpcErr option) \<Rightarrow> 'x \<Rightarrow> string \<Rightarrow> ('m, 'x) localStream" where
  "openLocalStream ctxErr ctx operation =
     \<lparr>ls_stream = newLocalStream\<lparr>st_ctxErr := ctxErr ctx\<rparr>, ls_ctx = ctx, ls_operation = operation\<rparr>"

definition streamSetContext :: "('x \<Rightarrow> rpcErr option) \<Rightarrow> 'x \<Rightarrow> ('m, 'x) localStream \<Rightarrow> ('m, 'x) localStream" where
  "streamSetContext ctxErr ctx s = s\<lparr>ls_ctx := ctx, ls_stream := (ls_stream s)\<lparr>st_ctxErr := ctxErr ctx\<rparr>\<rparr>"

definition streamContext :: "('m, 'x) localStream \<Rightarrow> 'x" where
  "streamContext s = ls_ctx s"

definition streamMethodName :: "('m, 'x) localStream \<Rightarrow> string" where
  "streamMethodName s = ls_operation s"

definition configureCallOptions :: "callOption list \<Rightarrow> ('m, 'x) localClientStream \<Rightarrow> ('m, 'x) localClientStream" where
  "configureCallOptions options s = fold (\<lambda>opt c. case opt of
      HeaderOption (Some a) \<Rightarrow> c\<lparr>lc_headerOptions := lc_headerOptions c @ [a]\<rparr>
    | TrailerOption (Some a) \<Rightarrow> c\<lparr>lc_trailerOptions := lc_trailerOptions c @ [a]\<rparr>
    | _ \<Rightarrow> c) options s"

section \<open>Opening\<close>

text \<open>The handler runs in a goroutine, inside the server interceptor if there is one, and what it
  returns or panics with ends the stream.\<close>

definition streamProgram :: "'p streamInterceptor option \<Rightarrow> string \<Rightarrow> 'p streamDesc \<Rightarrow> 'p" where
  "streamProgram interceptor method registered = (case interceptor of
      None \<Rightarrow> sm_handler registered
    | Some f \<Rightarrow> f \<lparr>in_fullMethod = method, in_isClientStream = sm_clientStreams registered,
         in_isServerStream = sm_serverStreams registered\<rparr> (sm_handler registered))"

datatype programEnd = ProgramReturns "rpcErr option" | ProgramPanics string

definition programError :: "programEnd \<Rightarrow> rpcErr option" where
  "programError e = (case e of ProgramReturns err \<Rightarrow> err | ProgramPanics v \<Rightarrow> Some (HandlerFailure v))"

definition programFinish :: "programEnd \<Rightarrow> ('m, 'x) localStream \<Rightarrow> ('m, 'x) localStream" where
  "programFinish e s = s\<lparr>ls_stream := finish (programError e) (ls_stream s)\<rparr>"

record ('m, 'x, 'p) opened =
  op_client :: "('m, 'x) localClientStream"
  op_program :: 'p

type_synonym ('m, 'x, 'p, 'd) streamer = "'x \<Rightarrow> 'd \<Rightarrow> string \<Rightarrow> callOption list \<Rightarrow> (rpcErr, ('m, 'x, 'p) opened) result"
type_synonym ('m, 'x, 'p, 'd) streamClientInterceptor = "('m, 'x, 'p, 'd) streamer \<Rightarrow> ('m, 'x, 'p, 'd) streamer"
type_synonym ('m, 'x, 'i, 'c, 'p, 'd) localConn =
  "('x, 'i, 'c, 'p streamDesc, 'p streamInterceptor, ('m, 'x, 'p, 'd) streamClientInterceptor) conn"

definition newStream :: "('x \<Rightarrow> rpcErr option) \<Rightarrow> ('m, 'x, 'i, 'c, 'p, 'd) localConn \<Rightarrow> ('m, 'x, 'p, 'd) streamer" where
  "newStream ctxErr c ctx desc method options = (case cn_streams c method of
      None \<Rightarrow> Inl (Unimplemented method)
    | Some registered \<Rightarrow> Inr
        \<lparr>op_client = configureCallOptions options
           \<lparr>lc_stream = openLocalStream ctxErr ctx method, lc_headerOptions = [], lc_trailerOptions = []\<rparr>,
         op_program = streamProgram (cn_streamInterceptor c) method registered\<rparr>)"

definition chainStreamClient ::
  "('m, 'x, 'p, 'd) streamClientInterceptor option list \<Rightarrow> ('m, 'x, 'p, 'd) streamer \<Rightarrow> ('m, 'x, 'p, 'd) streamer" where
  "chainStreamClient interceptors base = foldr (\<lambda>i next. case i of None \<Rightarrow> next | Some f \<Rightarrow> f next) interceptors base"

definition NewStream :: "('x \<Rightarrow> rpcErr option) \<Rightarrow> ('m, 'x, 'i, 'c, 'p, 'd) localConn \<Rightarrow> ('m, 'x, 'p, 'd) streamer" where
  "NewStream ctxErr c = chainStreamClient (cn_streamClientInterceptors c) (newStream ctxErr c)"

section \<open>Messages\<close>

text \<open>A message sent is checked to be a protobuf message and cloned; the message received is copied into
  the one of the caller.  The result of the blocking part is an argument here.\<close>

definition sendMsg :: "'c anyMsg \<Rightarrow> ('c anyMsg \<Rightarrow> (rpcErr, unit) result) \<Rightarrow> (rpcErr, unit) result" where
  "sendMsg message send = (case message of Other _ \<Rightarrow> Inl NotProtobuf | Msg n c \<Rightarrow> send (Msg n c))"

definition serverRecvMsg :: "'c anyMsg \<Rightarrow> (rpcErr, 'c anyMsg) result \<Rightarrow> (rpcErr, 'c anyMsg) result" where
  "serverRecvMsg message received = bindR received (copyMessage message)"

definition fillPlaces :: "nat list \<Rightarrow> md \<Rightarrow> (nat \<Rightarrow> md) \<Rightarrow> (nat \<Rightarrow> md)" where
  "fillPlaces targets md places = fold (\<lambda>a p. p(a := md)) targets places"

definition updateTrailerOptions :: "('m, 'x) localClientStream \<Rightarrow> (nat \<Rightarrow> md) \<Rightarrow> (nat \<Rightarrow> md)" where
  "updateTrailerOptions s places = fillPlaces (lc_trailerOptions s) (st_trailer (ls_stream (lc_stream s))) places"

definition clientRecvMsg ::
  "('c anyMsg, 'x) localClientStream \<Rightarrow> 'c anyMsg \<Rightarrow> (rpcErr, 'c anyMsg) result \<Rightarrow> (nat \<Rightarrow> md)
    \<Rightarrow> (rpcErr, 'c anyMsg) result \<times> (nat \<Rightarrow> md)" where
  "clientRecvMsg s message received places = (case received of
      Inl err \<Rightarrow> (Inl err, updateTrailerOptions s places)
    | Inr m \<Rightarrow> (copyMessage message m, updateTrailerOptions s places))"

definition clientTrailer :: "('m, 'x) localClientStream \<Rightarrow> (nat \<Rightarrow> md) \<Rightarrow> md \<times> (nat \<Rightarrow> md)" where
  "clientTrailer s places = (let trailer = Trailer (ls_stream (lc_stream s)) in
     (trailer, fillPlaces (lc_trailerOptions s) trailer places))"

definition clientHeader ::
  "('m, 'x) localClientStream \<Rightarrow> (nat \<Rightarrow> md) \<Rightarrow> ((rpcErr, md) result \<times> (nat \<Rightarrow> md)) list" where
  "clientHeader s places = map (\<lambda>r. case r of
      Inl e \<Rightarrow> (Inl e, places)
    | Inr h \<Rightarrow> (Inr h, fillPlaces (lc_headerOptions s) h places)) (HeaderSelect (ls_stream (lc_stream s)))"

section \<open>The transport of a local stream\<close>

text \<open>\<open>localStreamTransport\<close> of \<open>client/local_transport.go\<close> forwards to the stream; setting a trailer never fails.\<close>

definition lstSetHeader :: "mdLib \<Rightarrow> md \<Rightarrow> ('m, 'x) localStream \<Rightarrow> rpcErr option \<times> ('m, 'x) localStream" where
  "lstSetHeader lib m s = (case SetHeader lib m (ls_stream s) of (e, st) \<Rightarrow> (e, s\<lparr>ls_stream := st\<rparr>))"

definition lstSendHeader :: "mdLib \<Rightarrow> md \<Rightarrow> ('m, 'x) localStream \<Rightarrow> rpcErr option \<times> ('m, 'x) localStream" where
  "lstSendHeader lib m s = (case SendHeader lib m (ls_stream s) of (e, st) \<Rightarrow> (e, s\<lparr>ls_stream := st\<rparr>))"

definition lstSetTrailer :: "mdLib \<Rightarrow> md \<Rightarrow> ('m, 'x) localStream \<Rightarrow> rpcErr option \<times> ('m, 'x) localStream" where
  "lstSetTrailer lib m s = (None, s\<lparr>ls_stream := SetTrailer lib m (ls_stream s)\<rparr>)"

text \<open>Headers set before the first send arrive joined in their order; afterwards a handler gets an error
  and the header is left alone.\<close>
lemma lst_headers:
  assumes "\<not> st_finished (ls_stream s)" "\<not> st_headerSent (ls_stream s)"
    and "lstSetHeader lib a s = (e1, s1)" "lstSendHeader lib b s1 = (e2, s2)" "lstSetHeader lib c s2 = (e3, s3)"
  shows "e1 = None \<and> e2 = None \<and> e3 \<noteq> None \<and> s3 = s2
    \<and> st_header (ls_stream s3) = ml_join lib (ml_join lib (st_header (ls_stream s)) a) b"
  using assms by (auto simp: lstSetHeader_def lstSendHeader_def SetHeader_def SendHeader_def split: if_splits)

section \<open>What the options receive\<close>

definition headerTargets :: "callOption list \<Rightarrow> nat list" where
  "headerTargets options = List.map_filter (\<lambda>opt. case opt of HeaderOption a \<Rightarrow> a | _ \<Rightarrow> None) options"

definition trailerTargets :: "callOption list \<Rightarrow> nat list" where
  "trailerTargets options = List.map_filter (\<lambda>opt. case opt of TrailerOption a \<Rightarrow> a | _ \<Rightarrow> None) options"

lemma fillPlaces_apply: "fillPlaces targets md places a = (if a \<in> set targets then md else places a)"
  unfolding fillPlaces_def by (induction targets arbitrary: places) auto

lemma configured:
  "configureCallOptions options s = s\<lparr>lc_headerOptions := lc_headerOptions s @ headerTargets options,
     lc_trailerOptions := lc_trailerOptions s @ trailerTargets options\<rparr>"
  unfolding configureCallOptions_def headerTargets_def trailerTargets_def
  by (induction options arbitrary: s) (auto simp: List.map_filter_def split: callOption.splits option.splits)

lemma chainStreamClient_none: "\<forall>i\<in>set interceptors. i = None \<Longrightarrow> chainStreamClient interceptors base = base"
  by (induction interceptors) (simp_all add: chainStreamClient_def)

text \<open>Without client interceptors a registered method opens: the goroutine runs the handler, wrapped
  exactly once by the server interceptor when there is one, on a fresh stream of this context and
  method; and a method that is not registered opens nothing.\<close>
lemma NewStream_opens:
  assumes "\<forall>i\<in>set (cn_streamClientInterceptors c). i = None"
  shows "NewStream ctxErr c ctx desc method options = (case cn_streams c method of
      None \<Rightarrow> Inl (Unimplemented method)
    | Some registered \<Rightarrow> Inr
        \<lparr>op_client = \<lparr>lc_stream = openLocalStream ctxErr ctx method, lc_headerOptions = headerTargets options,
            lc_trailerOptions = trailerTargets options\<rparr>,
         op_program = streamProgram (cn_streamInterceptor c) method registered\<rparr>)"
  using assms by (simp add: NewStream_def chainStreamClient_none newStream_def configured split: option.splits)

text \<open>The first interceptor is the outermost.\<close>
lemma NewStream_intercepted:
  assumes "cn_streamClientInterceptors c = Some f # rest"
  shows "NewStream ctxErr c = f (NewStream ctxErr (c\<lparr>cn_streamClientInterceptors := rest\<rparr>))"
proof -
  have "newStream ctxErr (c\<lparr>cn_streamClientInterceptors := rest\<rparr>) = newStream ctxErr c"
    by (intro ext) (simp add: newStream_def split: option.splits)
  then show ?thesis using assms by (simp add: NewStream_def chainStreamClient_def)
qed

text \<open>Every receive call of the client, a failed one included, refreshes every place a trailer option
  of the call named, and no other place; a panic of the handler is the error of its stream.\<close>
lemma clientRecvMsg_trailer:
  assumes "lc_trailerOptions s = trailerTargets options"
  shows "snd (clientRecvMsg s message received places) a =
     (if a \<in> set (trailerTargets options) then st_trailer (ls_stream (lc_stream s)) else places a)"
  using assms by (simp add: clientRecvMsg_def updateTrailerOptions_def fillPlaces_apply split: sum.splits)

lemma programFinish_result:
  "st_err (ls_stream (programFinish e s)) = programError e" "st_done (ls_stream (programFinish e s))"
  "programError (ProgramPanics v) \<noteq> None"
  by (simp_all add: programFinish_def finish_def programError_def)

end
