(* ===== verification/LocalCall.thy ===== *)
theory LocalCall
  imports Connection LocalOpen
begin

text \<open>
  A unary call in process, end to end: the client call of \<open>client/localgrpc/conn.go\<close>, the handler that
  protoc-gen-go-grpc generates for a method (a parameter with the law \<open>generatedUnary\<close>), the
  interceptor of \<open>client/connection.go\<close> with its middlewares, the method of the service, and the way
  of the response metadata back to the call options.
\<close>

section \<open>The interceptor on a local connection\<close>

type_synonym 'c localServe = "md \<Rightarrow> md callCtx \<Rightarrow> localTransport \<Rightarrow> 'c anyMsg \<Rightarrow> (rpcErr, 'c anyMsg) result \<times> localTransport"
type_synonym 'c localInterceptor =
  "string option \<Rightarrow> 'c localServe \<Rightarrow> md callCtx \<Rightarrow> 'c anyMsg \<Rightarrow> responseMetadata \<Rightarrow> 'c outcome \<times> responseMetadata"

text \<open>\<open>Conn.Invoke\<close> puts a response metadata into the context, and the interceptor fills it when the chain
  has returned, with an error or not.\<close>

definition localUnaryServer ::
  "((md callCtx \<Rightarrow> 'c anyMsg \<Rightarrow> (rpcErr, 'c anyMsg) result \<times> localTransport) \<Rightarrow> md callCtx \<Rightarrow> 'c anyMsg
      \<Rightarrow> (rpcErr, 'c anyMsg) result \<times> localTransport) \<Rightarrow> 'c localInterceptor" where
  "localUnaryServer chain info handler ctx req rm = (case newLocalUnaryInterceptor chain info handler ctx req of
      (r, header, trailer) \<Rightarrow>
        (case r of Inl e \<Rightarrow> Fails e | Inr response \<Rightarrow> Returns response, \<lparr>rm_header = header, rm_trailer = trailer\<rparr>))"

text \<open>A generated handler decodes into a fresh request message and calls the interceptor with the name of
  the method, or the method itself without one.\<close>

definition generatedUnary ::
  "string \<Rightarrow> 'c anyMsg \<Rightarrow> 'c localServe \<Rightarrow> (md callCtx \<Rightarrow> 'c anyMsg \<Rightarrow> responseMetadata \<Rightarrow> 'c outcome \<times> responseMetadata)
    \<Rightarrow> (md callCtx, 'c localInterceptor, 'c) unaryHandler \<Rightarrow> bool" where
  "generatedUnary method request serve direct h \<longleftrightarrow> (\<forall>ctx decode interceptor rm.
     h ctx decode interceptor rm = (case decode request of
        Inl e \<Rightarrow> (Fails e, rm)
      | Inr req \<Rightarrow> (case interceptor of
          None \<Rightarrow> direct ctx req rm
        | Some f \<Rightarrow> f (Some method) serve ctx req rm)))"

section \<open>Where response metadata ends up\<close>

definition namesPlace :: "nat \<Rightarrow> callOption \<Rightarrow> bool" where
  "namesPlace a opt \<longleftrightarrow> opt = HeaderOption (Some a) \<or> opt = TrailerOption (Some a)"

lemma applyCallOptions_last:
  "applyCallOptions options rm places a = (case find (namesPlace a) (rev options) of
      None \<Rightarrow> places a
    | Some (HeaderOption _) \<Rightarrow> rm_header rm
    | Some _ \<Rightarrow> rm_trailer rm)"
proof (induction options rule: rev_induct)
  case Nil
  then show ?case by (simp add: applyCallOptions_def)
next
  case (snoc opt options)
  then show ?case by (auto simp: applyCallOptions_def namesPlace_def split: callOption.splits option.splits)
qed

lemma chainClient_none: "\<forall>i\<in>set interceptors. i = None \<Longrightarrow> chainClient interceptors base = base"
  by (induction interceptors) (simp_all add: chainClient_def)

text \<open>A request of another type than the method's never reaches the service.\<close>
lemma local_call_mismatch:
  assumes "cn_methods c method = Some h" "generatedUnary method (Msg requestName blank) serve direct h"
    and "\<forall>i\<in>set (cn_clientInterceptors c). i = None" "\<forall>content. args \<noteq> Msg requestName content"
  shows "\<exists>e. LocalGrpc.Invoke c ctx method args reply options places
     = (Inl e, applyCallOptions options \<lparr>rm_header = Map.empty, rm_trailer = Map.empty\<rparr> places)"
  using assms(1,4) assms(2) [unfolded generatedUnary_def]
  by (cases args) (auto simp: LocalGrpc.Invoke_def chainClient_none [OF assms(3)] invoke_def copyMessage_def)

text \<open>C12.
  What a unary call on a local connection does.  On a connection with no client interceptor (none but nil
  ones), whose interceptor for methods is the middleware of static metadata, a call with a request of the
  method's type reaches the method with the request as it was sent, the operation set and its reply
  metadata empty; the metadata it sees is, for every key, the caller's values if the caller had any,
  otherwise the last static value configured for the key in any case, and nothing else.  The result is the
  method's, its response copied into the message of the caller; and the header and trailer the method has
  set, in case of an error too, are stored at every place a call option names, the last option of a place
  deciding, while no other place changes.\<close>
theorem local_unary_call:
  assumes "mdLaws lib" "ops = \<lparr>ho_get = localGet lib, ho_set = localSet lib\<rparr>"
    and "cn_methods c method = Some h" "generatedUnary method (Msg requestName blank) serve direct h"
    and "cn_interceptor c = Some (localUnaryServer (clientMetadata ops static))"
    and "\<forall>i\<in>set (cn_clientInterceptors c). i = None"
    and "out = (case cc_outgoing ctx of None \<Rightarrow> Map.empty | Some o' \<Rightarrow> o')"
    and "LocalGrpc.Invoke c ctx method (Msg requestName content) reply options places = (result, places')"
  shows "\<exists>incoming serverCtx t response t'. serve incoming serverCtx t (Msg requestName content) = (response, t')
     \<and> (\<forall>key. incoming key = (case out key of
         Some values \<Rightarrow> Some values
       | None \<Rightarrow> map_option (\<lambda>(_, v). [v]) (find (\<lambda>(k, _). to_lower k = key) (rev static))))
     \<and> lt_operation t = method \<and> lt_replyHeader t = Map.empty \<and> lt_replyTrailer t = Map.empty
     \<and> result = bindR response (copyMessage reply)
     \<and> (\<forall>a. places' a = (case find (namesPlace a) (rev options) of
         None \<Rightarrow> places a
       | Some (HeaderOption _) \<Rightarrow> lt_replyHeader t'
       | Some _ \<Rightarrow> lt_replyTrailer t'))"
proof -
  let ?req = "Msg requestName content"
  obtain incoming cx t where
    eq: "newLocalUnaryInterceptor (clientMetadata ops static) (Some method) serve ctx ?req
      = (case serve incoming cx t ?req of (response, t') \<Rightarrow> (response, lt_replyHeader t', lt_replyTrailer t'))"
    and t: "lt_operation t = method" "lt_replyHeader t = Map.empty" "lt_replyTrailer t = Map.empty"
    and inc: "\<forall>key. incoming key = (case out key of
         Some values \<Rightarrow> Some values
       | None \<Rightarrow> map_option (\<lambda>(_, v). [v]) (find (\<lambda>(k, _). to_lower k = key) (rev static)))"
    using local_unary_runs [OF assms(1,2,7), of static "method" serve ?req] by blast
  obtain response t' where run: "serve incoming cx t ?req = (response, t')" by fastforce
  let ?rm = "\<lparr>rm_header = lt_replyHeader t', rm_trailer = lt_replyTrailer t'\<rparr>"
  have "h ctx (\<lambda>request. copyMessage request ?req) (cn_interceptor c) rm
      = (case response of Inl e \<Rightarrow> Fails e | Inr r \<Rightarrow> Returns r, ?rm)" for rm
    using assms(4) [unfolded generatedUnary_def] by (simp add: copyMessage_def assms(5) localUnaryServer_def eq run)
  then have "(result, places') = (bindR response (copyMessage reply), applyCallOptions options ?rm places)"
    unfolding assms(8) [symmetric]
    by (cases response) (simp_all add: LocalGrpc.Invoke_def chainClient_none [OF assms(6)] invoke_def assms(3))
  then have res: "result = bindR response (copyMessage reply)" and pl: "places' = applyCallOptions options ?rm places" by simp_all
  have "places' a = (case find (namesPlace a) (rev options) of
      None \<Rightarrow> places a | Some (HeaderOption _) \<Rightarrow> lt_replyHeader t' | Some _ \<Rightarrow> lt_replyTrailer t')" for a
    by (simp add: pl applyCallOptions_last split: option.splits callOption.splits)
  with run inc t res show ?thesis by blast
qed

text \<open>A method that answers and sets a header, called with an option for the header and one for the trailer.\<close>

definition exampleServe :: "nat localServe" where
  "exampleServe incoming ctx t req = (Inr (Msg ''Resp'' (length (mdValues incoming ''x-env''))),
     ltSetHeader stdMd [''served-by'' \<mapsto> [''a'']] t)"

definition exampleGenerated :: "(md callCtx, nat localInterceptor, nat) unaryHandler" where
  "exampleGenerated ctx decode interceptor rm = (case decode (Msg ''Req'' 0) of
      Inl e \<Rightarrow> (Fails e, rm)
    | Inr req \<Rightarrow> (case interceptor of None \<Rightarrow> (Returns req, rm) | Some f \<Rightarrow> f (Some ''/s/m'') exampleServe ctx req rm))"

definition exampleLocalConn :: "(md callCtx, nat localInterceptor, nat, unit, unit, unit) conn" where
  "exampleLocalConn = snd (RegisterService
     (Some \<lparr>sd_name = ''s'', sd_methods = [(''m'', exampleGenerated)], sd_streams = []\<rparr>) True
     (NewConn [Some (WithUnaryInterceptor (localUnaryServer
        (clientMetadata \<lparr>ho_get = localGet stdMd, ho_set = localSet stdMd\<rparr> [(''X-Env'', ''dev'')])))]))"

definition exampleCallCtx :: "md callCtx" where
  "exampleCallCtx = \<lparr>cc_requestID = None, cc_server = None, cc_client = None, cc_outgoing = None\<rparr>"

theorem local_unary_call_witness:
  "\<exists>places'. LocalGrpc.Invoke exampleLocalConn exampleCallCtx ''/s/m'' (Msg ''Req'' 3) (Msg ''Resp'' 0)
       [HeaderOption (Some 0), TrailerOption (Some 1)] (\<lambda>_. Map.empty) = (Inr (Msg ''Resp'' 1), places')
     \<and> places' 0 ''served-by'' = Some [''a''] \<and> places' 1 = Map.empty"
proof -
  let ?ops = "\<lparr>ho_get = localGet stdMd, ho_set = localSet stdMd\<rparr>" and ?static = "[(''X-Env'', ''dev'')]"
  have conn: "cn_methods exampleLocalConn ''/s/m'' = Some exampleGenerated"
      "cn_interceptor exampleLocalConn = Some (localUnaryServer (clientMetadata ?ops ?static))"
      "cn_clientInterceptors exampleLocalConn = []"
    by (simp_all add: exampleLocalConn_def RegisterService_def NewConn_def applyOption_def taken_def fullMethod_def)
  have gen: "generatedUnary ''/s/m'' (Msg ''Req'' 0) exampleServe (\<lambda>_ req rm. (Returns req, rm)) exampleGenerated"
    by (simp add: generatedUnary_def exampleGenerated_def)
  obtain result places' where run: "LocalGrpc.Invoke exampleLocalConn exampleCallCtx ''/s/m'' (Msg ''Req'' 3) (Msg ''Resp'' 0)
       [HeaderOption (Some 0), TrailerOption (Some 1)] (\<lambda>_. Map.empty) = (result, places')" by fastforce
  have none: "\<forall>i\<in>set (cn_clientInterceptors exampleLocalConn). i = None" by (simp add: conn)
  have out: "(\<lambda>_. None) = (case cc_outgoing exampleCallCtx of None \<Rightarrow> Map.empty | Some o' \<Rightarrow> o')"
    by (simp add: exampleCallCtx_def)
  obtain incoming serverCtx t response t' where
    s: "exampleServe incoming serverCtx t (Msg ''Req'' 3) = (response, t')"
      "\<forall>key. incoming key = map_option (\<lambda>(_, v). [v]) (find (\<lambda>(k, _). to_lower k = key) (rev ?static))"
      "lt_replyHeader t = Map.empty" "lt_replyTrailer t = Map.empty" "result = bindR response (copyMessage (Msg ''Resp'' 0))"
      "\<forall>a. places' a = (case find (namesPlace a) (rev [HeaderOption (Some 0), TrailerOption (Some 1)]) of
         None \<Rightarrow> Map.empty | Some (HeaderOption _) \<Rightarrow> lt_replyHeader t' | Some _ \<Rightarrow> lt_replyTrailer t')"
    using local_unary_call [OF stdMd_laws refl conn(1) gen conn(2) none out run] by auto
  have "find (\<lambda>(k, _). to_lower k = ''x-env'') (rev ?static) = Some (''X-Env'', ''dev'')" by code_simp
  then have "mdValues incoming ''x-env'' = [''dev'']" using s(2) by (simp add: mdValues_def)
  then have r: "response = Inr (Msg ''Resp'' 1)" "t' = ltSetHeader stdMd [''served-by'' \<mapsto> [''a'']] t"
    using s(1) by (auto simp: exampleServe_def)
  have "places' 0 = lt_replyHeader t'" "places' 1 = lt_replyTrailer t'" using s(6) by (simp_all add: namesPlace_def)
  then show ?thesis using run s(3-5)
    by (intro exI [of _ places']) (simp add: r copyMessage_def ltSetHeader_def stdMd_def mdValues_def)
qed

end
