(* ===== verification/PolicyAudit.thy ===== *)
theory PolicyAudit
  imports Auth Emitter
begin

text \<open>
  The audit of policy evaluations across \<open>server/middleware/auth.go\<close> and \<open>biz/base_log.go\<close>: the
  authorizer that decorates the engine, the event it hands to the process-wide emitter, and the record
  that is stored for the event.
\<close>

section \<open>The decorated engine\<close>

record ('p, 'pairs, 'projects) authzEngine =
  en_name :: string
  en_isAuthorized :: isAuthorized
  en_projectsAuthorized :: "'p \<Rightarrow> string \<Rightarrow> string \<Rightarrow> 'projects \<Rightarrow> (string, 'projects) result"
  en_filterPairs :: "'p \<Rightarrow> 'pairs \<Rightarrow> (string, 'pairs) result"
  en_filterProjects :: "'p \<Rightarrow> (string, 'projects) result"

text \<open>What one evaluation reads besides its arguments: the clock at its start, its duration, the
  environment of the log.\<close>

record evaluation =
  el_startedAt :: goTime
  el_durationMs :: int32
  el_log :: logEnv

text \<open>\<open>IsAuthorized\<close> of the decorator: the answer of the engine, after its event went to the emitter that
  is set; an event that cannot be delivered does not change the answer.  All other methods are the
  engine's.\<close>

definition auditedAuthorizer ::
  "('p, 'pairs, 'projects) authzEngine \<Rightarrow> (string \<Rightarrow> string option) \<Rightarrow> string \<Rightarrow> evaluation \<Rightarrow> reqCtx \<Rightarrow> string \<Rightarrow> string
    \<Rightarrow> string \<Rightarrow> string \<Rightarrow> processLogs \<Rightarrow> (string, bool) result \<times> processLogs" where
  "auditedAuthorizer en splitHost denied el ctx subject action resource project g =
     (case auditedIsAuthorized (en_name en) splitHost denied (el_startedAt el) (el_durationMs el) (en_isAuthorized en)
        ctx subject action resource project of
        (outcome, event) \<Rightarrow> (outcome, snd (emitCall (emitRead g) (el_log el) event g)))"

definition auditedName :: "('p, 'pairs, 'projects) authzEngine \<Rightarrow> string" where
  "auditedName en = en_name en"

definition auditedProjectsAuthorized ::
  "('p, 'pairs, 'projects) authzEngine \<Rightarrow> 'p \<Rightarrow> string \<Rightarrow> string \<Rightarrow> 'projects \<Rightarrow> (string, 'projects) result" where
  "auditedProjectsAuthorized en subjects action resource projects = en_projectsAuthorized en subjects action resource projects"

definition auditedFilterPairs :: "('p, 'pairs, 'projects) authzEngine \<Rightarrow> 'p \<Rightarrow> 'pairs \<Rightarrow> (string, 'pairs) result" where
  "auditedFilterPairs en subjects pairs = en_filterPairs en subjects pairs"

definition auditedFilterProjects :: "('p, 'pairs, 'projects) authzEngine \<Rightarrow> 'p \<Rightarrow> (string, 'projects) result" where
  "auditedFilterProjects en subjects = en_filterProjects en subjects"

section \<open>The trace of a decision\<close>

lemma policyEvent_fields:
  assumes "event = policyEvent engine splitHost denied startedAt durationMs ctx subject action resource project outcome"
  shows "ev_kind event = ''policy_evaluation''" "ev_engine event = engine" "ev_resource event = resource"
    "ev_action event = action" "ev_project event = project" "ev_roleCode event = subject"
    "ev_decision event = (case outcome of Inl _ \<Rightarrow> 3 | Inr allowed \<Rightarrow> if allowed then 1 else 2)"
    "ev_requestTime event = startedAt"
    "ev_userID event = (case rc_claims ctx of None \<Rightarrow> 0 | Some cl \<Rightarrow> int64Of (tk_userID cl))"
    "ev_tenantCode event = (case rc_authz ctx of
        Some az \<Rightarrow> (case az_tenant az of Some tenant \<Rightarrow> tenant
          | None \<Rightarrow> (case rc_claims ctx of None \<Rightarrow> [] | Some cl \<Rightarrow> stringOf (tk_tenantCode cl)))
      | None \<Rightarrow> (case rc_claims ctx of None \<Rightarrow> [] | Some cl \<Rightarrow> stringOf (tk_tenantCode cl)))"
  unfolding assms policyEvent_def
  by (simp_all add: Let_def emptyEvent_def policyDecisionError_def policyDecisionAllow_def policyDecisionDeny_def
      split: option.splits sum.splits)

text \<open>C34.
  Every evaluation of a policy leaves its trace.  The answer is the engine's, whatever becomes of the
  event: with no emitter, a closed one or a full buffer too.  If an emitter is set, is open and has room,
  the event is the last one its pipeline has accepted, and the record made of it, whenever it is stored,
  tells the decision (1 allowed, 2 denied, 3 failed), the engine, who asked for which resource and action,
  and when; it belongs to the table of policy evaluations.\<close>
theorem policy_decision_recorded:
  assumes "auditedAuthorizer en splitHost denied el ctx subject action resource project g = (outcome, g')"
    and "process_reach marshal g"
  shows "outcome = en_isAuthorized en ctx subject action resource project
    \<and> (pg_emitter g = None \<longrightarrow> g' = g)
    \<and> (\<forall>i. pg_emitter g = Some i \<longrightarrow> \<not> pl_closed (pg_pipelines g ! i)
        \<longrightarrow> length (ch_buf (pl_events (pg_pipelines g ! i))) < ch_cap (pl_events (pg_pipelines g ! i)) \<longrightarrow>
      (\<exists>event. pl_accepted (pg_pipelines g' ! i) = pl_accepted (pg_pipelines g ! i) @ [event]
        \<and> ev_kind event = ''policy_evaluation''
        \<and> (\<forall>now. let r = policyEvaluationLogFromEvent now event in
             pl_decision r = (case outcome of Inl _ \<Rightarrow> 3 | Inr allowed \<Rightarrow> if allowed then 1 else 2)
           \<and> pl_engine r = en_name en \<and> pl_resource r = resource \<and> pl_action r = action \<and> pl_project r = project
           \<and> pl_roleCode r = subject
           \<and> pl_userID r = (case rc_claims ctx of None \<Rightarrow> 0 | Some cl \<Rightarrow> int64Of (tk_userID cl))
           \<and> (el_startedAt el \<noteq> 0 \<longrightarrow> pl_occurredAt r = el_startedAt el) \<and> pl_createdAt r = now)))"
proof -
  define event where "event = policyEvent (en_name en) splitHost denied (el_startedAt el) (el_durationMs el) ctx subject action
      resource project (en_isAuthorized en ctx subject action resource project)"
  note fields = policyEvent_fields [OF event_def]
  let ?e = "normalizeLogEvent (el_log el) event"
  have out: "outcome = en_isAuthorized en ctx subject action resource project"
    and g': "g' = snd (emitCall (pg_emitter g) (el_log el) event g)"
    using assms(1) by (auto simp: auditedAuthorizer_def auditedIsAuthorized_def Let_def event_def emitRead_def)
  have inv: "process_inv marshal g" by (rule process_reach_inv [OF assms(2)])
  have acc: "pl_accepted (pg_pipelines g' ! i) = pl_accepted (pg_pipelines g ! i) @ [?e]"
    if set: "pg_emitter g = Some i" and room: "\<not> pl_closed (pg_pipelines g ! i)"
      "length (ch_buf (pl_events (pg_pipelines g ! i))) < ch_cap (pl_events (pg_pipelines g ! i))" for i
  proof -
    let ?p = "pg_pipelines g ! i"
    have i: "i < length (pg_pipelines g)" using inv set by (simp add: process_inv_def)
    have "pl_closed ?p = ch_closed (pl_events ?p)"
      using pipe_reach_inv [OF process_inv_nth [OF inv i]] by (simp add: pipe_inv_def)
    then have "pl_accepted (snd (Emit (el_log el) event ?p)) = pl_accepted ?p @ [?e]"
      using room by (simp add: Emit_def Let_def chan_send_def)
    then show ?thesis using i by (auto simp: g' set emitCall_def split: prod.splits)
  qed
  have norm: "ev_kind ?e = ''policy_evaluation''" "ev_decision ?e = ev_decision event" "ev_engine ?e = ev_engine event"
    "ev_resource ?e = ev_resource event" "ev_action ?e = ev_action event" "ev_project ?e = ev_project event"
    "ev_roleCode ?e = ev_roleCode event" "ev_userID ?e = ev_userID event"
    "el_startedAt el \<noteq> 0 \<longrightarrow> ev_requestTime ?e = el_startedAt el"
    using fields(1,8) by (simp_all add: normalizeLogEvent_def Let_def)
  have none: "pg_emitter g = None \<longrightarrow> g' = g" by (simp add: g' emitCall_def)
  show ?thesis
    using out none acc norm fields
    by (intro conjI allI impI exI [of _ ?e]) (simp_all add: policyEvaluationLogFromEvent_def Let_def)
qed

definition exampleEngine :: "(unit, unit, unit) authzEngine" where
  "exampleEngine = \<lparr>en_name = ''casbin'', en_isAuthorized = (\<lambda>_ s a r p. Inr (s = ''admin'')),
     en_projectsAuthorized = (\<lambda>_ _ _ p. Inr p), en_filterPairs = (\<lambda>_ p. Inr p), en_filterProjects = (\<lambda>_. Inr ())\<rparr>"

theorem policy_decision_recorded_witness:
  "\<exists>g' event. auditedAuthorizer exampleEngine (\<lambda>_. None) ''denied'' \<lparr>el_startedAt = 5, el_durationMs = 1, el_log = exampleEnv\<rparr>
       emptyCtx ''guest'' ''GET'' ''/s/m'' [] (NewLogPipeline emptyProcess) = (Inr False, g')
     \<and> pl_accepted (pg_pipelines g' ! 0) = [event] \<and> pl_decision (policyEvaluationLogFromEvent 9 event) = 2"
proof -
  let ?g = "NewLogPipeline emptyProcess" and ?m = "\<lambda>_ :: LogEvent. Inr ''body'' :: (string, string) result"
  let ?el = "\<lparr>el_startedAt = 5, el_durationMs = 1, el_log = exampleEnv\<rparr>"
  have reach: "process_reach ?m ?g" by (rule process_reach.step [OF process_reach.start process_step.new])
  have new: "pg_emitter ?g = Some 0" "pg_pipelines ?g = [newLogPipeline]"
    by (simp_all add: NewLogPipeline_def SetLogEmitter_def emptyProcess_def)
  have open_: "\<not> pl_closed (pg_pipelines ?g ! 0)"
      "length (ch_buf (pl_events (pg_pipelines ?g ! 0))) < ch_cap (pl_events (pg_pipelines ?g ! 0))"
    by (simp_all add: new newLogPipeline_def chan_make_def logBufferSize_def)
  obtain outcome g' where run: "auditedAuthorizer exampleEngine (\<lambda>_. None) ''denied'' ?el emptyCtx ''guest'' ''GET'' ''/s/m'' [] ?g = (outcome, g')"
    by fastforce
  from policy_decision_recorded [OF run reach] new(1) open_ have "outcome = Inr False"
    and rec: "\<exists>event. pl_accepted (pg_pipelines g' ! 0) = pl_accepted (pg_pipelines ?g ! 0) @ [event]
      \<and> pl_decision (policyEvaluationLogFromEvent 9 event) = (case outcome of Inl _ \<Rightarrow> 3 | Inr allowed \<Rightarrow> if allowed then 1 else 2)"
    by (auto simp: exampleEngine_def Let_def)
  then show ?thesis using run by (auto simp: new newLogPipeline_def)
qed

end
