(* ===== verification/Servers.thy ===== *)
theory Servers
  imports Sse Resources OpenApiRegistry GoPath
begin

text \<open>
  Model of \<open>server/http.go\<close>, \<open>server/grpc.go\<close>, \<open>server/policy.go\<close>, \<open>mcp/server.go\<close> and \<open>bootstrap.go\<close>:
  how the transports of an application are built, what is mounted where, and which of them the
  application starts.  An HTTP server is the list of its registrations in their order, with the policy
  resolver that its outermost handler puts into every request; what the frameworks create is opaque and
  may fail.  The middleware chains are in the theory of the server chain.
\<close>

section \<open>Configuration\<close>

text \<open>The getters of a missing message give zero values, so a missing part reads as empty strings; the
  HTTP part itself is optional, and so are those of MCP and SSE.\<close>

record httpPart =
  hx_enableSwagger :: bool
  hx_staticRootDirectory :: string

record serverConfig =
  sg_http :: "httpPart option"
  sg_grpc :: bool
  sg_mcp :: "(bool \<times> string) option"   \<comment> \<open>whether in process, and the path\<close>
  sg_ssePath :: string
  sg_ossRootDirectory :: string
  sg_ossType :: string

datatype serverErr =
  McpNeedsHTTP | SseNeedsHTTP | HttpFailed string | McpHandlerFailed string | OpenApiFailed registryErr
| GrpcFailed string | McpFailed string | McpNotInitialised | EndpointFailed string

section \<open>MCP\<close>

record 'm mcpServer =
  ms_server :: "'m option"
  ms_inProcess :: bool

text \<open>The underlying server may be nil without an error.  \<open>addMiddleware\<close> adds the receiving
  middleware that puts the policy resolver into the context.\<close>

definition mcpNewServer ::
  "(bool \<Rightarrow> (string, 'm option) result) \<Rightarrow> ('m \<Rightarrow> 'm) \<Rightarrow> ('g, 'h, 'm) hostModule option list \<Rightarrow> serverConfig option
    \<Rightarrow> (serverErr, 'm mcpServer option) result" where
  "mcpNewServer create addMiddleware modules cfg = (case cfg of
      None \<Rightarrow> Inr None
    | Some c \<Rightarrow> (case sg_mcp c of
        None \<Rightarrow> Inr None
      | Some (inProcess, _) \<Rightarrow> (case create inProcess of
          Inl e \<Rightarrow> Inl (McpFailed e)
        | Inr server \<Rightarrow> Inr (Some \<lparr>ms_server = map_option (\<lambda>m. addMiddleware (RegisterMCP modules m)) server,
            ms_inProcess = inProcess\<rparr>))))"

text \<open>\<open>Start\<close>, \<open>Stop\<close> and the cleanup: whether the method of the underlying server is called.\<close>

definition mcpStartCalls :: "'m mcpServer option \<Rightarrow> bool" where
  "mcpStartCalls s = (case s of None \<Rightarrow> False | Some v \<Rightarrow> ms_server v \<noteq> None \<and> \<not> ms_inProcess v)"

definition mcpStopCalls :: "'m mcpServer option \<Rightarrow> bool" where
  "mcpStopCalls s = (case s of None \<Rightarrow> False | Some v \<Rightarrow> ms_server v \<noteq> None)"

definition mcpEndpoint :: "('m \<Rightarrow> (string, 'u) result) \<Rightarrow> 'm mcpServer option \<Rightarrow> (serverErr, 'u) result" where
  "mcpEndpoint endpoint s = (case s of None \<Rightarrow> Inl McpNotInitialised | Some v \<Rightarrow> (case ms_server v of
      None \<Rightarrow> Inl McpNotInitialised
    | Some m \<Rightarrow> (case endpoint m of Inl e \<Rightarrow> Inl (EndpointFailed e) | Inr u \<Rightarrow> Inr u)))"

section \<open>Policies of gRPC requests\<close>

text \<open>\<open>withPolicy\<close> is \<open>redact.WithPolicyResolver\<close>.\<close>

definition policyMiddleware :: "('p \<Rightarrow> 'c \<Rightarrow> 'c) \<Rightarrow> 'p \<Rightarrow> ('c \<Rightarrow> 'q \<Rightarrow> 'r) \<Rightarrow> 'c \<Rightarrow> 'q \<Rightarrow> 'r" where
  "policyMiddleware withPolicy resolver handler ctx request = handler (withPolicy resolver ctx) request"

record ('s, 'c) policyServerStream =
  ps_stream :: 's
  ps_ctx :: 'c

definition policyContext :: "('s, 'c) policyServerStream \<Rightarrow> 'c" where
  "policyContext s = ps_ctx s"

definition policyStreamInterceptor ::
  "('p \<Rightarrow> 'c \<Rightarrow> 'c) \<Rightarrow> 'p \<Rightarrow> ('s \<Rightarrow> 'c) \<Rightarrow> 'v \<Rightarrow> 's \<Rightarrow> ('v \<Rightarrow> ('s, 'c) policyServerStream \<Rightarrow> 'r) \<Rightarrow> 'r" where
  "policyStreamInterceptor withPolicy resolver context service stream handler =
     handler service \<lparr>ps_stream = stream, ps_ctx = withPolicy resolver (context stream)\<rparr>"

text \<open>\<open>create\<close> takes the middlewares; the two interceptors are options of the framework.\<close>

definition NewGRPCServer ::
  "('p \<Rightarrow> 'c \<Rightarrow> 'c) \<Rightarrow> 'p \<Rightarrow> ((('c \<Rightarrow> 'q \<Rightarrow> 'r) \<Rightarrow> 'c \<Rightarrow> 'q \<Rightarrow> 'r) list \<Rightarrow> (string, 'g) result)
    \<Rightarrow> serverConfig option \<Rightarrow> (('c \<Rightarrow> 'q \<Rightarrow> 'r) \<Rightarrow> 'c \<Rightarrow> 'q \<Rightarrow> 'r) list \<Rightarrow> ('g, 'h, 'm) hostModule option list
    \<Rightarrow> (serverErr, 'g option) result" where
  "NewGRPCServer withPolicy resolver create cfg middlewares modules =
     (if (case cfg of None \<Rightarrow> True | Some c \<Rightarrow> \<not> sg_grpc c) then Inr None
      else (case create (policyMiddleware withPolicy resolver # middlewares) of
          Inl e \<Rightarrow> Inl (GrpcFailed e)
        | Inr srv \<Rightarrow> Inr (Some (RegisterGRPC modules srv))))"

section \<open>HTTP routes\<close>

text \<open>What is registered: an exact path or a prefix, with its handler; documents are mounted by the
  OpenAPI registry, and \<open>'x\<close> is what modules register.\<close>

datatype ('hd, 'sh, 'x) httpHandler =
  DataFiles string | SpaFiles string string | McpHandler 'hd | SseHandler 'sh | DocumentHandler openapiRoute | ModuleHandler 'x

datatype ('hd, 'sh, 'x) httpRoute =
  Handle string "('hd, 'sh, 'x) httpHandler" | HandlePrefix string "('hd, 'sh, 'x) httpHandler"

record ('hd, 'sh, 'x, 'p) httpServer =
  hs_routes :: "('hd, 'sh, 'x) httpRoute list"
  hs_policy :: "'p option"

definition defaultOssRootDirectory :: string where "defaultOssRootDirectory = ''./data''"
definition defaultStaticRootDirectory :: string where "defaultStaticRootDirectory = ''./web''"

definition addRoutes ::
  "('hd, 'sh, 'x) httpRoute list \<Rightarrow> ('hd, 'sh, 'x, 'p) httpServer \<Rightarrow> ('hd, 'sh, 'x, 'p) httpServer" where
  "addRoutes rs srv = srv\<lparr>hs_routes := hs_routes srv @ rs\<rparr>"

definition validateInProcessHTTPHost :: "bool \<Rightarrow> 'm mcpServer option \<Rightarrow> 'srv sseServer option \<Rightarrow> serverErr option" where
  "validateInProcessHTTPHost httpConfigured mcp sse =
     (if httpConfigured then None
      else if (case mcp of None \<Rightarrow> False | Some v \<Rightarrow> ms_inProcess v) then Some McpNeedsHTTP
      else if (case sse of None \<Rightarrow> False | Some v \<Rightarrow> sv_inProcess v) then Some SseNeedsHTTP
      else None)"

definition registerDataStaticRoute :: "string \<Rightarrow> ('hd, 'sh, 'x, 'p) httpServer \<Rightarrow> ('hd, 'sh, 'x, 'p) httpServer" where
  "registerDataStaticRoute dir srv = addRoutes [HandlePrefix ''/data/'' (DataFiles dir)] srv"

text \<open>The file system: the entries of a directory with whether they are directories, \<open>filepath.Join\<close>
  and whether \<open>os.Stat\<close> succeeds.\<close>

record hostFS =
  hf_readDir :: "string \<Rightarrow> (string, (string \<times> bool) list) result"
  hf_join :: "string \<Rightarrow> string \<Rightarrow> string"
  hf_stat :: "string \<Rightarrow> bool"

definition spaRoutes :: "hostFS \<Rightarrow> string \<Rightarrow> string \<times> bool \<Rightarrow> ('hd, 'sh, 'x) httpRoute list" where
  "spaRoutes fs dir = (\<lambda>(name, isDir).
     (if \<not> isDir then []
      else (let directory = hf_join fs dir name in
        if \<not> hf_stat fs (hf_join fs directory ''index.html'') then []
        else (let prefix = ''/'' @ name; handler = SpaFiles directory prefix in
          [Handle prefix handler, HandlePrefix (prefix @ ''/'') handler]))))"

definition registerLocalSPARoutes :: "hostFS \<Rightarrow> string \<Rightarrow> ('hd, 'sh, 'x, 'p) httpServer \<Rightarrow> ('hd, 'sh, 'x, 'p) httpServer" where
  "registerLocalSPARoutes fs dir srv = (case hf_readDir fs dir of
      Inl _ \<Rightarrow> srv
    | Inr entries \<Rightarrow> addRoutes (concat (map (spaRoutes fs dir) entries)) srv)"

text \<open>What the SPA handler serves: a file of the directory, or the index.  \<open>exists\<close> is \<open>fs.Stat\<close>;
  \<open>StripPrefix\<close> answers "not found" if the path does not start with the prefix.\<close>

datatype spaResult = SpaFile string | SpaIndex | SpaNotFound

definition newSPAHandler :: "(string \<Rightarrow> bool) \<Rightarrow> string \<Rightarrow> string \<Rightarrow> spaResult" where
  "newSPAHandler exists base path =
     (let relativePath = trim_prefix (trim_prefix path base) ''/'' in
      if relativePath \<noteq> [] \<and> exists relativePath then
        (let stripped = trim_prefix path base in
         if length stripped < length path then SpaFile stripped else SpaNotFound)
      else SpaIndex)"

text \<open>The subscription handler of the server: what it does with a request of that method.\<close>

datatype sseHttp = ServeOptions | ServeDetached | Refuse401 sseErr | ServeStream string

definition NewSSEHTTPHandler :: "('q \<Rightarrow> (sseErr, string) result) option \<Rightarrow> string \<Rightarrow> 'q \<Rightarrow> sseHttp" where
  "NewSSEHTTPHandler resolver meth request =
     (if meth = ''OPTIONS'' then ServeOptions
      else (case resolver of
          None \<Rightarrow> ServeDetached
        | Some resolve \<Rightarrow> (case resolve request of
            Inl e \<Rightarrow> Refuse401 e
          | Inr streamID \<Rightarrow> ServeStream streamID)))"

text \<open>Whether a request may read the documents; the claims are those of the verified token.\<close>

definition newOpenAPIAuthorizer ::
  "string \<Rightarrow> (string \<Rightarrow> (string, claims) result) option \<Rightarrow> (int \<Rightarrow> string \<Rightarrow> bool) option \<Rightarrow> string \<Rightarrow> bool" where
  "newOpenAPIAuthorizer bearer authenticator userToken authorization = (case (authenticator, userToken) of
      (Some authenticate, Some tokenValid) \<Rightarrow>
        (let parts = str_fields authorization in
         if length parts \<noteq> 2 \<or> \<not> equal_fold (parts ! 0) bearer then False
         else (case authenticate (parts ! 1) of
             Inl _ \<Rightarrow> False
           | Inr cl \<Rightarrow> (case cl_userID cl of
               Inl _ \<Rightarrow> False
             | Inr userID \<Rightarrow> userID = 0 \<or> tokenValid userID (parts ! 1))))
    | _ \<Rightarrow> True)"

section \<open>The HTTP server\<close>

text \<open>The libraries: the handler of an MCP server, the path at which a document route is mounted (or an
  error), the default path of MCP and the name of local object storage.\<close>

record ('m, 'srv, 'hd, 'sh) httpEnv =
  he_mcpHandler :: "'m \<Rightarrow> (string, 'hd) result"
  he_sseHandler :: "'srv \<Rightarrow> 'sh"
  he_documentPath :: "openapiRoute \<Rightarrow> (string, string) result"
  he_defaultMcpPath :: string
  he_localStorage :: string
  he_parseTag :: "string \<Rightarrow> string option"
  he_registry :: openapiRegistry
  he_fs :: hostFS

definition mountDocument ::
  "('m, 'srv, 'hd, 'sh) httpEnv \<Rightarrow> openapiRoute \<Rightarrow> ('hd, 'sh, 'x, 'p) httpServer \<Rightarrow> (string, ('hd, 'sh, 'x, 'p) httpServer) result" where
  "mountDocument env r srv = (case he_documentPath env r of
      Inl e \<Rightarrow> Inl e | Inr path \<Rightarrow> Inr (addRoutes [HandlePrefix path (DocumentHandler r)] srv))"

definition mountMcp ::
  "('m, 'srv, 'hd, 'sh) httpEnv \<Rightarrow> serverConfig \<Rightarrow> 'm mcpServer option \<Rightarrow> ('hd, 'sh, 'x, 'p) httpServer
    \<Rightarrow> (serverErr, ('hd, 'sh, 'x, 'p) httpServer) result" where
  "mountMcp env c mcp srv = (case mcp of
      None \<Rightarrow> Inr srv
    | Some v \<Rightarrow> (case ms_server v of
        None \<Rightarrow> Inr srv
      | Some m \<Rightarrow>
          if \<not> ms_inProcess v then Inr srv
          else (case he_mcpHandler env m of
              Inl e \<Rightarrow> Inl (McpHandlerFailed e)
            | Inr handler \<Rightarrow>
                (let path = (case sg_mcp c of None \<Rightarrow> [] | Some (_, p) \<Rightarrow> p);
                     mcpPath = (if path \<noteq> [] then path else he_defaultMcpPath env)
                 in Inr (addRoutes [Handle mcpPath (McpHandler handler)] srv)))))"

definition mountSse ::
  "('m, 'srv, 'hd, 'sh) httpEnv \<Rightarrow> serverConfig \<Rightarrow> 'srv sseServer option \<Rightarrow> ('hd, 'sh, 'x, 'p) httpServer
    \<Rightarrow> ('hd, 'sh, 'x, 'p) httpServer" where
  "mountSse env c sse srv = (case sse of
      None \<Rightarrow> srv
    | Some v \<Rightarrow> (case sv_server v of
        None \<Rightarrow> srv
      | Some s \<Rightarrow>
          if \<not> sv_inProcess v then srv
          else (let ssePath = (if sg_ssePath c \<noteq> [] then sg_ssePath c else ''/events'')
            in addRoutes [Handle ssePath (SseHandler (he_sseHandler env s))] srv)))"

definition mountAllRoutes ::
  "('m, 'srv, 'hd, 'sh) httpEnv \<Rightarrow> serverConfig \<Rightarrow> httpPart \<Rightarrow> ('g, ('hd, 'sh, 'x, 'p) httpServer, 'mm) hostModule option list
    \<Rightarrow> 'm mcpServer option \<Rightarrow> 'srv sseServer option \<Rightarrow> ('hd, 'sh, 'x, 'p) httpServer
    \<Rightarrow> (serverErr, ('hd, 'sh, 'x, 'p) httpServer) result" where
  "mountAllRoutes env c h modules mcp sse srv =
     (let ossRootDirectory = (if sg_ossRootDirectory c \<noteq> [] then sg_ossRootDirectory c else defaultOssRootDirectory);
          srv = (if sg_ossType c = [] \<or> sg_ossType c = he_localStorage env then registerDataStaticRoute ossRootDirectory srv else srv);
          staticRootDirectory = (if hx_staticRootDirectory h \<noteq> [] then hx_staticRootDirectory h else defaultStaticRootDirectory);
          srv = registerLocalSPARoutes (he_fs env) staticRootDirectory srv;
          srv = Resources.RegisterHTTP modules srv
      in bindR (mountMcp env c mcp srv) (\<lambda>srv.
           let srv = mountSse env c sse srv in
           if hx_enableSwagger h then
             (case OpenApiRegistry.RegisterHTTP (he_parseTag env) (mountDocument env) (he_registry env)
                ''/api/docs/openapi'' ''/api/docs/swagger'' srv of
                Inl e \<Rightarrow> Inl (OpenApiFailed e) | Inr srv \<Rightarrow> Inr srv)
           else Inr srv))"

text \<open>The server or an error, and whether a server that had been created was stopped.\<close>

definition NewHTTPServer ::
  "('m, 'srv, 'hd, 'sh) httpEnv \<Rightarrow> (string, ('hd, 'sh, 'x, 'p) httpServer) result \<Rightarrow> serverConfig option
    \<Rightarrow> ('g, ('hd, 'sh, 'x, 'p) httpServer, 'mm) hostModule option list
    \<Rightarrow> 'm mcpServer option \<Rightarrow> 'srv sseServer option \<Rightarrow> 'p \<Rightarrow> (serverErr, ('hd, 'sh, 'x, 'p) httpServer option) result \<times> bool" where
  "NewHTTPServer env create cfg modules mcp sse policy =
     (let http = (case cfg of None \<Rightarrow> None | Some c \<Rightarrow> sg_http c) in
      case validateInProcessHTTPHost (http \<noteq> None) mcp sse of
        Some e \<Rightarrow> (Inl e, False)
      | None \<Rightarrow> (case http of
          None \<Rightarrow> (Inr None, False)
        | Some h \<Rightarrow> (case create of
            Inl e \<Rightarrow> (Inl (HttpFailed e), False)
          | Inr srv \<Rightarrow> (case mountAllRoutes env (the cfg) h modules mcp sse (srv\<lparr>hs_policy := Some policy\<rparr>) of
              Inl e \<Rightarrow> (Inl e, True)
            | Inr srv \<Rightarrow> (Inr (Some srv), False)))))"

section \<open>The application\<close>

datatype ('h, 'g, 'm, 'srv, 'q, 'j) appServer =
  HttpServer 'h | GrpcServer 'g | McpServer "'m mcpServer" | SseServer "'srv sseServer" | QueueServer 'q | JobServer 'j

text \<open>The servers the application starts and stops, in their order.\<close>

definition NewApp ::
  "'h option \<Rightarrow> 'g option \<Rightarrow> 'm mcpServer option \<Rightarrow> 'srv sseServer option \<Rightarrow> 'q option \<Rightarrow> 'j option
    \<Rightarrow> ('h, 'g, 'm, 'srv, 'q, 'j) appServer list" where
  "NewApp http grpc mcp sse queue job =
     (case http of None \<Rightarrow> [] | Some h \<Rightarrow> [HttpServer h])
   @ (case grpc of None \<Rightarrow> [] | Some g \<Rightarrow> [GrpcServer g])
   @ (case mcp of None \<Rightarrow> [] | Some v \<Rightarrow> if ms_server v \<noteq> None \<and> \<not> ms_inProcess v then [McpServer v] else [])
   @ (case sse of None \<Rightarrow> [] | Some v \<Rightarrow> if sv_server v \<noteq> None \<and> \<not> sv_inProcess v then [SseServer v] else [])
   @ (case queue of None \<Rightarrow> [] | Some q \<Rightarrow> [QueueServer q])
   @ (case job of None \<Rightarrow> [] | Some j \<Rightarrow> [JobServer j])"

section \<open>Every transport is served once\<close>

fun handlerOf :: "('hd, 'sh, 'x) httpRoute \<Rightarrow> ('hd, 'sh, 'x) httpHandler" where
  "handlerOf (Handle path handler) = handler"
| "handlerOf (HandlePrefix path handler) = handler"

definition isMcp :: "('hd, 'sh, 'x) httpRoute \<Rightarrow> bool" where
  "isMcp r \<longleftrightarrow> (case handlerOf r of McpHandler _ \<Rightarrow> True | _ \<Rightarrow> False)"

definition isSse :: "('hd, 'sh, 'x) httpRoute \<Rightarrow> bool" where
  "isSse r \<longleftrightarrow> (case handlerOf r of SseHandler _ \<Rightarrow> True | _ \<Rightarrow> False)"

text \<open>A change of the server that mounts no transport.\<close>

definition plain :: "('hd, 'sh, 'x, 'p) httpServer \<Rightarrow> ('hd, 'sh, 'x, 'p) httpServer \<Rightarrow> bool" where
  "plain srv srv' \<longleftrightarrow> hs_policy srv' = hs_policy srv \<and> filter isMcp (hs_routes srv') = filter isMcp (hs_routes srv)
     \<and> filter isSse (hs_routes srv') = filter isSse (hs_routes srv)"

lemma plain_refl [simp]: "plain srv srv"
  by (simp add: plain_def)

lemma plain_trans [trans]: "plain a b \<Longrightarrow> plain b c \<Longrightarrow> plain a c"
  by (simp add: plain_def)

lemma plain_addRoutes: "\<forall>r \<in> set rs. \<not> isMcp r \<and> \<not> isSse r \<Longrightarrow> plain srv (addRoutes rs srv)"
  by (simp add: plain_def addRoutes_def)

lemma plain_data: "plain srv (registerDataStaticRoute dir srv)"
  unfolding registerDataStaticRoute_def by (rule plain_addRoutes) (simp add: isMcp_def isSse_def)

lemma plain_spa: "plain srv (registerLocalSPARoutes fs dir srv)"
proof (cases "hf_readDir fs dir")
  case (Inr entries)
  have "plain srv (addRoutes (concat (map (spaRoutes fs dir) entries)) srv)"
    by (rule plain_addRoutes) (auto simp: spaRoutes_def Let_def isMcp_def isSse_def split: if_splits)
  then show ?thesis using Inr by (simp add: registerLocalSPARoutes_def)
qed (simp add: registerLocalSPARoutes_def)

lemma plain_modules:
  assumes "\<forall>m srv. Some m \<in> set modules \<longrightarrow> plain srv (hm_registerHTTP m srv)"
  shows "plain srv (Resources.RegisterHTTP modules srv)"
  using assms unfolding Resources.RegisterHTTP_def onModules_def
proof (induction modules arbitrary: srv)
  case (Cons m ms)
  have "plain srv (case m of None \<Rightarrow> srv | Some x \<Rightarrow> hm_registerHTTP x srv)"
    using Cons.prems by (cases m) auto
  also have "plain \<dots> (fold (\<lambda>m s. case m of None \<Rightarrow> s | Some x \<Rightarrow> hm_registerHTTP x s) ms \<dots>)"
    using Cons by auto
  finally show ?case by simp
qed simp

lemma plain_documents: "mountAll (mountDocument env) rs srv = Inr srv' \<Longrightarrow> plain srv srv'"
proof (induction rs arbitrary: srv)
  case (Cons x xs)
  then obtain s where s: "mountDocument env x srv = Inr s" "mountAll (mountDocument env) xs s = Inr srv'"
    by (auto split: sum.splits)
  then have "plain srv s"
    by (auto simp: mountDocument_def isMcp_def isSse_def intro!: plain_addRoutes split: sum.splits)
  also have "plain s srv'" using Cons.IH s(2) .
  finally show ?case .
qed simp

text \<open>How often a transport is mounted on the HTTP server and started by the application.\<close>

definition servedBy :: "'a option \<Rightarrow> bool \<Rightarrow> nat \<times> nat" where
  "servedBy server inProcess = (case server of None \<Rightarrow> (0, 0) | Some _ \<Rightarrow> if inProcess then (1, 0) else (0, 1))"

definition mcpServed :: "'m mcpServer option \<Rightarrow> nat \<times> nat" where
  "mcpServed mcp = (case mcp of None \<Rightarrow> (0, 0) | Some v \<Rightarrow> servedBy (ms_server v) (ms_inProcess v))"

definition sseServed :: "'srv sseServer option \<Rightarrow> nat \<times> nat" where
  "sseServed sse = (case sse of None \<Rightarrow> (0, 0) | Some v \<Rightarrow> servedBy (sv_server v) (sv_inProcess v))"

fun isMcpApp :: "('h, 'g, 'm, 'srv, 'q, 'j) appServer \<Rightarrow> bool" where
  "isMcpApp (McpServer v) = True"
| "isMcpApp _ = False"

fun isSseApp :: "('h, 'g, 'm, 'srv, 'q, 'j) appServer \<Rightarrow> bool" where
  "isSseApp (SseServer v) = True"
| "isSseApp _ = False"

lemma NewApp_started:
  "length (filter isMcpApp (NewApp http grpc mcp sse queue job)) = snd (mcpServed mcp)"
  "length (filter isSseApp (NewApp http grpc mcp sse queue job)) = snd (sseServed sse)"
  by (auto simp: NewApp_def mcpServed_def sseServed_def servedBy_def split: option.splits)

lemma mountMcp_served:
  assumes "mountMcp env c mcp srv = Inr srv'" "filter isMcp (hs_routes srv) = []"
  shows "hs_policy srv' = hs_policy srv \<and> length (filter isMcp (hs_routes srv')) = fst (mcpServed mcp)
    \<and> filter isSse (hs_routes srv') = filter isSse (hs_routes srv)"
  using assms
  by (auto simp: mountMcp_def mcpServed_def servedBy_def addRoutes_def isMcp_def isSse_def split: option.splits if_splits sum.splits)

lemma mountSse_served:
  assumes "filter isSse (hs_routes srv) = []"
  shows "hs_policy (mountSse env c sse srv) = hs_policy srv
    \<and> filter isMcp (hs_routes (mountSse env c sse srv)) = filter isMcp (hs_routes srv)
    \<and> length (filter isSse (hs_routes (mountSse env c sse srv))) = fst (sseServed sse)"
  using assms
  by (auto simp: mountSse_def sseServed_def servedBy_def addRoutes_def isMcp_def isSse_def Let_def split: option.splits)

lemma mountAllRoutes_served:
  assumes "mountAllRoutes env c h modules mcp sse srv = Inr srv'"
    and "\<forall>m srv. Some m \<in> set modules \<longrightarrow> plain srv (hm_registerHTTP m srv)"
    and "filter isMcp (hs_routes srv) = []" "filter isSse (hs_routes srv) = []"
  shows "hs_policy srv' = hs_policy srv \<and> length (filter isMcp (hs_routes srv')) = fst (mcpServed mcp)
    \<and> length (filter isSse (hs_routes srv')) = fst (sseServed sse)"
proof -
  define s1 where "s1 = (if sg_ossType c = [] \<or> sg_ossType c = he_localStorage env
      then registerDataStaticRoute (if sg_ossRootDirectory c \<noteq> [] then sg_ossRootDirectory c else defaultOssRootDirectory) srv else srv)"
  define s2 where "s2 = registerLocalSPARoutes (he_fs env)
      (if hx_staticRootDirectory h \<noteq> [] then hx_staticRootDirectory h else defaultStaticRootDirectory) s1"
  define s3 where "s3 = Resources.RegisterHTTP modules s2"
  have "plain srv s1" by (simp add: s1_def plain_data)
  also have "plain s1 s2" by (simp add: s2_def plain_spa)
  also have "plain s2 s3" unfolding s3_def using assms(2) by (rule plain_modules)
  finally have p: "plain srv s3" .
  have whole: "bindR (mountMcp env c mcp s3) (\<lambda>srv. if hx_enableSwagger h then
      (case OpenApiRegistry.RegisterHTTP (he_parseTag env) (mountDocument env) (he_registry env)
          ''/api/docs/openapi'' ''/api/docs/swagger'' (mountSse env c sse srv) of Inl e \<Rightarrow> Inl (OpenApiFailed e) | Inr srv \<Rightarrow> Inr srv)
      else Inr (mountSse env c sse srv)) = Inr srv'"
    using assms(1) by (simp add: mountAllRoutes_def Let_def s1_def s2_def s3_def)
  then obtain s4 where s4: "mountMcp env c mcp s3 = Inr s4" by (cases "mountMcp env c mcp s3") auto
  have "plain (mountSse env c sse s4) srv'"
    using whole s4 by (auto simp: OpenApiRegistry.RegisterHTTP_def intro: plain_documents split: if_splits sum.splits)
  then show ?thesis
    using mountMcp_served [OF s4] mountSse_served [of s4 env c sse] p assms(3,4) by (auto simp: plain_def)
qed

text \<open>C13.
  Every transport is served exactly once.  When the HTTP server could be built, or is not configured,
  the MCP server and the SSE server that exist are each either mounted on the HTTP server or started by
  the application, by their mode, and never both or twice; the HTTP server that was created is handed
  over running, with the policy resolver for all its requests.  A transport that is not there appears
  nowhere, and one in process without an HTTP server to host it makes the construction fail.\<close>
theorem transports_served_once:
  fixes http :: "('hd, 'sh, 'x, 'p) httpServer option"
  assumes "NewHTTPServer env create cfg modules mcp sse policy = (Inr http, stopped)"
    and "\<forall>srv. create = Inr srv \<longrightarrow> filter isMcp (hs_routes srv) = [] \<and> filter isSse (hs_routes srv) = []"
    and "\<forall>m srv. Some m \<in> set modules \<longrightarrow> plain srv (hm_registerHTTP m srv)"
    and "mounted = (\<lambda>P. case http of None \<Rightarrow> 0 | Some srv \<Rightarrow> length (filter P (hs_routes srv)))"
    and "started = (\<lambda>P. length (filter P (NewApp http grpc mcp sse queue job)))"
  shows "(mounted isMcp, started isMcpApp) = mcpServed mcp \<and> (mounted isSse, started isSseApp) = sseServed sse
    \<and> \<not> stopped \<and> (\<forall>srv. http = Some srv \<longrightarrow> hs_policy srv = Some policy)"
proof (cases "case cfg of None \<Rightarrow> None | Some c \<Rightarrow> sg_http c")
  case None
  then have "validateInProcessHTTPHost False mcp sse = None" "http = None" "\<not> stopped"
    using assms(1) by (auto simp: NewHTTPServer_def Let_def split: option.splits)
  moreover have "fst (mcpServed mcp) = 0" "fst (sseServed sse) = 0"
    using calculation(1) by (auto simp: validateInProcessHTTPHost_def mcpServed_def sseServed_def servedBy_def split: option.splits if_splits)
  ultimately show ?thesis by (simp add: assms(4,5) NewApp_started prod_eq_iff)
next
  case (Some h)
  then obtain s srv where s: "create = Inr s" "mountAllRoutes env (the cfg) h modules mcp sse (s\<lparr>hs_policy := Some policy\<rparr>) = Inr srv"
      and r: "http = Some srv" "\<not> stopped"
    using assms(1) by (auto simp: NewHTTPServer_def Let_def validateInProcessHTTPHost_def split: option.splits sum.splits)
  have "filter isMcp (hs_routes s) = [] \<and> filter isSse (hs_routes s) = []" using assms(2) s(1) by blast
  then have "hs_policy srv = Some policy \<and> length (filter isMcp (hs_routes srv)) = fst (mcpServed mcp)
      \<and> length (filter isSse (hs_routes srv)) = fst (sseServed sse)"
    using mountAllRoutes_served [OF s(2) assms(3)] by simp
  then show ?thesis using r by (simp add: assms(4,5) NewApp_started prod_eq_iff)
qed

definition exampleFS :: hostFS where
  "exampleFS = \<lparr>hf_readDir = (\<lambda>_. Inr [(''admin'', True), (''x.txt'', False)]), hf_join = (\<lambda>a b. a @ ''/'' @ b), hf_stat = (\<lambda>_. True)\<rparr>"

definition exampleHttpEnv :: "(unit, unit, nat, nat) httpEnv" where
  "exampleHttpEnv = \<lparr>he_mcpHandler = (\<lambda>_. Inr 1), he_sseHandler = (\<lambda>_. 2), he_documentPath = (\<lambda>_. Inl ''none''),
     he_defaultMcpPath = ''/mcp'', he_localStorage = ''local'', he_parseTag = (\<lambda>_. None), he_registry = emptyOpenapi, he_fs = exampleFS\<rparr>"

definition exampleServerConfig :: serverConfig where
  "exampleServerConfig = \<lparr>sg_http = Some \<lparr>hx_enableSwagger = False, hx_staticRootDirectory = []\<rparr>, sg_grpc = False,
     sg_mcp = Some (True, []), sg_ssePath = [], sg_ossRootDirectory = [], sg_ossType = []\<rparr>"

theorem transports_served_once_witness:
  "\<exists>srv. NewHTTPServer exampleHttpEnv (Inr \<lparr>hs_routes = [], hs_policy = None\<rparr>) (Some exampleServerConfig)
       ([None] :: (unit, (nat, nat, unit, string) httpServer, unit) hostModule option list)
       (Some \<lparr>ms_server = Some (), ms_inProcess = True\<rparr>) (Some \<lparr>sv_server = Some (), sv_inProcess = False\<rparr>) ''policy'' = (Inr (Some srv), False)
     \<and> length (filter isMcp (hs_routes srv)) = 1 \<and> filter isSse (hs_routes srv) = []
     \<and> length (filter isSseApp (NewApp (Some srv) (None :: unit option) (Some \<lparr>ms_server = Some (), ms_inProcess = True\<rparr>)
          (Some \<lparr>sv_server = Some (), sv_inProcess = False\<rparr>) (None :: unit option) (None :: unit option))) = 1
     \<and> length (hs_routes srv) = 4"
proof -
  define srv :: "(nat, nat, unit, string) httpServer" where
    "srv = \<lparr>hs_routes = [HandlePrefix ''/data/'' (DataFiles ''./data''), Handle ''/admin'' (SpaFiles ''./web/admin'' ''/admin''),
       HandlePrefix ''/admin/'' (SpaFiles ''./web/admin'' ''/admin''), Handle ''/mcp'' (McpHandler 1)], hs_policy = Some ''policy''\<rparr>"
  have run: "NewHTTPServer exampleHttpEnv (Inr \<lparr>hs_routes = [], hs_policy = None\<rparr>) (Some exampleServerConfig)
       ([None] :: (unit, (nat, nat, unit, string) httpServer, unit) hostModule option list)
       (Some \<lparr>ms_server = Some (), ms_inProcess = True\<rparr>) (Some \<lparr>sv_server = Some (), sv_inProcess = False\<rparr>) ''policy'' = (Inr (Some srv), False)"
    by (simp add: srv_def NewHTTPServer_def validateInProcessHTTPHost_def exampleServerConfig_def mountAllRoutes_def Let_def
        exampleHttpEnv_def registerDataStaticRoute_def registerLocalSPARoutes_def exampleFS_def spaRoutes_def addRoutes_def
        defaultOssRootDirectory_def defaultStaticRootDirectory_def Resources.RegisterHTTP_def onModules_def mountMcp_def mountSse_def)
  have "length (filter isMcp (hs_routes srv)) = 1" "length (filter isSse (hs_routes srv)) = 0"
    "length (filter isSseApp (NewApp (Some srv) (None :: unit option) (Some \<lparr>ms_server = Some (), ms_inProcess = True\<rparr>)
          (Some \<lparr>sv_server = Some (), sv_inProcess = False\<rparr>) (None :: unit option) (None :: unit option))) = 1"
    using transports_served_once [OF run _ _ refl refl, where grpc = "None :: unit option" and queue = "None :: unit option" and job = "None :: unit option"]
    by (simp_all add: mcpServed_def sseServed_def servedBy_def)
  then show ?thesis using run by (auto simp: srv_def)
qed

section \<open>Who may read the documents\<close>

text \<open>With an authenticator and a token store the documents are shown exactly to a bearer token of two
  words that verifies and, unless its user is the internal one, is still valid; without them to everyone.\<close>

lemma documents_authorized:
  "newOpenAPIAuthorizer bearer (Some authenticate) (Some tokenValid) authorization \<longleftrightarrow>
     (\<exists>word token cl userID. str_fields authorization = [word, token] \<and> equal_fold word bearer
        \<and> authenticate token = Inr cl \<and> cl_userID cl = Inr userID \<and> (userID = 0 \<or> tokenValid userID token))"
proof (cases "length (str_fields authorization) = 2")
  case True
  then obtain word token where "str_fields authorization = [word, token]"
    by (auto simp: numeral_2_eq_2 length_Suc_conv)
  then show ?thesis by (auto simp: newOpenAPIAuthorizer_def Let_def split: sum.splits)
qed (auto simp: newOpenAPIAuthorizer_def Let_def)

end
