(* ===== verification/AuditTrail.thy ===== *)
theory AuditTrail
  imports LogPipeline
begin

text \<open>
  The way of an audit event through \<open>biz/base_log.go\<close>, from \<open>Emit\<close> to the table of its kind: the buffer
  and its worker, the queue that gives every body a message id, and \<open>Consume\<close> on the other side.
\<close>

section \<open>Sinks\<close>



section \<open>Delivery\<close>



section \<open>Nothing is lost on the way\<close>















end
