(* ===== verification/BizAuth.thy ===== *)
theory BizAuth
  imports Errors
begin

text \<open>
  Model of \<open>biz/auth.go\<close> and \<open>biz/base_case.go\<close>: the authenticator, the token store and the base case
  of the business modules.  The key of the runtime, the JWT library, the caches and the profiler are
  parameters.
\<close>

section \<open>Authentication\<close>

record jwtSettings =
  jw_secret :: string
  jw_method :: string
  jw_accessExpires :: int
  jw_refreshExpires :: int

datatype bizErr = RuntimeKeyMissing | DeriveKeyFailed string | JwtFailed string

definition jwtKeyName :: string where "jwtKeyName = ''kratos-kit:authn/jwt''"

text \<open>\<open>runtimeKey\<close> is the \<open>Derive\<close> of the key of the runtime, if there is one.\<close>

definition NewAuthenticator ::
  "(string \<Rightarrow> (string, string) result) option \<Rightarrow> (string \<Rightarrow> string \<Rightarrow> (string, 'a) result) \<Rightarrow> jwtSettings option
    \<Rightarrow> (bizErr, 'a option) result" where
  "NewAuthenticator runtimeKey newJWT cfg = (case cfg of
      None \<Rightarrow> Inr None
    | Some c \<Rightarrow>
        bindR (if jw_secret c = [] then
             (case runtimeKey of
                None \<Rightarrow> Inl RuntimeKeyMissing
              | Some derive \<Rightarrow> (case derive jwtKeyName of Inl e \<Rightarrow> Inl (DeriveKeyFailed e) | Inr derived \<Rightarrow> Inr derived))
           else Inr (jw_secret c)) (\<lambda>secret.
        case newJWT secret (jw_method c) of Inl e \<Rightarrow> Inl (JwtFailed e) | Inr authenticator \<Rightarrow> Inr (Some authenticator)))"

text \<open>The casbin engine is created without any choice.\<close>

definition NewAuthzEngine :: "(string, 'e) result \<Rightarrow> (string, 'e) result" where
  "NewAuthzEngine create = create"

definition USER_ACCESS_TOKEN_KEY_PREFIX :: string where "USER_ACCESS_TOKEN_KEY_PREFIX = ''uat_''"
definition USER_REFRESH_TOKEN_KEY_PREFIX :: string where "USER_REFRESH_TOKEN_KEY_PREFIX = ''urt_''"

definition NewUserToken ::
  "('c \<Rightarrow> 'a \<Rightarrow> string \<Rightarrow> string \<Rightarrow> int \<Rightarrow> int \<Rightarrow> 't) \<Rightarrow> jwtSettings option \<Rightarrow> 'c option \<Rightarrow> 'a option \<Rightarrow> 't option" where
  "NewUserToken create cfg cache authenticator = (case (cfg, cache, authenticator) of
      (Some c, Some ch, Some a) \<Rightarrow> Some (create ch a USER_ACCESS_TOKEN_KEY_PREFIX USER_REFRESH_TOKEN_KEY_PREFIX
         (jw_accessExpires c) (jw_refreshExpires c))
    | _ \<Rightarrow> None)"

section \<open>The base case\<close>

text \<open>The five objects that the base case holds and that the runtime of the SDK receives; the profiler
  is started with it and stopped by its cleanup.\<close>

record ('c, 'q, 'o, 't, 'g) baseObjects =
  bo_cache :: 'c
  bo_queue :: 'q
  bo_oss :: 'o
  bo_translator :: 't
  bo_gormClients :: 'g

record ('c, 'q, 'o, 't, 'g) processState =
  pr_runtime :: "('c, 'q, 'o, 't, 'g) baseObjects option"
  pr_profiling :: bool

definition NewBaseCase ::
  "bool \<Rightarrow> 'c \<Rightarrow> 'q \<Rightarrow> 'o \<Rightarrow> 't \<Rightarrow> 'g \<Rightarrow> ('c, 'q, 'o, 't, 'g) processState
    \<Rightarrow> ('c, 'q, 'o, 't, 'g) baseObjects \<times> ('c, 'q, 'o, 't, 'g) processState" where
  "NewBaseCase hasPprof cacheValue queueValue ossValue translatorValue gormClients w =
     (let objects = \<lparr>bo_cache = cacheValue, bo_queue = queueValue, bo_oss = ossValue, bo_translator = translatorValue,
            bo_gormClients = gormClients\<rparr>;
          w = w\<lparr>pr_runtime := Some objects\<rparr>;
          w = (if hasPprof then w\<lparr>pr_profiling := True\<rparr> else w)
      in (objects, w))"

definition baseCaseCleanup :: "bool \<Rightarrow> ('c, 'q, 'o, 't, 'g) processState \<Rightarrow> ('c, 'q, 'o, 't, 'g) processState" where
  "baseCaseCleanup hasPprof w = (if hasPprof then w\<lparr>pr_profiling := False\<rparr> else w)"

text \<open>The UTF-8 text of the message for a failed authentication.\<close>

definition authenticationFailed :: string where
  "authenticationFailed = [CHR 0xE7, CHR 0x94, CHR 0xA8, CHR 0xE6, CHR 0x88, CHR 0xB7, CHR 0xE8, CHR 0xAE, CHR 0xA4, CHR 0xE8, CHR 0xAF, CHR 0x81, CHR 0xE5, CHR 0xA4, CHR 0xB1, CHR 0xE8, CHR 0xB4, CHR 0xA5]"

text \<open>\<open>auth.FromContext\<close> gives the identity or an error, which is wrapped.\<close>

definition GetAuthInfo :: "'x errOps \<Rightarrow> ('c \<Rightarrow> ('x, 'i) result) \<Rightarrow> 'c \<Rightarrow> ('x kratosErr option, 'i) result" where
  "GetAuthInfo ops fromContext ctx = (case fromContext ctx of
      Inl err \<Rightarrow> Inl (map_option (\<lambda>e. eo_withCause ops e err) (Unauthenticated ops authenticationFailed))
    | Inr authInfo \<Rightarrow> Inr authInfo)"

lemma GetAuthInfo_unauthenticated:
  assumes "errLaws ops" "fromContext ctx = Inl err"
  shows "\<exists>e. GetAuthInfo ops fromContext ctx = Inl (Some e) \<and> ke_code e = 401 \<and> ke_reason e = ReasonUnauthenticated
    \<and> ke_cause e = Some err"
proof -
  obtain e where "Unauthenticated ops authenticationFailed = Some e" "ke_code e = 401" "ke_reason e = ReasonUnauthenticated"
    using newStructuredError_fields [OF assms(1)] unfolding Unauthenticated_def by blast
  then show ?thesis by (simp add: GetAuthInfo_def assms(2) errLaws_simps [OF assms(1)])
qed

end
