(* ===== verification/KeySharing.thy ===== *)
theory KeySharing
  imports BizAuth ClientConfig
begin

text \<open>
  What the client of one service and the server of another share: the key of the JWT authenticators,
  which \<open>client/middleware.go\<close> and \<open>biz/auth.go\<close> take from their configurations or derive.
\<close>

text \<open>C32.
  A client and a server with the same configuration authenticate with the same key.  If their secrets
  are equal (both missing, say, so that each derives the key from the runtime) and their methods too,
  the chain of the client holds exactly one authenticator, the very one the server verifies with,
  outside of the custom middlewares; and the client can be built exactly when the server's
  authenticator can.\<close>
theorem client_server_share_key:
  assumes "cm_auth c = Some auth" "ca_secret auth = jw_secret cfg" "ca_method auth = jw_method cfg"
    and "client = appendClientMiddlewaresWithMetadata runtimeKey newJWT (Some c) static custom"
  shows "case NewAuthenticator runtimeKey newJWT (Some cfg) of
      Inr (Some a) \<Rightarrow> (\<exists>transports. client = Inr (transports @ AuthClient a # map CustomMiddleware custom)
         \<and> (\<forall>b. AuthClient b \<notin> set transports))
    | Inr None \<Rightarrow> False
    | Inl _ \<Rightarrow> isl client"
proof -
  let ?transports = "[RequestIDClient]
     @ (if cm_enableRecovery c then [Recovery] else []) @ (if cm_enableTracing c then [TracingClient] else [])
     @ (if cm_enableMetadata c then [MetadataClient] else []) @ (if 0 < length static then [StaticMetadata static] else [])
     @ (if cm_enableLogging c then [ClientLogging] else []) @ (if cm_enableCircuitBreaker c then [CircuitBreaker] else [])"
  let ?secret = "if jw_secret cfg = [] then (case runtimeKey of None \<Rightarrow> None
      | Some derive \<Rightarrow> (case derive BizAuth.jwtKeyName of Inl e \<Rightarrow> None | Inr derived \<Rightarrow> Some derived)) else Some (jw_secret cfg)"
  have name: "ClientConfig.jwtKeyName = BizAuth.jwtKeyName"
    by (simp add: ClientConfig.jwtKeyName_def BizAuth.jwtKeyName_def)
  have none: "\<forall>b. AuthClient b \<notin> set ?transports" by auto
  show ?thesis
  proof (cases ?secret)
    case None
    then show ?thesis unfolding assms(4)
      by (auto simp: NewAuthenticator_def appendClientMiddlewaresWithMetadata_def assms(1-3) name Let_def split: option.splits sum.splits if_splits)
  next
    case (Some secret)
    have server: "NewAuthenticator runtimeKey newJWT (Some cfg)
        = (case newJWT secret (jw_method cfg) of Inl e \<Rightarrow> Inl (JwtFailed e) | Inr a \<Rightarrow> Inr (Some a))"
      using Some by (auto simp: NewAuthenticator_def split: option.splits sum.splits if_splits)
    have "client = (case newJWT secret (jw_method cfg) of Inl e \<Rightarrow> Inl (AuthenticatorFailed e)
        | Inr a \<Rightarrow> Inr (?transports @ [AuthClient a] @ map CustomMiddleware custom))"
      using Some unfolding assms(4)
      by (auto simp: appendClientMiddlewaresWithMetadata_def assms(1-3) name Let_def split: option.splits sum.splits if_splits)
    then show ?thesis using none by (cases "newJWT secret (jw_method cfg)") (auto simp: server)
  qed
qed

definition exampleDerive :: "string \<Rightarrow> (string, string) result" where
  "exampleDerive name = Inr (''key of '' @ name)"

theorem client_server_share_key_witness:
  "\<exists>a transports. NewAuthenticator (Some exampleDerive) (\<lambda>secret m. Inr (secret, m))
       (Some \<lparr>jw_secret = [], jw_method = ''HS256'', jw_accessExpires = 1, jw_refreshExpires = 2\<rparr>) = Inr (Some a)
     \<and> appendClientMiddlewaresWithMetadata (Some exampleDerive) (\<lambda>secret m. Inr (secret, m))
       (Some (exampleClientConfig\<lparr>cm_auth := Some \<lparr>ca_secret = [], ca_method = ''HS256''\<rparr>\<rparr>)) [] [()] = Inr (transports @ [AuthClient a, CustomMiddleware ()])"
proof -
  let ?cfg = "\<lparr>jw_secret = [], jw_method = ''HS256'', jw_accessExpires = 1, jw_refreshExpires = 2\<rparr>"
  let ?c = "exampleClientConfig\<lparr>cm_auth := Some \<lparr>ca_secret = [], ca_method = ''HS256''\<rparr>\<rparr>"
  have "NewAuthenticator (Some exampleDerive) (\<lambda>secret m. Inr (secret, m)) (Some ?cfg)
      = Inr (Some (''key of '' @ BizAuth.jwtKeyName, ''HS256''))"
    by (simp add: NewAuthenticator_def exampleDerive_def)
  then show ?thesis
    using client_server_share_key [of ?c "\<lparr>ca_secret = [], ca_method = ''HS256''\<rparr>" ?cfg, OF _ _ _ refl,
      where runtimeKey = "Some exampleDerive" and newJWT = "\<lambda>secret m. Inr (secret, m)" and static = "[]" and custom = "[()]"]
    by auto
qed

end
