(* ===== verification/Spec2Isabelle.thy ===== *)
theory Spec2Isabelle
  imports Prelude JobAssembly Emitter TenantScope SqlComments Migration LogPipeline Scheduler Sse OpenApi Permission Queue Resources Connection ServerChain LocalCall PolicyAudit Servers AuditTrail KeySharing
begin

text \<open>
  A model of kratos-core, a Go library on which services of the Kratos framework are built, and the
  theorems that make it correct.  Paths are relative to the repository.

  \<^bold>\<open>The program.\<close>  \<open>bootstrap.go\<close> assembles an application from servers: HTTP (\<open>server/http.go\<close>), gRPC
  (\<open>server/grpc.go\<close>), MCP (\<open>mcp\<close>), SSE (\<open>sse\<close>), a queue (\<open>queue\<close>) and jobs (\<open>job\<close>).  A request passes a
  chain of middlewares (\<open>server/middleware\<close>): localization, access log, authentication and
  authorization, tenant scope, validation, rate limits.  The access log hands its events to the log
  pipeline (\<open>biz/base_log.go\<close>), which buffers them, appends them to the queue and stores what the
  queue delivers.  At the start the host's modules (\<open>module\<close>) contribute OpenAPI documents, messages
  and migrations (\<open>resource\<close>); the documents become interface records and, with the menus of the
  roles, the rules of the authorization engine.  Services call each other with gRPC clients
  (\<open>client\<close>), over the network or in process (\<open>client/localgrpc\<close>).

  \<^bold>\<open>Conventions.\<close>  A Go string or byte slice is a list of bytes; an int64 or int32 is a \<open>word\<close> where its
  width matters and an \<open>int\<close> where it is only stored and compared; a nil pointer or interface is None; an
  error is the left of a sum, with a datatype per component that keeps the branches apart; a Go map is
  a partial function, or a list of bindings whose order the code does not see.  A loop is a recursive
  function.  A mutex makes a method one step; code whose interleaving matters is an inductive step
  relation.  Whatever is not in the repository (protobuf and gRPC libraries, kratos-kit, gorm, JSON
  and YAML parsers, hash functions, the host's stores) is a parameter.  What a theorem needs of it is
  a named law (\<open>authnLaws\<close>, \<open>storeLaws\<close>, \<open>permLaws\<close>, \<open>jobStoreLaws\<close>, \<open>cronLaws\<close>, \<open>errLaws\<close>, \<open>jsonLaws\<close>,
  \<open>mdLaws\<close>, \<open>compactJson\<close>, and \<open>generatedUnary\<close> for the handlers protoc-gen-go-grpc writes), and a witness shows a concrete function that satisfies it.

  \<^bold>\<open>Foundations.\<close>
  \<^item> \<open>Prelude\<close>: results and their sequencing (\<open>bindR\<close>, \<open>mapR\<close>), the functions of the Go packages
    \<open>strings\<close> and \<open>slices\<close> that the code uses; \<open>GoNum\<close>: decimal text and conversions; \<open>GoPath\<close>: \<open>path\<close>,
    \<open>io/fs\<close> and UTF-8; \<open>Proto\<close>: messages as reflection shows them.
  \<^item> \<open>GoFloat\<close>: the rounding of \<open>float64\<close>, and a duration in seconds as one; what it is off by.
  \<^item> \<open>GoChannel\<close>: buffered channels, with the locale \<open>bounded_fifo\<close>; \<open>KeyedTable\<close>: the locale
    \<open>atomic_registry\<close> of tables that only grow, interpreted for the SSE streams and the OpenAPI documents;
    \<open>Metadata\<close>: gRPC metadata, with the locales \<open>md_lib\<close> and \<open>header_api\<close>.

  \<^bold>\<open>Serving requests.\<close>
  \<^item> \<open>RequestMeta\<close>: what a middleware reads off its context (\<open>server/requestmeta\<close>).
  \<^item> \<open>Auth\<close>: \<open>server/middleware/auth.go\<close>; no call passes without authentic claims, a valid token and a
    decision of the engine (\<open>auth_enforced\<close>).  \<open>PolicyAudit\<close>: the engine as the server uses it, with every
    decision handed to the emitter of the process, and the record it leaves (\<open>policy_decision_recorded\<close>).
  \<^item> \<open>TenantScope\<close>: \<open>tenant.go\<close>; the handler of a caller outside the default tenant sees the request with every
    missing tenant id filled in and none of another tenant (\<open>tenant_scope_sound\<close>), for messages that are plain
    (\<open>plainMsg\<close>); the gaps that remain for the others are \<open>tenant_scope_recursive_gap\<close> (a message type that recurs)
    and \<open>tenant_scope_named_gap\<close> (below a message-typed field named \<open>tenant_id\<close>).
  \<^item> \<open>Validate\<close>, \<open>RateLimit\<close>: \<open>validate.go\<close>, \<open>ratelimit/ratelimit.go\<close>; limits fail closed (\<open>limit_decision\<close>), and
    the Retry-After header is what the \<open>float64\<close> arithmetic of the code makes of the delay (\<open>retrySeconds_bounds\<close>).
  \<^item> \<open>Redact\<close>, \<open>ResponseLog\<close>, \<open>AccessLog\<close>: the directory \<open>logging\<close>; no secret of a JSON body is logged.
  \<^item> \<open>Errors\<close>, \<open>I18n\<close>, \<open>Locales\<close>: \<open>errorsx\<close>, \<open>resource/i18n\<close>, \<open>resource/locale\<close> and \<open>biz/locale.go\<close>; every error
    a client sees is classified and localized, internal texts are hidden.
  \<^item> \<open>ServerChain\<close>: the chain itself.  The middlewares have handlers of different types in their own
    theories; \<open>liftAuth\<close>, \<open>liftTenant\<close> and so on bring them to one type without changing what they do.
    \<open>guards\<close> says that a part of the chain answers itself or admits one call with a property; parts
    compose (\<open>guards_append\<close>) to \<open>chain_secure\<close>.
  \<^item> \<open>Servers\<close>: construction and routes of the servers, and \<open>NewApp\<close>; \<open>Sse\<close>: registry, resolver,
    subscription, publishing and detached contexts; \<open>BizAuth\<close>: \<open>biz/auth.go\<close>, \<open>biz/base_case.go\<close>.

  \<^bold>\<open>Logs, queue and jobs.\<close>
  \<^item> \<open>LogEvents\<close>, \<open>LogPipeline\<close>: the records and the pipeline as a step relation of request handlers, worker
    and shutdown; \<open>Emitter\<close>: the process-wide emitter, several pipelines and late calls (every pipeline
    in a process behaves as one of its own); \<open>AuditTrail\<close>: the way of an event from \<open>Emit\<close> to its table, which only
    a failing encoding or \<open>Append\<close> ends early (\<open>pl_taken\<close> records what the queue took); what the
    queue needs of a consumer of logs is the locale \<open>log_sink\<close>, interpreted for \<open>Consume\<close>.
  \<^item> \<open>Queue\<close>: \<open>queue\<close>, with the way of a message from its encoding to its decoding (that JSON reads back the
    same value is not assumed) and the shared error of its consumer.
  \<^item> \<open>Scheduler\<close>, \<open>JobAssembly\<close>: \<open>job\<close>; starting and stopping are all or nothing for the store and the
    timers, and a task runs only under its lease.  A run of a job is a list of effects with its end, a return or
    a panic (\<open>jobRun\<close>); a deferred call runs after the body and may recover a panic (\<open>withDefer\<close>).  The execution
    lock of \<open>execution_lock.go\<close> is in \<open>Scheduler\<close>, registry and construction are in \<open>JobAssembly\<close>.

  \<^bold>\<open>Resources.\<close>
  \<^item> \<open>Migration\<close>, \<open>SqlComments\<close>: \<open>resource/migration\<close>; \<open>stripSQLComments\<close> refines a line-wise specification.
  \<^item> \<open>OpenApiRegistry\<close>, \<open>OpenApi\<close>: \<open>resource/openapi\<close>; \<open>BaseApi\<close>: \<open>resource/biz/base_api.go\<close>, with the records of a
    document characterised exactly; \<open>Roles\<close>, \<open>Permission\<close>: role codes, the rules and the synchronisation
    inside one transaction (\<open>resource/resource.go\<close>, \<open>casbin_rule.go\<close>, \<open>base_tenant.go\<close>).
  \<^item> \<open>Resources\<close>: \<open>module\<close>, \<open>config\<close> and the database clients of \<open>data/client.go\<close>.

  \<^bold>\<open>Clients.\<close>
  \<^item> \<open>ClientCalls\<close>, \<open>ClientMetrics\<close>, \<open>RequestIds\<close>: the interceptors; \<open>ClientConfig\<close>: how a configuration
    becomes interceptors and middlewares; \<open>Connection\<close>: remote and local connections; \<open>KeySharing\<close>: a client
    and a server with one configuration use one key.
  \<^item> \<open>LocalGrpc\<close>, \<open>LocalStream\<close>, \<open>LocalOpen\<close>: the in-process connection; a stream is a step relation of its four
    parties, its invariants hold under every interleaving (\<open>stream_fifo\<close>), and the header metadata a client has
    seen is final (\<open>header_final\<close>).  \<open>LocalCall\<close>: a unary call end to end, from the client's call options
    through the generated handler, the interceptor and the middlewares to the method and back.

  \<^bold>\<open>Bounds and fuel.\<close>  No function of the model is cut off.  \<open>drain\<close> runs the worker of the pipeline with
  fuel \<open>workLeft\<close>, which every step of the worker decreases, so it is always enough (\<open>closed_drained\<close>).
  Rounding is exact for \<open>float64\<close> numbers that neither overflow nor are
  subnormal, as durations in seconds are.  The buffer holds \<open>logBufferSize\<close> events and the schema expansion stops at \<open>openAPIDocumentMaxDepth\<close>, the
  constants of the code.

  \<^bold>\<open>Not modelled.\<close>  Code generated from protobuf files (\<open>api/gen\<close>) and the provider sets of wire (the files
  \<open>init.go\<close> and \<open>bootstrap.go\<close>'s variable) hold no logic; \<open>const/file.go\<close> and \<open>const/user.go\<close> are constants
  no modelled code reads.  Log output on the console, the clock and elapsed times, data races on
  single words and the garbage of finished goroutines are left out; times are arguments.  The
  identity of Go errors is kept only where \<open>errors.Is\<close> or \<open>errors.As\<close> is asked.
\<close>

end
